(* ===== verification/RCW_Prelude.thy ===== *)
theory RCW_Prelude
  imports Main "HOL-Library.Word" "HOL-Library.Sublist"
begin

text \<open>
  What the components share: the identifiers, the clock, the exceptions a handler can raise,
  the request-scoped database session with its commit and rollback (\<open>get_db\<close> of
  infrastructure/db/session.py), the few SQL statements the repositories are built from, and
  Python's string helpers. Generic facts about them are collected here, so that the component
  theories only reason about their own code.
\<close>

section \<open>Identifiers, time and exceptions\<close>

text \<open>
  A UUID is its 128 bits. An aware \<open>datetime\<close> is an instant: the number of microseconds
  since the epoch in UTC, the resolution Python's \<open>datetime\<close> has; a \<open>timedelta\<close> is a
  difference of instants.
\<close>

type_synonym uuid = "128 word"
type_synonym instant = int

definition minutes :: "int \<Rightarrow> int" where
  "minutes n = n * 60000000"

definition seconds :: "int \<Rightarrow> int" where
  "seconds n = n * 1000000"

definition hours :: "int \<Rightarrow> int" where
  "hours n = n * 3600000000"

definition days :: "int \<Rightarrow> int" where
  "days n = n * 86400000000"

named_theorems time_defs \<open>durations in microseconds\<close>
declare minutes_def [time_defs] seconds_def [time_defs] hours_def [time_defs] days_def [time_defs]

text \<open>
  The exceptions a handler can end with: FastAPI's \<open>HTTPException\<close> with its status code and
  the fixed part of its detail text, the errors SQLAlchemy raises for a violated constraint or
  for a second row where one was expected, and the errors of the Python code itself.
\<close>

datatype exn =
    HTTPException nat string
  | IntegrityError string
  | MultipleResultsFound
  | TypeError
  | ValueError string
  | IndexError
  | KeyError
  | AdapterError string
  | AttributeError string

type_synonym 'a result = "exn + 'a"

fun is_ok :: "'a result \<Rightarrow> bool" where
  "is_ok (Inr _) = True"
| "is_ok (Inl _) = False"

lemma is_okE: "is_ok r \<Longrightarrow> (\<And>x. r = Inr x \<Longrightarrow> P) \<Longrightarrow> P"
  by (cases r) auto

fun status_of :: "'a result \<Rightarrow> nat option" where
  "status_of (Inl (HTTPException c _)) = Some c"
| "status_of _ = None"

section \<open>The request-scoped session\<close>

text \<open>
  \<open>get_db\<close> hands a handler one \<open>AsyncSession\<close>, commits when the handler returns and
  rolls back when it raises. A handler can also commit in between. A session is therefore the
  committed data and the working copy the transaction sees.
\<close>

record 'd session =
  committed :: 'd
  working :: 'd

definition begin_session :: "'d \<Rightarrow> 'd session" where
  "begin_session d = \<lparr>committed = d, working = d\<rparr>"

definition commit :: "'d session \<Rightarrow> 'd session" where
  "commit s = s\<lparr>committed := working s\<rparr>"

definition get_db :: "'d \<Rightarrow> ('d session \<Rightarrow> 'a result \<times> 'd session) \<Rightarrow> 'a result \<times> 'd" where
  "get_db d handler =
     (case handler (begin_session d) of
        (Inr x, s) \<Rightarrow> (Inr x, working s)
      | (Inl e, s) \<Rightarrow> (Inl e, committed s))"

text \<open>A handler that never commits by itself is a function on the data; \<open>lift_db\<close> runs it in a session.\<close>

definition lift_db :: "('d \<Rightarrow> 'a result \<times> 'd) \<Rightarrow> 'd session \<Rightarrow> 'a result \<times> 'd session" where
  "lift_db h s = (case h (working s) of (r, d) \<Rightarrow> (r, s\<lparr>working := d\<rparr>))"

lemma get_db_lift:
  "get_db d (lift_db h) = (case h d of (Inr x, d') \<Rightarrow> (Inr x, d') | (Inl e, _) \<Rightarrow> (Inl e, d))"
  by (auto simp: get_db_def lift_db_def begin_session_def split: prod.splits sum.splits)

text \<open>All or nothing: a request that raises without having committed leaves the data as it was.\<close>

lemma get_db_error_rolls_back:
  "get_db d (lift_db h) = (Inl e, d') \<Longrightarrow> d' = d"
  by (auto simp: get_db_lift split: prod.splits sum.splits)

text \<open>
  A handler that does not commit returns its result and the new data, or an exception.
  \<open>run_request\<close> is \<open>get_db\<close> around it.
\<close>

definition run_request :: "('d \<Rightarrow> ('a \<times> 'd) result) \<Rightarrow> 'd \<Rightarrow> 'a result \<times> 'd" where
  "run_request h d = (case h d of Inl e \<Rightarrow> (Inl e, d) | Inr (x, d') \<Rightarrow> (Inr x, d'))"

text \<open>Whatever the aborted handler had written to its session, \<open>get_db\<close> gives this result.\<close>

lemma get_db_run_request:
  assumes "\<And>d. g d = (case h d of Inl e \<Rightarrow> (Inl e, junk d) | Inr (x, d') \<Rightarrow> (Inr x, d'))"
  shows "get_db d (lift_db g) = run_request h d"
  by (simp add: get_db_lift assms run_request_def split: sum.split prod.split)

text \<open>
  A service that is asked one request after the other: the requests a component accepts, what each
  leaves behind, and a property no request destroys. Each component's theory interprets it on its
  own endpoints; a run is then a list of requests.
\<close>

locale guarded =
  fixes step :: "'op \<Rightarrow> 's \<Rightarrow> 's"
    and allowed :: "'op \<Rightarrow> bool"
    and inv :: "'s \<Rightarrow> bool"
  assumes step_inv: "allowed op \<Longrightarrow> inv s \<Longrightarrow> inv (step op s)"
begin

lemma run_inv: "\<forall>op \<in> set ops. allowed op \<Longrightarrow> inv s \<Longrightarrow> inv (fold step ops s)"
  by (induction ops arbitrary: s) (simp_all add: step_inv)

lemma run_inv_between:
  "\<forall>op \<in> set (xs @ ys). allowed op \<Longrightarrow> inv s \<Longrightarrow> inv (fold step xs s) \<and> inv (fold step ys (fold step xs s))"
  by (simp add: run_inv)

end

section \<open>SQL statements over tables\<close>

text \<open>
  A table is the list of its rows. \<open>UPDATE t SET f WHERE p\<close> rewrites the rows that satisfy
  \<open>p\<close>; \<open>rowcount\<close> is how many there were. \<open>scalar_one_or_none\<close> raises when a query
  that should have at most one row has more.
\<close>

definition update_where :: "('r \<Rightarrow> bool) \<Rightarrow> ('r \<Rightarrow> 'r) \<Rightarrow> 'r list \<Rightarrow> 'r list" where
  "update_where p f rows = map (\<lambda>r. if p r then f r else r) rows"

definition rowcount :: "('r \<Rightarrow> bool) \<Rightarrow> 'r list \<Rightarrow> nat" where
  "rowcount p rows = length (filter p rows)"

definition delete_where :: "('r \<Rightarrow> bool) \<Rightarrow> 'r list \<Rightarrow> 'r list" where
  "delete_where p rows = filter (\<lambda>r. \<not> p r) rows"

fun scalar_one_or_none :: "'r list \<Rightarrow> 'r option result" where
  "scalar_one_or_none [] = Inr None"
| "scalar_one_or_none [r] = Inr (Some r)"
| "scalar_one_or_none (_ # _ # _) = Inl MultipleResultsFound"

definition page_of :: "nat \<Rightarrow> nat \<Rightarrow> 'r list \<Rightarrow> 'r list" where
  "page_of offset limit rows = take limit (drop offset rows)"

lemma set_update_where:
  "r \<in> set (update_where p f rows) \<longleftrightarrow> (\<exists>q \<in> set rows. r = (if p q then f q else q))"
  by (auto simp: update_where_def)

lemma length_update_where [simp]: "length (update_where p f rows) = length rows"
  by (simp add: update_where_def)

lemma update_where_Nil [simp]: "update_where p f [] = []"
  by (simp add: update_where_def)

lemma update_where_Cons [simp]:
  "update_where p f (r # rows) = (if p r then f r else r) # update_where p f rows"
  by (simp add: update_where_def)

lemma update_where_none: "\<forall>r \<in> set rows. \<not> p r \<Longrightarrow> update_where p f rows = rows"
  by (induction rows) auto

text \<open>An update keeps whatever column it does not write; stated for any function of a row.\<close>

lemma map_update_where:
  "(\<And>r. p r \<Longrightarrow> g (f r) = g r) \<Longrightarrow> map g (update_where p f rows) = map g rows"
  by (induction rows) auto

lemma find_update_where_key:
  assumes "\<And>r. key (f r) = key r"
  shows "find (\<lambda>r. key r = k) (update_where (\<lambda>r. key r = k) f rows)
       = map_option f (find (\<lambda>r. key r = k) rows)"
  using assms by (induction rows) auto

lemma find_update_where_other:
  assumes "\<And>r. key (f r) = key r" and "k' \<noteq> k"
  shows "find (\<lambda>r. key r = k') (update_where (\<lambda>r. key r = k) f rows)
       = find (\<lambda>r. key r = k') rows"
  using assms by (induction rows) auto

lemma find_update_where:
  "(\<And>r. p (f r) = p r) \<Longrightarrow> find p (update_where p f rows) = map_option f (find p rows)"
  by (induction rows) auto

lemma find_update_where_disjoint:
  "(\<And>r. p r \<Longrightarrow> \<not> q r \<and> \<not> q (f r)) \<Longrightarrow> find q (update_where p f rows) = find q rows"
  by (induction rows) auto

lemma rowcount_pos: "0 < rowcount p rows \<longleftrightarrow> (\<exists>r \<in> set rows. p r)"
  by (auto simp: rowcount_def filter_empty_conv)

lemma rowcount_zero: "rowcount p rows = 0 \<longleftrightarrow> (\<forall>r \<in> set rows. \<not> p r)"
  by (auto simp: rowcount_def filter_empty_conv)

lemma rowcount_append [simp]: "rowcount p (xs @ ys) = rowcount p xs + rowcount p ys"
  by (simp add: rowcount_def)

lemma rowcount_delete: "rowcount q (delete_where r xs) \<le> rowcount q xs"
  by (induction xs) (auto simp: rowcount_def delete_where_def)

lemma scalar_one_or_none_Some:
  "scalar_one_or_none rows = Inr (Some r) \<Longrightarrow> rows = [r]"
  by (induction rows rule: scalar_one_or_none.induct) auto

lemma scalar_one_or_none_None:
  "scalar_one_or_none rows = Inr None \<longleftrightarrow> rows = []"
  by (induction rows rule: scalar_one_or_none.induct) auto

lemma length_page_of: "length (page_of offset limit rows) \<le> limit"
  by (simp add: page_of_def)

section \<open>Python strings\<close>

text \<open>
  Strings are ASCII text. \<open>str.lower\<close>, \<open>str.upper\<close>, \<open>str.strip\<close> (the ASCII characters
  for which \<open>isspace\<close> holds), \<open>pat in s\<close>, \<open>str.startswith\<close>.
\<close>

definition char_lower :: "char \<Rightarrow> char" where
  "char_lower c = (let n = (of_char c :: nat) in if 65 \<le> n \<and> n \<le> 90 then char_of (n + 32) else c)"

definition char_upper :: "char \<Rightarrow> char" where
  "char_upper c = (let n = (of_char c :: nat) in if 97 \<le> n \<and> n \<le> 122 then char_of (n - 32) else c)"

definition py_lower :: "string \<Rightarrow> string" where
  "py_lower s = map char_lower s"

definition py_upper :: "string \<Rightarrow> string" where
  "py_upper s = map char_upper s"

definition py_isspace :: "char \<Rightarrow> bool" where
  "py_isspace c = (let n = (of_char c :: nat) in (9 \<le> n \<and> n \<le> 13) \<or> (28 \<le> n \<and> n \<le> 32))"

definition py_strip :: "string \<Rightarrow> string" where
  "py_strip s = rev (dropWhile py_isspace (rev (dropWhile py_isspace s)))"

definition starts_with :: "string \<Rightarrow> string \<Rightarrow> bool" where
  "starts_with pat s \<longleftrightarrow> take (length pat) s = pat"

fun contains :: "string \<Rightarrow> string \<Rightarrow> bool" where
  "contains pat [] \<longleftrightarrow> pat = []"
| "contains pat (c # s) \<longleftrightarrow> starts_with pat (c # s) \<or> contains pat s"

lemma starts_with_prefix: "starts_with pat s \<longleftrightarrow> prefix pat s"
  by (metis append_eq_conv_conj prefix_def append_take_drop_id starts_with_def)

lemma contains_sublist: "contains pat s \<longleftrightarrow> sublist pat s"
  by (induction s) (auto simp: starts_with_prefix sublist_Cons_right)

lemma map_filter_cong:
  "(\<And>x. x \<in> set xs \<Longrightarrow> f x = g x) \<Longrightarrow> List.map_filter f xs = List.map_filter g xs"
  by (induction xs) (auto simp: List.map_filter_simps split: option.splits)

end
