(* ===== verification/Binary64.thy ===== *)
theory Binary64
  imports RCW_Prelude
begin

text \<open>
  Prices, durations and commissions are computed as a Python \<open>int\<close> times a \<open>float\<close>
  literal, rounded up by \<open>math.ceil\<close> or towards zero by \<open>int\<close>. A finite non-negative
  binary64 value is \<open>m / 2 ^ k\<close>; the product of an int below \<open>2 ^ 53\<close> (exact as a float)
  and a float is the exact product rounded to 53 significant bits, ties to even. This theory
  defines that rounding and proves the two facts the money arithmetic rests on: a representable
  bound of the exact product is a bound of the rounded one.
\<close>

section \<open>Rounding to 53 significant bits\<close>

datatype float64 = Flt nat nat  \<comment> \<open>\<open>Flt m k\<close> is \<open>m / 2 ^ k\<close>\<close>

text \<open>How many low bits a significand of more than 53 bits has to give up.\<close>

function excess_bits :: "nat \<Rightarrow> nat" where
  "excess_bits p = (if p < 2 ^ 53 then 0 else Suc (excess_bits (p div 2)))"
  by pat_completeness auto
termination
  by (relation "measure id") auto

declare excess_bits.simps [simp del]

definition round_at :: "nat \<Rightarrow> nat \<Rightarrow> nat" where
  "round_at e p =
     (let q = p div 2 ^ e; r = p mod 2 ^ e
      in (if 2 * r > 2 ^ e \<or> (2 * r = 2 ^ e \<and> odd q) then Suc q else q) * 2 ^ e)"

definition round53 :: "nat \<Rightarrow> nat" where
  "round53 p = round_at (excess_bits p) p"

fun flt_mul_int :: "nat \<Rightarrow> float64 \<Rightarrow> float64" where
  "flt_mul_int b (Flt m k) = Flt (round53 (b * m)) k"

fun flt_ceil :: "float64 \<Rightarrow> nat" where
  "flt_ceil (Flt m k) = (m + 2 ^ k - 1) div 2 ^ k"

fun flt_trunc :: "float64 \<Rightarrow> nat" where
  "flt_trunc (Flt m k) = m div 2 ^ k"

section \<open>Rounding stays inside representable bounds\<close>

lemma excess_bits_bound: "p < 2 ^ (53 + excess_bits p)"
proof (induction p rule: excess_bits.induct)
  case (1 p)
  show ?case
  proof (cases "p < 2 ^ 53")
    case True
    then show ?thesis by (simp add: excess_bits.simps [of p])
  next
    case False
    with "1.IH" have "p div 2 < 2 ^ (53 + excess_bits (p div 2))" by simp
    then have "p < 2 * 2 ^ (53 + excess_bits (p div 2))" by linarith
    then have "p < 2 ^ Suc (53 + excess_bits (p div 2))" by (simp only: power_Suc)
    with False show ?thesis by (simp add: excess_bits.simps [of p])
  qed
qed

lemma excess_bits_le: "p < 2 ^ (53 + e) \<Longrightarrow> excess_bits p \<le> e"
proof (induction p arbitrary: e rule: excess_bits.induct)
  case (1 p)
  show ?case
  proof (cases "p < 2 ^ 53")
    case True
    then show ?thesis by (simp add: excess_bits.simps [of p])
  next
    case False
    with "1.prems" obtain e' where e: "e = Suc e'" by (cases e) auto
    with "1.prems" have "p < 2 * 2 ^ (53 + e')" by (simp only: add_Suc_right power_Suc)
    then have "p div 2 < 2 ^ (53 + e')" by linarith
    with False "1.IH" have "excess_bits (p div 2) \<le> e'" by blast
    with False e show ?thesis by (simp add: excess_bits.simps [of p])
  qed
qed

text \<open>If \<open>N\<close> is a multiple of the last place's weight, rounding cannot cross it.\<close>

lemma round_at_le:
  assumes "p \<le> N" and "2 ^ e dvd N"
  shows "round_at e p \<le> N"
proof -
  obtain n where n: "N = 2 ^ e * n" using assms(2) by blast
  show ?thesis
  proof (cases "p div 2 ^ e < n")
    case True
    then have "Suc (p div 2 ^ e) \<le> n" by simp
    then have "Suc (p div 2 ^ e) * 2 ^ e \<le> N" and "(p div 2 ^ e) * 2 ^ e \<le> N"
      using n by (simp_all add: mult.commute [of _ "2 ^ e"] del: mult_Suc mult_Suc_right)
    then show ?thesis by (simp add: round_at_def Let_def)
  next
    case False
    have "p div 2 ^ e \<le> n" using assms(1) n
      by (metis div_le_mono nonzero_mult_div_cancel_left power_not_zero zero_neq_numeral)
    with False have q: "p div 2 ^ e = n" by simp
    have "p = (p div 2 ^ e) * 2 ^ e + p mod 2 ^ e" by (rule div_mult_mod_eq [symmetric])
    with q n assms(1) have "p mod 2 ^ e = 0" by (metis add_le_same_cancel1 le_zero_eq mult.commute)
    with q n show ?thesis by (simp add: round_at_def Let_def mult.commute)
  qed
qed

lemma round_at_ge:
  assumes "N \<le> p" and "2 ^ e dvd N"
  shows "N \<le> round_at e p"
proof -
  obtain n where n: "N = 2 ^ e * n" using assms(2) by blast
  have "n \<le> p div 2 ^ e" using assms(1) n
    by (metis div_le_mono nonzero_mult_div_cancel_left power_not_zero zero_neq_numeral)
  then have "n * 2 ^ e \<le> (p div 2 ^ e) * 2 ^ e" by simp
  also have "\<dots> \<le> round_at e p" by (simp add: round_at_def Let_def)
  finally show ?thesis using n by (simp add: mult.commute)
qed

lemma round53_exact: "p < 2 ^ 53 \<Longrightarrow> round53 p = p"
  by (simp add: round53_def round_at_def excess_bits.simps [of p])

text \<open>
  The working form: \<open>p < 2 ^ (53 + e)\<close> bounds the weight of the last place by \<open>2 ^ e\<close>, so any
  multiple of \<open>2 ^ e\<close> on either side of \<open>p\<close> stays on that side of the rounded value.
\<close>

lemma round53_between:
  assumes "p < 2 ^ (53 + e)" and "lo \<le> p" and "p \<le> hi" and "2 ^ e dvd lo" and "2 ^ e dvd hi"
  shows "lo \<le> round53 p" and "round53 p \<le> hi"
proof -
  have "(2::nat) ^ excess_bits p dvd 2 ^ e"
    using excess_bits_le [OF assms(1)] by (rule le_imp_power_dvd)
  then have "2 ^ excess_bits p dvd lo" and "2 ^ excess_bits p dvd hi"
    using assms(4,5) dvd_trans by blast+
  then show "lo \<le> round53 p" and "round53 p \<le> hi"
    using assms(2,3) by (simp_all add: round53_def round_at_ge round_at_le)
qed

lemma round53_lower:
  assumes "p < 2 ^ (53 + e)" and "lo \<le> p" and "2 ^ e dvd lo"
  shows "lo \<le> round53 p"
proof -
  have "(2::nat) ^ excess_bits p dvd lo"
    using excess_bits_le [OF assms(1)] assms(3) le_imp_power_dvd dvd_trans by blast
  with assms(2) show ?thesis by (simp add: round53_def round_at_ge)
qed

section \<open>The float products the code takes\<close>

text \<open>
  \<open>1.2\<close> and \<open>0.15\<close> have the same significand, slightly below the decimal value; \<open>1.0\<close>,
  \<open>1.5\<close> and \<open>2.0\<close> are exact.
\<close>

definition flt_1_0 :: float64 where "flt_1_0 = Flt 1 0"
definition flt_1_2 :: float64 where "flt_1_2 = Flt 5404319552844595 52"
definition flt_1_5 :: float64 where "flt_1_5 = Flt 3 1"
definition flt_2_0 :: float64 where "flt_2_0 = Flt 2 0"
definition flt_0_15 :: float64 where "flt_0_15 = Flt 5404319552844595 55"

lemma ceil_times_1_0: "b < 2 ^ 31 \<Longrightarrow> flt_ceil (flt_mul_int b flt_1_0) = b"
  by (simp add: flt_1_0_def round53_exact)

lemma ceil_times_2_0: "b < 2 ^ 31 \<Longrightarrow> flt_ceil (flt_mul_int b flt_2_0) = 2 * b"
  by (simp add: flt_2_0_def round53_exact)

lemma ceil_times_1_5: "b < 2 ^ 31 \<Longrightarrow> flt_ceil (flt_mul_int b flt_1_5) = (3 * b + 1) div 2"
  by (simp add: flt_1_5_def round53_exact mult.commute)

text \<open>
  \<open>ceil(b * 1.2)\<close> in binary64 is the exact \<open>ceil(6 b / 5)\<close> for every value of a PostgreSQL
  \<open>INTEGER\<close> column: the product is just below \<open>6 b / 5\<close> and the next eighth below it is
  representable.
\<close>

lemma ceil_times_1_2:
  assumes "b < 2 ^ 31"
  shows "flt_ceil (flt_mul_int b flt_1_2) = (6 * b + 4) div 5"
proof (cases "b = 0")
  case True
  then show ?thesis by (simp add: flt_1_2_def round53_exact)
next
  case False
  define n where "n = (6 * b + 4) div 5"
  have n: "6 * b \<le> 5 * n" "5 * n \<le> 6 * b + 4" "0 < n" using False by (simp_all add: n_def)
  let ?p = "b * 5404319552844595"
  let ?lo = "(8 * n - 7) * 2 ^ 49" and ?hi = "n * 2 ^ 52"
  have p: "?p < 2 ^ (53 + 32)" using assms by simp
  have hi: "?p \<le> ?hi" using n by simp
  have "5 * ?lo \<le> 5 * ?p" using n assms by (simp add: diff_mult_distrib)
  then have lo: "?lo \<le> ?p" by linarith
  have dvd: "(2::nat) ^ 32 dvd ?lo" "(2::nat) ^ 32 dvd ?hi"
    using le_imp_power_dvd [of 32 49 "2::nat"] le_imp_power_dvd [of 32 52 "2::nat"]
    by (simp_all add: dvd_mult)
  have "?lo \<le> round53 ?p" and "round53 ?p \<le> ?hi"
    using round53_between [OF p lo hi dvd] by blast+
  then have "(round53 ?p + 2 ^ 52 - 1) div 2 ^ 52 = n"
    using n by (intro div_nat_eqI) (simp_all add: diff_mult_distrib)
  then show ?thesis by (simp add: flt_1_2_def n_def)
qed

text \<open>
  \<open>int(t * 0.15)\<close> in binary64 is the exact \<open>floor(15 t / 100)\<close>: the relative error of the
  literal is below half a unit in the last place, so a product whose exact value is an integer
  rounds back to it.
\<close>

lemma round_at_near:
  assumes "2 ^ e dvd N" and "d \<le> N" and "2 * d < 2 ^ e"
  shows "N \<le> round_at e (N - d)"
proof (cases "d = 0")
  case True
  then show ?thesis using assms(1) by (simp add: round_at_ge)
next
  case False
  obtain n where n: "N = 2 ^ e * n" using assms(1) by blast
  with False assms(2) obtain n' where n': "n = Suc n'" by (cases n) auto
  have p: "N - d = n' * 2 ^ e + (2 ^ e - d)" using n n' assms(3) by (simp add: mult.commute)
  have r: "2 ^ e - d < (2::nat) ^ e" using False assms(3) by simp
  have "(N - d) div 2 ^ e = n'" and "(N - d) mod 2 ^ e = 2 ^ e - d"
    using p r by simp_all
  moreover have "(2::nat) ^ e < 2 * (2 ^ e - d)" using assms(3) by linarith
  ultimately have "round_at e (N - d) = Suc n' * 2 ^ e" by (simp add: round_at_def Let_def)
  then show ?thesis using n n' by (simp add: mult.commute)
qed

lemma trunc_times_0_15:
  assumes "t < 2 ^ 31"
  shows "flt_trunc (flt_mul_int t flt_0_15) = (3 * t) div 20"
proof -
  define n where "n = (3 * t) div 20"
  have n: "20 * n \<le> 3 * t" "3 * t \<le> 20 * n + 19" by (simp_all add: n_def)
  let ?p = "t * 5404319552844595" and ?N = "n * 2 ^ 55"
  let ?hi = "(32 * n + 31) * 2 ^ 50"
  have p: "?p < 2 ^ (53 + 31)" using assms by simp
  have dvd: "(2::nat) ^ 31 dvd 0" "(2::nat) ^ 31 dvd ?hi" "(2::nat) ^ 31 dvd ?N"
    using le_imp_power_dvd [of 31 50 "2::nat"] le_imp_power_dvd [of 31 55 "2::nat"]
    by (simp_all add: dvd_mult)
  have "20 * ?p \<le> 20 * ?hi" using n by simp
  then have "?p \<le> ?hi" by simp
  from round53_between(2) [OF p _ this dvd(1,2)] have hi: "round53 ?p \<le> ?hi" by simp
  have lo: "?N \<le> round53 ?p"
  proof (cases "3 * t = 20 * n")
    case False
    with n have "20 * n + 1 \<le> 3 * t" by simp
    then have "20 * ?N \<le> 20 * ?p" using assms by simp
    then have "?N \<le> ?p" by simp
    from round53_lower [OF p this dvd(3)] show ?thesis .
  next
    case True
    define e where "e = excess_bits ?p"
    have e: "?p < 2 ^ (53 + e)" by (simp add: e_def excess_bits_bound)
    define d where "d = t div 5"
    have t: "t = 5 * d" using True by (simp add: d_def) presburger
    have Np: "?p = ?N - d" using True t by simp
    have "e \<le> 31" using excess_bits_le [OF p] by (simp add: e_def)
    then have dv: "(2::nat) ^ e dvd ?N" using dvd(3) le_imp_power_dvd [of e 31 "2::nat"] dvd_trans by blast
    have "d * 27021597764222975 < 2 ^ (53 + e)" using e t by (simp add: mult.commute)
    then have "2 * d < 2 ^ e" by (simp add: power_add)
    moreover have "d \<le> ?N" using True t by simp
    ultimately show ?thesis using round_at_near [OF dv] Np by (simp add: round53_def e_def)
  qed
  have "round53 ?p div 2 ^ 55 = n" using lo hi by (intro div_nat_eqI) simp_all
  then show ?thesis by (simp add: flt_0_15_def n_def)
qed

end
