(* ===== verification/Vehicle_Size.thy ===== *)
theory Vehicle_Size
  imports Binary64
begin

text \<open>
  The pricing tiers: \<open>VehicleSize\<close> (domains/vehicles/models.py), the body-class and model-name
  classifiers of infrastructure/nhtsa/client.py and the multipliers of app/db/seed.py, with the
  ceiling every price and duration is computed through.
\<close>

section \<open>Tiers and multipliers\<close>

datatype vehicle_size = SMALL | MEDIUM | LARGE | XL

fun size_value :: "vehicle_size \<Rightarrow> string" where
  "size_value SMALL = ''small''"
| "size_value MEDIUM = ''medium''"
| "size_value LARGE = ''large''"
| "size_value XL = ''xl''"

fun SIZE_MULTIPLIERS :: "vehicle_size \<Rightarrow> float64" where
  "SIZE_MULTIPLIERS SMALL = flt_1_0"
| "SIZE_MULTIPLIERS MEDIUM = flt_1_2"
| "SIZE_MULTIPLIERS LARGE = flt_1_5"
| "SIZE_MULTIPLIERS XL = flt_2_0"

text \<open>\<open>ceil(base * SIZE_MULTIPLIERS[size])\<close>, used for cents and for minutes alike.\<close>

definition ceil_scaled :: "nat \<Rightarrow> vehicle_size \<Rightarrow> nat" where
  "ceil_scaled base sz = flt_ceil (flt_mul_int base (SIZE_MULTIPLIERS sz))"

text \<open>The same in exact arithmetic: the multiplier in tenths.\<close>

fun tenths :: "vehicle_size \<Rightarrow> nat" where
  "tenths SMALL = 10"
| "tenths MEDIUM = 12"
| "tenths LARGE = 15"
| "tenths XL = 20"

definition exact_scaled :: "nat \<Rightarrow> vehicle_size \<Rightarrow> nat" where
  "exact_scaled base sz = (base * tenths sz + 9) div 10"

lemma ceil_scaled_exact:
  assumes "base < 2 ^ 31"
  shows "ceil_scaled base sz = exact_scaled base sz"
proof (cases sz)
  case MEDIUM
  have "(6 * base + 4) div 5 = (base * 12 + 9) div 10" by presburger
  with MEDIUM assms show ?thesis by (simp add: ceil_scaled_def exact_scaled_def ceil_times_1_2)
next
  case LARGE
  have "(3 * base + 1) div 2 = (base * 15 + 9) div 10" by presburger
  with LARGE assms show ?thesis by (simp add: ceil_scaled_def exact_scaled_def ceil_times_1_5)
qed (use assms in \<open>auto simp: ceil_scaled_def exact_scaled_def ceil_times_1_0 ceil_times_2_0\<close>)

lemma ceil_scaled_ge: "base < 2 ^ 31 \<Longrightarrow> base \<le> ceil_scaled base sz"
  by (cases sz) (auto simp: ceil_scaled_exact exact_scaled_def)

lemma ceil_scaled_le: "base < 2 ^ 31 \<Longrightarrow> ceil_scaled base sz \<le> 2 * base"
  by (cases sz) (auto simp: ceil_scaled_exact exact_scaled_def)

instantiation vehicle_size :: linorder
begin

definition less_eq_vehicle_size :: "vehicle_size \<Rightarrow> vehicle_size \<Rightarrow> bool" where
  "less_eq_vehicle_size a b \<longleftrightarrow> tenths a \<le> tenths b"

definition less_vehicle_size :: "vehicle_size \<Rightarrow> vehicle_size \<Rightarrow> bool" where
  "less_vehicle_size a b \<longleftrightarrow> tenths a < tenths b"

instance
proof
  fix a b c :: vehicle_size
  show "a < b \<longleftrightarrow> a \<le> b \<and> \<not> b \<le> a" by (auto simp: less_vehicle_size_def less_eq_vehicle_size_def)
  show "a \<le> a" by (simp add: less_eq_vehicle_size_def)
  show "a \<le> b \<Longrightarrow> b \<le> c \<Longrightarrow> a \<le> c" by (simp add: less_eq_vehicle_size_def)
  show "a \<le> b \<Longrightarrow> b \<le> a \<Longrightarrow> a = b"
    by (cases a; cases b) (simp_all add: less_eq_vehicle_size_def)
  show "a \<le> b \<or> b \<le> a" by (auto simp: less_eq_vehicle_size_def)
qed

end

lemma ceil_scaled_mono:
  "a \<le> b \<Longrightarrow> base < 2 ^ 31 \<Longrightarrow> ceil_scaled base a \<le> ceil_scaled base b"
  by (auto simp: ceil_scaled_exact exact_scaled_def less_eq_vehicle_size_def intro!: div_le_mono)

section \<open>Classifiers\<close>

definition map_body_to_size :: "string option \<Rightarrow> vehicle_size" where
  "map_body_to_size body_class =
     (let bc = py_strip (py_lower (case body_class of None \<Rightarrow> '''' | Some s \<Rightarrow> s))
      in if contains ''pickup'' bc then LARGE
         else if contains ''utility vehicle'' bc \<or> contains ''suv'' bc
              \<or> contains ''crossover'' bc \<or> contains ''cuv'' bc then MEDIUM
         else if contains ''van'' bc \<or> contains ''minivan'' bc then XL
         else SMALL)"

definition MODEL_KEYWORD_TO_SIZE :: "(string list \<times> vehicle_size) list" where
  "MODEL_KEYWORD_TO_SIZE =
    [([''transit'', ''sprinter'', ''pacifica'', ''odyssey'', ''sienna'', ''carnival'', ''promaster''], XL),
     ([''f-150'', ''f150'', ''f-250'', ''f-350'', ''silverado'', ''sierra'', ''ram 1500'', ''tundra'',
       ''tacoma'', ''ranger'', ''colorado'', ''frontier'', ''ridgeline'', ''titan'', ''gladiator'',
       ''suburban'', ''tahoe'', ''yukon'', ''expedition'', ''armada'', ''sequoia'', ''wagoneer''], LARGE),
     ([''pilot'', ''passport'', ''rav4'', ''rav-4'', ''cr-v'', ''crv'', ''highlander'', ''4runner'',
       ''explorer'', ''edge'', ''cherokee'', ''grand cherokee'', ''compass'', ''wrangler'', ''outback'',
       ''ascent'', ''forester'', ''rogue'', ''murano'', ''pathfinder'', ''tucson'', ''santa fe'', ''kona'',
       ''telluride'', ''palisade'', ''sorento'', ''sportage'', ''ev6'', ''rx'', ''nx'', ''ux'', ''x3'',
       ''x5'', ''x7'', ''ix'', ''q5'', ''q7'', ''q8'', ''e-tron'', ''glc'', ''gle'', ''gls'', ''eqe'',
       ''eqs'', ''model y'', ''model x'', ''id.4'', ''id4'', ''mach-e'', ''cx-5'', ''cx-9'', ''cx-30'',
       ''cx-50''], MEDIUM)]"

fun first_keyword_match :: "(string list \<times> vehicle_size) list \<Rightarrow> string \<Rightarrow> vehicle_size option" where
  "first_keyword_match [] needle = None"
| "first_keyword_match ((kws, sz) # rest) needle =
     (if list_ex (\<lambda>kw. contains kw needle) kws then Some sz else first_keyword_match rest needle)"

definition estimate_size_from_make_model :: "string option \<Rightarrow> string option \<Rightarrow> vehicle_size" where
  "estimate_size_from_make_model mk mdl =
     (let needle = py_strip (py_lower (case mdl of None \<Rightarrow> '''' | Some s \<Rightarrow> s))
      in if needle = '''' then SMALL
         else (case first_keyword_match MODEL_KEYWORD_TO_SIZE needle of
                 None \<Rightarrow> SMALL | Some sz \<Rightarrow> sz))"

text \<open>An earlier group wins: what the classifier returns is the tier of the first group that matches.\<close>

lemma first_keyword_match_Some:
  "first_keyword_match tbl s = Some sz \<Longrightarrow>
   \<exists>pre kws post. tbl = pre @ (kws, sz) # post \<and> (\<exists>kw \<in> set kws. contains kw s)
     \<and> (\<forall>(ks, z) \<in> set pre. \<forall>kw \<in> set ks. \<not> contains kw s)"
proof (induction tbl s rule: first_keyword_match.induct)
  case (1 needle)
  then show ?case by simp
next
  case (2 kws z rest needle)
  show ?case
  proof (cases "list_ex (\<lambda>kw. contains kw needle) kws")
    case True
    with 2 show ?thesis
      by (intro exI [of _ "[]"] exI [of _ kws] exI [of _ rest]) (auto simp: list_ex_iff)
  next
    case False
    with 2 obtain pre ks post where
      "rest = pre @ (ks, sz) # post" "\<exists>kw \<in> set ks. contains kw needle"
      "\<forall>(ks, z) \<in> set pre. \<forall>kw \<in> set ks. \<not> contains kw needle" by auto
    with False show ?thesis
      by (intro exI [of _ "(kws, z) # pre"] exI [of _ ks] exI [of _ post]) (auto simp: list_ex_iff)
  qed
qed

end
