(* ===== verification/Appointment_FSM.thy ===== *)
theory Appointment_FSM
  imports RCW_Prelude
begin

text \<open>
  The lifecycle of an appointment: \<open>AppointmentStatus\<close>, \<open>AssignmentStatus\<close>,
  \<open>TERMINAL_STATUSES\<close> and the table \<open>VALID_TRANSITIONS\<close> of
  domains/appointments/models.py, the step relation the table allows, and what can and
  cannot happen along its runs.
\<close>

section \<open>Statuses and the transition table\<close>

datatype appointment_status =
    PENDING | CONFIRMED | ARRIVED | IN_PROGRESS | COMPLETED
  | CANCELLED_BY_CLIENT | CANCELLED_BY_DETAILER | NO_SHOW | SEARCHING | NO_DETAILER_FOUND

datatype assignment_status = OFFERED | ACCEPTED | DECLINED | TIMEOUT

fun status_value :: "appointment_status \<Rightarrow> string" where
  "status_value PENDING = ''pending''"
| "status_value CONFIRMED = ''confirmed''"
| "status_value ARRIVED = ''arrived''"
| "status_value IN_PROGRESS = ''in_progress''"
| "status_value COMPLETED = ''completed''"
| "status_value CANCELLED_BY_CLIENT = ''cancelled_by_client''"
| "status_value CANCELLED_BY_DETAILER = ''cancelled_by_detailer''"
| "status_value NO_SHOW = ''no_show''"
| "status_value SEARCHING = ''searching''"
| "status_value NO_DETAILER_FOUND = ''no_detailer_found''"

definition TERMINAL_STATUSES :: "appointment_status list" where
  "TERMINAL_STATUSES = [CANCELLED_BY_CLIENT, CANCELLED_BY_DETAILER, NO_SHOW, NO_DETAILER_FOUND]"

text \<open>
  \<open>VALID_TRANSITIONS\<close> as the nested association list the source writes; \<open>allowed_from\<close> is
  \<open>VALID_TRANSITIONS.get(current, {})\<close>.
\<close>

definition VALID_TRANSITIONS ::
  "(appointment_status \<times> (appointment_status \<times> string list) list) list" where
  "VALID_TRANSITIONS =
    [(PENDING,
       [(CONFIRMED, [''detailer'', ''admin'']),
        (CANCELLED_BY_CLIENT, [''client'', ''admin'']),
        (CANCELLED_BY_DETAILER, [''detailer'', ''admin''])]),
     (CONFIRMED,
       [(ARRIVED, [''detailer'', ''admin'']),
        (IN_PROGRESS, [''detailer'', ''admin'']),
        (CANCELLED_BY_CLIENT, [''client'', ''admin'']),
        (CANCELLED_BY_DETAILER, [''detailer'', ''admin''])]),
     (ARRIVED,
       [(IN_PROGRESS, [''detailer'', ''admin'']),
        (CANCELLED_BY_CLIENT, [''client'', ''admin'']),
        (CANCELLED_BY_DETAILER, [''detailer'', ''admin''])]),
     (IN_PROGRESS,
       [(COMPLETED, [''detailer'', ''admin'']),
        (NO_SHOW, [''detailer'', ''admin''])]),
     (COMPLETED, []),
     (CANCELLED_BY_CLIENT, []),
     (CANCELLED_BY_DETAILER, []),
     (NO_SHOW, [])]"

definition allowed_from :: "appointment_status \<Rightarrow> (appointment_status \<times> string list) list" where
  "allowed_from s = (case map_of VALID_TRANSITIONS s of None \<Rightarrow> [] | Some m \<Rightarrow> m)"

definition roles_for :: "appointment_status \<Rightarrow> appointment_status \<Rightarrow> string list option" where
  "roles_for s t = map_of (allowed_from s) t"

definition may_transition :: "appointment_status \<Rightarrow> appointment_status \<Rightarrow> bool" where
  "may_transition s t \<longleftrightarrow> roles_for s t \<noteq> None"

definition is_cancellation :: "appointment_status \<Rightarrow> bool" where
  "is_cancellation s \<longleftrightarrow> s = CANCELLED_BY_CLIENT \<or> s = CANCELLED_BY_DETAILER"

lemmas fsm_defs = VALID_TRANSITIONS_def allowed_from_def roles_for_def may_transition_def

text \<open>The table, one row per pair it allows: the form the other theories use.\<close>

lemma may_transition_iff:
  "may_transition s t \<longleftrightarrow>
     (s, t) \<in> {(PENDING, CONFIRMED), (PENDING, CANCELLED_BY_CLIENT), (PENDING, CANCELLED_BY_DETAILER),
       (CONFIRMED, ARRIVED), (CONFIRMED, IN_PROGRESS), (CONFIRMED, CANCELLED_BY_CLIENT),
       (CONFIRMED, CANCELLED_BY_DETAILER), (ARRIVED, IN_PROGRESS), (ARRIVED, CANCELLED_BY_CLIENT),
       (ARRIVED, CANCELLED_BY_DETAILER), (IN_PROGRESS, COMPLETED), (IN_PROGRESS, NO_SHOW)}"
  by (cases s; cases t) (simp_all add: fsm_defs)

lemma roles_for_admin: "roles_for s t = Some rs \<Longrightarrow> ''admin'' \<in> set rs"
  by (cases s; cases t) (auto simp: fsm_defs)

lemma roles_for_client: "roles_for s t = Some rs \<Longrightarrow> ''client'' \<in> set rs \<longleftrightarrow> t = CANCELLED_BY_CLIENT"
  by (cases s; cases t) (auto simp: fsm_defs)

lemma roles_for_detailer:
  "roles_for s t = Some rs \<Longrightarrow> ''detailer'' \<in> set rs \<longleftrightarrow> t \<noteq> CANCELLED_BY_CLIENT"
  by (cases s; cases t) (auto simp: fsm_defs)

section \<open>Runs\<close>

inductive fsm_step :: "appointment_status \<Rightarrow> appointment_status \<Rightarrow> bool" where
  table: "may_transition s t \<Longrightarrow> fsm_step s t"

inductive fsm_run :: "appointment_status \<Rightarrow> appointment_status list \<Rightarrow> bool" where
  stop: "fsm_run s []"
| move: "fsm_step s t \<Longrightarrow> fsm_run t ts \<Longrightarrow> fsm_run s (t # ts)"

inductive_cases fsm_stepE: "fsm_step s t"
inductive_cases fsm_runE: "fsm_run s (t # ts)"
inductive_simps fsm_step_iff: "fsm_step s t"
inductive_simps fsm_run_Nil: "fsm_run s []"
inductive_simps fsm_run_Cons: "fsm_run s (t # ts)"

text \<open>How many steps are left at most; every step of the table lowers it.\<close>

fun steps_left :: "appointment_status \<Rightarrow> nat" where
  "steps_left PENDING = 4"
| "steps_left CONFIRMED = 3"
| "steps_left ARRIVED = 2"
| "steps_left IN_PROGRESS = 1"
| "steps_left _ = 0"

lemma fsm_step_decreases: "fsm_step s t \<Longrightarrow> steps_left t < steps_left s"
  by (auto simp: fsm_step_iff may_transition_iff)

lemma fsm_run_length: "fsm_run s ts \<Longrightarrow> length ts \<le> steps_left s"
  by (induction rule: fsm_run.induct) (auto dest: fsm_step_decreases)

lemma fsm_terminal_stuck: "s \<in> set TERMINAL_STATUSES \<Longrightarrow> \<not> fsm_step s t"
  by (auto simp: TERMINAL_STATUSES_def fsm_step_iff may_transition_iff)

lemma fsm_completed_stuck: "\<not> fsm_step COMPLETED t"
  by (auto simp: fsm_step_iff may_transition_iff)

text \<open>\<open>SEARCHING\<close> has no entry in the table: no call of the endpoint leaves it.\<close>

lemma fsm_searching_stuck: "\<not> fsm_step SEARCHING t"
  by (auto simp: fsm_step_iff may_transition_iff)

lemma fsm_run_from_stuck: "(\<And>t. \<not> fsm_step s t) \<Longrightarrow> fsm_run s ts \<Longrightarrow> ts = []"
  by (cases ts) (auto simp: fsm_run_Cons)

lemma fsm_run_append: "fsm_run s (ts @ us) \<longleftrightarrow> fsm_run s ts \<and> fsm_run (last (s # ts)) us"
  by (induction ts arbitrary: s) (auto simp: fsm_run_Cons fsm_run_Nil)

text \<open>
  A completed job was started and confirmed before: whoever reaches \<open>COMPLETED\<close> from
  \<open>PENDING\<close> went through \<open>CONFIRMED\<close> and \<open>IN_PROGRESS\<close>, and came from nowhere else.
\<close>

lemma fsm_into_completed: "fsm_step s COMPLETED \<longleftrightarrow> s = IN_PROGRESS"
  by (auto simp: fsm_step_iff may_transition_iff)

lemma fsm_not_back_to_pending: "\<not> fsm_step s PENDING"
  by (auto simp: fsm_step_iff may_transition_iff)

lemma fsm_into_confirmed: "fsm_step s CONFIRMED \<longleftrightarrow> s = PENDING"
  by (auto simp: fsm_step_iff may_transition_iff)

lemma fsm_into_arrived: "fsm_step s ARRIVED \<longleftrightarrow> s = CONFIRMED"
  by (auto simp: fsm_step_iff may_transition_iff)

lemma fsm_into_in_progress: "fsm_step s IN_PROGRESS \<longleftrightarrow> s = CONFIRMED \<or> s = ARRIVED"
  by (auto simp: fsm_step_iff may_transition_iff)

lemma fsm_runs_from_in_progress:
  "fsm_run IN_PROGRESS ts \<longleftrightarrow> ts = [] \<or> ts = [COMPLETED] \<or> ts = [NO_SHOW]"
proof (cases ts)
  case Nil
  then show ?thesis by (simp add: fsm_run.stop)
next
  case (Cons t us)
  have "fsm_run IN_PROGRESS (t # us) \<longleftrightarrow> (t = COMPLETED \<or> t = NO_SHOW) \<and> fsm_run t us"
    by (auto simp: fsm_run_Cons fsm_step_iff may_transition_iff)
  moreover have "fsm_run COMPLETED us \<longleftrightarrow> us = []" and "fsm_run NO_SHOW us \<longleftrightarrow> us = []"
    using fsm_run_from_stuck [of COMPLETED us] fsm_run_from_stuck [of NO_SHOW us]
      fsm_terminal_stuck [of NO_SHOW] fsm_completed_stuck
    by (auto simp: TERMINAL_STATUSES_def fsm_run.stop)
  ultimately show ?thesis using Cons by auto
qed

end
