(* ===== verification/Schema.thy ===== *)
theory Schema
  imports Complex_Main Vehicle_Size Appointment_FSM
begin

text \<open>
  The tables the marketplace core works on, as records with the columns the code reads or
  writes, and the database that holds them. Surrogate keys nothing refers to, free text nothing
  computes with and SQLAlchemy relationships are left out; a relationship is a query over the
  tables. Amounts in cents and durations whose column has a \<open>CHECK (... >= 0)\<close> are \<open>nat\<close>.
\<close>

section \<open>Rows\<close>

text \<open>\<open>User\<close> (domains/users/models.py); \<open>role_names\<close> is \<open>[ur.role.name for ur in user_roles]\<close>.\<close>

record user =
  user_id :: uuid
  email :: string
  password_hash :: string
  role_names :: "string list"
  user_active :: bool
  user_verified :: bool
  failed_login_attempts :: nat
  locked_until :: "instant option"
  onboarding_completed :: bool
  token_version :: int
  stripe_customer_id :: "string option"
  last_step_up_at :: "instant option"
  active_role :: "string option"
  user_deleted :: bool

text \<open>
  \<open>ProviderProfile\<close> (domains/providers/models.py) with one day of \<open>working_hours\<close>. The columns the
  signup collects, which only the application is checked for, are grouped; a date is its ordinal.
\<close>

datatype provider_type = DETAILER | MECHANIC

record day_hours =
  day_start :: "string option"
  day_end :: "string option"
  day_enabled :: "bool option"

record signup_form =
  legal_full_name :: "string option"
  date_of_birth :: "int option"
  ssn_last_4 :: "string option"
  home_city_code :: "string option"
  service_radius_miles :: int
  water_tank_gallons :: "int option"
  services_offered :: "string list option"
  background_check_consent :: bool
  verification_submitted_at :: "instant option"

record provider_profile =
  prof_id :: uuid
  prof_user :: uuid
  prof_type :: provider_type
  prof_active :: bool
  working_hours :: "(string \<times> day_hours) list"
  prof_timezone :: string
  average_rating :: "rat option"
  total_reviews :: nat
  current_lat :: "real option"
  current_lng :: "real option"
  response_rate :: rat
  verification_status :: string
  verification_session :: "string option"
  verification_reviewed_at :: "instant option"
  rejection_reason :: "string option"
  application_status :: string
  prof_signup :: signup_form
  prof_deleted :: bool

text \<open>A \<open>ProviderProfile\<close> with the defaults of its columns.\<close>

definition default_hours :: "(string \<times> day_hours) list" where
  "default_hours =
     map (\<lambda>d. (d, \<lparr>day_start = Some ''08:00'', day_end = Some ''18:00'', day_enabled = Some True\<rparr>))
       [''monday'', ''tuesday'', ''wednesday'', ''thursday'', ''friday''] @
     [(''saturday'', \<lparr>day_start = Some ''09:00'', day_end = Some ''16:00'', day_enabled = Some True\<rparr>),
      (''sunday'', \<lparr>day_start = None, day_end = None, day_enabled = Some False\<rparr>)]"

definition blank_signup :: signup_form where
  "blank_signup =
     \<lparr>legal_full_name = None, date_of_birth = None, ssn_last_4 = None, home_city_code = None, service_radius_miles = 25,
      water_tank_gallons = None, services_offered = None, background_check_consent = False, verification_submitted_at = None\<rparr>"

definition new_profile :: "uuid \<Rightarrow> uuid \<Rightarrow> provider_profile" where
  "new_profile pid uid =
     \<lparr>prof_id = pid, prof_user = uid, prof_type = DETAILER, prof_active = True, working_hours = default_hours,
      prof_timezone = ''America/Indiana/Indianapolis'', average_rating = None, total_reviews = 0, current_lat = None,
      current_lng = None, response_rate = 0, verification_status = ''not_submitted'', verification_session = None,
      verification_reviewed_at = None, rejection_reason = None, application_status = ''draft'',
      prof_signup = blank_signup, prof_deleted = False\<rparr>"

text \<open>\<open>Service\<close> and \<open>Addon\<close> (domains/services_catalog/models.py).\<close>

record service =
  svc_id :: uuid
  base_price_cents :: nat
  base_duration_minutes :: nat
  price_small :: nat
  price_medium :: nat
  price_large :: nat
  price_xl :: nat
  svc_active :: bool
  svc_deleted :: bool

record addon =
  addon_id :: uuid
  addon_price :: nat
  addon_duration :: nat
  addon_active :: bool
  addon_deleted :: bool

text \<open>\<open>Vehicle\<close> (domains/vehicles/models.py).\<close>

record vehicle =
  veh_id :: uuid
  veh_owner :: uuid
  body_class :: "string option"
  veh_deleted :: bool

text \<open>\<open>Appointment\<close> and its satellites (domains/appointments/models.py).\<close>

record appointment =
  appt_id :: uuid
  client_id :: uuid
  detailer_id :: "uuid option"
  appt_vehicle :: "uuid option"
  appt_service :: uuid
  scheduled_time :: instant
  estimated_end_time :: "instant option"
  travel_buffer_end_time :: "instant option"
  arrived_at :: "instant option"
  started_at :: "instant option"
  completed_at :: "instant option"
  appt_status :: appointment_status
  estimated_price :: nat
  actual_price :: "int option"
  payment_intent :: "string option"
  detailer_notes :: "string option"
  appt_deleted :: bool

record appointment_vehicle =
  av_appointment :: uuid
  av_vehicle :: uuid
  av_size :: vehicle_size
  av_price :: nat
  av_duration :: nat

record appointment_addon =
  aa_appointment :: uuid
  aa_addon :: uuid
  aa_price :: nat
  aa_duration :: nat

record status_history =
  hist_appointment :: uuid
  old_status :: "appointment_status option"
  new_status :: appointment_status
  hist_actor :: "uuid option"
  hist_reason :: "string option"

record cancellation =
  canc_appointment :: uuid
  cancelled_by :: "uuid option"
  cancelled_by_role :: "string option"
  canc_reason :: "string option"
  refund_amount :: "nat option"
  refund_percent :: "rat option"
  policy_code :: "string option"

record assignment =
  asg_appointment :: uuid
  asg_detailer :: uuid
  asg_status :: assignment_status
  responded_at :: "instant option"
  offer_expires_at :: instant

text \<open>\<open>AuditLog\<close>: the action, the entity, the actor and the integers of its metadata.\<close>

record audit_entry =
  audit_action :: string
  audit_entity :: string
  audit_actor :: "uuid option"
  audit_amounts :: "(string \<times> int) list"

section \<open>The database\<close>

record db =
  users :: "user list"
  profiles :: "provider_profile list"
  services :: "service list"
  addons :: "addon list"
  vehicles :: "vehicle list"
  appointments :: "appointment list"
  appt_vehicles :: "appointment_vehicle list"
  appt_addons :: "appointment_addon list"
  histories :: "status_history list"
  cancellations :: "cancellation list"
  assignments :: "assignment list"
  audits :: "audit_entry list"

definition empty_db :: db where
  "empty_db = \<lparr>users = [], profiles = [], services = [], addons = [], vehicles = [],
     appointments = [], appt_vehicles = [], appt_addons = [], histories = [],
     cancellations = [], assignments = [], audits = []\<rparr>"

text \<open>\<open>AuditRepository.log\<close> appends; it never updates or deletes (domains/audit/repository.py).\<close>

definition audit_log ::
  "string \<Rightarrow> string \<Rightarrow> uuid option \<Rightarrow> (string \<times> int) list \<Rightarrow> db \<Rightarrow> db" where
  "audit_log action entity actor amounts d =
     d\<lparr>audits := audits d @ [\<lparr>audit_action = action, audit_entity = entity,
                             audit_actor = actor, audit_amounts = amounts\<rparr>]\<rparr>"

section \<open>Lookups of users, profiles, catalogue and vehicles\<close>

text \<open>The role predicates of \<open>User\<close>.\<close>

definition has_role :: "user \<Rightarrow> string \<Rightarrow> bool" where
  "has_role u r \<longleftrightarrow> r \<in> set (role_names u)"

definition is_admin :: "user \<Rightarrow> bool" where "is_admin u = has_role u ''admin''"
definition is_client :: "user \<Rightarrow> bool" where "is_client u = has_role u ''client''"
definition is_detailer :: "user \<Rightarrow> bool" where "is_detailer u = has_role u ''detailer''"

definition require_role :: "string list \<Rightarrow> user \<Rightarrow> user result" where
  "require_role names u =
     (if list_ex (has_role u) names then Inr u else Inl (HTTPException 403 ''Requires one of the roles.''))"

definition primary_role :: "user \<Rightarrow> string option" where
  "primary_role u = (case role_names u of [] \<Rightarrow> None | r # _ \<Rightarrow> Some r)"

definition is_locked :: "instant \<Rightarrow> user \<Rightarrow> bool" where
  "is_locked now u = (case locked_until u of None \<Rightarrow> False | Some t \<Rightarrow> now < t)"

lemmas role_defs = has_role_def is_admin_def is_client_def is_detailer_def

text \<open>\<open>UserRepository\<close>: primary keys and e-mail addresses are unique, so a lookup is the first match.\<close>

definition user_by_id :: "db \<Rightarrow> uuid \<Rightarrow> user option" where
  "user_by_id d uid = find (\<lambda>u. user_id u = uid \<and> \<not> user_deleted u) (users d)"

definition user_by_email :: "db \<Rightarrow> string \<Rightarrow> user option" where
  "user_by_email d e = find (\<lambda>u. email u = py_lower e \<and> \<not> user_deleted u) (users d)"

definition get_active_detailer :: "db \<Rightarrow> uuid \<Rightarrow> user option" where
  "get_active_detailer d uid =
     find (\<lambda>u. user_id u = uid \<and> has_role u ''detailer'' \<and> user_active u \<and> \<not> user_deleted u) (users d)"

text \<open>\<open>ProviderRepository.get_profile\<close> and \<open>get_working_hours\<close>, for the default type DETAILER.\<close>

definition get_profile :: "db \<Rightarrow> uuid \<Rightarrow> provider_type \<Rightarrow> provider_profile option" where
  "get_profile d uid ty =
     find (\<lambda>p. prof_user p = uid \<and> prof_type p = ty \<and> \<not> prof_deleted p) (profiles d)"

definition get_working_hours :: "db \<Rightarrow> uuid \<Rightarrow> (string \<times> day_hours) list option" where
  "get_working_hours d uid = map_option working_hours (get_profile d uid DETAILER)"

definition slot_taken :: "db \<Rightarrow> uuid \<Rightarrow> provider_type \<Rightarrow> bool" where
  "slot_taken d uid ty \<longleftrightarrow> (\<exists>p \<in> set (profiles d). prof_user p = uid \<and> prof_type p = ty)"

text \<open>\<open>ServiceRepository\<close>, \<open>AddonRepository\<close>, \<open>VehicleRepository\<close>.\<close>

definition get_service :: "db \<Rightarrow> uuid \<Rightarrow> service option" where
  "get_service d sid = find (\<lambda>s. svc_id s = sid \<and> svc_active s \<and> \<not> svc_deleted s) (services d)"

definition get_vehicle :: "db \<Rightarrow> uuid \<Rightarrow> vehicle option" where
  "get_vehicle d vid = find (\<lambda>v. veh_id v = vid \<and> \<not> veh_deleted v) (vehicles d)"

definition get_addon :: "db \<Rightarrow> uuid \<Rightarrow> addon option" where
  "get_addon d aid = find (\<lambda>a. addon_id a = aid \<and> addon_active a \<and> \<not> addon_deleted a) (addons d)"

definition get_many_addons :: "db \<Rightarrow> uuid list \<Rightarrow> addon list" where
  "get_many_addons d aids = List.map_filter (get_addon d) aids"

lemma get_service_SomeD:
  "get_service d sid = Some s \<Longrightarrow> s \<in> set (services d) \<and> svc_id s = sid \<and> svc_active s \<and> \<not> svc_deleted s"
  by (auto simp: get_service_def find_Some_iff)

lemma get_vehicle_SomeD:
  "get_vehicle d vid = Some v \<Longrightarrow> v \<in> set (vehicles d) \<and> veh_id v = vid \<and> \<not> veh_deleted v"
  by (auto simp: get_vehicle_def find_Some_iff)

lemma get_addon_SomeD:
  "get_addon d aid = Some a \<Longrightarrow> a \<in> set (addons d) \<and> addon_id a = aid \<and> addon_active a \<and> \<not> addon_deleted a"
  by (auto simp: get_addon_def find_Some_iff)

lemma get_active_detailer_SomeD:
  "get_active_detailer d uid = Some u \<Longrightarrow>
     u \<in> set (users d) \<and> user_id u = uid \<and> has_role u ''detailer'' \<and> user_active u \<and> \<not> user_deleted u"
  by (auto simp: get_active_detailer_def find_Some_iff)

lemma set_get_many_addons:
  "a \<in> set (get_many_addons d aids) \<longleftrightarrow> (\<exists>aid \<in> set aids. get_addon d aid = Some a)"
  by (induction aids) (auto simp: get_many_addons_def List.map_filter_def split: option.splits)

text \<open>What an audit entry leaves alone.\<close>

lemma audit_log_simps [simp]:
  "users (audit_log ac en actor am d) = users d"
  "profiles (audit_log ac en actor am d) = profiles d"
  "services (audit_log ac en actor am d) = services d"
  "addons (audit_log ac en actor am d) = addons d"
  "vehicles (audit_log ac en actor am d) = vehicles d"
  "appointments (audit_log ac en actor am d) = appointments d"
  "appt_vehicles (audit_log ac en actor am d) = appt_vehicles d"
  "appt_addons (audit_log ac en actor am d) = appt_addons d"
  "histories (audit_log ac en actor am d) = histories d"
  "cancellations (audit_log ac en actor am d) = cancellations d"
  "assignments (audit_log ac en actor am d) = assignments d"
  by (simp_all add: audit_log_def)

text \<open>The lookups do not read the appointments.\<close>

lemma lookups_update_appointments [simp]:
  "user_by_id (d\<lparr>appointments := as\<rparr>) = user_by_id d"
  "get_active_detailer (d\<lparr>appointments := as\<rparr>) = get_active_detailer d"
  "get_profile (d\<lparr>appointments := as\<rparr>) = get_profile d"
  "get_working_hours (d\<lparr>appointments := as\<rparr>) = get_working_hours d"
  "get_service (d\<lparr>appointments := as\<rparr>) = get_service d"
  "get_vehicle (d\<lparr>appointments := as\<rparr>) = get_vehicle d"
  "get_addon (d\<lparr>appointments := as\<rparr>) = get_addon d"
  by (simp_all add: fun_eq_iff user_by_id_def get_active_detailer_def get_profile_def
      get_working_hours_def get_service_def get_vehicle_def get_addon_def)

end
