(* ===== verification/Settings.thy ===== *)
theory Settings
  imports Complex_Main Binary64
begin

text \<open>
  The settings of app/core/config.py the modelled code reads, with their defaults. Handlers take
  the settings as an argument, so that what is proved holds for any deployment unless a
  hypothesis says otherwise. An optional bound in \<open>SURGE_THRESHOLDS\<close> is \<open>None\<close> for
  \<open>float("inf")\<close>.
\<close>

record settings =
  TRAVEL_BUFFER_MINUTES :: int
  CANCELLATION_FULL_REFUND_HOURS :: int
  CANCELLATION_PARTIAL_REFUND_HOURS :: int
  CANCELLATION_PARTIAL_REFUND_PERCENT :: nat
  STRIPE_SECRET_KEY :: string
  STRIPE_CURRENCY :: string
  STRIPE_WEBHOOK_SECRET :: string
  REQUIRE_EMAIL_VERIFICATION :: bool
  EMAIL_VERIFICATION_EXPIRE_HOURS :: int
  ACCESS_TOKEN_EXPIRE_MINUTES :: int
  ONBOARDING_TOKEN_EXPIRE_MINUTES :: int
  REFRESH_TOKEN_EXPIRE_DAYS :: int
  AUTH_ENFORCE_SESSION :: bool
  STEP_UP_TTL_MINUTES :: int
  SURGE_THRESHOLDS :: "(nat option \<times> float64) list"
  FIREBALL_DISTANCE_METERS :: real
  FIREBALL_HEADING_DEGREES :: real

definition default_settings :: settings where
  "default_settings = \<lparr>
     TRAVEL_BUFFER_MINUTES = 30,
     CANCELLATION_FULL_REFUND_HOURS = 24,
     CANCELLATION_PARTIAL_REFUND_HOURS = 2,
     CANCELLATION_PARTIAL_REFUND_PERCENT = 50,
     STRIPE_SECRET_KEY = ''sk_test_placeholder'',
     STRIPE_CURRENCY = ''usd'',
     STRIPE_WEBHOOK_SECRET = ''whsec_placeholder'',
     REQUIRE_EMAIL_VERIFICATION = False,
     EMAIL_VERIFICATION_EXPIRE_HOURS = 24,
     ACCESS_TOKEN_EXPIRE_MINUTES = 30,
     ONBOARDING_TOKEN_EXPIRE_MINUTES = 30,
     REFRESH_TOKEN_EXPIRE_DAYS = 7,
     AUTH_ENFORCE_SESSION = False,
     STEP_UP_TTL_MINUTES = 5,
     SURGE_THRESHOLDS = [(Some 2, flt_2_0), (Some 4, flt_1_5), (Some 8, flt_1_2), (None, flt_1_0)],
     FIREBALL_DISTANCE_METERS = 50,
     FIREBALL_HEADING_DEGREES = 10\<rparr>"

end
