(* ===== verification/Appointment_Repo.thy ===== *)
theory Appointment_Repo
  imports Schema Settings
begin

text \<open>
  \<open>AppointmentRepository\<close> (domains/appointments/repository.py): the advisory lock key, the
  overlap query, the listings and the append-only history, and the contract the booking flow
  relies on, as the locale \<open>calendar\<close>: a check that counts no overlap before an insert keeps
  the busy intervals of a detailer disjoint.
\<close>

section \<open>The advisory lock key\<close>

text \<open>
  \<open>struct.unpack(">q", detailer_id.bytes[:8])[0]\<close>: the first eight bytes of the UUID read as a
  signed big-endian 64-bit integer.
\<close>

definition detailer_lock_key :: "uuid \<Rightarrow> int" where
  "detailer_lock_key u = sint (ucast (drop_bit 64 u) :: 64 word)"

lemma detailer_lock_key_range:
  "- (2 ^ 63) \<le> detailer_lock_key u \<and> detailer_lock_key u < 2 ^ 63"
  using sint_range_size [of "ucast (drop_bit 64 u) :: 64 word"]
  by (auto simp: detailer_lock_key_def word_size)

section \<open>Queries\<close>

definition is_active_booking :: "appointment \<Rightarrow> bool" where
  "is_active_booking a \<longleftrightarrow> \<not> appt_deleted a \<and> appt_status a \<notin> set TERMINAL_STATUSES"

text \<open>A comparison with a NULL \<open>travel_buffer_end_time\<close> is not true in SQL.\<close>

definition overlaps :: "uuid \<Rightarrow> instant \<Rightarrow> instant \<Rightarrow> appointment \<Rightarrow> bool" where
  "overlaps det new_start new_buffer_end a \<longleftrightarrow>
     detailer_id a = Some det \<and> is_active_booking a \<and> scheduled_time a < new_buffer_end \<and>
     (case travel_buffer_end_time a of None \<Rightarrow> False | Some t \<Rightarrow> t > new_start)"

definition get_overlapping_count :: "db \<Rightarrow> uuid \<Rightarrow> instant \<Rightarrow> instant \<Rightarrow> nat" where
  "get_overlapping_count d det new_start new_buffer_end =
     rowcount (overlaps det new_start new_buffer_end) (appointments d)"

definition create_appointment_row :: "appointment \<Rightarrow> db \<Rightarrow> db" where
  "create_appointment_row a d = d\<lparr>appointments := appointments d @ [a]\<rparr>"

definition appointment_by_id :: "db \<Rightarrow> uuid \<Rightarrow> appointment option" where
  "appointment_by_id d aid = find (\<lambda>a. appt_id a = aid \<and> \<not> appt_deleted a) (appointments d)"

definition get_active_for_detailer_on_date ::
  "db \<Rightarrow> uuid \<Rightarrow> instant \<Rightarrow> instant \<Rightarrow> appointment list" where
  "get_active_for_detailer_on_date d det lo hi =
     sort_key scheduled_time
       (filter (\<lambda>a. detailer_id a = Some det \<and> is_active_booking a \<and>
                    lo \<le> scheduled_time a \<and> scheduled_time a < hi) (appointments d))"

text \<open>\<open>get_active_for_detailer\<close>: \<open>limit(1)\<close> of the jobs on site.\<close>

definition get_active_for_detailer :: "db \<Rightarrow> uuid \<Rightarrow> appointment option" where
  "get_active_for_detailer d det =
     find (\<lambda>a. detailer_id a = Some det \<and> \<not> appt_deleted a \<and>
               appt_status a \<in> {ARRIVED, IN_PROGRESS}) (appointments d)"

definition get_by_client ::
  "db \<Rightarrow> uuid \<Rightarrow> appointment_status option \<Rightarrow> nat \<Rightarrow> nat \<Rightarrow> appointment list \<times> nat" where
  "get_by_client d cid st offset limit =
     (let rows = filter (\<lambda>a. client_id a = cid \<and> \<not> appt_deleted a \<and>
                             (case st of None \<Rightarrow> True | Some s \<Rightarrow> appt_status a = s)) (appointments d)
      in (page_of offset limit (sort_key scheduled_time rows), length rows))"

definition get_by_detailer ::
  "db \<Rightarrow> uuid \<Rightarrow> appointment_status option \<Rightarrow> nat \<Rightarrow> nat \<Rightarrow> appointment list \<times> nat" where
  "get_by_detailer d det st offset limit =
     (let rows = filter (\<lambda>a. detailer_id a = Some det \<and> \<not> appt_deleted a \<and>
                             (case st of None \<Rightarrow> True | Some s \<Rightarrow> appt_status a = s)) (appointments d)
      in (page_of offset limit (sort_key scheduled_time rows), length rows))"

definition add_status_history ::
  "uuid \<Rightarrow> appointment_status option \<Rightarrow> appointment_status \<Rightarrow> uuid option \<Rightarrow> string option \<Rightarrow> db \<Rightarrow> db"
where
  "add_status_history aid old new actor reason d =
     d\<lparr>histories := histories d @ [\<lparr>hist_appointment = aid, old_status = old, new_status = new,
                                   hist_actor = actor, hist_reason = reason\<rparr>]\<rparr>"

text \<open>
  \<open>add_cancellation\<close>: the table has one row per appointment
  (\<open>uq_appointment_cancellations_appointment\<close>).
\<close>

definition add_cancellation :: "cancellation \<Rightarrow> db \<Rightarrow> db result" where
  "add_cancellation c d =
     (if canc_appointment c \<in> set (map canc_appointment (cancellations d))
      then Inl (IntegrityError ''uq_appointment_cancellations_appointment'')
      else Inr (d\<lparr>cancellations := cancellations d @ [c]\<rparr>))"

lemma appointment_by_id_SomeD:
  "appointment_by_id d aid = Some a \<Longrightarrow> a \<in> set (appointments d) \<and> appt_id a = aid \<and> \<not> appt_deleted a"
  by (auto simp: appointment_by_id_def find_Some_iff)

section \<open>Busy intervals and the booking contract\<close>

text \<open>
  What the booking flow needs from a calendar: the count it asks for is zero exactly when the
  new interval \<open>[s, e)\<close> meets no busy interval, and booking adds that interval to one
  person's and nothing to anyone else's.
\<close>

definition apart :: "instant \<times> instant \<Rightarrow> instant \<times> instant \<Rightarrow> bool" where
  "apart p q \<longleftrightarrow> snd p \<le> fst q \<or> snd q \<le> fst p"

lemma apart_sym: "apart p q \<longleftrightarrow> apart q p"
  by (auto simp: apart_def)

locale calendar =
  fixes busy :: "'cal \<Rightarrow> 'who \<Rightarrow> (instant \<times> instant) list"
    and conflicts :: "'cal \<Rightarrow> 'who \<Rightarrow> instant \<Rightarrow> instant \<Rightarrow> nat"
    and book :: "'entry \<Rightarrow> 'cal \<Rightarrow> 'cal"
    and slot :: "'entry \<Rightarrow> 'who \<Rightarrow> (instant \<times> instant) list"
  assumes no_conflicts: "conflicts c w s e = 0 \<Longrightarrow> p \<in> set (busy c w) \<Longrightarrow> apart p (s, e)"
    and busy_book: "busy (book x c) w = busy c w @ slot x w"
begin

definition exclusive :: "'cal \<Rightarrow> 'who \<Rightarrow> bool" where
  "exclusive c w \<longleftrightarrow> sorted_wrt apart (busy c w)"

text \<open>Check, then book: the person's intervals stay pairwise apart.\<close>

lemma book_keeps_exclusive:
  assumes "exclusive c w" and "slot x w = [(s, e)]" and "conflicts c w s e = 0"
  shows "exclusive (book x c) w"
  using assms by (auto simp: exclusive_def busy_book sorted_wrt_append dest: no_conflicts)

text \<open>Booking for somebody else does not touch this person.\<close>

lemma book_frame: "slot x w = [] \<Longrightarrow> exclusive (book x c) w \<longleftrightarrow> exclusive c w"
  by (simp add: exclusive_def busy_book)

end

text \<open>
  The busy intervals the overlap query sees. A row whose \<open>travel_buffer_end_time\<close> is NULL has
  none.
\<close>

definition busy_interval :: "uuid \<Rightarrow> appointment \<Rightarrow> (instant \<times> instant) list" where
  "busy_interval det a =
     (if detailer_id a = Some det \<and> is_active_booking a
      then (case travel_buffer_end_time a of None \<Rightarrow> [] | Some t \<Rightarrow> [(scheduled_time a, t)])
      else [])"

definition busy_intervals :: "db \<Rightarrow> uuid \<Rightarrow> (instant \<times> instant) list" where
  "busy_intervals d det = concat (map (busy_interval det) (appointments d))"

definition no_double_booking :: "db \<Rightarrow> uuid \<Rightarrow> bool" where
  "no_double_booking d det \<longleftrightarrow> sorted_wrt apart (busy_intervals d det)"

lemma busy_interval_cases:
  "busy_interval det a = [] \<and> (\<forall>s e. \<not> overlaps det s e a) \<or>
   (\<exists>t. busy_interval det a = [(scheduled_time a, t)] \<and>
        (\<forall>s e. overlaps det s e a \<longleftrightarrow> scheduled_time a < e \<and> s < t))"
  by (cases "travel_buffer_end_time a") (auto simp: overlaps_def busy_interval_def)

lemma overlaps_busy:
  "overlaps det s e a \<longleftrightarrow> (\<exists>p \<in> set (busy_interval det a). \<not> apart p (s, e))"
  using busy_interval_cases [of det a] by (auto simp: apart_def)

lemma overlapping_count_zero:
  "get_overlapping_count d det s e = 0 \<longleftrightarrow> (\<forall>p \<in> set (busy_intervals d det). apart p (s, e))"
  by (auto simp: get_overlapping_count_def rowcount_zero overlaps_busy busy_intervals_def)

interpretation appt_cal: calendar busy_intervals get_overlapping_count
  create_appointment_row "\<lambda>a det. busy_interval det a"
  by unfold_locales (auto simp: overlapping_count_zero busy_intervals_def create_appointment_row_def)

lemma no_double_booking_exclusive: "no_double_booking d det \<longleftrightarrow> appt_cal.exclusive d det"
  by (simp add: no_double_booking_def appt_cal.exclusive_def)

lemma busy_intervals_cong: "appointments d' = appointments d \<Longrightarrow> busy_intervals d' = busy_intervals d"
  by (simp add: fun_eq_iff busy_intervals_def)

end
