(* ===== verification/Availability.thy ===== *)
theory Availability
  imports Appointment_Repo
begin

text \<open>
  Pricing of a booking and the slot engine of \<open>AppointmentService\<close>
  (domains/appointments/service.py): \<open>calculate_appointment_data\<close>,
  \<open>calculate_multi_appointment_data\<close> and \<open>get_available_slots\<close>. The time zone database is an
  argument: \<open>tz name\<close> is \<open>None\<close> for an unknown zone (\<open>ZoneInfoNotFoundError\<close>), otherwise the
  map from local wall-clock microseconds to the UTC instant. A date is its number of days since
  1970-01-01.
\<close>

section \<open>Pricing\<close>

definition SLOT_GRANULARITY_MINUTES :: int where "SLOT_GRANULARITY_MINUTES = 30"
definition MIN_ADVANCE_BOOKING_MINUTES :: int where "MIN_ADVANCE_BOOKING_MINUTES = 60"

record appointment_calculation =
  price_cents :: nat
  duration_minutes :: nat
  calc_end :: instant
  calc_buffer_end :: instant

definition calculate_appointment_data ::
  "settings \<Rightarrow> service \<Rightarrow> vehicle_size \<Rightarrow> instant \<Rightarrow> appointment_calculation" where
  "calculate_appointment_data st svc sz t =
     (let price = ceil_scaled (base_price_cents svc) sz;
          dur = ceil_scaled (base_duration_minutes svc) sz;
          ende = t + minutes (int dur)
      in \<lparr>price_cents = price, duration_minutes = dur, calc_end = ende,
          calc_buffer_end = ende + minutes (TRAVEL_BUFFER_MINUTES st)\<rparr>)"

fun sum_sizes :: "service \<Rightarrow> vehicle_size list \<Rightarrow> nat \<times> nat \<Rightarrow> nat \<times> nat" where
  "sum_sizes svc [] acc = acc"
| "sum_sizes svc (sz # szs) (p, d) =
     sum_sizes svc szs (p + ceil_scaled (base_price_cents svc) sz, d + ceil_scaled (base_duration_minutes svc) sz)"

fun sum_addons :: "addon list \<Rightarrow> nat \<times> nat \<Rightarrow> nat \<times> nat" where
  "sum_addons [] acc = acc"
| "sum_addons (a # as) (p, d) = sum_addons as (p + addon_price a, d + addon_duration a)"

definition calculate_multi_appointment_data ::
  "service \<Rightarrow> vehicle_size list \<Rightarrow> addon list \<Rightarrow> instant \<Rightarrow> int \<Rightarrow> appointment_calculation" where
  "calculate_multi_appointment_data svc szs as t buffer =
     (let (p, d) = sum_addons as (sum_sizes svc szs (0, 0)); ende = t + minutes (int d)
      in \<lparr>price_cents = p, duration_minutes = d, calc_end = ende,
          calc_buffer_end = ende + minutes buffer\<rparr>)"

lemma sum_sizes_eq:
  "sum_sizes svc szs (p, d) =
     (p + (\<Sum>sz\<leftarrow>szs. ceil_scaled (base_price_cents svc) sz),
      d + (\<Sum>sz\<leftarrow>szs. ceil_scaled (base_duration_minutes svc) sz))"
  by (induction szs arbitrary: p d) auto

lemma sum_addons_eq:
  "sum_addons as (p, d) = (p + (\<Sum>a\<leftarrow>as. addon_price a), d + (\<Sum>a\<leftarrow>as. addon_duration a))"
  by (induction as arbitrary: p d) auto

section \<open>Working hours\<close>

definition weekday_names :: "string list" where
  "weekday_names = [''monday'', ''tuesday'', ''wednesday'', ''thursday'', ''friday'', ''saturday'', ''sunday'']"

text \<open>\<open>strftime("%A").lower()\<close>; day 0 was a Thursday.\<close>

definition day_name :: "int \<Rightarrow> string" where
  "day_name date = weekday_names ! nat ((date + 3) mod 7)"

definition py_isdigit :: "char \<Rightarrow> bool" where
  "py_isdigit c = (let n = (of_char c :: nat) in 48 \<le> n \<and> n \<le> 57)"

definition digits_value :: "string \<Rightarrow> nat" where
  "digits_value s = fold (\<lambda>c acc. 10 * acc + (of_char c - 48)) s 0"

text \<open>\<open>int(s)\<close> on blank-padded digits with an optional sign; anything else raises.\<close>

definition py_int :: "string \<Rightarrow> int result" where
  "py_int s =
     (case py_strip s of
        [] \<Rightarrow> Inl (ValueError ''invalid literal for int()'')
      | c # cs \<Rightarrow>
          (let neg = (c = CHR ''-''); ds = (if neg \<or> c = CHR ''+'' then cs else c # cs)
           in if ds \<noteq> [] \<and> list_all py_isdigit ds
              then Inr (if neg then - int (digits_value ds) else int (digits_value ds))
              else Inl (ValueError ''invalid literal for int()'')))"

fun split_colon :: "string \<Rightarrow> string list" where
  "split_colon [] = [[]]"
| "split_colon (c # cs) =
     (if c = CHR '':'' then [] # split_colon cs
      else (case split_colon cs of p # ps \<Rightarrow> (c # p) # ps | [] \<Rightarrow> [[c]]))"

definition parse_hh_mm :: "string \<Rightarrow> (int \<times> int) result" where
  "parse_hh_mm s =
     (case split_colon s of
        [h, m] \<Rightarrow>
          (case py_int h of
             Inl e \<Rightarrow> Inl e
           | Inr hv \<Rightarrow> (case py_int m of Inl e \<Rightarrow> Inl e | Inr mv \<Rightarrow> Inr (hv, mv)))
      | _ \<Rightarrow> Inl (ValueError ''unpack''))"

text \<open>\<open>datetime(y, m, d, hour, minute, tzinfo=zone).astimezone(utc)\<close>.\<close>

definition local_to_utc :: "(int \<Rightarrow> instant) \<Rightarrow> int \<Rightarrow> int \<Rightarrow> int \<Rightarrow> instant result" where
  "local_to_utc zone date h m =
     (if 0 \<le> h \<and> h \<le> 23 \<and> 0 \<le> m \<and> m \<le> 59
      then Inr (zone (days date + hours h + minutes m))
      else Inl (ValueError ''hour must be in 0..23''))"

definition default_day :: day_hours where
  "default_day = \<lparr>day_start = Some ''08:00'', day_end = Some ''18:00'', day_enabled = Some True\<rparr>"

definition day_config_of :: "(string \<times> day_hours) list option \<Rightarrow> int \<Rightarrow> day_hours" where
  "day_config_of wh date =
     (case map_of (case wh of None \<Rightarrow> [] | Some m \<Rightarrow> m) (day_name date) of
        None \<Rightarrow> default_day | Some c \<Rightarrow> c)"

text \<open>\<open>x or default\<close>: \<open>None\<close> and the empty string are false.\<close>

definition or_default :: "string option \<Rightarrow> string \<Rightarrow> string" where
  "or_default x dflt = (case x of None \<Rightarrow> dflt | Some s \<Rightarrow> if s = '''' then dflt else s)"

definition zone_of :: "(string \<Rightarrow> (int \<Rightarrow> instant) option) \<Rightarrow> provider_profile option \<Rightarrow> int \<Rightarrow> instant" where
  "zone_of tz prof =
     (let name = or_default (map_option prof_timezone prof) ''America/Indiana/Indianapolis''
      in case tz name of None \<Rightarrow> id | Some z \<Rightarrow> z)"

definition work_window ::
  "(string \<Rightarrow> (int \<Rightarrow> instant) option) \<Rightarrow> provider_profile option \<Rightarrow> day_hours \<Rightarrow> int \<Rightarrow> (instant \<times> instant) result"
where
  "work_window tz prof cfg date =
     (case parse_hh_mm (or_default (day_start cfg) ''08:00'') of
        Inl e \<Rightarrow> Inl e
      | Inr (sh, sm) \<Rightarrow>
          (case parse_hh_mm (or_default (day_end cfg) ''18:00'') of
             Inl e \<Rightarrow> Inl e
           | Inr (eh, em) \<Rightarrow>
               (case local_to_utc (zone_of tz prof) date sh sm of
                  Inl e \<Rightarrow> Inl e
                | Inr ws \<Rightarrow>
                    (case local_to_utc (zone_of tz prof) date eh em of
                       Inl e \<Rightarrow> Inl e
                     | Inr we \<Rightarrow> Inr (ws, we)))))"

section \<open>Slots\<close>

record time_slot =
  slot_start :: instant
  slot_end :: instant
  is_available :: bool

text \<open>
  \<open>any(cursor < occ_end and occ_start < service_end for ...)\<close>, left to right; comparing with a
  missing \<open>travel_buffer_end_time\<close> is a \<open>TypeError\<close>.
\<close>

fun any_conflict :: "instant \<Rightarrow> instant \<Rightarrow> (instant \<times> instant option) list \<Rightarrow> bool result" where
  "any_conflict cursor service_end [] = Inr False"
| "any_conflict cursor service_end ((occ_start, None) # occ) = Inl TypeError"
| "any_conflict cursor service_end ((occ_start, Some occ_end) # occ) =
     (if cursor < occ_end \<and> occ_start < service_end then Inr True
      else any_conflict cursor service_end occ)"

definition slot_availability ::
  "instant \<Rightarrow> instant \<Rightarrow> int \<Rightarrow> (instant \<times> instant option) list \<Rightarrow> instant \<Rightarrow> bool result" where
  "slot_availability earliest work_end service_duration occ cursor =
     (let service_end = cursor + service_duration
      in if cursor \<le> earliest then Inr False
         else if service_end > work_end then Inr False
         else (case any_conflict cursor service_end occ of Inl e \<Rightarrow> Inl e | Inr b \<Rightarrow> Inr (\<not> b)))"

function slot_loop ::
  "instant \<Rightarrow> instant \<Rightarrow> int \<Rightarrow> (instant \<times> instant option) list \<Rightarrow> instant \<Rightarrow> time_slot list result" where
  "slot_loop earliest work_end service_duration occ cursor =
     (if cursor < work_end
      then (case slot_availability earliest work_end service_duration occ cursor of
              Inl e \<Rightarrow> Inl e
            | Inr b \<Rightarrow>
                (let display_end = cursor + minutes SLOT_GRANULARITY_MINUTES
                 in case slot_loop earliest work_end service_duration occ display_end of
                      Inl e \<Rightarrow> Inl e
                    | Inr rest \<Rightarrow> Inr (\<lparr>slot_start = cursor, slot_end = display_end, is_available = b\<rparr> # rest)))
      else Inr [])"
  by pat_completeness auto
termination
  by (relation "measure (\<lambda>(_, work_end, _, _, cursor). nat (work_end - cursor))")
     (auto simp: SLOT_GRANULARITY_MINUTES_def minutes_def)

declare slot_loop.simps [simp del]

definition service_minutes ::
  "settings \<Rightarrow> db \<Rightarrow> uuid option \<Rightarrow> vehicle_size option \<Rightarrow> int option \<Rightarrow> instant \<Rightarrow> int" where
  "service_minutes st d service_id sz override work_start =
     (case override of
        Some m \<Rightarrow> m + TRAVEL_BUFFER_MINUTES st
      | None \<Rightarrow>
          (case (service_id, sz) of
             (Some sid, Some z) \<Rightarrow>
               (case get_service d sid of
                  Some svc \<Rightarrow> int (duration_minutes (calculate_appointment_data st svc z work_start))
                                + TRAVEL_BUFFER_MINUTES st
                | None \<Rightarrow> SLOT_GRANULARITY_MINUTES)
           | _ \<Rightarrow> SLOT_GRANULARITY_MINUTES))"

definition occupied_on :: "db \<Rightarrow> uuid \<Rightarrow> int \<Rightarrow> (instant \<times> instant option) list" where
  "occupied_on d det date =
     map (\<lambda>a. (scheduled_time a, travel_buffer_end_time a))
       (get_active_for_detailer_on_date d det (days date) (days date + days 1))"

definition get_available_slots ::
  "settings \<Rightarrow> (string \<Rightarrow> (int \<Rightarrow> instant) option) \<Rightarrow> instant \<Rightarrow> db \<Rightarrow> uuid \<Rightarrow> int \<Rightarrow>
   uuid option \<Rightarrow> vehicle_size option \<Rightarrow> int option \<Rightarrow> time_slot list result" where
  "get_available_slots st tz now d det date service_id sz override =
     (case get_active_detailer d det of
        None \<Rightarrow> Inl (HTTPException 404 ''Detailer not found or is not active.'')
      | Some _ \<Rightarrow>
          (let prof = get_profile d det DETAILER in
           if (case prof of None \<Rightarrow> False | Some p \<Rightarrow> \<not> prof_active p) then Inr []
           else
             (let cfg = day_config_of (get_working_hours d det) date in
              if day_enabled cfg = Some False then Inr []
              else (case work_window tz prof cfg date of
                      Inl e \<Rightarrow> Inl e
                    | Inr (ws, we) \<Rightarrow>
                        slot_loop (now + minutes MIN_ADVANCE_BOOKING_MINUTES) we
                          (minutes (service_minutes st d service_id sz override ws))
                          (occupied_on d det date) ws))))"

section \<open>What the slot engine promises\<close>

lemma any_conflict_error: "any_conflict c se occ = Inl e \<Longrightarrow> e = TypeError"
  by (induction c se occ rule: any_conflict.induct) (auto split: if_splits)

lemma any_conflict_False:
  "any_conflict c se occ = Inr False \<Longrightarrow> (s, t) \<in> set occ \<Longrightarrow>
     \<exists>e. t = Some e \<and> (e \<le> c \<or> se \<le> s)"
  by (induction c se occ rule: any_conflict.induct) (auto split: if_splits)

lemma any_conflict_True:
  "any_conflict c se occ = Inr True \<Longrightarrow> \<exists>s e. (s, Some e) \<in> set occ \<and> c < e \<and> s < se"
  by (induction c se occ rule: any_conflict.induct) (auto split: if_splits)

lemma slot_availability_True:
  "slot_availability earliest we dur occ c = Inr True \<longleftrightarrow>
     earliest < c \<and> c + dur \<le> we \<and> any_conflict c (c + dur) occ = Inr False"
  by (auto simp: slot_availability_def Let_def split: sum.splits)

lemma slot_availability_error: "slot_availability earliest we dur occ c = Inl e \<Longrightarrow> e = TypeError"
  by (auto simp: slot_availability_def Let_def split: if_splits sum.splits dest: any_conflict_error)

lemma slot_loop_done: "\<not> c < we \<Longrightarrow> slot_loop earliest we dur occ c = Inr []"
  by (simp add: slot_loop.simps)

lemma slot_loop_InrE:
  assumes "slot_loop earliest we dur occ c = Inr slots" and "c < we"
  obtains b rest where "slot_availability earliest we dur occ c = Inr b"
    and "slot_loop earliest we dur occ (c + minutes SLOT_GRANULARITY_MINUTES) = Inr rest"
    and "slots = \<lparr>slot_start = c, slot_end = c + minutes SLOT_GRANULARITY_MINUTES, is_available = b\<rparr> # rest"
  using assms by (subst (asm) slot_loop.simps) (auto simp: Let_def split: sum.splits)

lemma slot_loop_error: "slot_loop earliest we dur occ c = Inl e \<Longrightarrow> e = TypeError"
proof (induction earliest we dur occ c rule: slot_loop.induct)
  case (1 earliest we dur occ c)
  from "1.prems" show ?case
    by (subst (asm) slot_loop.simps)
       (auto simp: Let_def split: if_splits sum.splits dest: slot_availability_error "1.IH")
qed

text \<open>Every slot on the list carries the decision taken at its start.\<close>

lemma slot_loop_sound:
  "slot_loop earliest we dur occ c = Inr slots \<Longrightarrow> s \<in> set slots \<Longrightarrow>
     slot_availability earliest we dur occ (slot_start s) = Inr (is_available s) \<and>
     slot_end s = slot_start s + minutes SLOT_GRANULARITY_MINUTES \<and> c \<le> slot_start s \<and> slot_start s < we"
proof (induction earliest we dur occ c arbitrary: slots rule: slot_loop.induct)
  case (1 earliest we dur occ c)
  show ?case
  proof (cases "c < we")
    case True
    obtain b rest where b: "slot_availability earliest we dur occ c = Inr b"
      and rest: "slot_loop earliest we dur occ (c + minutes SLOT_GRANULARITY_MINUTES) = Inr rest"
      and slots: "slots = \<lparr>slot_start = c, slot_end = c + minutes SLOT_GRANULARITY_MINUTES, is_available = b\<rparr> # rest"
      using slot_loop_InrE [OF "1.prems"(1) True] .
    have le: "c \<le> c + minutes SLOT_GRANULARITY_MINUTES"
      by (simp add: SLOT_GRANULARITY_MINUTES_def minutes_def)
    show ?thesis
      using "1.prems"(2) "1.IH" [OF True b refl rest] b slots True le by fastforce
  next
    case False
    with "1.prems" show ?thesis by (simp add: slot_loop_done)
  qed
qed

lemma minutes_30: "minutes 30 = 1800000000"
  by (simp add: minutes_def)

text \<open>The list is the half-hour grid from the start of work up to its end.\<close>

lemma slot_loop_grid:
  "slot_loop earliest we dur occ c = Inr slots \<Longrightarrow>
     length slots = nat ((we - c + minutes 30 - 1) div minutes 30) \<and>
     (\<forall>i < length slots. slot_start (slots ! i) = c + int i * minutes 30)"
proof (induction earliest we dur occ c arbitrary: slots rule: slot_loop.induct)
  case (1 earliest we dur occ c)
  show ?case
  proof (cases "c < we")
    case True
    let ?n = "\<lambda>c. nat ((we - c + minutes 30 - 1) div minutes 30)"
    obtain b rest where b: "slot_availability earliest we dur occ c = Inr b"
      and rest: "slot_loop earliest we dur occ (c + minutes SLOT_GRANULARITY_MINUTES) = Inr rest"
      and slots: "slots = \<lparr>slot_start = c, slot_end = c + minutes SLOT_GRANULARITY_MINUTES, is_available = b\<rparr> # rest"
      using slot_loop_InrE [OF "1.prems" True] .
    have g: "minutes SLOT_GRANULARITY_MINUTES = minutes 30" by (simp add: SLOT_GRANULARITY_MINUTES_def)
    have "length rest = ?n (c + minutes 30)"
      and ih: "\<forall>i < length rest. slot_start (rest ! i) = (c + minutes 30) + int i * minutes 30"
      using "1.IH" [OF True b refl rest] by (simp_all add: g)
    moreover have "?n c = Suc (?n (c + minutes 30))"
    proof -
      have "(we - c + minutes 30 - 1) div minutes 30
            = ((we - (c + minutes 30) + minutes 30 - 1) + 1 * minutes 30) div minutes 30" by (simp add: algebra_simps)
      also have "\<dots> = 1 + (we - (c + minutes 30) + minutes 30 - 1) div minutes 30"
        by (subst div_mult_self1) (simp_all add: minutes_def)
      finally have eq: "(we - c + minutes 30 - 1) div minutes 30
            = 1 + (we - (c + minutes 30) + minutes 30 - 1) div minutes 30" .
      have "0 \<le> (we - (c + minutes 30) + minutes 30 - 1) div minutes 30"
        using True by (simp add: minutes_def pos_imp_zdiv_nonneg_iff)
      with eq show ?thesis by (simp add: Suc_nat_eq_nat_zadd1)
    qed
    moreover have "slot_start (slots ! i) = c + int i * minutes 30" if "i < length slots" for i
      using that ih slots by (cases i) (auto simp: distrib_right)
    ultimately show ?thesis using slots by simp
  next
    case False
    then have "we - c + minutes 30 - 1 < minutes 30" by simp
    then have "(we - c + minutes 30 - 1) div minutes 30 < 1"
      unfolding minutes_30 by linarith
    with False "1.prems" show ?thesis by (simp add: slot_loop_done)
  qed
qed

lemma get_available_slots_InrE:
  assumes "get_available_slots st tz now d det date service_id sz override = Inr slots" and "slots \<noteq> []"
  obtains ws we where
    "work_window tz (get_profile d det DETAILER) (day_config_of (get_working_hours d det) date) date = Inr (ws, we)"
    "slot_loop (now + minutes MIN_ADVANCE_BOOKING_MINUTES) we
       (minutes (service_minutes st d service_id sz override ws)) (occupied_on d det date) ws = Inr slots"
  using assms by (auto simp: get_available_slots_def Let_def split: option.splits if_splits sum.splits)

lemma set_occupied_on:
  "(s, t) \<in> set (occupied_on d det date) \<longleftrightarrow>
     (\<exists>a \<in> set (appointments d). detailer_id a = Some det \<and> is_active_booking a \<and>
        days date \<le> scheduled_time a \<and> scheduled_time a < days date + days 1 \<and>
        s = scheduled_time a \<and> t = travel_buffer_end_time a)"
  by (auto simp: occupied_on_def get_active_for_detailer_on_date_def)

text \<open>The bookings the slot engine looks at: those that start on the date in UTC.\<close>

definition starts_on :: "int \<Rightarrow> appointment \<Rightarrow> bool" where
  "starts_on date a \<longleftrightarrow> days date \<le> scheduled_time a \<and> scheduled_time a < days date + days 1"

lemma any_conflict_occupied:
  assumes "any_conflict c se (occupied_on d det date) = Inr b"
  shows "b \<longleftrightarrow> (\<exists>a \<in> set (appointments d). starts_on date a \<and> overlaps det c se a)"
proof
  assume b
  with assms obtain s e where "(s, Some e) \<in> set (occupied_on d det date)" and less: "c < e" "s < se" by (auto dest: any_conflict_True)
  then obtain a where "a \<in> set (appointments d)" "detailer_id a = Some det" "is_active_booking a" "starts_on date a"
      "s = scheduled_time a" "travel_buffer_end_time a = Some e" by (auto simp: set_occupied_on starts_on_def)
  with less show "\<exists>a \<in> set (appointments d). starts_on date a \<and> overlaps det c se a" by (auto simp: overlaps_def)
next
  assume "\<exists>a \<in> set (appointments d). starts_on date a \<and> overlaps det c se a"
  then obtain a where a: "a \<in> set (appointments d)" "starts_on date a" "overlaps det c se a" by blast
  then have "(scheduled_time a, travel_buffer_end_time a) \<in> set (occupied_on d det date)"
    by (auto simp: set_occupied_on overlaps_def starts_on_def)
  with assms a(3) show b by (cases b) (auto simp: overlaps_def dest: any_conflict_False)
qed

text \<open>
  C5. What the slot list says. Every listed slot starts in the working day, and it is offered as available
  exactly when it starts more than an hour from now, the service with its travel buffer ends inside the
  working day, and no active booking of the detailer that starts on the queried date, in UTC, overlaps it. The
  overlap query of the booking flow, run for an offered slot, therefore counts exactly the overlapping bookings
  that start on another UTC date, and nothing if there is none.
\<close>

theorem slot_offered_iff_free:
  assumes "get_available_slots st tz now d det date service_id sz override = Inr slots" and "s \<in> set slots"
  shows "\<exists>ws we e. work_window tz (get_profile d det DETAILER) (day_config_of (get_working_hours d det) date) date = Inr (ws, we) \<and>
           e = slot_start s + minutes (service_minutes st d service_id sz override ws) \<and> ws \<le> slot_start s \<and> slot_start s < we \<and>
           is_available s =
             (now + minutes MIN_ADVANCE_BOOKING_MINUTES < slot_start s \<and> e \<le> we \<and>
              \<not> (\<exists>a \<in> set (appointments d). starts_on date a \<and> overlaps det (slot_start s) e a)) \<and>
           (is_available s \<longrightarrow> get_overlapping_count d det (slot_start s) e =
              rowcount (\<lambda>a. overlaps det (slot_start s) e a \<and> \<not> starts_on date a) (appointments d))"
proof -
  from assms(2) have "slots \<noteq> []" by auto
  with assms(1) obtain ws we where
    win: "work_window tz (get_profile d det DETAILER) (day_config_of (get_working_hours d det) date) date = Inr (ws, we)" and
    loop: "slot_loop (now + minutes MIN_ADVANCE_BOOKING_MINUTES) we
       (minutes (service_minutes st d service_id sz override ws)) (occupied_on d det date) ws = Inr slots"
    by (rule get_available_slots_InrE)
  let ?e = "slot_start s + minutes (service_minutes st d service_id sz override ws)"
  from slot_loop_sound [OF loop assms(2)]
  have av: "slot_availability (now + minutes MIN_ADVANCE_BOOKING_MINUTES) we (minutes (service_minutes st d service_id sz override ws))
      (occupied_on d det date) (slot_start s) = Inr (is_available s)" and range: "ws \<le> slot_start s" "slot_start s < we" by simp_all
  have iff: "is_available s =
      (now + minutes MIN_ADVANCE_BOOKING_MINUTES < slot_start s \<and> ?e \<le> we \<and>
       \<not> (\<exists>a \<in> set (appointments d). starts_on date a \<and> overlaps det (slot_start s) ?e a))"
    using av by (auto simp: slot_availability_def Let_def split: if_splits sum.splits dest: any_conflict_occupied)
  have "get_overlapping_count d det (slot_start s) ?e =
      rowcount (\<lambda>a. overlaps det (slot_start s) ?e a \<and> \<not> starts_on date a) (appointments d)" if "is_available s"
    unfolding get_overlapping_count_def rowcount_def using that iff by (intro arg_cong [where f = length] filter_cong) auto
  with win iff range show ?thesis by blast
qed

text \<open>
  An accepted instant ride has no \<open>travel_buffer_end_time\<close>. When it is the detailer's first
  booking of the day, every candidate start makes the comparison raise.
\<close>

lemma slot_loop_none_raises:
  assumes "earliest < c + int k * minutes 30" "c + int k * minutes 30 + dur \<le> we"
    "c + int k * minutes 30 < we" "occ = (s, None) # rest"
  shows "slot_loop earliest we dur occ c = Inl TypeError"
proof (rule ccontr)
  assume "slot_loop earliest we dur occ c \<noteq> Inl TypeError"
  then obtain slots where slots: "slot_loop earliest we dur occ c = Inr slots"
    by (metis slot_loop_error sum.exhaust)
  have len: "length slots = nat ((we - c + minutes 30 - 1) div minutes 30)"
    and st: "\<forall>i < length slots. slot_start (slots ! i) = c + int i * minutes 30"
    using slot_loop_grid [OF slots] by auto
  have "(int k + 1) * minutes 30 \<le> we - c + minutes 30 - 1"
    using assms(3) by (simp add: algebra_simps)
  then have "(int k + 1) * minutes 30 div minutes 30 \<le> (we - c + minutes 30 - 1) div minutes 30"
    by (rule zdiv_mono1) (simp add: minutes_30)
  then have "int k + 1 \<le> (we - c + minutes 30 - 1) div minutes 30"
    by (simp add: minutes_30)
  with len have k: "k < length slots" by linarith
  with slot_loop_sound [OF slots nth_mem [OF k]] st
  have "slot_availability earliest we dur occ (c + int k * minutes 30) = Inr (is_available (slots ! k))"
    by simp
  with assms show False by (simp add: slot_availability_def)
qed

text \<open>
  An active booking with no \<open>travel_buffer_end_time\<close> (an accepted instant ride) that comes
  first in the day breaks the slot list: as soon as one half-hour start is far enough ahead and
  leaves room for the service, the request ends in an unhandled \<open>TypeError\<close> instead of a list.
\<close>

lemma null_buffer_breaks_slots:
  assumes "get_active_detailer d det = Some u"
    and "get_profile d det DETAILER = Some p" and "prof_active p"
    and "day_enabled (day_config_of (get_working_hours d det) date) \<noteq> Some False"
    and "work_window tz (get_profile d det DETAILER) (day_config_of (get_working_hours d det) date) date = Inr (ws, we)"
    and "occupied_on d det date = (s, None) # rest"
    and "now + minutes MIN_ADVANCE_BOOKING_MINUTES < ws + int k * minutes 30"
    and "ws + int k * minutes 30 + minutes (service_minutes st d service_id sz override ws) \<le> we"
    and "ws + int k * minutes 30 < we"
  shows "get_available_slots st tz now d det date service_id sz override = Inl TypeError"
  using assms slot_loop_none_raises [OF assms(7-9,6)] by (simp add: get_available_slots_def Let_def)

text \<open>
  The database of the witnesses: detailer 7 works from 08:00 to 10:00 UTC on day 20000 (a
  Friday) and holds one booking there.
\<close>

definition demo_detailer :: user where
  "demo_detailer = \<lparr>user_id = 7, email = ''det@example.com'', password_hash = ''h'',
     role_names = [''detailer''], user_active = True, user_verified = True, failed_login_attempts = 0,
     locked_until = None, onboarding_completed = True, token_version = 1, stripe_customer_id = None,
     last_step_up_at = None, active_role = None, user_deleted = False\<rparr>"

definition demo_profile :: provider_profile where
  "demo_profile = \<lparr>prof_id = 70, prof_user = 7, prof_type = DETAILER, prof_active = True,
     working_hours = [(''friday'', \<lparr>day_start = None, day_end = Some ''10:00'', day_enabled = Some True\<rparr>)],
     prof_timezone = ''UTC'', average_rating = None, total_reviews = 0, current_lat = None,
     current_lng = None, response_rate = 0, verification_status = ''approved'',
     verification_session = None, verification_reviewed_at = None, rejection_reason = None,
     application_status = ''approved'', prof_signup = blank_signup, prof_deleted = False\<rparr>"

definition demo_appointment :: "instant \<Rightarrow> instant option \<Rightarrow> appointment" where
  "demo_appointment t buffer = \<lparr>appt_id = 100, client_id = 1, detailer_id = Some 7,
     appt_vehicle = Some 3, appt_service = 5, scheduled_time = t, estimated_end_time = None,
     travel_buffer_end_time = buffer, arrived_at = None, started_at = None, completed_at = None,
     appt_status = CONFIRMED, estimated_price = 10000, actual_price = None, payment_intent = None,
     detailer_notes = None, appt_deleted = False\<rparr>"

definition demo_db :: "appointment list \<Rightarrow> db" where
  "demo_db appts = empty_db\<lparr>users := [demo_detailer], profiles := [demo_profile], appointments := appts\<rparr>"

definition utc_only :: "string \<Rightarrow> (int \<Rightarrow> instant) option" where
  "utc_only name = (if name = ''UTC'' then Some id else None)"

lemma demo_lookups:
  "get_active_detailer (demo_db as) 7 = Some demo_detailer"
  "get_profile (demo_db as) 7 DETAILER = Some demo_profile"
  "day_enabled (day_config_of (get_working_hours (demo_db as) 7) 20000) = Some True"
  by code_simp+

lemma demo_active: "prof_active demo_profile"
  by (simp add: demo_profile_def)

lemma demo_window:
  "work_window utc_only (Some demo_profile) (day_config_of (get_working_hours (demo_db as) 7) 20000) 20000
     = Inr (days 20000 + hours 8, days 20000 + hours 10)"
  by code_simp

lemma demo_occupied:
  "occupied_on (demo_db [demo_appointment (days 20000 + hours 9) b]) 7 20000 = [(days 20000 + hours 9, b)]"
  by (simp add: occupied_on_def get_active_for_detailer_on_date_def demo_db_def empty_db_def
      demo_appointment_def is_active_booking_def TERMINAL_STATUSES_def time_defs)

lemmas demo_evals = demo_active demo_lookups demo_window demo_occupied

definition demo_booked :: db where
  "demo_booked = demo_db [demo_appointment (days 20000 + hours 9) (Some (days 20000 + hours 9 + minutes 30))]"

text \<open>The booking at nine blocks the third of the four slots.\<close>

lemma demo_slots:
  "get_available_slots default_settings utc_only (days 20000) demo_booked 7 20000 None None None
   = Inr (map (\<lambda>(h, m, b). \<lparr>slot_start = days 20000 + hours h + minutes m,
                slot_end = days 20000 + hours h + minutes m + minutes 30, is_available = b\<rparr>)
            [(8, 0, True), (8, 30, True), (9, 0, False), (9, 30, True)])"
  unfolding demo_booked_def
  apply (simp add: get_available_slots_def demo_evals)
  apply (simp add: slot_loop.simps slot_availability_def service_minutes_def time_defs
      MIN_ADVANCE_BOOKING_MINUTES_def SLOT_GRANULARITY_MINUTES_def)
  done

lemma demo_not_conflicting: "\<not> (\<exists>a \<in> set (appointments demo_booked). \<not> starts_on 20000 a)"
  by (simp add: demo_booked_def demo_db_def demo_appointment_def starts_on_def time_defs)

text \<open>In the demo the slot at eight can be booked, and the one at nine is taken.\<close>

theorem slot_offered_iff_free_witness:
  "\<exists>e. get_overlapping_count demo_booked 7 (days 20000 + hours 8) e = 0 \<and>
     (\<exists>a \<in> set (appointments demo_booked). starts_on 20000 a)"
proof -
  let ?s = "\<lparr>slot_start = days 20000 + hours 8 + minutes 0, slot_end = days 20000 + hours 8 + minutes 0 + minutes 30, is_available = True\<rparr>"
  from slot_offered_iff_free [OF demo_slots, of ?s] obtain e where
    "get_overlapping_count demo_booked 7 (days 20000 + hours 8) e =
       rowcount (\<lambda>a. overlaps 7 (days 20000 + hours 8) e a \<and> \<not> starts_on 20000 a) (appointments demo_booked)"
    by (auto simp: time_defs)
  moreover have "rowcount (\<lambda>a. overlaps 7 (days 20000 + hours 8) e a \<and> \<not> starts_on 20000 a) (appointments demo_booked) = 0"
    using demo_not_conflicting by (auto simp: rowcount_zero)
  moreover have "\<exists>a \<in> set (appointments demo_booked). starts_on 20000 a"
    by (simp add: demo_booked_def demo_db_def demo_appointment_def starts_on_def time_defs)
  ultimately show ?thesis by auto
qed

text \<open>
  The list is computed from the bookings that start on the queried date in UTC and from no
  others, while the working day it lays the slots over is in the detailer's zone: dropping
  every booking outside the UTC day changes nothing, wherever the working day falls.
\<close>

lemma slots_see_only_the_utc_day:
  "get_available_slots st tz now
     (d\<lparr>appointments := filter (\<lambda>a. days date \<le> scheduled_time a \<and> scheduled_time a < days date + days 1)
                         (appointments d)\<rparr>) det date service_id sz override
   = get_available_slots st tz now d det date service_id sz override"
proof -
  let ?d = "d\<lparr>appointments := filter (\<lambda>a. days date \<le> scheduled_time a \<and> scheduled_time a < days date + days 1)
                         (appointments d)\<rparr>"
  have "occupied_on ?d det date = occupied_on d det date"
    by (simp add: occupied_on_def get_active_for_detailer_on_date_def conj_ac cong: conj_cong)
  moreover have "service_minutes st ?d service_id sz override ws
      = service_minutes st d service_id sz override ws" for ws
    unfolding service_minutes_def by (simp only: lookups_update_appointments)
  ultimately show ?thesis unfolding get_available_slots_def by (simp only: lookups_update_appointments)
qed

end
