(* ===== verification/Booking.thy ===== *)
theory Booking
  imports Availability
begin

text \<open>
  \<open>POST /api/v1/appointments\<close>: the request schema \<open>AppointmentCreate\<close> with its validators
  (domains/appointments/schemas.py) and \<open>AppointmentService.create_appointment\<close>
  (domains/appointments/service.py), with the constraints of the two satellite tables.
\<close>

section \<open>The request schema\<close>

record vehicle_entry =
  ve_vehicle :: uuid
  ve_service :: uuid
  ve_addons :: "uuid list"

record booking_payload =
  bp_detailer :: uuid
  bp_time :: instant
  bp_aware :: bool
  bp_address :: string
  bp_latitude :: "rat option"
  bp_longitude :: "rat option"
  bp_notes :: "string option"
  bp_vehicles :: "vehicle_entry list option"
  bp_vehicle_id :: "uuid option"
  bp_vehicle_ids :: "uuid list option"
  bp_addon_ids :: "uuid list"
  bp_service_id :: "uuid option"

record booking =
  bk_detailer :: uuid
  bk_time :: instant
  bk_entries :: "vehicle_entry list"

definition unprocessable :: "string \<Rightarrow> exn" where
  "unprocessable msg = HTTPException 422 msg"

text \<open>\<open>str_strip_whitespace\<close>: the ASCII part of Unicode White_Space.\<close>

definition field_isspace :: "char \<Rightarrow> bool" where
  "field_isspace c = (let n = (of_char c :: nat) in (9 \<le> n \<and> n \<le> 13) \<or> n = 32)"

definition field_strip :: "string \<Rightarrow> string" where
  "field_strip s = rev (dropWhile field_isspace (rev (dropWhile field_isspace s)))"

definition opt_len_ok :: "nat \<Rightarrow> nat \<Rightarrow> 'a list option \<Rightarrow> bool" where
  "opt_len_ok lo hi x = (case x of None \<Rightarrow> True | Some xs \<Rightarrow> lo \<le> length xs \<and> length xs \<le> hi)"

definition opt_in_range :: "rat \<Rightarrow> rat option \<Rightarrow> bool" where
  "opt_in_range r x = (case x of None \<Rightarrow> True | Some v \<Rightarrow> - r \<le> v \<and> v \<le> r)"

definition fields_ok :: "booking_payload \<Rightarrow> bool" where
  "fields_ok p \<longleftrightarrow>
     5 \<le> length (field_strip (bp_address p)) \<and> length (field_strip (bp_address p)) \<le> 255 \<and>
     opt_in_range 90 (bp_latitude p) \<and> opt_in_range 180 (bp_longitude p) \<and>
     opt_len_ok 0 2000 (map_option field_strip (bp_notes p)) \<and>
     opt_len_ok 1 10 (bp_vehicles p) \<and> opt_len_ok 1 10 (bp_vehicle_ids p)"

definition must_be_utc_and_future :: "instant \<Rightarrow> booking_payload \<Rightarrow> bool" where
  "must_be_utc_and_future now p \<longleftrightarrow> bp_aware p \<and> now < bp_time p"

definition normalize_vehicle_fields :: "booking_payload \<Rightarrow> vehicle_entry list result" where
  "normalize_vehicle_fields p =
     (let legacy = (\<lambda>vids.
            case bp_service_id p of
              None \<Rightarrow> Inl (unprocessable ''service_id es requerido con el formato legado.'')
            | Some sid \<Rightarrow> Inr (map (\<lambda>vid. \<lparr>ve_vehicle = vid, ve_service = sid,
                                          ve_addons = bp_addon_ids p\<rparr>) vids))
      in case bp_vehicles p of
           Some (v # vs) \<Rightarrow> Inr (v # vs)
         | _ \<Rightarrow> (case bp_vehicle_ids p of
                   Some (i # is) \<Rightarrow> legacy (i # is)
                 | _ \<Rightarrow> (case bp_vehicle_id p of
                           Some vid \<Rightarrow> legacy [vid]
                         | None \<Rightarrow> Inl (unprocessable ''Proporciona 'vehicles' o 'vehicle_id'/'vehicle_ids'.''))))"

definition validate_create :: "instant \<Rightarrow> booking_payload \<Rightarrow> booking result" where
  "validate_create now p =
     (if \<not> fields_ok p then Inl (unprocessable ''field'')
      else if \<not> must_be_utc_and_future now p then Inl (unprocessable ''scheduled_time'')
      else (case normalize_vehicle_fields p of
              Inl e \<Rightarrow> Inl e
            | Inr entries \<Rightarrow>
                if (bp_latitude p = None) \<noteq> (bp_longitude p = None)
                then Inl (unprocessable ''service_latitude y service_longitude deben proporcionarse juntos.'')
                else Inr \<lparr>bk_detailer = bp_detailer p, bk_time = bp_time p, bk_entries = entries\<rparr>))"

lemma normalize_length:
  "fields_ok p \<Longrightarrow> normalize_vehicle_fields p = Inr es \<Longrightarrow> es \<noteq> [] \<and> length es \<le> 10"
  by (auto simp: normalize_vehicle_fields_def fields_ok_def opt_len_ok_def Let_def
      split: option.splits list.splits)

lemma validate_create_Inr:
  assumes "validate_create now p = Inr bk"
  shows "now < bk_time bk" and "bk_entries bk \<noteq> []" and "length (bk_entries bk) \<le> 10"
    and "bk_detailer bk = bp_detailer p"
  using assms normalize_length [of p]
  by (auto simp: validate_create_def must_be_utc_and_future_def split: if_splits sum.splits)

lemma validate_create_error: "validate_create now p = Inl e \<Longrightarrow> \<exists>msg. e = HTTPException 422 msg"
  by (auto simp: validate_create_def normalize_vehicle_fields_def unprocessable_def Let_def
      split: if_splits sum.splits option.splits list.splits)


section \<open>create_appointment\<close>

text \<open>\<open>all_service_ids\<close> and \<open>all_addon_ids\<close> are sets; every miss is the same 404.\<close>

fun collect_services :: "db \<Rightarrow> uuid list \<Rightarrow> (uuid \<times> service) list result" where
  "collect_services d [] = Inr []"
| "collect_services d (sid # sids) =
     (case get_service d sid of
        None \<Rightarrow> Inl (HTTPException 404 ''Service not found or inactive.'')
      | Some svc \<Rightarrow>
          (case collect_services d sids of Inl e \<Rightarrow> Inl e | Inr m \<Rightarrow> Inr ((sid, svc) # m)))"

fun collect_vehicles ::
  "db \<Rightarrow> uuid \<Rightarrow> vehicle_entry list \<Rightarrow> (uuid \<times> vehicle) list \<Rightarrow> (uuid \<times> vehicle) list result" where
  "collect_vehicles d cid [] m = Inr m"
| "collect_vehicles d cid (e # es) m =
     (if map_of m (ve_vehicle e) \<noteq> None then collect_vehicles d cid es m
      else (case get_vehicle d (ve_vehicle e) of
              None \<Rightarrow> Inl (HTTPException 404 ''Vehicle not found.'')
            | Some v \<Rightarrow>
                if veh_owner v \<noteq> cid
                then Inl (HTTPException 422 ''Vehicle does not belong to your account.'')
                else collect_vehicles d cid es ((ve_vehicle e, v) # m)))"

definition collect_addons :: "db \<Rightarrow> uuid list \<Rightarrow> (uuid \<times> addon) list result" where
  "collect_addons d aids =
     (let found = get_many_addons d aids
      in if list_all (\<lambda>aid. aid \<in> set (map addon_id found)) aids
         then Inr (map (\<lambda>a. (addon_id a, a)) found)
         else Inl (HTTPException 404 ''Addon not found or inactive.''))"

record entry_calc =
  ec_vehicle :: vehicle
  ec_size :: vehicle_size
  ec_service :: service
  ec_addons :: "addon list"
  ec_price :: nat
  ec_duration :: nat

definition calc_entry ::
  "(uuid \<times> vehicle) list \<Rightarrow> (uuid \<times> service) list \<Rightarrow> (uuid \<times> addon) list \<Rightarrow> vehicle_entry \<Rightarrow> entry_calc result"
where
  "calc_entry vmap smap amap e =
     (case (map_of vmap (ve_vehicle e), map_of smap (ve_service e)) of
        (Some v, Some svc) \<Rightarrow>
          (let sz = map_body_to_size (body_class v);
               as = List.map_filter (map_of amap) (ve_addons e);
               (p, dur) = sum_addons as (ceil_scaled (base_price_cents svc) sz,
                                         ceil_scaled (base_duration_minutes svc) sz)
           in Inr \<lparr>ec_vehicle = v, ec_size = sz, ec_service = svc, ec_addons = as,
                   ec_price = p, ec_duration = dur\<rparr>)
      | _ \<Rightarrow> Inl KeyError)"

fun calc_entries ::
  "(vehicle_entry \<Rightarrow> entry_calc result) \<Rightarrow> vehicle_entry list \<Rightarrow> entry_calc list result" where
  "calc_entries f [] = Inr []"
| "calc_entries f (e # es) =
     (case f e of
        Inl x \<Rightarrow> Inl x
      | Inr c \<Rightarrow> (case calc_entries f es of Inl x \<Rightarrow> Inl x | Inr cs \<Rightarrow> Inr (c # cs)))"

definition total_price :: "entry_calc list \<Rightarrow> nat" where
  "total_price cs = sum_list (map ec_price cs)"

definition total_duration :: "entry_calc list \<Rightarrow> nat" where
  "total_duration cs = sum_list (map ec_duration cs)"

definition vehicle_row :: "uuid \<Rightarrow> entry_calc \<Rightarrow> appointment_vehicle" where
  "vehicle_row aid c =
     \<lparr>av_appointment = aid, av_vehicle = veh_id (ec_vehicle c), av_size = ec_size c,
      av_price = ceil_scaled (base_price_cents (ec_service c)) (ec_size c),
      av_duration = ceil_scaled (base_duration_minutes (ec_service c)) (ec_size c)\<rparr>"

definition addon_row :: "uuid \<Rightarrow> addon \<Rightarrow> appointment_addon" where
  "addon_row aid a = \<lparr>aa_appointment = aid, aa_addon = addon_id a,
                      aa_price = addon_price a, aa_duration = addon_duration a\<rparr>"

definition addon_rows :: "uuid \<Rightarrow> entry_calc list \<Rightarrow> appointment_addon list" where
  "addon_rows aid cs = concat (map (\<lambda>c. map (addon_row aid) (ec_addons c)) cs)"

text \<open>
  The flush of the satellite rows against \<open>uq_appointment_vehicle_pair\<close>,
  \<open>uq_appointment_addon_pair\<close> and the two \<open>CHECK (duration_minutes > 0)\<close>.
\<close>

definition flush_satellites ::
  "appointment_vehicle list \<Rightarrow> appointment_addon list \<Rightarrow> db \<Rightarrow> db result" where
  "flush_satellites avs aas d =
     (let avs' = appt_vehicles d @ avs; aas' = appt_addons d @ aas
      in if \<not> distinct (map (\<lambda>r. (av_appointment r, av_vehicle r)) avs')
         then Inl (IntegrityError ''uq_appointment_vehicle_pair'')
         else if \<not> list_all (\<lambda>r. 0 < av_duration r) avs
         then Inl (IntegrityError ''ck_appointment_vehicles_duration_positive'')
         else if \<not> distinct (map (\<lambda>r. (aa_appointment r, aa_addon r)) aas')
         then Inl (IntegrityError ''uq_appointment_addon_pair'')
         else if \<not> list_all (\<lambda>r. 0 < aa_duration r) aas
         then Inl (IntegrityError ''ck_appointment_addons_duration_positive'')
         else Inr (d\<lparr>appt_vehicles := avs', appt_addons := aas'\<rparr>))"

definition new_appointment ::
  "settings \<Rightarrow> uuid \<Rightarrow> uuid \<Rightarrow> booking \<Rightarrow> entry_calc \<Rightarrow> entry_calc list \<Rightarrow> appointment" where
  "new_appointment st aid cid bk first cs =
     (let ende = bk_time bk + minutes (int (total_duration cs))
      in \<lparr>appt_id = aid, client_id = cid, detailer_id = Some (bk_detailer bk),
          appt_vehicle = Some (veh_id (ec_vehicle first)), appt_service = svc_id (ec_service first),
          scheduled_time = bk_time bk, estimated_end_time = Some ende,
          travel_buffer_end_time = Some (ende + minutes (TRAVEL_BUFFER_MINUTES st)),
          arrived_at = None, started_at = None, completed_at = None, appt_status = PENDING,
          estimated_price = total_price cs, actual_price = None, payment_intent = None,
          detailer_notes = None, appt_deleted = False\<rparr>)"

type_synonym event = "string \<times> uuid"

text \<open>The part of the flow after the prices are known: lock, overlap check, inserts, audit, history.\<close>

definition book_slot ::
  "settings \<Rightarrow> uuid \<Rightarrow> booking \<Rightarrow> user \<Rightarrow> entry_calc list \<Rightarrow> db \<Rightarrow> ((appointment \<times> event list) \<times> db) result"
where
  "book_slot st aid bk client cs d =
     (let buffer_end = bk_time bk + minutes (int (total_duration cs)) + minutes (TRAVEL_BUFFER_MINUTES st)
      in if get_overlapping_count d (bk_detailer bk) (bk_time bk) buffer_end > 0
         then Inl (HTTPException 409 ''Detailer unavailable.'')
         else (case cs of
                 [] \<Rightarrow> Inl IndexError
               | first # _ \<Rightarrow>
                   (let a = new_appointment st aid (user_id client) bk first cs
                    in case flush_satellites (map (vehicle_row aid) cs) (addon_rows aid cs)
                              (create_appointment_row a d) of
                         Inl e \<Rightarrow> Inl e
                       | Inr d' \<Rightarrow>
                           Inr ((a, [(''appointment.created'', aid)]),
                                add_status_history aid None PENDING (Some (user_id client)) None
                                  (audit_log ''appointment_created'' ''appointment'' (Some (user_id client))
                                     [(''price_cents'', int (total_price cs)),
                                      (''duration_minutes'', int (total_duration cs))] d')))))"

definition create_appointment ::
  "settings \<Rightarrow> uuid \<Rightarrow> booking \<Rightarrow> user \<Rightarrow> db \<Rightarrow> ((appointment \<times> event list) \<times> db) result" where
  "create_appointment st aid bk client d =
     (if \<not> is_client client then Inl (HTTPException 400 ''Only clients can create bookings.'')
      else if bk_detailer bk = user_id client
      then Inl (HTTPException 400 ''You cannot book yourself as a detailer.'')
      else (case get_active_detailer d (bk_detailer bk) of
              None \<Rightarrow> Inl (HTTPException 404 ''Detailer not found or unavailable.'')
            | Some _ \<Rightarrow>
        (case collect_services d (remdups (map ve_service (bk_entries bk))) of
           Inl e \<Rightarrow> Inl e
         | Inr smap \<Rightarrow>
        (case collect_vehicles d (user_id client) (bk_entries bk) [] of
           Inl e \<Rightarrow> Inl e
         | Inr vmap \<Rightarrow>
        (case collect_addons d (remdups (concat (map ve_addons (bk_entries bk)))) of
           Inl e \<Rightarrow> Inl e
         | Inr amap \<Rightarrow>
        (case calc_entries (calc_entry vmap smap amap) (bk_entries bk) of
           Inl e \<Rightarrow> Inl e
         | Inr cs \<Rightarrow> book_slot st aid bk client cs d))))))"

text \<open>The endpoint: validate the body, run the service in one request.\<close>

definition post_appointment ::
  "settings \<Rightarrow> instant \<Rightarrow> uuid \<Rightarrow> booking_payload \<Rightarrow> user \<Rightarrow> db \<Rightarrow> (appointment \<times> event list) result \<times> db"
where
  "post_appointment st now aid p client d =
     (case validate_create now p of
        Inl e \<Rightarrow> (Inl e, d)
      | Inr bk \<Rightarrow> run_request (create_appointment st aid bk client) d)"


section \<open>What a booking is, without the bookkeeping\<close>

text \<open>The quote of one entry: tier price of the service for the vehicle, plus its add-ons.\<close>

definition quote_entry :: "db \<Rightarrow> vehicle_entry \<Rightarrow> entry_calc option" where
  "quote_entry d e =
     (case (get_vehicle d (ve_vehicle e), get_service d (ve_service e)) of
        (Some v, Some svc) \<Rightarrow>
          (let sz = map_body_to_size (body_class v); as = get_many_addons d (ve_addons e)
           in Some \<lparr>ec_vehicle = v, ec_size = sz, ec_service = svc, ec_addons = as,
                    ec_price = ceil_scaled (base_price_cents svc) sz + (\<Sum>a\<leftarrow>as. addon_price a),
                    ec_duration = ceil_scaled (base_duration_minutes svc) sz + (\<Sum>a\<leftarrow>as. addon_duration a)\<rparr>)
      | _ \<Rightarrow> None)"

definition quotes :: "db \<Rightarrow> booking \<Rightarrow> entry_calc list" where
  "quotes d bk = List.map_filter (quote_entry d) (bk_entries bk)"

text \<open>Everything the flow checks before it takes the lock.\<close>

definition booking_allowed :: "db \<Rightarrow> user \<Rightarrow> booking \<Rightarrow> bool" where
  "booking_allowed d client bk \<longleftrightarrow>
     is_client client \<and> bk_detailer bk \<noteq> user_id client \<and>
     get_active_detailer d (bk_detailer bk) \<noteq> None \<and>
     (\<forall>e \<in> set (bk_entries bk).
        get_service d (ve_service e) \<noteq> None \<and>
        (\<exists>v. get_vehicle d (ve_vehicle e) = Some v \<and> veh_owner v = user_id client) \<and>
        (\<forall>aid \<in> set (ve_addons e). get_addon d aid \<noteq> None))"

lemma collect_services_Inr:
  "collect_services d sids = Inr m \<Longrightarrow> sid \<in> set sids \<Longrightarrow> map_of m sid = get_service d sid \<and> get_service d sid \<noteq> None"
  by (induction sids arbitrary: m) (auto split: option.splits sum.splits)

lemma collect_services_ok_iff:
  "is_ok (collect_services d sids) \<longleftrightarrow> (\<forall>sid \<in> set sids. get_service d sid \<noteq> None)"
  by (induction sids) (auto split: option.splits sum.splits)

abbreviation owned :: "db \<Rightarrow> uuid \<Rightarrow> uuid \<Rightarrow> vehicle \<Rightarrow> bool" where
  "owned d cid vid v \<equiv> get_vehicle d vid = Some v \<and> veh_owner v = cid"

lemma collect_vehicles_Inr:
  "collect_vehicles d cid es m = Inr m' \<Longrightarrow> (\<forall>vid v. map_of m vid = Some v \<longrightarrow> owned d cid vid v) \<Longrightarrow>
     (\<forall>vid v. map_of m' vid = Some v \<longrightarrow> owned d cid vid v) \<and>
     (\<forall>vid. map_of m vid \<noteq> None \<longrightarrow> map_of m' vid \<noteq> None) \<and>
     (\<forall>e \<in> set es. map_of m' (ve_vehicle e) \<noteq> None)"
proof (induction d cid es m rule: collect_vehicles.induct)
  case (2 d cid e es m)
  show ?case
  proof (cases "map_of m (ve_vehicle e) = None")
    case False
    then show ?thesis using 2 by auto
  next
    case True
    with "2.prems" obtain v where v: "owned d cid (ve_vehicle e) v"
      and rest: "collect_vehicles d cid es ((ve_vehicle e, v) # m) = Inr m'"
      by (auto split: option.splits if_splits)
    have "\<forall>vid w. map_of ((ve_vehicle e, v) # m) vid = Some w \<longrightarrow> owned d cid vid w"
      using v "2.prems"(2) by simp
    from "2.IH"(2) [OF _ _ _ rest this] True v
    have ih: "\<forall>vid w. map_of m' vid = Some w \<longrightarrow> owned d cid vid w"
      "\<forall>vid. map_of ((ve_vehicle e, v) # m) vid \<noteq> None \<longrightarrow> map_of m' vid \<noteq> None"
      "\<forall>x \<in> set es. map_of m' (ve_vehicle x) \<noteq> None" by blast+
    from ih(2) have "map_of m' (ve_vehicle e) \<noteq> None"
      and "\<forall>vid. map_of m vid \<noteq> None \<longrightarrow> map_of m' vid \<noteq> None" by simp_all
    with ih(1,3) show ?thesis by simp
  qed
qed simp

lemma collect_vehicles_ok_iff:
  "(\<forall>vid v. map_of m vid = Some v \<longrightarrow> owned d cid vid v) \<Longrightarrow>
     is_ok (collect_vehicles d cid es m) \<longleftrightarrow> (\<forall>e \<in> set es. \<exists>v. owned d cid (ve_vehicle e) v)"
proof (induction d cid es m rule: collect_vehicles.induct)
  case (2 d cid e es m)
  show ?case
  proof (cases "map_of m (ve_vehicle e)")
    case (Some v)
    with 2 have "owned d cid (ve_vehicle e) v" by blast
    with Some 2 show ?thesis by simp
  next
    case None
    show ?thesis
    proof (cases "\<exists>v. owned d cid (ve_vehicle e) v")
      case True
      then obtain v where v: "owned d cid (ve_vehicle e) v" by blast
      with "2.prems" have "\<forall>vid w. map_of ((ve_vehicle e, v) # m) vid = Some w \<longrightarrow> owned d cid vid w" by simp
      with "2.IH"(2) [of v] None v show ?thesis by simp
    next
      case False
      with None show ?thesis by (auto split: option.split)
    qed
  qed
qed simp

lemma ids_get_many: "set (map addon_id (get_many_addons d aids)) = {aid \<in> set aids. get_addon d aid \<noteq> None}"
  by (induction aids) (auto simp: get_many_addons_def List.map_filter_simps dest: get_addon_SomeD split: option.splits)

lemma map_of_get_many:
  "aid \<in> set aids \<Longrightarrow> map_of (map (\<lambda>a. (addon_id a, a)) (get_many_addons d aids)) aid = get_addon d aid"
proof -
  assume aid: "aid \<in> set aids"
  let ?m = "map_of (map (\<lambda>a. (addon_id a, a)) (get_many_addons d aids))"
  have dom: "?m aid = None \<longleftrightarrow> get_addon d aid = None"
    using ids_get_many [of d aids] aid by (simp add: map_of_eq_None_iff image_image)
  show ?thesis
  proof (cases "?m aid")
    case None
    with dom show ?thesis by simp
  next
    case (Some a)
    then have "a \<in> set (get_many_addons d aids)" "addon_id a = aid" by (auto dest!: map_of_SomeD)
    then obtain x where x: "get_addon d x = Some a" by (auto simp: set_get_many_addons)
    with \<open>addon_id a = aid\<close> have "x = aid" by (auto dest: get_addon_SomeD)
    with x Some show ?thesis by simp
  qed
qed

lemma collect_addons_Inr:
  "collect_addons d aids = Inr m \<Longrightarrow> aid \<in> set aids \<Longrightarrow> map_of m aid = get_addon d aid"
  by (auto simp: collect_addons_def Let_def map_of_get_many split: if_splits)

lemma collect_addons_ok_iff:
  "is_ok (collect_addons d aids) \<longleftrightarrow> (\<forall>aid \<in> set aids. get_addon d aid \<noteq> None)"
  unfolding collect_addons_def Let_def list_all_iff ids_get_many by auto

lemma calc_entry_quote:
  assumes "map_of vmap (ve_vehicle e) = get_vehicle d (ve_vehicle e)" "get_vehicle d (ve_vehicle e) \<noteq> None"
    and "map_of smap (ve_service e) = get_service d (ve_service e)" "get_service d (ve_service e) \<noteq> None"
    and "\<forall>aid \<in> set (ve_addons e). map_of amap aid = get_addon d aid"
  shows "\<exists>c. calc_entry vmap smap amap e = Inr c \<and> quote_entry d e = Some c"
proof -
  have "List.map_filter (map_of amap) (ve_addons e) = get_many_addons d (ve_addons e)"
    using assms(5) unfolding get_many_addons_def by (intro map_filter_cong) simp
  with assms show ?thesis by (auto simp: calc_entry_def quote_entry_def Let_def sum_addons_eq)
qed

lemma calc_entries_quotes:
  "(\<And>e. e \<in> set es \<Longrightarrow> \<exists>c. f e = Inr c \<and> q e = Some c) \<Longrightarrow>
     calc_entries f es = Inr (List.map_filter q es)"
proof (induction es)
  case (Cons e es)
  from Cons.prems [of e] obtain c where "f e = Inr c" "q e = Some c" by auto
  moreover have "calc_entries f es = Inr (List.map_filter q es)"
    using Cons.prems by (intro Cons.IH) simp
  ultimately show ?case by (simp add: List.map_filter_simps)
qed (simp add: List.map_filter_simps)

text \<open>
  Every check passes: what is left is the locked part, on the quotes read off the database. Some
  check fails: the request is refused before anything is written.
\<close>

lemma create_appointment_allowed:
  assumes "booking_allowed d client bk"
  shows "create_appointment st aid bk client d = book_slot st aid bk client (quotes d bk) d"
proof -
  let ?es = "bk_entries bk"
  note ok = assms [unfolded booking_allowed_def]
  from ok have "is_ok (collect_services d (remdups (map ve_service ?es)))"
    by (simp add: collect_services_ok_iff)
  then obtain smap where smap: "collect_services d (remdups (map ve_service ?es)) = Inr smap" by (rule is_okE)
  from ok have "is_ok (collect_vehicles d (user_id client) ?es [])"
    by (simp add: collect_vehicles_ok_iff)
  then obtain vmap where vmap: "collect_vehicles d (user_id client) ?es [] = Inr vmap" by (rule is_okE)
  from ok have "is_ok (collect_addons d (remdups (concat (map ve_addons ?es))))"
    by (simp add: collect_addons_ok_iff)
  then obtain amap where amap: "collect_addons d (remdups (concat (map ve_addons ?es))) = Inr amap" by (rule is_okE)
  have "\<exists>c. calc_entry vmap smap amap e = Inr c \<and> quote_entry d e = Some c" if e: "e \<in> set ?es" for e
  proof (rule calc_entry_quote)
    show "get_vehicle d (ve_vehicle e) \<noteq> None" and "get_service d (ve_service e) \<noteq> None" using ok e by auto
    show "map_of smap (ve_service e) = get_service d (ve_service e)"
      using collect_services_Inr [OF smap] e by simp
    show "map_of vmap (ve_vehicle e) = get_vehicle d (ve_vehicle e)"
      using collect_vehicles_Inr [OF vmap] e by fastforce
    show "\<forall>aid \<in> set (ve_addons e). map_of amap aid = get_addon d aid"
      using collect_addons_Inr [OF amap] e by auto
  qed
  then have "calc_entries (calc_entry vmap smap amap) ?es = Inr (quotes d bk)"
    unfolding quotes_def by (rule calc_entries_quotes)
  with ok smap vmap amap show ?thesis by (auto simp: create_appointment_def)
qed

lemma collect_services_error: "collect_services d sids = Inl e \<Longrightarrow> \<exists>msg. e = HTTPException 404 msg"
  by (induction sids) (auto split: option.splits sum.splits)

lemma collect_vehicles_error:
  "collect_vehicles d cid es m = Inl e \<Longrightarrow> \<exists>c msg. e = HTTPException c msg \<and> c \<in> {404, 422}"
  by (induction d cid es m rule: collect_vehicles.induct) (auto split: option.splits if_splits)

lemma create_appointment_refused:
  assumes "\<not> booking_allowed d client bk"
  shows "\<exists>c msg. create_appointment st aid bk client d = Inl (HTTPException c msg) \<and> c \<in> {400, 404, 422}"
proof -
  let ?es = "bk_entries bk"
  let ?s = "collect_services d (remdups (map ve_service ?es))"
  let ?v = "collect_vehicles d (user_id client) ?es []"
  let ?a = "collect_addons d (remdups (concat (map ve_addons ?es)))"
  consider "\<not> is_client client \<or> bk_detailer bk = user_id client \<or> get_active_detailer d (bk_detailer bk) = None"
    | "\<not> is_ok ?s" | "\<not> is_ok ?v" | "\<not> is_ok ?a"
    using assms
    by (auto simp: booking_allowed_def collect_services_ok_iff collect_vehicles_ok_iff collect_addons_ok_iff)
  then show ?thesis
  proof cases
    case 1
    then show ?thesis by (auto simp: create_appointment_def)
  next
    case 2
    then show ?thesis
      by (cases ?s) (auto simp: create_appointment_def dest!: collect_services_error split: option.splits)
  next
    case 3
    then show ?thesis
      by (cases ?s; cases ?v) (auto simp: create_appointment_def
          dest!: collect_services_error collect_vehicles_error split: option.splits)
  next
    case 4
    then show ?thesis
      by (cases ?s; cases ?v) (auto simp: create_appointment_def collect_addons_def Let_def
          dest!: collect_services_error collect_vehicles_error split: option.splits if_splits)
  qed
qed

section \<open>Properties of the booking flow\<close>

definition booking_end :: "settings \<Rightarrow> booking \<Rightarrow> entry_calc list \<Rightarrow> instant" where
  "booking_end st bk cs =
     bk_time bk + minutes (int (total_duration cs)) + minutes (TRAVEL_BUFFER_MINUTES st)"

lemma flush_satellites_Inr:
  "flush_satellites avs aas d = Inr d' \<Longrightarrow>
     d' = d\<lparr>appt_vehicles := appt_vehicles d @ avs, appt_addons := appt_addons d @ aas\<rparr>"
  by (auto simp: flush_satellites_def Let_def split: if_splits)

lemma book_slot_InrE:
  assumes "book_slot st aid bk client cs d = Inr ((a, evs), d')"
  obtains "cs \<noteq> []" "get_overlapping_count d (bk_detailer bk) (bk_time bk) (booking_end st bk cs) = 0"
    "a = new_appointment st aid (user_id client) bk (hd cs) cs"
    "appointments d' = appointments d @ [a]"
    "appt_vehicles d' = appt_vehicles d @ map (vehicle_row aid) cs"
    "appt_addons d' = appt_addons d @ addon_rows aid cs"
  using assms
  by (auto simp: book_slot_def booking_end_def Let_def create_appointment_row_def
      add_status_history_def split: if_splits list.splits sum.splits dest!: flush_satellites_Inr)

lemma book_slot_error:
  "book_slot st aid bk client cs d = Inl e \<Longrightarrow>
     e = HTTPException 409 ''Detailer unavailable.'' \<or> e = IndexError \<or> (\<exists>c. e = IntegrityError c)"
  by (auto simp: book_slot_def flush_satellites_def Let_def split: if_splits list.splits sum.splits)

lemma create_appointment_InrD:
  assumes "create_appointment st aid bk client d = Inr r"
  shows "booking_allowed d client bk \<and> book_slot st aid bk client (quotes d bk) d = Inr r"
  using assms create_appointment_refused [of d client bk st aid] create_appointment_allowed [of d client bk st aid]
  by (cases "booking_allowed d client bk") auto

lemma quotes_map:
  "booking_allowed d client bk \<Longrightarrow> quotes d bk = map (\<lambda>e. the (quote_entry d e)) (bk_entries bk)"
proof -
  assume ok: "booking_allowed d client bk"
  have "\<forall>e \<in> set (bk_entries bk). quote_entry d e \<noteq> None"
    using ok by (auto simp: booking_allowed_def quote_entry_def Let_def)
  then show ?thesis unfolding quotes_def
    by (induction "bk_entries bk" arbitrary: bk rule: list.induct) (auto simp: List.map_filter_def)
qed

lemma busy_new_appointment:
  "busy_interval det (new_appointment st aid cid bk first cs) =
     (if det = bk_detailer bk then [(bk_time bk, booking_end st bk cs)] else [])"
  by (auto simp: busy_interval_def new_appointment_def booking_end_def is_active_booking_def
      TERMINAL_STATUSES_def Let_def)

lemma create_keeps_exclusive:
  assumes "create_appointment st aid bk client d = Inr ((a, evs), d')" and "no_double_booking d det"
  shows "no_double_booking d' det"
proof -
  let ?cs = "quotes d bk"
  from assms(1) have "book_slot st aid bk client ?cs d = Inr ((a, evs), d')"
    by (blast dest: create_appointment_InrD)
  then obtain free: "get_overlapping_count d (bk_detailer bk) (bk_time bk) (booking_end st bk ?cs) = 0"
    and a: "a = new_appointment st aid (user_id client) bk (hd ?cs) ?cs"
    and rows: "appointments d' = appointments d @ [a]"
    by (rule book_slot_InrE)
  have "no_double_booking (create_appointment_row a d) det"
  proof (cases "det = bk_detailer bk")
    case True
    with assms(2) free a show ?thesis unfolding no_double_booking_exclusive
      by (intro appt_cal.book_keeps_exclusive) (simp_all add: busy_new_appointment)
  next
    case False
    with assms(2) a show ?thesis unfolding no_double_booking_exclusive
      by (subst appt_cal.book_frame) (simp_all add: busy_new_appointment)
  qed
  with rows show ?thesis
    by (simp add: no_double_booking_def busy_intervals_cong [of d' "create_appointment_row a d"]
        create_appointment_row_def)
qed

lemma book_slot_distinct:
  "book_slot st aid bk client cs d = Inr x \<Longrightarrow>
     distinct (map (\<lambda>r. (aa_appointment r, aa_addon r)) (addon_rows aid cs)) \<and>
     distinct (map (\<lambda>r. (av_appointment r, av_vehicle r)) (map (vehicle_row aid) cs))"
  by (auto simp: book_slot_def flush_satellites_def Let_def split: if_splits list.splits sum.splits)

lemma book_slot_durations:
  "book_slot st aid bk client cs d = Inr x \<Longrightarrow> \<forall>r \<in> set (addon_rows aid cs). 0 < aa_duration r"
  by (auto simp: book_slot_def flush_satellites_def Let_def list_all_iff split: if_splits list.splits sum.splits)

lemma get_many_addons_Nil: "get_many_addons d aids = [] \<longleftrightarrow> (\<forall>aid \<in> set aids. get_addon d aid = None)"
  by (induction aids) (auto simp: get_many_addons_def List.map_filter_simps split: option.splits)

lemma shared_addon_not_distinct:
  "ec_addons c1 = ec_addons c2 \<Longrightarrow> ec_addons c1 \<noteq> [] \<Longrightarrow>
     \<not> distinct (map (\<lambda>r. (aa_appointment r, aa_addon r)) (addon_rows aid (c1 # c2 # cs)))"
  by (cases "ec_addons c2") (auto simp: addon_rows_def addon_row_def)

text \<open>
  C1. No double booking: if no two active bookings of any detailer overlap, travel buffers
  included, then they still do not after a booking request, whatever its body, its caller and its
  outcome.
\<close>

theorem booking_never_double_books:
  assumes "\<And>det. no_double_booking d det"
    and "post_appointment st now aid p client d = (r, d')"
  shows "no_double_booking d' det"
proof (cases "validate_create now p")
  case (Inl e)
  with assms show ?thesis by (simp add: post_appointment_def)
next
  case (Inr bk)
  with assms create_keeps_exclusive [of st aid bk client d] show ?thesis
    by (auto simp: post_appointment_def run_request_def split: sum.splits prod.splits)
qed

text \<open>
  C3. When a booking goes through: exactly if the caller is a client other than the detailer, the
  detailer is active, every service and add-on exists and is active, every vehicle exists and is
  the caller's, the window with its travel buffer is free, and the satellite rows satisfy their
  constraints. Nothing else makes it fail.
\<close>

theorem create_appointment_succeeds_iff:
  "(\<exists>x. create_appointment st aid bk client d = Inr x) \<longleftrightarrow>
     booking_allowed d client bk \<and> bk_entries bk \<noteq> [] \<and>
     get_overlapping_count d (bk_detailer bk) (bk_time bk) (booking_end st bk (quotes d bk)) = 0 \<and>
     is_ok (flush_satellites (map (vehicle_row aid) (quotes d bk)) (addon_rows aid (quotes d bk)) d)"
proof (cases "booking_allowed d client bk")
  case False
  then show ?thesis using create_appointment_refused [OF False, of st aid] by auto
next
  case True
  have flush: "flush_satellites avs aas (create_appointment_row a d)
      = (case flush_satellites avs aas d of Inl e \<Rightarrow> Inl e | Inr d' \<Rightarrow> Inr (create_appointment_row a d'))"
    for avs aas a by (simp add: flush_satellites_def create_appointment_row_def Let_def)
  have "(\<exists>x. book_slot st aid bk client cs d = Inr x) \<longleftrightarrow> cs \<noteq> [] \<and>
     get_overlapping_count d (bk_detailer bk) (bk_time bk) (booking_end st bk cs) = 0 \<and>
     is_ok (flush_satellites (map (vehicle_row aid) cs) (addon_rows aid cs) d)" for cs
    by (cases cs; cases "flush_satellites (map (vehicle_row aid) cs) (addon_rows aid cs) d")
       (auto simp: book_slot_def booking_end_def flush Let_def simp del: list.map)
  moreover have "quotes d bk \<noteq> [] \<longleftrightarrow> bk_entries bk \<noteq> []" using quotes_map [OF True] by simp
  ultimately show ?thesis using True create_appointment_allowed [OF True] by simp
qed

text \<open>The price of one entry in whole cents, without the float multiplier.\<close>

definition entry_price :: "db \<Rightarrow> vehicle_entry \<Rightarrow> nat" where
  "entry_price d e =
     (case (get_vehicle d (ve_vehicle e), get_service d (ve_service e)) of
        (Some v, Some s) \<Rightarrow> exact_scaled (base_price_cents s) (map_body_to_size (body_class v))
                            + (\<Sum>a\<leftarrow>get_many_addons d (ve_addons e). addon_price a)
      | _ \<Rightarrow> 0)"

lemma total_price_rows:
  "(\<And>c. c \<in> set cs \<Longrightarrow> ec_price c = ceil_scaled (base_price_cents (ec_service c)) (ec_size c)
        + (\<Sum>a\<leftarrow>ec_addons c. addon_price a)) \<Longrightarrow>
   total_price cs = (\<Sum>r\<leftarrow>map (vehicle_row aid) cs. av_price r) + (\<Sum>r\<leftarrow>addon_rows aid cs. aa_price r)"
  by (induction cs) (auto simp: total_price_def vehicle_row_def addon_rows_def addon_row_def o_def)

lemma quote_entry_Some:
  "quote_entry d e = Some c \<Longrightarrow>
     ec_price c = ceil_scaled (base_price_cents (ec_service c)) (ec_size c) + (\<Sum>a\<leftarrow>ec_addons c. addon_price a)
     \<and> ec_service c \<in> set (services d)"
  by (auto simp: quote_entry_def Let_def dest: get_service_SomeD split: option.splits)

lemma set_quotes: "c \<in> set (quotes d bk) \<longleftrightarrow> (\<exists>e \<in> set (bk_entries bk). quote_entry d e = Some c)"
  unfolding quotes_def by (induction "bk_entries bk" arbitrary: bk rule: list.induct)
    (auto simp: List.map_filter_def image_iff)

text \<open>
  C4. The price on a created appointment is the exact sum over its entries, tier price plus
  add-ons, in whole cents (the float multipliers introduce no error on PostgreSQL integers), and
  the vehicle and add-on rows written with it add up to that price.
\<close>

theorem booking_price_exact:
  assumes "create_appointment st aid bk client d = Inr ((a, evs), d')"
    and int4: "\<And>s. s \<in> set (services d) \<Longrightarrow> base_price_cents s < 2 ^ 31"
  shows "estimated_price a = (\<Sum>e\<leftarrow>bk_entries bk. entry_price d e) \<and>
         (\<exists>avs aas. appt_vehicles d' = appt_vehicles d @ avs \<and> appt_addons d' = appt_addons d @ aas \<and>
            (\<forall>r \<in> set avs. av_appointment r = appt_id a) \<and> (\<forall>r \<in> set aas. aa_appointment r = appt_id a) \<and>
            (\<Sum>r\<leftarrow>avs. av_price r) + (\<Sum>r\<leftarrow>aas. aa_price r) = estimated_price a)"
proof -
  let ?cs = "quotes d bk"
  from assms(1) have ok: "booking_allowed d client bk"
    and "book_slot st aid bk client ?cs d = Inr ((a, evs), d')"
    by (blast dest: create_appointment_InrD)+
  from this(2) obtain a: "a = new_appointment st aid (user_id client) bk (hd ?cs) ?cs"
    and rows: "appt_vehicles d' = appt_vehicles d @ map (vehicle_row aid) ?cs"
      "appt_addons d' = appt_addons d @ addon_rows aid ?cs"
    by (rule book_slot_InrE)
  have price: "estimated_price a = total_price ?cs" and aid: "appt_id a = aid"
    by (simp_all add: a new_appointment_def Let_def)
  have sum: "total_price ?cs = (\<Sum>r\<leftarrow>map (vehicle_row aid) ?cs. av_price r) + (\<Sum>r\<leftarrow>addon_rows aid ?cs. aa_price r)"
    by (rule total_price_rows) (auto simp: set_quotes dest: quote_entry_Some)
  have "ec_price (the (quote_entry d e)) = entry_price d e" if e: "e \<in> set (bk_entries bk)" for e
  proof -
    from ok e obtain v s where "get_vehicle d (ve_vehicle e) = Some v" and s: "get_service d (ve_service e) = Some s"
      by (auto simp: booking_allowed_def)
    moreover have "base_price_cents s < 2 ^ 31" using int4 s by (blast dest: get_service_SomeD)
    ultimately show ?thesis by (simp add: quote_entry_def entry_price_def Let_def ceil_scaled_exact)
  qed
  then have "total_price ?cs = (\<Sum>e\<leftarrow>bk_entries bk. entry_price d e)"
    by (simp add: total_price_def quotes_map [OF ok] o_def cong: map_cong)
  with price sum rows aid show ?thesis
    by (intro conjI exI [of _ "map (vehicle_row aid) ?cs"] exI [of _ "addon_rows aid ?cs"])
       (auto simp: vehicle_row_def addon_rows_def addon_row_def)
qed

text \<open>
  The legacy request format copies the list of add-ons to every vehicle, and an appointment
  may hold an add-on only once: a request in that format with two or more vehicles and at least
  one add-on is never booked, whatever the database holds.
\<close>

lemma legacy_multi_vehicle_addons_fail:
  assumes "bp_vehicles p = None" and "bp_vehicle_ids p = Some (v1 # v2 # vs)" and "bp_addon_ids p \<noteq> []"
    and "post_appointment st now aid p client d = (r, d')"
  shows "\<exists>e. r = Inl e \<and> d' = d"
proof (cases "validate_create now p")
  case (Inl e)
  with assms(4) show ?thesis by (auto simp: post_appointment_def)
next
  case (Inr bk)
  from Inr assms(1,2) obtain sid where es: "bk_entries bk =
      map (\<lambda>vid. \<lparr>ve_vehicle = vid, ve_service = sid, ve_addons = bp_addon_ids p\<rparr>) (v1 # v2 # vs)"
    by (auto simp: validate_create_def normalize_vehicle_fields_def Let_def split: if_splits option.splits)
  let ?c1 = "the (quote_entry d (hd (bk_entries bk)))" and ?c2 = "the (quote_entry d (bk_entries bk ! 1))"
  have "create_appointment st aid bk client d \<noteq> Inr x" for x
  proof
    assume x: "create_appointment st aid bk client d = Inr x"
    then have ok: "booking_allowed d client bk" and book: "book_slot st aid bk client (quotes d bk) d = Inr x"
      by (blast dest: create_appointment_InrD)+
    obtain rest where two: "quotes d bk = ?c1 # ?c2 # rest"
      by (simp add: quotes_map [OF ok] es)
    from ok es have "ec_addons ?c1 = ec_addons ?c2" and "ec_addons ?c1 \<noteq> []"
      using assms(3) by (auto simp: booking_allowed_def quote_entry_def Let_def get_many_addons_Nil)
    from shared_addon_not_distinct [OF this] book_slot_distinct [OF book] show False
      unfolding two by blast
  qed
  with Inr assms(4) show ?thesis
    by (cases "create_appointment st aid bk client d") (auto simp: post_appointment_def run_request_def)
qed

text \<open>
  The catalogue allows an add-on that takes no time, the add-on rows of an appointment do not:
  a booking that names such an add-on never goes through.
\<close>

lemma zero_duration_addon_fails:
  assumes "e \<in> set (bk_entries bk)" and "aid \<in> set (ve_addons e)"
    and "get_addon d aid = Some a" and "addon_duration a = 0"
  shows "\<exists>err. create_appointment st new_id bk client d = Inl err"
proof (cases "create_appointment st new_id bk client d")
  case (Inr x)
  then have ok: "booking_allowed d client bk" and book: "book_slot st new_id bk client (quotes d bk) d = Inr x"
    by (blast dest: create_appointment_InrD)+
  from ok assms(1) obtain c where c: "quote_entry d e = Some c" "ec_addons c = get_many_addons d (ve_addons e)"
    by (auto simp: booking_allowed_def quote_entry_def Let_def)
  from c(2) assms(2,3) have "a \<in> set (ec_addons c)" by (auto simp: set_get_many_addons)
  moreover from c(1) assms(1) have "c \<in> set (quotes d bk)" by (auto simp: set_quotes)
  ultimately have "addon_row new_id a \<in> set (addon_rows new_id (quotes d bk))" by (auto simp: addon_rows_def)
  with book_slot_durations [OF book] assms(4) show ?thesis by (force simp: addon_row_def)
qed blast

section \<open>A concrete market\<close>

definition demo_client :: user where
  "demo_client = demo_detailer\<lparr>user_id := 1, role_names := [''client'']\<rparr>"

definition demo_service :: service where
  "demo_service = \<lparr>svc_id = 5, base_price_cents = 10000, base_duration_minutes = 60, price_small = 10000,
     price_medium = 12000, price_large = 15000, price_xl = 20000, svc_active = True, svc_deleted = False\<rparr>"

definition demo_addon :: addon where
  "demo_addon = \<lparr>addon_id = 9, addon_price = 1500, addon_duration = 15, addon_active = True, addon_deleted = False\<rparr>"

definition demo_vehicle :: "uuid \<Rightarrow> vehicle" where
  "demo_vehicle vid = \<lparr>veh_id = vid, veh_owner = 1, body_class = Some ''Pickup'', veh_deleted = False\<rparr>"

definition demo_market :: db where
  "demo_market = (demo_db [])\<lparr>users := [demo_client, demo_detailer], services := [demo_service],
     addons := [demo_addon], vehicles := [demo_vehicle 3, demo_vehicle 4]\<rparr>"

definition demo_payload :: "uuid list \<Rightarrow> booking_payload" where
  "demo_payload vids = \<lparr>bp_detailer = 7, bp_time = days 20000 + hours 9, bp_aware = True,
     bp_address = ''12 Main Street'', bp_latitude = None, bp_longitude = None, bp_notes = None,
     bp_vehicles = None, bp_vehicle_id = None, bp_vehicle_ids = Some vids, bp_addon_ids = [9], bp_service_id = Some 5\<rparr>"

definition demo_booking :: booking where
  "demo_booking = \<lparr>bk_detailer = 7, bk_time = days 20000 + hours 9,
     bk_entries = [\<lparr>ve_vehicle = 3, ve_service = 5, ve_addons = [9]\<rparr>]\<rparr>"

lemma demo_validates: "validate_create (days 20000) (demo_payload [3]) = Inr demo_booking"
  by code_simp

lemmas demo_defs = demo_market_def demo_db_def empty_db_def demo_client_def demo_detailer_def
  demo_service_def demo_addon_def demo_vehicle_def demo_booking_def

lemma demo_allowed: "booking_allowed demo_market demo_client demo_booking"
  by (simp add: booking_allowed_def demo_defs get_active_detailer_def get_service_def get_vehicle_def
      get_addon_def role_defs)

lemma pickup_large: "map_body_to_size (Some ''Pickup'') = LARGE"
  by code_simp

text \<open>A pickup is a LARGE: 150.00 for the service and 15.00 for the add-on, 90 and 15 minutes.\<close>

lemma demo_quotes:
  "quotes demo_market demo_booking =
     [\<lparr>ec_vehicle = demo_vehicle 3, ec_size = LARGE, ec_service = demo_service, ec_addons = [demo_addon],
       ec_price = 16500, ec_duration = 105\<rparr>]"
  by (simp add: quotes_def List.map_filter_simps quote_entry_def demo_defs get_service_def get_vehicle_def
      get_many_addons_def get_addon_def pickup_large ceil_scaled_exact exact_scaled_def)

definition demo_created :: "uuid \<Rightarrow> appointment" where
  "demo_created aid = new_appointment default_settings aid 1 demo_booking (hd (quotes demo_market demo_booking))
     (quotes demo_market demo_booking)"

lemma demo_books:
  "\<exists>evs d'. create_appointment default_settings 100 demo_booking demo_client demo_market
     = Inr ((demo_created 100, evs), d')"
  unfolding create_appointment_allowed [OF demo_allowed] demo_created_def demo_quotes
  by (simp add: book_slot_def Let_def
      get_overlapping_count_def rowcount_def flush_satellites_def vehicle_row_def addon_rows_def addon_row_def
      create_appointment_row_def demo_defs ceil_scaled_exact exact_scaled_def)

theorem booking_never_double_books_witness:
  "is_ok (fst (post_appointment default_settings (days 20000) 100 (demo_payload [3]) demo_client demo_market)) \<and>
   no_double_booking
     (snd (post_appointment default_settings (days 20000) 100 (demo_payload [3]) demo_client demo_market)) 7"
proof
  have "no_double_booking demo_market det" for det
    by (simp add: no_double_booking_def busy_intervals_def demo_defs)
  then show "no_double_booking
     (snd (post_appointment default_settings (days 20000) 100 (demo_payload [3]) demo_client demo_market)) 7"
    by (rule booking_never_double_books) (rule prod.collapse [symmetric])
  show "is_ok (fst (post_appointment default_settings (days 20000) 100 (demo_payload [3]) demo_client demo_market))"
    using demo_books by (auto simp: post_appointment_def run_request_def demo_validates)
qed

theorem booking_price_exact_witness:
  "estimated_price (demo_created 100) = entry_price demo_market \<lparr>ve_vehicle = 3, ve_service = 5, ve_addons = [9]\<rparr>
   \<and> estimated_price (demo_created 100) = 16500"
proof
  obtain evs d' where "create_appointment default_settings 100 demo_booking demo_client demo_market
     = Inr ((demo_created 100, evs), d')" using demo_books by blast
  from booking_price_exact [OF this]
  show "estimated_price (demo_created 100) = entry_price demo_market \<lparr>ve_vehicle = 3, ve_service = 5, ve_addons = [9]\<rparr>"
    by (simp add: demo_defs)
  show "estimated_price (demo_created 100) = 16500"
    by (simp add: demo_created_def new_appointment_def demo_quotes total_price_def Let_def)
qed

end
