(* ===== verification/Booking_Lock.thy ===== *)
theory Booking_Lock
  imports Booking
begin

text \<open>
  Bookings that run at the same time. Each request is a database transaction that takes the
  advisory lock of its detailer (\<open>acquire_detailer_lock\<close>: \<open>pg_advisory_xact_lock\<close> on the key
  computed from the first eight bytes of the detailer's id), counts overlaps among the rows
  committed so far, inserts, and commits; PostgreSQL releases the lock with the transaction. The
  interleavings of such transactions are a step relation; rows of a transaction are invisible to
  the others until it commits (READ COMMITTED, the engine's default).
\<close>

section \<open>Transactions and their steps\<close>

datatype phase =
    Waiting appointment     \<comment> \<open>validated, before \<open>acquire_detailer_lock\<close>\<close>
  | Locked appointment      \<comment> \<open>holds the lock, before the count\<close>
  | Inserted appointment    \<comment> \<open>counted none, row inserted but not committed\<close>
  | Finished

record sessions =
  store :: db
  holder :: "int \<Rightarrow> nat option"
  phase_of :: "nat \<Rightarrow> phase"

text \<open>A booking row: active, for one detailer, with a travel buffer end.\<close>

definition booking_row :: "appointment \<Rightarrow> uuid \<Rightarrow> instant \<Rightarrow> instant \<Rightarrow> bool" where
  "booking_row a det s e \<longleftrightarrow>
     detailer_id a = Some det \<and> is_active_booking a \<and> scheduled_time a = s \<and> travel_buffer_end_time a = Some e"

definition release :: "nat \<Rightarrow> (int \<Rightarrow> nat option) \<Rightarrow> int \<Rightarrow> nat option" where
  "release i h = (\<lambda>k. if h k = Some i then None else h k)"

inductive tx_step :: "sessions \<Rightarrow> sessions \<Rightarrow> bool" where
  acquire:
    "phase_of c i = Waiting a \<Longrightarrow> booking_row a det s e \<Longrightarrow> holder c (detailer_lock_key det) = None \<Longrightarrow>
     tx_step c (c\<lparr>holder := (holder c)(detailer_lock_key det \<mapsto> i), phase_of := (phase_of c)(i := Locked a)\<rparr>)"
| refuse:
    "phase_of c i = Locked a \<Longrightarrow> booking_row a det s e \<Longrightarrow> get_overlapping_count (store c) det s e > 0 \<Longrightarrow>
     tx_step c (c\<lparr>holder := release i (holder c), phase_of := (phase_of c)(i := Finished)\<rparr>)"
| insert_row:
    "phase_of c i = Locked a \<Longrightarrow> booking_row a det s e \<Longrightarrow> get_overlapping_count (store c) det s e = 0 \<Longrightarrow>
     tx_step c (c\<lparr>phase_of := (phase_of c)(i := Inserted a)\<rparr>)"
| rollback:
    "phase_of c i = Inserted a \<Longrightarrow>
     tx_step c (c\<lparr>holder := release i (holder c), phase_of := (phase_of c)(i := Finished)\<rparr>)"
| commit_tx:
    "phase_of c i = Inserted a \<Longrightarrow>
     tx_step c (c\<lparr>store := create_appointment_row a (store c), holder := release i (holder c),
                  phase_of := (phase_of c)(i := Finished)\<rparr>)"

inductive_cases tx_stepE: "tx_step c c'"

inductive tx_reachable :: "sessions \<Rightarrow> sessions \<Rightarrow> bool" for c0 where
  start: "tx_reachable c0 c0"
| step: "tx_reachable c0 c \<Longrightarrow> tx_step c c' \<Longrightarrow> tx_reachable c0 c'"

text \<open>Nobody has started: every transaction waits or is done, and no lock is held.\<close>

definition tx_initial :: "sessions \<Rightarrow> bool" where
  "tx_initial c \<longleftrightarrow> (\<forall>i. phase_of c i = Finished \<or> (\<exists>a. phase_of c i = Waiting a)) \<and> holder c = (\<lambda>_. None)"

section \<open>The invariant\<close>

text \<open>
  A transaction past the lock holds it, and one past the check has an interval apart from every
  committed one of its detailer.
\<close>

definition tx_inv :: "sessions \<Rightarrow> bool" where
  "tx_inv c \<longleftrightarrow>
     (\<forall>det. no_double_booking (store c) det) \<and>
     (\<forall>i a. phase_of c i = Locked a \<or> phase_of c i = Inserted a \<longrightarrow>
        (\<exists>det s e. booking_row a det s e \<and> holder c (detailer_lock_key det) = Some i)) \<and>
     (\<forall>i a det s e. phase_of c i = Inserted a \<longrightarrow> booking_row a det s e \<longrightarrow>
        get_overlapping_count (store c) det s e = 0)"

lemma booking_row_unique: "booking_row a det s e \<Longrightarrow> booking_row a det' s' e' \<Longrightarrow> det' = det \<and> s' = s \<and> e' = e"
  by (auto simp: booking_row_def)

lemma booking_row_busy:
  "booking_row a det s e \<Longrightarrow> busy_interval det' a = (if det' = det then [(s, e)] else [])"
  by (auto simp: booking_row_def busy_interval_def)

lemma overlap_count_insert:
  "booking_row a det s e \<Longrightarrow> det' \<noteq> det \<Longrightarrow>
     get_overlapping_count (create_appointment_row a d) det' s' e' = get_overlapping_count d det' s' e'"
  by (auto simp: get_overlapping_count_def create_appointment_row_def rowcount_def overlaps_def booking_row_def)

lemma commit_keeps_calendar:
  assumes "booking_row a det s e" "get_overlapping_count d det s e = 0" "\<forall>w. no_double_booking d w"
  shows "no_double_booking (create_appointment_row a d) w"
proof (cases "w = det")
  case True
  with assms show ?thesis unfolding no_double_booking_exclusive
    by (intro appt_cal.book_keeps_exclusive) (simp_all add: booking_row_busy)
next
  case False
  with assms show ?thesis unfolding no_double_booking_exclusive
    by (subst appt_cal.book_frame) (simp_all add: booking_row_busy)
qed

lemma tx_inv_initial: "tx_initial c \<Longrightarrow> (\<And>det. no_double_booking (store c) det) \<Longrightarrow> tx_inv c"
  unfolding tx_initial_def tx_inv_def by (metis phase.distinct)

lemma tx_inv_calendar: "tx_inv c \<Longrightarrow> no_double_booking (store c) det"
  by (simp add: tx_inv_def)

lemma tx_inv_lock:
  "tx_inv c \<Longrightarrow> phase_of c i = Locked a \<or> phase_of c i = Inserted a \<Longrightarrow>
     \<exists>det s e. booking_row a det s e \<and> holder c (detailer_lock_key det) = Some i"
  unfolding tx_inv_def by blast

lemma tx_inv_free:
  "tx_inv c \<Longrightarrow> phase_of c i = Inserted a \<Longrightarrow> booking_row a det s e \<Longrightarrow> get_overlapping_count (store c) det s e = 0"
  unfolding tx_inv_def by blast

text \<open>Dropping a lock nobody past the check relies on, and finishing, keeps the invariant.\<close>

lemma tx_inv_finish:
  assumes "tx_inv c"
  shows "tx_inv (c\<lparr>holder := release i (holder c), phase_of := (phase_of c)(i := Finished)\<rparr>)"
  unfolding tx_inv_def
proof (intro conjI allI impI)
  fix j a
  let ?c = "c\<lparr>holder := release i (holder c), phase_of := (phase_of c)(i := Finished)\<rparr>"
  assume "phase_of ?c j = Locked a \<or> phase_of ?c j = Inserted a"
  then have j: "j \<noteq> i" "phase_of c j = Locked a \<or> phase_of c j = Inserted a" by (auto split: if_splits)
  with tx_inv_lock [OF assms] obtain det s e
    where "booking_row a det s e" "holder c (detailer_lock_key det) = Some j" by blast
  with j(1) have "booking_row a det s e \<and> holder ?c (detailer_lock_key det) = Some j"
    by (simp add: release_def)
  then show "\<exists>det s e. booking_row a det s e \<and> holder ?c (detailer_lock_key det) = Some j" by blast
qed (use tx_inv_calendar [OF assms] tx_inv_free [OF assms] in \<open>auto split: if_splits\<close>)

lemma tx_inv_acquire:
  assumes inv: "tx_inv c" and row: "booking_row a det s e" and free: "holder c (detailer_lock_key det) = None"
  shows "tx_inv (c\<lparr>holder := (holder c)(detailer_lock_key det \<mapsto> i), phase_of := (phase_of c)(i := Locked a)\<rparr>)"
  unfolding tx_inv_def
proof (intro conjI allI impI)
  fix j b
  let ?c = "c\<lparr>holder := (holder c)(detailer_lock_key det \<mapsto> i), phase_of := (phase_of c)(i := Locked a)\<rparr>"
  assume j: "phase_of ?c j = Locked b \<or> phase_of ?c j = Inserted b"
  show "\<exists>det s e. booking_row b det s e \<and> holder ?c (detailer_lock_key det) = Some j"
  proof (cases "j = i")
    case True
    with j row show ?thesis by auto
  next
    case False
    with j tx_inv_lock [OF inv, of j b] obtain det' s' e'
      where "booking_row b det' s' e'" "holder c (detailer_lock_key det') = Some j" by auto
    moreover from this(2) free have "detailer_lock_key det' \<noteq> detailer_lock_key det" by auto
    ultimately show ?thesis by auto
  qed
qed (use tx_inv_calendar [OF inv] tx_inv_free [OF inv] in \<open>auto split: if_splits\<close>)

lemma tx_inv_insert:
  assumes inv: "tx_inv c" and locked: "phase_of c i = Locked a" and row: "booking_row a det s e"
    and free: "get_overlapping_count (store c) det s e = 0"
  shows "tx_inv (c\<lparr>phase_of := (phase_of c)(i := Inserted a)\<rparr>)"
  unfolding tx_inv_def
proof (intro conjI allI impI)
  fix j b
  assume "phase_of (c\<lparr>phase_of := (phase_of c)(i := Inserted a)\<rparr>) j = Locked b \<or>
          phase_of (c\<lparr>phase_of := (phase_of c)(i := Inserted a)\<rparr>) j = Inserted b"
  then have "phase_of c j = Locked b \<or> phase_of c j = Inserted b"
    using locked by (auto split: if_splits)
  from tx_inv_lock [OF inv this] show "\<exists>det s e. booking_row b det s e \<and>
      holder (c\<lparr>phase_of := (phase_of c)(i := Inserted a)\<rparr>) (detailer_lock_key det) = Some j"
    by simp
next
  fix j b det' s' e'
  assume "phase_of (c\<lparr>phase_of := (phase_of c)(i := Inserted a)\<rparr>) j = Inserted b" and b: "booking_row b det' s' e'"
  then have "j = i \<and> b = a \<or> phase_of c j = Inserted b" by (cases "j = i") simp_all
  then consider "j = i" "b = a" | "phase_of c j = Inserted b" by blast
  then show "get_overlapping_count (store (c\<lparr>phase_of := (phase_of c)(i := Inserted a)\<rparr>)) det' s' e' = 0"
  proof cases
    case 1
    with b row free booking_row_unique [OF row] show ?thesis by auto
  next
    case 2
    from tx_inv_free [OF inv this b] show ?thesis by simp
  qed
qed (use tx_inv_calendar [OF inv] in auto)

text \<open>The commit: another transaction past the check is for another detailer, since the lock is one's own.\<close>

lemma tx_inv_commit:
  assumes inv: "tx_inv c" and ins: "phase_of c i = Inserted a"
  shows "tx_inv (c\<lparr>store := create_appointment_row a (store c), holder := release i (holder c),
                  phase_of := (phase_of c)(i := Finished)\<rparr>)"
proof -
  from tx_inv_lock [OF inv] ins obtain det s e
    where row: "booking_row a det s e" and lock: "holder c (detailer_lock_key det) = Some i" by blast
  have free: "get_overlapping_count (store c) det s e = 0" using tx_inv_free [OF inv ins row] .
  let ?d = "create_appointment_row a (store c)"
  let ?c = "c\<lparr>holder := release i (holder c), phase_of := (phase_of c)(i := Finished)\<rparr>"
  have fin: "tx_inv ?c" by (rule tx_inv_finish [OF inv])
  have cal: "no_double_booking ?d w" for w
    using commit_keeps_calendar [OF row free] tx_inv_calendar [OF inv] by blast
  have count: "get_overlapping_count ?d det' s' e' = 0"
    if j: "phase_of ?c j = Inserted b" and b: "booking_row b det' s' e'" for j b det' s' e'
  proof -
    from j have j': "j \<noteq> i" "phase_of c j = Inserted b" by (auto split: if_splits)
    with tx_inv_lock [OF inv] obtain det'' s'' e''
      where "booking_row b det'' s'' e''" "holder c (detailer_lock_key det'') = Some j" by blast
    with b have "holder c (detailer_lock_key det') = Some j" using booking_row_unique by blast
    with lock j'(1) have "det' \<noteq> det" by auto
    moreover have "get_overlapping_count (store c) det' s' e' = 0" using tx_inv_free [OF inv j'(2) b] .
    ultimately show ?thesis using overlap_count_insert [OF row] by simp
  qed
  show ?thesis
    unfolding tx_inv_def
  proof (intro conjI allI impI)
    fix w show "no_double_booking (store (c\<lparr>store := ?d, holder := release i (holder c),
        phase_of := (phase_of c)(i := Finished)\<rparr>)) w" using cal by simp
  qed (use tx_inv_lock [OF fin] count in simp_all)
qed

lemma tx_inv_step: "tx_step c c' \<Longrightarrow> tx_inv c \<Longrightarrow> tx_inv c'"
  by (induction rule: tx_step.induct)
     (simp_all only: tx_inv_acquire tx_inv_finish tx_inv_insert tx_inv_commit)

lemma tx_inv_reachable: "tx_reachable c0 c \<Longrightarrow> tx_inv c0 \<Longrightarrow> tx_inv c"
  by (induction rule: tx_reachable.induct) (auto intro: tx_inv_step)

text \<open>
  C2. Concurrent bookings never overlap: however the transactions of any number of booking requests
  interleave, committed bookings of a detailer stay pairwise apart. (Two detailers whose ids share
  the first eight bytes share a lock, which only makes one wait for the other.)
\<close>

theorem concurrent_bookings_never_overlap:
  assumes "tx_initial c0" and "\<And>det. no_double_booking (store c0) det" and "tx_reachable c0 c"
  shows "no_double_booking (store c) det"
  using tx_inv_reachable [OF assms(3) tx_inv_initial [OF assms(1,2)]] by (simp add: tx_inv_def)

section \<open>The sequential booking is a run of these steps\<close>

text \<open>
  \<open>book_slot\<close>, run alone, does to the table of appointments what its transaction does in its steps: the
  same row is committed, or the same refusal is met, by the same count.
\<close>

lemma booked_in_steps:
  assumes "book_slot st aid bk client cs (store c) = Inr ((a, evs), d')"
    and "phase_of c i = Waiting a" and "holder c (detailer_lock_key (bk_detailer bk)) = None"
  shows "\<exists>c'. tx_reachable c c' \<and> appointments (store c') = appointments d' \<and> phase_of c' i = Finished"
proof -
  from assms(1) have free: "get_overlapping_count (store c) (bk_detailer bk) (bk_time bk) (booking_end st bk cs) = 0"
    and a: "a = new_appointment st aid (user_id client) bk (hd cs) cs" and d': "appointments d' = appointments (store c) @ [a]"
    by (auto elim!: book_slot_InrE)
  have row: "booking_row a (bk_detailer bk) (bk_time bk) (booking_end st bk cs)"
    by (simp add: a booking_row_def new_appointment_def booking_end_def is_active_booking_def TERMINAL_STATUSES_def Let_def)
  define c1 where "c1 = c\<lparr>holder := (holder c)(detailer_lock_key (bk_detailer bk) \<mapsto> i), phase_of := (phase_of c)(i := Locked a)\<rparr>"
  define c2 where "c2 = c1\<lparr>phase_of := (phase_of c1)(i := Inserted a)\<rparr>"
  define c3 where "c3 = c2\<lparr>store := create_appointment_row a (store c2), holder := release i (holder c2), phase_of := (phase_of c2)(i := Finished)\<rparr>"
  have "tx_step c c1" unfolding c1_def by (rule acquire [OF assms(2) row assms(3)])
  moreover have "tx_step c1 c2" unfolding c2_def by (rule insert_row [OF _ row]) (simp_all add: c1_def free)
  moreover have "tx_step c2 c3" unfolding c3_def by (rule commit_tx) (simp add: c2_def)
  ultimately have "tx_reachable c c3" by (meson tx_reachable.start tx_reachable.step)
  moreover have "appointments (store c3) = appointments d'" by (simp add: c3_def c2_def c1_def create_appointment_row_def d')
  ultimately show ?thesis by (auto simp: c3_def)
qed

lemma refused_in_steps:
  assumes "book_slot st aid bk client cs (store c) = Inl (HTTPException 409 ''Detailer unavailable.'')" and "cs \<noteq> []"
    and "a = new_appointment st aid (user_id client) bk (hd cs) cs"
    and "phase_of c i = Waiting a" and "holder c (detailer_lock_key (bk_detailer bk)) = None"
  shows "\<exists>c'. tx_reachable c c' \<and> store c' = store c \<and> phase_of c' i = Finished"
proof -
  have row: "booking_row a (bk_detailer bk) (bk_time bk) (booking_end st bk cs)"
    by (simp add: assms(3) booking_row_def new_appointment_def booking_end_def is_active_booking_def TERMINAL_STATUSES_def Let_def)
  have busy: "0 < get_overlapping_count (store c) (bk_detailer bk) (bk_time bk) (booking_end st bk cs)"
    using assms(1) by (auto simp: book_slot_def booking_end_def flush_satellites_def Let_def split: if_splits list.splits sum.splits)
  define c1 where "c1 = c\<lparr>holder := (holder c)(detailer_lock_key (bk_detailer bk) \<mapsto> i), phase_of := (phase_of c)(i := Locked a)\<rparr>"
  define c2 where "c2 = c1\<lparr>holder := release i (holder c1), phase_of := (phase_of c1)(i := Finished)\<rparr>"
  have "tx_step c c1" unfolding c1_def by (rule acquire [OF assms(4) row assms(5)])
  moreover have "tx_step c1 c2" unfolding c2_def by (rule refuse [OF _ row]) (simp_all add: c1_def busy)
  ultimately have "tx_reachable c c2" by (meson tx_reachable.start tx_reachable.step)
  then show ?thesis by (auto simp: c2_def c1_def)
qed

text \<open>Two requests for the same hour; the first one runs to its commit.\<close>

definition rivals :: sessions where
  "rivals = \<lparr>store = demo_db [], holder = (\<lambda>_. None),
     phase_of = (\<lambda>_. Finished)(0 := Waiting (demo_appointment 0 (Some (hours 1))),
                                1 := Waiting ((demo_appointment 0 (Some (hours 1)))\<lparr>appt_id := 101\<rparr>))\<rparr>"

lemma rival_row: "booking_row (demo_appointment 0 (Some (hours 1))) 7 0 (hours 1)"
  by (simp add: booking_row_def demo_appointment_def is_active_booking_def TERMINAL_STATUSES_def)

lemma rivals_commit:
  "\<exists>c. tx_reachable rivals c \<and> appointments (store c) = [demo_appointment 0 (Some (hours 1))]"
proof -
  let ?a = "demo_appointment 0 (Some (hours 1))"
  let ?c1 = "rivals\<lparr>holder := (holder rivals)(detailer_lock_key 7 \<mapsto> 0), phase_of := (phase_of rivals)(0 := Locked ?a)\<rparr>"
  let ?c2 = "?c1\<lparr>phase_of := (phase_of ?c1)(0 := Inserted ?a)\<rparr>"
  let ?c3 = "?c2\<lparr>store := create_appointment_row ?a (store ?c2), holder := release 0 (holder ?c2),
                  phase_of := (phase_of ?c2)(0 := Finished)\<rparr>"
  have "tx_step rivals ?c1" by (rule acquire [OF _ rival_row]) (simp_all add: rivals_def)
  then have r1: "tx_reachable rivals ?c1" by (rule tx_reachable.step [OF tx_reachable.start])
  have "tx_step ?c1 ?c2"
    by (rule insert_row [OF _ rival_row])
       (simp_all add: rivals_def get_overlapping_count_def rowcount_def demo_db_def empty_db_def)
  with r1 have r2: "tx_reachable rivals ?c2" by (rule tx_reachable.step)
  have "tx_step ?c2 ?c3" by (rule commit_tx) simp
  with r2 have "tx_reachable rivals ?c3" by (rule tx_reachable.step)
  moreover have "appointments (store ?c3) = [?a]"
    by (simp add: rivals_def create_appointment_row_def demo_db_def empty_db_def)
  ultimately show ?thesis by blast
qed

theorem concurrent_bookings_never_overlap_witness:
  "\<exists>c. tx_reachable rivals c \<and> appointments (store c) = [demo_appointment 0 (Some (hours 1))] \<and> no_double_booking (store c) 7"
proof -
  obtain c where c: "tx_reachable rivals c" "appointments (store c) = [demo_appointment 0 (Some (hours 1))]"
    using rivals_commit by blast
  have "tx_initial rivals" by (simp add: tx_initial_def rivals_def)
  moreover have "no_double_booking (store rivals) det" for det
    by (simp add: rivals_def no_double_booking_def busy_intervals_def demo_db_def empty_db_def)
  ultimately have "no_double_booking (store c) 7" using concurrent_bookings_never_overlap c(1) by blast
  with c show ?thesis by blast
qed

end
