(* ===== verification/Payments.thy ===== *)
theory Payments
  imports Booking
begin

text \<open>
  \<open>PaymentService\<close> (domains/payments/service.py). Stripe is not under src/: the gateway is an
  argument, a record of the SDK calls the service makes, each a function of the gateway's own state
  that returns a result or raises. Its state is not part of the database: what a call did at the
  gateway stays done when the request rolls back.
\<close>

section \<open>The gateway\<close>

record intent =
  pi_id :: string
  pi_secret :: string
  pi_amount :: int
  pi_currency :: string
  pi_status :: string

record 'g gateway =
  customer_create :: "string \<Rightarrow> uuid \<Rightarrow> 'g \<Rightarrow> string result \<times> 'g"
  intent_create :: "nat \<Rightarrow> string \<Rightarrow> string \<Rightarrow> uuid \<Rightarrow> 'g \<Rightarrow> intent result \<times> 'g"
  intent_retrieve :: "string \<Rightarrow> 'g \<Rightarrow> intent result \<times> 'g"
  intent_capture :: "string \<Rightarrow> int option \<Rightarrow> 'g \<Rightarrow> intent result \<times> 'g"
  intent_cancel :: "string \<Rightarrow> string \<Rightarrow> 'g \<Rightarrow> intent result \<times> 'g"
  refund_create :: "string \<Rightarrow> nat \<Rightarrow> string \<Rightarrow> 'g \<Rightarrow> string result \<times> 'g"

text \<open>
  A handler that calls the gateway: its result with the new data, or an exception, and the
  gateway's state either way. \<open>run_paid\<close> is \<open>get_db\<close> around it.
\<close>

type_synonym ('a, 'g) paid = "db \<Rightarrow> 'g \<Rightarrow> ('a \<times> db) result \<times> 'g"

definition run_paid :: "('a, 'g) paid \<Rightarrow> db \<Rightarrow> 'g \<Rightarrow> 'a result \<times> db \<times> 'g" where
  "run_paid h d g = (case h d g of (Inl e, g') \<Rightarrow> (Inl e, d, g') | (Inr (x, d'), g') \<Rightarrow> (Inr x, d', g'))"

definition is_stub_key :: "settings \<Rightarrow> bool" where
  "is_stub_key st \<longleftrightarrow> STRIPE_SECRET_KEY st \<in> {''sk_test_placeholder'', ''sk_live_placeholder'', ''''}"

definition is_stub_intent :: "settings \<Rightarrow> string \<Rightarrow> bool" where
  "is_stub_intent st pid \<longleftrightarrow> is_stub_key st \<or> starts_with ''pi_stub'' pid"

text \<open>\<open>uuid.hex\<close>: 32 lower-case hexadecimal digits, most significant first.\<close>

definition hex_digit :: "nat \<Rightarrow> char" where
  "hex_digit n = (if n < 10 then char_of (48 + n) else char_of (87 + n))"

definition uuid_hex :: "uuid \<Rightarrow> string" where
  "uuid_hex u = map (\<lambda>i. hex_digit (unat (drop_bit (4 * (31 - i)) u) mod 16)) [0..<32]"

section \<open>Customers and intents\<close>

definition truthy :: "string option \<Rightarrow> bool" where
  "truthy x \<longleftrightarrow> (case x of None \<Rightarrow> False | Some s \<Rightarrow> s \<noteq> '''')"

definition set_customer :: "uuid \<Rightarrow> string \<Rightarrow> db \<Rightarrow> db" where
  "set_customer uid cus d =
     d\<lparr>users := update_where (\<lambda>u. user_id u = uid) (\<lambda>u. u\<lparr>stripe_customer_id := Some cus\<rparr>) (users d)\<rparr>"

definition get_or_create_stripe_customer ::
  "'g gateway \<Rightarrow> settings \<Rightarrow> user \<Rightarrow> (string, 'g) paid" where
  "get_or_create_stripe_customer gw st actor d g =
     (if truthy (stripe_customer_id actor) then (Inr (the (stripe_customer_id actor), d), g)
      else if is_stub_key st
      then (let cus = ''cus_stub_'' @ take 16 (uuid_hex (user_id actor))
            in (Inr (cus, set_customer (user_id actor) cus d), g))
      else (case customer_create gw (email actor) (user_id actor) g of
              (Inl e, g') \<Rightarrow> (Inl e, g')
            | (Inr cus, g') \<Rightarrow> (Inr (cus, set_customer (user_id actor) cus d), g')))"

record intent_response =
  ir_intent :: string
  ir_secret :: string
  ir_amount :: int
  ir_currency :: string
  ir_status :: string

definition store_intent :: "uuid \<Rightarrow> string \<Rightarrow> db \<Rightarrow> db" where
  "store_intent aid pid d =
     d\<lparr>appointments := update_where (\<lambda>a. appt_id a = aid \<and> \<not> appt_deleted a)
                         (\<lambda>a. a\<lparr>payment_intent := Some pid\<rparr>) (appointments d)\<rparr>"

text \<open>The intent, fresh from the gateway or the placeholder of a stub key; \<open>rnd\<close> is \<open>uuid4()\<close>.\<close>

definition new_intent ::
  "'g gateway \<Rightarrow> settings \<Rightarrow> uuid \<Rightarrow> appointment \<Rightarrow> string \<Rightarrow> 'g \<Rightarrow> (string \<times> string \<times> string) result \<times> 'g"
where
  "new_intent gw st rnd a cus g =
     (if is_stub_key st
      then (let pid = ''pi_stub_'' @ take 16 (uuid_hex rnd)
            in (Inr (pid, pid @ ''_secret_stub'', ''requires_payment_method''), g))
      else (case intent_create gw (estimated_price a) (STRIPE_CURRENCY st) cus (appt_id a) g of
              (Inl e, g') \<Rightarrow> (Inl e, g')
            | (Inr i, g') \<Rightarrow> (Inr (pi_id i, pi_secret i, pi_status i), g')))"

definition existing_intent ::
  "'g gateway \<Rightarrow> settings \<Rightarrow> appointment \<Rightarrow> string \<Rightarrow> (intent_response, 'g) paid" where
  "existing_intent gw st a pid d g =
     (if is_stub_intent st pid
      then (Inr (\<lparr>ir_intent = pid, ir_secret = pid @ ''_secret_stub'', ir_amount = int (estimated_price a),
                  ir_currency = STRIPE_CURRENCY st, ir_status = ''requires_payment_method''\<rparr>, d), g)
      else (case intent_retrieve gw pid g of
              (Inl e, g') \<Rightarrow> (Inl e, g')
            | (Inr i, g') \<Rightarrow>
                (Inr (\<lparr>ir_intent = pi_id i, ir_secret = pi_secret i, ir_amount = pi_amount i,
                       ir_currency = pi_currency i, ir_status = pi_status i\<rparr>, d), g')))"

definition create_payment_intent ::
  "'g gateway \<Rightarrow> settings \<Rightarrow> uuid \<Rightarrow> uuid \<Rightarrow> user \<Rightarrow> (intent_response, 'g) paid" where
  "create_payment_intent gw st rnd aid actor d g =
     (case appointment_by_id d aid of
        None \<Rightarrow> (Inl (HTTPException 404 ''Appointment not found.''), g)
      | Some a \<Rightarrow>
          if client_id a \<noteq> user_id actor
          then (Inl (HTTPException 403 ''Only the booking client can initiate payment.''), g)
          else if appt_status a \<notin> {PENDING, CONFIRMED}
          then (Inl (HTTPException 422 ''Payment can only be initiated for PENDING or CONFIRMED appointments.''), g)
          else if truthy (payment_intent a)
          then existing_intent gw st a (the (payment_intent a)) d g
          else (case get_or_create_stripe_customer gw st actor d g of
                  (Inl e, g1) \<Rightarrow> (Inl e, g1)
                | (Inr (cus, d1), g1) \<Rightarrow>
                    (case new_intent gw st rnd a cus g1 of
                       (Inl e, g2) \<Rightarrow> (Inl e, g2)
                     | (Inr (pid, secret, status), g2) \<Rightarrow>
                         (Inr (\<lparr>ir_intent = pid, ir_secret = secret, ir_amount = int (estimated_price a),
                                ir_currency = STRIPE_CURRENCY st, ir_status = status\<rparr>,
                               audit_log ''payment_intent_created'' ''appointment'' (Some (user_id actor))
                                 [(''amount_cents'', int (estimated_price a))] (store_intent aid pid d1)), g2))))"

section \<open>Capture, void, refund\<close>

definition capture_payment_intent ::
  "'g gateway \<Rightarrow> settings \<Rightarrow> string \<Rightarrow> int option \<Rightarrow> 'g \<Rightarrow> string option result \<times> 'g" where
  "capture_payment_intent gw st pid amount g =
     (if is_stub_intent st pid then (Inr None, g)
      else (case intent_capture gw pid (case amount of Some n \<Rightarrow> if n > 0 then Some n else None | None \<Rightarrow> None) g of
              (Inl e, g') \<Rightarrow> (Inl e, g')
            | (Inr i, g') \<Rightarrow> (Inr (Some (pi_status i)), g')))"

definition cancel_payment_intent ::
  "'g gateway \<Rightarrow> settings \<Rightarrow> string \<Rightarrow> string \<Rightarrow> 'g \<Rightarrow> string option result \<times> 'g" where
  "cancel_payment_intent gw st pid reason g =
     (if is_stub_intent st pid then (Inr None, g)
      else (case intent_cancel gw pid reason g of
              (Inl e, g') \<Rightarrow> (Inl e, g')
            | (Inr i, g') \<Rightarrow> (Inr (Some (pi_status i)), g')))"

definition create_refund ::
  "'g gateway \<Rightarrow> settings \<Rightarrow> uuid \<Rightarrow> string \<Rightarrow> nat \<Rightarrow> string \<Rightarrow> (string option, 'g) paid" where
  "create_refund gw st rnd pid amount reason d g =
     (if amount = 0 then (Inr (None, d), g)
      else if is_stub_intent st pid
      then (let rid = ''re_stub_'' @ take 12 (uuid_hex rnd)
            in (Inr (Some rid, audit_log ''payment_refunded'' ''payment_intent'' None
                                 [(''amount_cents'', int amount)] d), g))
      else (case refund_create gw pid amount reason g of
              (Inl e, g') \<Rightarrow> (Inl e, g')
            | (Inr rid, g') \<Rightarrow>
                (Inr (Some rid, audit_log ''payment_refunded'' ''payment_intent'' None
                                  [(''amount_cents'', int amount)] d), g')))"

text \<open>
  The webhook's \<open>handle_payment_succeeded\<close>: the column is indexed, not unique, so
  \<open>scalar_one_or_none\<close> raises when two appointments share an intent.
\<close>

definition handle_payment_succeeded :: "string \<Rightarrow> db \<Rightarrow> (unit \<times> db) result" where
  "handle_payment_succeeded pid d =
     (case scalar_one_or_none (filter (\<lambda>a. payment_intent a = Some pid \<and> \<not> appt_deleted a) (appointments d)) of
        Inl e \<Rightarrow> Inl e
      | Inr None \<Rightarrow> Inr ((), d)
      | Inr (Some a) \<Rightarrow>
          Inr ((), audit_log ''payment_captured'' ''appointment'' (Some (client_id a))
                     [(''amount_cents'', int (estimated_price a))] d))"

section \<open>Idempotence of the payment intent\<close>

lemma appointment_by_id_store:
  "appointment_by_id (store_intent aid pid d) aid
     = map_option (\<lambda>a. a\<lparr>payment_intent := Some pid\<rparr>) (appointment_by_id d aid)"
  unfolding appointment_by_id_def store_intent_def by (simp add: find_update_where)

lemma appointment_by_id_audit_log [simp]:
  "appointment_by_id (audit_log ac en actor am d) aid = appointment_by_id d aid"
  by (simp add: appointment_by_id_def)

lemma appointment_by_id_set_customer [simp]:
  "appointment_by_id (set_customer uid cus d) aid = appointment_by_id d aid"
  by (simp add: appointment_by_id_def set_customer_def)

lemma appointment_by_id_users [simp]:
  "appointment_by_id (d\<lparr>users := us\<rparr>) aid = appointment_by_id d aid"
  by (simp add: appointment_by_id_def)

lemma get_or_create_stripe_customer_Inr:
  "get_or_create_stripe_customer gw st actor d g = (Inr (cus, d'), g') \<Longrightarrow>
     d' = d \<or> d' = set_customer (user_id actor) cus d"
  by (auto simp: get_or_create_stripe_customer_def Let_def split: if_splits prod.splits sum.splits)

lemma create_payment_intent_first:
  assumes "create_payment_intent gw st rnd aid actor d g = (Inr (r, d'), g')"
    and "appointment_by_id d aid = Some a" and "\<not> truthy (payment_intent a)"
  shows "appointment_by_id d' aid = Some (a\<lparr>payment_intent := Some (ir_intent r)\<rparr>) \<and>
         client_id a = user_id actor \<and> appt_status a \<in> {PENDING, CONFIRMED} \<and>
         ir_amount r = int (estimated_price a) \<and> ir_currency r = STRIPE_CURRENCY st \<and>
         (is_stub_key st \<longrightarrow> ir_secret r = ir_intent r @ ''_secret_stub'' \<and> ir_status r = ''requires_payment_method'')"
  using assms
  by (auto simp: create_payment_intent_def new_intent_def Let_def appointment_by_id_store
      split: if_splits prod.splits sum.splits dest!: get_or_create_stripe_customer_Inr)

text \<open>
  Asking twice creates one intent: after a call that created an intent, any further call by the
  same client on an appointment that is still payable only looks that intent up. It leaves the
  database as it is, and it never asks the gateway to create anything.
\<close>

lemma create_payment_intent_idempotent:
  assumes first: "create_payment_intent gw st rnd aid actor d g = (Inr (r, d'), g')"
    and none: "appointment_by_id d aid = Some a" "\<not> truthy (payment_intent a)"
    and id: "ir_intent r \<noteq> ''''"
    and same: "user_id actor' = user_id actor"
  shows "create_payment_intent gw st rnd' aid actor' d' g'' =
           existing_intent gw st (a\<lparr>payment_intent := Some (ir_intent r)\<rparr>) (ir_intent r) d' g'' \<and>
         (is_stub_key st \<longrightarrow> create_payment_intent gw st rnd' aid actor' d' g'' = (Inr (r, d'), g''))"
proof -
  note f = create_payment_intent_first [OF first none]
  have eq: "create_payment_intent gw st rnd' aid actor' d' g'' =
           existing_intent gw st (a\<lparr>payment_intent := Some (ir_intent r)\<rparr>) (ir_intent r) d' g''"
    using f id same by (simp add: create_payment_intent_def truthy_def)
  moreover have "create_payment_intent gw st rnd' aid actor' d' g'' = (Inr (r, d'), g'')" if "is_stub_key st"
    unfolding eq using f that by (simp add: existing_intent_def is_stub_intent_def)
  ultimately show ?thesis by blast
qed

text \<open>A gateway that refuses every call, and one client with a confirmed appointment.\<close>

definition offline_gateway :: "unit gateway" where
  "offline_gateway =
     \<lparr>customer_create = \<lambda>_ _ g. (Inl (AdapterError ''offline''), g),
      intent_create = \<lambda>_ _ _ _ g. (Inl (AdapterError ''offline''), g),
      intent_retrieve = \<lambda>_ g. (Inl (AdapterError ''offline''), g),
      intent_capture = \<lambda>_ _ g. (Inl (AdapterError ''offline''), g),
      intent_cancel = \<lambda>_ _ g. (Inl (AdapterError ''offline''), g),
      refund_create = \<lambda>_ _ _ g. (Inl (AdapterError ''offline''), g)\<rparr>"

lemma stub_settings: "is_stub_key default_settings"
  by (simp add: is_stub_key_def default_settings_def)

lemma demo_by_id: "appointment_by_id (demo_db [demo_appointment t b]) 100 = Some (demo_appointment t b)"
  by (simp add: appointment_by_id_def demo_db_def demo_appointment_def)

lemma demo_intent:
  "\<exists>r d'. create_payment_intent offline_gateway default_settings 1 100 demo_client
            (demo_db [demo_appointment t b]) () = (Inr (r, d'), ()) \<and> ir_intent r \<noteq> ''''"
  by (simp add: create_payment_intent_def demo_by_id get_or_create_stripe_customer_def new_intent_def
      stub_settings truthy_def Let_def)
     (simp add: demo_appointment_def demo_client_def demo_detailer_def)

end
