(* ===== verification/Ledger.thy ===== *)
theory Ledger
  imports Payments "HOL-Library.Char_ord" "HOL-Library.List_Lexorder"
begin

text \<open>
  The append-only payment ledger: \<open>LedgerRepository\<close> (domains/payments/repository.py),
  \<open>PaymentCoordinator\<close> and its 15% commission (domains/payments/service_v2.py), and the daily seal
  (workers/ledger_seal_worker.py). SHA-256 is an argument; the processor behind the coordinator is
  an argument too, and the mock of the source is one value of it.
\<close>

section \<open>The ledger\<close>

datatype entry_type = AUTHORIZATION | CAPTURE | REFUND | PAYOUT | CHARGE_COMMISSION

record ledger_entry =
  le_id :: uuid
  le_appointment :: uuid
  le_type :: entry_type
  le_amount :: int
  le_currency :: string
  le_intent :: "string option"
  le_created :: instant

record ledger_seal =
  ls_date :: int
  ls_count :: nat
  ls_total :: int
  ls_hash :: string

record ledger =
  entries :: "ledger_entry list"
  seals :: "ledger_seal list"

text \<open>\<open>create\<close>: insert under the table's two checks; there is no update and no delete.\<close>

definition ledger_create :: "ledger_entry \<Rightarrow> ledger \<Rightarrow> ledger result" where
  "ledger_create e l =
     (if le_amount e < 0 then Inl (IntegrityError ''ck_payment_ledger_amount_nonnegative'')
      else if le_currency e \<noteq> py_lower (le_currency e) then Inl (IntegrityError ''ck_payment_ledger_currency_lowercase'')
      else Inr (l\<lparr>entries := entries l @ [e]\<rparr>))"

definition get_by_appointment :: "ledger \<Rightarrow> uuid \<Rightarrow> ledger_entry list" where
  "get_by_appointment l aid = sort_key le_created (filter (\<lambda>e. le_appointment e = aid) (entries l))"

definition get_entries_for_date :: "ledger \<Rightarrow> int \<Rightarrow> ledger_entry list" where
  "get_entries_for_date l date = sort_key le_id (filter (\<lambda>e. le_created e div days 1 = date) (entries l))"

definition seal_exists :: "ledger \<Rightarrow> int \<Rightarrow> bool" where
  "seal_exists l date \<longleftrightarrow> (\<exists>s \<in> set (seals l). ls_date s = date)"

definition create_seal :: "ledger_seal \<Rightarrow> ledger \<Rightarrow> ledger result" where
  "create_seal s l =
     (if seal_exists l (ls_date s) then Inl (IntegrityError ''ledger_seals_seal_date_key'')
      else if length (ls_hash s) \<noteq> 64 then Inl (IntegrityError ''ck_ledger_seals_sha256_length'')
      else Inr (l\<lparr>seals := seals l @ [s]\<rparr>))"

section \<open>The coordinator\<close>

text \<open>The processor's calls, each answering with the id it puts in its result.\<close>

record 'g processor =
  proc_authorize :: "string \<Rightarrow> int \<Rightarrow> string \<Rightarrow> 'g \<Rightarrow> string option result \<times> 'g"
  proc_capture :: "string \<Rightarrow> int \<Rightarrow> 'g \<Rightarrow> string option result \<times> 'g"
  proc_payout :: "string \<Rightarrow> int \<Rightarrow> 'g \<Rightarrow> string option result \<times> 'g"

text \<open>\<open>str(uuid)\<close>: the hexadecimal digits in groups of 8, 4, 4, 4 and 12.\<close>

definition uuid_str :: "uuid \<Rightarrow> string" where
  "uuid_str u =
     (let h = uuid_hex u
      in take 8 h @ ''-'' @ take 4 (drop 8 h) @ ''-'' @ take 4 (drop 12 h) @ ''-'' @ take 4 (drop 16 h) @ ''-'' @ drop 20 h)"

text \<open>\<open>COMMISSION_RATE\<close> is the float literal 0.15; \<open>int(total * rate)\<close> truncates the product.\<close>

definition commission_of :: "nat \<Rightarrow> nat" where
  "commission_of total_amount = flt_trunc (flt_mul_int total_amount flt_0_15)"

definition coord_authorize ::
  "'g processor \<Rightarrow> instant \<Rightarrow> uuid \<Rightarrow> uuid \<Rightarrow> int \<Rightarrow> string \<Rightarrow> ledger \<Rightarrow> 'g \<Rightarrow> (ledger_entry \<times> ledger) result \<times> 'g"
where
  "coord_authorize pr now eid aid amount currency l g =
     (case proc_authorize pr (uuid_str aid) amount currency g of
        (Inl e, g') \<Rightarrow> (Inl e, g')
      | (Inr ref, g') \<Rightarrow>
          (let e = \<lparr>le_id = eid, le_appointment = aid, le_type = AUTHORIZATION, le_amount = amount,
                    le_currency = currency, le_intent = ref, le_created = now\<rparr>
           in case ledger_create e l of Inl x \<Rightarrow> (Inl x, g') | Inr l' \<Rightarrow> (Inr (e, l'), g')))"

definition coord_capture ::
  "'g processor \<Rightarrow> instant \<Rightarrow> uuid \<Rightarrow> uuid \<Rightarrow> int \<Rightarrow> ledger \<Rightarrow> 'g \<Rightarrow> (ledger_entry \<times> ledger) result \<times> 'g"
where
  "coord_capture pr now eid aid amount l g =
     (case proc_capture pr (''pi_mock_'' @ uuid_str aid) amount g of
        (Inl e, g') \<Rightarrow> (Inl e, g')
      | (Inr ref, g') \<Rightarrow>
          (let e = \<lparr>le_id = eid, le_appointment = aid, le_type = CAPTURE, le_amount = amount,
                    le_currency = ''usd'', le_intent = ref, le_created = now\<rparr>
           in case ledger_create e l of Inl x \<Rightarrow> (Inl x, g') | Inr l' \<Rightarrow> (Inr (e, l'), g')))"

definition payout_and_commission ::
  "'g processor \<Rightarrow> instant \<Rightarrow> uuid \<Rightarrow> uuid \<Rightarrow> uuid \<Rightarrow> uuid \<Rightarrow> nat \<Rightarrow> ledger \<Rightarrow> 'g \<Rightarrow>
   ((ledger_entry \<times> ledger_entry) \<times> ledger) result \<times> 'g"
where
  "payout_and_commission pr now eid1 eid2 aid det total_amount l g =
     (let commission = int (commission_of total_amount); payout = int total_amount - commission
      in case proc_payout pr (uuid_str det) payout g of
           (Inl e, g') \<Rightarrow> (Inl e, g')
         | (Inr _, g') \<Rightarrow>
             (let base = \<lparr>le_id = eid1, le_appointment = aid, le_type = PAYOUT, le_amount = payout,
                          le_currency = ''usd'', le_intent = None, le_created = now\<rparr>;
                  fee = base\<lparr>le_id := eid2, le_type := CHARGE_COMMISSION, le_amount := commission\<rparr>
              in case ledger_create base l of
                   Inl x \<Rightarrow> (Inl x, g')
                 | Inr l1 \<Rightarrow> (case ledger_create fee l1 of
                                 Inl x \<Rightarrow> (Inl x, g') | Inr l2 \<Rightarrow> (Inr ((base, fee), l2), g'))))"

section \<open>The daily seal\<close>

text \<open>\<open>_seal_day\<close>; the worker's own session commits on success and is dropped on an exception.\<close>

definition seal_of :: "(string \<Rightarrow> string) \<Rightarrow> int \<Rightarrow> ledger_entry list \<Rightarrow> ledger_seal" where
  "seal_of sha date es =
     \<lparr>ls_date = date, ls_count = length es, ls_total = (\<Sum>e\<leftarrow>es. le_amount e),
      ls_hash = sha (concat (sort (map (\<lambda>e. uuid_str (le_id e)) es)))\<rparr>"

definition seal_day :: "(string \<Rightarrow> string) \<Rightarrow> int \<Rightarrow> ledger \<Rightarrow> ledger result" where
  "seal_day sha date l =
     (if seal_exists l date then Inr l
      else (case get_entries_for_date l date of
              [] \<Rightarrow> Inr l
            | es \<Rightarrow> create_seal (seal_of sha date es) l))"

section \<open>Properties\<close>

lemma commission_exact: "t < 2 ^ 31 \<Longrightarrow> commission_of t = 15 * t div 100"
  by (simp add: commission_of_def trunc_times_0_15)

lemma commission_le: "t < 2 ^ 31 \<Longrightarrow> commission_of t \<le> t"
  by (simp add: commission_exact)

lemma lower_usd: "py_lower ''usd'' = ''usd''"
  by code_simp

text \<open>
  The split of a completed job loses no cent: once the processor has paid out, both rows are
  written, the commission is exactly the whole-cent floor of 15% (the float product never rounds
  the wrong way on a PostgreSQL integer), and payout and commission add up to the total.
\<close>

lemma payout_split_exact:
  assumes "total_amount < 2 ^ 31"
    and "proc_payout pr (uuid_str det) (int total_amount - int (commission_of total_amount)) g = (Inr ref, g')"
  shows "\<exists>p c l'. payout_and_commission pr now eid1 eid2 aid det total_amount l g = (Inr ((p, c), l'), g') \<and>
           entries l' = entries l @ [p, c] \<and> seals l' = seals l \<and>
           le_type p = PAYOUT \<and> le_type c = CHARGE_COMMISSION \<and> le_appointment p = aid \<and> le_appointment c = aid \<and>
           le_amount c = int (15 * total_amount div 100) \<and> le_amount p + le_amount c = int total_amount \<and>
           0 \<le> le_amount p"
  using assms commission_le [OF assms(1)] commission_exact [OF assms(1)]
  by (simp add: payout_and_commission_def ledger_create_def lower_usd Let_def)

lemma seal_day_cases:
  assumes "seal_day sha date l = Inr l'"
  shows "l' = l \<and> (seal_exists l date \<or> get_entries_for_date l date = []) \<or>
         \<not> seal_exists l date \<and>
         l' = l\<lparr>seals := seals l @ [seal_of sha date (get_entries_for_date l date)]\<rparr>"
  using assms by (auto simp: seal_day_def create_seal_def split: if_splits list.splits)

text \<open>
  A day is sealed once: sealing is idempotent, leaves the entries alone, never makes a second
  seal for a date, and the seal it makes carries the number and the sum of that day's entries.
\<close>

lemma seal_day_once:
  assumes "seal_day sha date l = Inr l'" and "distinct (map ls_date (seals l))"
  shows "seal_day sha date l' = Inr l' \<and> entries l' = entries l \<and> distinct (map ls_date (seals l')) \<and>
         (\<forall>s \<in> set (seals l'). s \<in> set (seals l) \<or>
            ls_date s = date \<and> ls_count s = length (get_entries_for_date l date) \<and>
            ls_total s = (\<Sum>e\<leftarrow>get_entries_for_date l date. le_amount e))"
  using seal_day_cases [OF assms(1)]
proof
  assume "l' = l \<and> (seal_exists l date \<or> get_entries_for_date l date = [])"
  with assms show ?thesis by auto
next
  let ?s = "seal_of sha date (get_entries_for_date l date)"
  assume "\<not> seal_exists l date \<and> l' = l\<lparr>seals := seals l @ [?s]\<rparr>"
  moreover have "ls_date ?s = date" by (simp add: seal_of_def)
  ultimately show ?thesis
    using assms(2) by (auto simp: seal_day_def seal_exists_def seal_of_def)
qed

text \<open>
  What a seal does not see: it covers the ids and the day's total, so amounts moved between the
  entries of a day leave the seal, hash included, as it was, whatever the hash function.
\<close>

lemma seal_blind_to_amounts:
  assumes "length ns = length es" and "sum_list ns = (\<Sum>e\<leftarrow>es. le_amount e)"
  shows "seal_of sha date (map2 (\<lambda>e n. e\<lparr>le_amount := n\<rparr>) es ns) = seal_of sha date es"
proof -
  have "map (\<lambda>e. uuid_str (le_id e)) (map2 (\<lambda>e n. e\<lparr>le_amount := n\<rparr>) es ns) = map (\<lambda>e. uuid_str (le_id e)) es"
    using assms(1) by (induction ns es rule: list_induct2) auto
  moreover have "map le_amount (map2 (\<lambda>e n. e\<lparr>le_amount := n\<rparr>) es ns) = ns"
    using assms(1) by (induction ns es rule: list_induct2) auto
  ultimately show ?thesis using assms unfolding seal_of_def by simp
qed

text \<open>The source's mock processor, and two entries of one day.\<close>

definition mock_processor :: "uuid \<Rightarrow> unit processor" where
  "mock_processor rnd = \<lparr>proc_authorize = \<lambda>_ _ _ g. (Inr (Some (''pi_mock_'' @ take 12 (uuid_hex rnd))), g),
     proc_capture = \<lambda>_ _ g. (Inr (Some (''ch_mock_'' @ take 12 (uuid_hex rnd))), g),
     proc_payout = \<lambda>_ _ g. (Inr (Some (''po_mock_'' @ take 12 (uuid_hex rnd))), g)\<rparr>"

definition demo_entry :: "uuid \<Rightarrow> int \<Rightarrow> ledger_entry" where
  "demo_entry eid n = \<lparr>le_id = eid, le_appointment = 100, le_type = CAPTURE, le_amount = n, le_currency = ''usd'',
     le_intent = None, le_created = 0\<rparr>"

end
