(* ===== verification/Rides.thy ===== *)
theory Rides
  imports Ledger "HOL-Library.Extended_Nat"
begin

text \<open>
  Instant rides: surge pricing and the signed fare token (domains/payments/fare_service.py), the fare
  estimate (fare_router.py), and requesting, accepting and declining a ride (rides_router.py). Redis
  is read through arguments (the members of a cell's set, whether a detailer's key is alive), H3's
  cells, the HMAC and \<open>isoformat\<close> are arguments. \<open>settings.JWT_SECRET_KEY\<close> is read but no field
  of \<open>Settings\<close> (app/core/config.py) declares it: the key is an optional argument, \<open>None\<close> for
  the settings class as it is.
\<close>

section \<open>Surge\<close>

definition active_count :: "(string \<Rightarrow> string list) \<Rightarrow> (string \<Rightarrow> bool) \<Rightarrow> string list \<Rightarrow> nat" where
  "active_count members alive cells = length (filter alive (remdups (concat (map members cells))))"

definition threshold_bound :: "nat option \<Rightarrow> enat" where
  "threshold_bound b = (case b of None \<Rightarrow> \<infinity> | Some n \<Rightarrow> enat n)"

fun surge_lookup :: "(nat option \<times> float64) list \<Rightarrow> nat \<Rightarrow> float64" where
  "surge_lookup [] n = flt_1_0"
| "surge_lookup ((b, mult) # ts) n = (if enat n \<le> threshold_bound b then mult else surge_lookup ts n)"

definition surge_multiplier :: "settings \<Rightarrow> nat \<Rightarrow> float64" where
  "surge_multiplier st n = surge_lookup (sort_key (\<lambda>t. threshold_bound (fst t)) (SURGE_THRESHOLDS st)) n"

definition calculate_surge ::
  "settings \<Rightarrow> (string \<Rightarrow> string list) \<Rightarrow> (string \<Rightarrow> bool) \<Rightarrow> string list \<Rightarrow> float64 \<times> nat" where
  "calculate_surge st members alive cells =
     (let n = active_count members alive cells in (surge_multiplier st n, n))"

section \<open>The fare token\<close>

function nat_str :: "nat \<Rightarrow> string" where
  "nat_str n = (if n < 10 then [char_of (48 + n)] else nat_str (n div 10) @ [char_of (48 + n mod 10)])"
  by pat_completeness auto
termination by (relation "measure id") auto

declare nat_str.simps [simp del]

definition fare_message :: "(instant \<Rightarrow> string) \<Rightarrow> uuid \<Rightarrow> nat \<Rightarrow> instant \<Rightarrow> string" where
  "fare_message isof fid price expires = uuid_str fid @ '':'' @ nat_str price @ '':'' @ isof expires"

definition generate_fare_token ::
  "(string \<Rightarrow> string \<Rightarrow> string) \<Rightarrow> (instant \<Rightarrow> string) \<Rightarrow> string option \<Rightarrow> uuid \<Rightarrow> nat \<Rightarrow> instant \<Rightarrow> string result"
where
  "generate_fare_token mac isof key fid price expires =
     (case key of
        None \<Rightarrow> Inl (AttributeError ''JWT_SECRET_KEY'')
      | Some k \<Rightarrow> Inr (mac k (fare_message isof fid price expires)))"

definition verify_fare_token ::
  "(string \<Rightarrow> string \<Rightarrow> string) \<Rightarrow> (instant \<Rightarrow> string) \<Rightarrow> string option \<Rightarrow> instant \<Rightarrow> string \<Rightarrow> uuid \<Rightarrow> nat \<Rightarrow> instant \<Rightarrow> bool result"
where
  "verify_fare_token mac isof key now tok fid price expires =
     (if now > expires then Inr False
      else (case generate_fare_token mac isof key fid price expires of
              Inl e \<Rightarrow> Inl e | Inr expected \<Rightarrow> Inr (expected = tok)))"

section \<open>The fare estimate\<close>

record fare =
  fare_id :: uuid
  fare_client :: uuid
  fare_service :: uuid
  fare_sizes :: "vehicle_size list"
  fare_base :: nat
  fare_surge :: float64
  fare_price :: nat
  fare_nearby :: nat
  fare_token :: string
  fare_expires :: instant

record market =
  mk_db :: db
  fares :: "fare list"
  mk_ledger :: ledger
  assignment_queue :: "uuid list"

definition FARE_TTL_SECONDS :: int where "FARE_TTL_SECONDS = 900"

fun size_price :: "service \<Rightarrow> vehicle_size \<Rightarrow> nat" where
  "size_price s SMALL = price_small s"
| "size_price s MEDIUM = price_medium s"
| "size_price s LARGE = price_large s"
| "size_price s XL = price_xl s"

text \<open>The service is looked up by id and \<open>is_active\<close> only: a soft-deleted one still counts.\<close>

definition fare_service_row :: "db \<Rightarrow> uuid \<Rightarrow> service option" where
  "fare_service_row d sid = find (\<lambda>s. svc_id s = sid \<and> svc_active s) (services d)"

definition estimate_fare ::
  "(string \<Rightarrow> string \<Rightarrow> string) \<Rightarrow> (instant \<Rightarrow> string) \<Rightarrow> string option \<Rightarrow> settings \<Rightarrow> float64 \<times> nat \<Rightarrow>
   instant \<Rightarrow> uuid \<Rightarrow> uuid \<Rightarrow> vehicle_size list \<Rightarrow> user \<Rightarrow> market \<Rightarrow> (fare \<times> market) result" where
  "estimate_fare mac isof key st surge now fid sid sizes client m =
     (case require_role [''client''] client of
        Inl e \<Rightarrow> Inl e
      | Inr _ \<Rightarrow>
          if sizes = [] then Inl (unprocessable ''vehicle_sizes'')
          else (case fare_service_row (mk_db m) sid of
                  None \<Rightarrow> Inl (HTTPException 404 ''Service not found.'')
                | Some s \<Rightarrow>
                    (let base = (\<Sum>z\<leftarrow>sizes. size_price s z);
                         (mult, nearby) = surge;
                         price = flt_ceil (flt_mul_int base mult);
                         expires = now + seconds FARE_TTL_SECONDS
                     in case generate_fare_token mac isof key fid price expires of
                          Inl e \<Rightarrow> Inl e
                        | Inr tok \<Rightarrow>
                            (let f = \<lparr>fare_id = fid, fare_client = user_id client, fare_service = sid,
                                      fare_sizes = sizes, fare_base = base, fare_surge = mult, fare_price = price,
                                      fare_nearby = nearby, fare_token = tok, fare_expires = expires\<rparr>
                             in if tok \<in> set (map fare_token (fares m))
                                then Inl (IntegrityError ''fare_estimates_fare_token_key'')
                                else Inr (f, m\<lparr>fares := fares m @ [f]\<rparr>)))))"

section \<open>Requesting, accepting and declining\<close>

definition ride_appointment :: "uuid \<Rightarrow> instant \<Rightarrow> user \<Rightarrow> fare \<Rightarrow> appointment" where
  "ride_appointment aid now client f =
     \<lparr>appt_id = aid, client_id = user_id client, detailer_id = None, appt_vehicle = None,
      appt_service = fare_service f, scheduled_time = now, estimated_end_time = None,
      travel_buffer_end_time = None, arrived_at = None, started_at = None, completed_at = None,
      appt_status = SEARCHING, estimated_price = fare_price f, actual_price = None, payment_intent = None,
      detailer_notes = None, appt_deleted = False\<rparr>"

text \<open>
  \<open>request_ride\<close> commits the appointment before it asks the coordinator for the authorisation: when
  that raises, the appointment stays. The result, the market and the processor's state.
\<close>

definition request_ride ::
  "(string \<Rightarrow> string \<Rightarrow> string) \<Rightarrow> (instant \<Rightarrow> string) \<Rightarrow> string option \<Rightarrow> 'g processor \<Rightarrow> instant \<Rightarrow> uuid \<Rightarrow> uuid \<Rightarrow>
   string \<Rightarrow> user \<Rightarrow> market \<Rightarrow> 'g \<Rightarrow> appointment result \<times> market \<times> 'g" where
  "request_ride mac isof key pr now aid eid tok client m g =
     (case require_role [''client''] client of
        Inl e \<Rightarrow> (Inl e, m, g)
      | Inr _ \<Rightarrow>
     if tok = '''' then (Inl (HTTPException 400 ''fare_token required.''), m, g)
     else (case find (\<lambda>f. fare_token f = tok) (fares m) of
        None \<Rightarrow> (Inl (HTTPException 404 ''Fare estimate not found.''), m, g)
      | Some f \<Rightarrow>
     (case verify_fare_token mac isof key now tok (fare_id f) (fare_price f) (fare_expires f) of
        Inl e \<Rightarrow> (Inl e, m, g)
      | Inr False \<Rightarrow> (Inl (HTTPException 400 ''Fare token invalid or expired.''), m, g)
      | Inr True \<Rightarrow>
          (let a = ride_appointment aid now client f;
               m1 = m\<lparr>mk_db := create_appointment_row a (mk_db m)\<rparr>
           in case coord_authorize pr now eid aid (int (fare_price f)) ''usd'' (mk_ledger m1) g of
                (Inl e, g') \<Rightarrow> (Inl e, m1, g')
              | (Inr (entry, l), g') \<Rightarrow>
                  (Inr a, m1\<lparr>mk_ledger := l, assignment_queue := assignment_queue m1 @ [aid]\<rparr>, g')))))"

definition is_offer :: "uuid \<Rightarrow> uuid \<Rightarrow> assignment \<Rightarrow> bool" where
  "is_offer aid det r \<longleftrightarrow> asg_appointment r = aid \<and> asg_detailer r = det \<and> asg_status r = OFFERED"

definition answer_offer :: "uuid \<Rightarrow> uuid \<Rightarrow> assignment_status \<Rightarrow> instant \<Rightarrow> db \<Rightarrow> db" where
  "answer_offer aid det s now d =
     d\<lparr>assignments := update_where (is_offer aid det)
                        (\<lambda>r. r\<lparr>asg_status := s, responded_at := Some now\<rparr>) (assignments d)\<rparr>"

definition set_ride_status :: "uuid \<Rightarrow> (appointment \<Rightarrow> appointment) \<Rightarrow> db \<Rightarrow> db" where
  "set_ride_status aid f d = d\<lparr>appointments := update_where (\<lambda>a. appt_id a = aid) f (appointments d)\<rparr>"

definition accept_ride ::
  "'g processor \<Rightarrow> instant \<Rightarrow> uuid \<Rightarrow> uuid \<Rightarrow> user \<Rightarrow> market \<Rightarrow> 'g \<Rightarrow> unit result \<times> market \<times> 'g" where
  "accept_ride pr now eid aid det m g =
     (case require_role [''detailer''] det of
        Inl e \<Rightarrow> (Inl e, m, g)
      | Inr _ \<Rightarrow>
     (case find (\<lambda>a. appt_id a = aid \<and> appt_status a = SEARCHING) (appointments (mk_db m)) of
        None \<Rightarrow> (Inl (HTTPException 404 ''Appointment not found or not in SEARCHING state.''), m, g)
      | Some a \<Rightarrow>
     if \<not> (\<exists>r \<in> set (assignments (mk_db m)). is_offer aid (user_id det) r)
     then (Inl (HTTPException 409 ''No active offer for this detailer.''), m, g)
     else (let d1 = answer_offer aid (user_id det) ACCEPTED now (mk_db m);
               d2 = set_ride_status aid (\<lambda>a. a\<lparr>appt_status := CONFIRMED, detailer_id := Some (user_id det)\<rparr>) d1;
               m1 = m\<lparr>mk_db := d2\<rparr>
           in case coord_capture pr now eid aid (int (estimated_price a)) (mk_ledger m1) g of
                (Inl e, g') \<Rightarrow> (Inl e, m1, g')
              | (Inr (entry, l), g') \<Rightarrow> (Inr (), m1\<lparr>mk_ledger := l\<rparr>, g'))))"

definition decline_ride :: "instant \<Rightarrow> uuid \<Rightarrow> user \<Rightarrow> market \<Rightarrow> (unit \<times> market) result" where
  "decline_ride now aid det m =
     (case require_role [''detailer''] det of
        Inl e \<Rightarrow> Inl e
      | Inr _ \<Rightarrow>
          if \<not> (\<exists>r \<in> set (assignments (mk_db m)). is_offer aid (user_id det) r)
          then Inl (HTTPException 404 ''No active offer for this detailer.'')
          else Inr ((), m\<lparr>mk_db := answer_offer aid (user_id det) DECLINED now (mk_db m)\<rparr>))"

section \<open>Surge and fares\<close>

lemma default_surge:
  "surge_multiplier default_settings n =
     (if n \<le> 2 then flt_2_0 else if n \<le> 4 then flt_1_5 else if n \<le> 8 then flt_1_2 else flt_1_0)"
  by (simp add: surge_multiplier_def default_settings_def threshold_bound_def)

definition surged_price :: "settings \<Rightarrow> nat \<Rightarrow> nat \<Rightarrow> nat" where
  "surged_price st base n = flt_ceil (flt_mul_int base (surge_multiplier st n))"

lemma default_surged_price:
  "base < 2 ^ 31 \<Longrightarrow> surged_price default_settings base n =
     (if n \<le> 2 then 2 * base else if n \<le> 4 then (3 * base + 1) div 2
      else if n \<le> 8 then (6 * base + 4) div 5 else base)"
  by (simp add: surged_price_def default_surge ceil_times_1_0 ceil_times_1_2 ceil_times_1_5 ceil_times_2_0)

lemma surge_steps: "(6 * b + 4) div 5 \<le> (3 * b + 1) div (2::nat)"
proof (cases "b < 3")
  case True
  then consider "b = 0" | "b = 1" | "b = 2" by linarith
  then show ?thesis by cases simp_all
next
  case False
  then show ?thesis by linarith
qed

text \<open>
  Surge under the default thresholds: a fare is at least the base price and at most twice it,
  and it never goes up when more detailers are around.
\<close>

lemma surge_bounded_and_monotone:
  assumes "base < 2 ^ 31" and "n \<le> n'"
  shows "base \<le> surged_price default_settings base n \<and> surged_price default_settings base n \<le> 2 * base \<and>
         surged_price default_settings base n' \<le> surged_price default_settings base n"
proof -
  have "base \<le> (6 * base + 4) div 5" "(6 * base + 4) div 5 \<le> (3 * base + 1) div 2" "(3 * base + 1) div 2 \<le> 2 * base"
    by (linarith, rule surge_steps, linarith)
  with assms(2) show ?thesis by (auto simp: default_surged_price [OF assms(1)])
qed

text \<open>
  No fare is ever quoted: the key the token is signed with is read from a setting that does not
  exist, so every estimate ends in an exception, and for a client naming an active service it is the
  unhandled \<open>AttributeError\<close>.
\<close>

lemma estimate_fare_never_succeeds:
  "\<exists>e. estimate_fare mac isof None st surge now fid sid sizes client m = Inl e \<and>
       (is_client client \<and> sizes \<noteq> [] \<and> fare_service_row (mk_db m) sid \<noteq> None
          \<longrightarrow> e = AttributeError ''JWT_SECRET_KEY'')"
  by (auto simp: estimate_fare_def require_role_def role_defs generate_fare_token_def split: prod.split option.split)

text \<open>With the default settings as declared, and one client and one active service.\<close>

section \<open>What the token protects\<close>

lemma of_char_digit: "d < 10 \<Longrightarrow> of_char (char_of (48 + d) :: char) = (48 + d :: nat)"
  by (simp add: of_char_of)

lemma digits_value_snoc: "digits_value (s @ [c]) = 10 * digits_value s + (of_char c - 48)"
  by (simp add: digits_value_def)

lemma digits_value_nat_str: "digits_value (nat_str n) = n"
proof (induction n rule: nat_str.induct)
  case (1 n)
  show ?case
  proof (cases "n < 10")
    case True
    then show ?thesis by (simp add: nat_str.simps [of n] digits_value_def of_char_of)
  next
    case False
    with 1 show ?thesis by (simp add: nat_str.simps [of n] digits_value_snoc of_char_digit)
  qed
qed

lemma nat_str_digits: "c \<in> set (nat_str n) \<Longrightarrow> (of_char c :: nat) < 58"
proof (induction n rule: nat_str.induct)
  case (1 n)
  then show ?case by (cases "n < 10") (auto simp: nat_str.simps [of n] of_char_of)
qed

lemma nat_str_inject: "nat_str m = nat_str n \<Longrightarrow> m = n"
  by (metis digits_value_nat_str)

lemma colon_not_in_nat_str: "CHR '':'' \<notin> set (nat_str n)"
  using nat_str_digits [of "CHR '':''" n] by auto

lemma split_at_first: "xs @ c # ys = xs' @ c # ys' \<Longrightarrow> c \<notin> set xs \<Longrightarrow> c \<notin> set xs' \<Longrightarrow> xs = xs' \<and> ys = ys'"
  by (induction xs arbitrary: xs') (auto simp: append_eq_Cons_conv Cons_eq_append_conv)

text \<open>
  A fare token vouches for its price: under a message authentication code without collisions,
  a token issued for a fare verifies for that fare until it expires and not after, and verifies for
  no other price and no other expiry.
\<close>

lemma fare_token_binds_price:
  assumes mac: "inj (mac k)"
    and tok: "generate_fare_token mac isof (Some k) fid price expires = Inr tok"
  shows "verify_fare_token mac isof (Some k) now tok fid price expires = Inr (now \<le> expires) \<and>
         (verify_fare_token mac isof (Some k) now tok fid price' expires' = Inr True \<longrightarrow>
            price' = price \<and> isof expires' = isof expires)"
proof (intro conjI impI)
  from tok show "verify_fare_token mac isof (Some k) now tok fid price expires = Inr (now \<le> expires)"
    by (auto simp: verify_fare_token_def generate_fare_token_def)
  assume "verify_fare_token mac isof (Some k) now tok fid price' expires' = Inr True"
  with tok mac have "fare_message isof fid price' expires' = fare_message isof fid price expires"
    by (auto simp: verify_fare_token_def generate_fare_token_def inj_eq split: if_splits)
  then have "nat_str price' @ CHR '':'' # isof expires' = nat_str price @ CHR '':'' # isof expires"
    by (simp add: fare_message_def)
  from split_at_first [OF this colon_not_in_nat_str colon_not_in_nat_str]
  have "nat_str price' = nat_str price" and iso_eq: "isof expires' = isof expires" by simp_all
  with nat_str_inject show "price' = price" by blast
  show "isof expires' = isof expires" by (rule iso_eq)
qed

section \<open>The life of a ride\<close>

lemma request_ride_InrE:
  assumes "request_ride mac isof key pr now aid eid tok client m g = (Inr a, m', g')"
  obtains f entry l where "is_client client" "tok \<noteq> ''''" "find (\<lambda>f. fare_token f = tok) (fares m) = Some f"
    "verify_fare_token mac isof key now tok (fare_id f) (fare_price f) (fare_expires f) = Inr True"
    "a = ride_appointment aid now client f"
    "coord_authorize pr now eid aid (int (fare_price f)) ''usd'' (mk_ledger m) g = (Inr (entry, l), g')"
    "m' = m\<lparr>mk_db := create_appointment_row a (mk_db m), mk_ledger := l,
            assignment_queue := assignment_queue m @ [aid]\<rparr>"
  using assms
  by (auto simp: request_ride_def require_role_def role_defs Let_def
      split: if_splits option.splits sum.splits bool.splits prod.splits)

lemma coord_authorize_Inr:
  "coord_authorize pr now eid aid amount cur l g = (Inr (entry, l'), g') \<Longrightarrow>
     entries l' = entries l @ [entry] \<and> le_type entry = AUTHORIZATION \<and> le_appointment entry = aid \<and> le_amount entry = amount"
  by (auto simp: coord_authorize_def ledger_create_def Let_def split: prod.splits sum.splits if_splits)

lemma coord_capture_Inr:
  "coord_capture pr now eid aid amount l g = (Inr (entry, l'), g') \<Longrightarrow>
     entries l' = entries l @ [entry] \<and> le_type entry = CAPTURE \<and> le_appointment entry = aid \<and> le_amount entry = amount"
  by (auto simp: coord_capture_def ledger_create_def Let_def split: prod.splits sum.splits if_splits)

text \<open>
  A fare token is neither spent nor tied to the client it was quoted to: after a ride was
  requested with it, any client who sends it again before it expires gets another ride at the same
  price, with another authorisation.
\<close>

lemma fare_token_is_reusable:
  assumes "request_ride mac isof key (mock_processor rnd) now aid eid tok client m () = (Inr a, m', ())"
    and "find (\<lambda>f. fare_token f = tok) (fares m) = Some f" and "now2 \<le> fare_expires f" and "is_client client2"
  shows "\<exists>m''. request_ride mac isof key (mock_processor rnd2) now2 aid2 eid2 tok client2 m' ()
                 = (Inr (ride_appointment aid2 now2 client2 f), m'', ()) \<and>
               length (entries (mk_ledger m'')) = length (entries (mk_ledger m)) + 2"
proof -
  from assms(1,2) obtain entry l where v: "tok \<noteq> ''''"
    "verify_fare_token mac isof key now tok (fare_id f) (fare_price f) (fare_expires f) = Inr True"
    and c: "coord_authorize (mock_processor rnd) now eid aid (int (fare_price f)) ''usd'' (mk_ledger m) () = (Inr (entry, l), ())"
    and m': "m' = m\<lparr>mk_db := create_appointment_row a (mk_db m), mk_ledger := l, assignment_queue := assignment_queue m @ [aid]\<rparr>"
    by (auto elim: request_ride_InrE)
  from v(2) assms(3) have v2: "verify_fare_token mac isof key now2 tok (fare_id f) (fare_price f) (fare_expires f) = Inr True"
    by (auto simp: verify_fare_token_def split: if_splits sum.splits)
  have "\<exists>entry2 l2. coord_authorize (mock_processor rnd2) now2 eid2 aid2 (int (fare_price f)) ''usd'' l () = (Inr (entry2, l2), ())"
    by (simp add: coord_authorize_def mock_processor_def ledger_create_def lower_usd Let_def)
  then obtain entry2 l2 where c2: "coord_authorize (mock_processor rnd2) now2 eid2 aid2 (int (fare_price f)) ''usd'' l () = (Inr (entry2, l2), ())"
    by blast
  show ?thesis
    using assms(2,4) v(1) v2 c2 coord_authorize_Inr [OF c] coord_authorize_Inr [OF c2]
    by (auto simp: request_ride_def require_role_def role_defs m' Let_def)
qed

lemma accept_ride_InrE:
  assumes "accept_ride pr now eid aid det m g = (Inr (), m', g')"
  obtains a entry l where "find (\<lambda>a. appt_id a = aid \<and> appt_status a = SEARCHING) (appointments (mk_db m)) = Some a"
    "\<exists>r \<in> set (assignments (mk_db m)). is_offer aid (user_id det) r"
    "coord_capture pr now eid aid (int (estimated_price a)) (mk_ledger m) g = (Inr (entry, l), g')"
    "m' = m\<lparr>mk_db := set_ride_status aid (\<lambda>a. a\<lparr>appt_status := CONFIRMED, detailer_id := Some (user_id det)\<rparr>)
                        (answer_offer aid (user_id det) ACCEPTED now (mk_db m)), mk_ledger := l\<rparr>"
  using assms
  by (auto simp: accept_ride_def require_role_def Let_def split: if_splits option.splits sum.splits prod.splits)

text \<open>
  C10. A ride goes to one detailer: an acceptance needs an open offer to that detailer, confirms the
  ride for them and writes one capture of the estimated price; every later acceptance of the same
  ride, by anyone, is refused and changes nothing.
\<close>

theorem ride_accepted_once:
  assumes "accept_ride pr now eid aid det m g = (Inr (), m', g')"
  shows "(\<exists>r \<in> set (assignments (mk_db m)). is_offer aid (user_id det) r) \<and>
         (\<exists>a entry. a \<in> set (appointments (mk_db m)) \<and> appt_id a = aid \<and> appt_status a = SEARCHING \<and>
            entries (mk_ledger m') = entries (mk_ledger m) @ [entry] \<and> le_type entry = CAPTURE \<and>
            le_amount entry = int (estimated_price a)) \<and>
         (\<forall>b \<in> set (appointments (mk_db m')). appt_id b = aid \<longrightarrow>
            appt_status b = CONFIRMED \<and> detailer_id b = Some (user_id det)) \<and>
         (\<exists>e. accept_ride pr' now' eid' aid det' m' g'' = (Inl e, m', g''))"
proof -
  from assms obtain a entry l where a: "find (\<lambda>a. appt_id a = aid \<and> appt_status a = SEARCHING) (appointments (mk_db m)) = Some a"
    and offer: "\<exists>r \<in> set (assignments (mk_db m)). is_offer aid (user_id det) r"
    and cap: "coord_capture pr now eid aid (int (estimated_price a)) (mk_ledger m) g = (Inr (entry, l), g')"
    and m': "m' = m\<lparr>mk_db := set_ride_status aid (\<lambda>a. a\<lparr>appt_status := CONFIRMED, detailer_id := Some (user_id det)\<rparr>)
                        (answer_offer aid (user_id det) ACCEPTED now (mk_db m)), mk_ledger := l\<rparr>"
    by (rule accept_ride_InrE)
  have rows: "\<forall>b \<in> set (appointments (mk_db m')). appt_id b = aid \<longrightarrow>
            appt_status b = CONFIRMED \<and> detailer_id b = Some (user_id det)"
  proof (intro ballI impI)
    fix b assume "b \<in> set (appointments (mk_db m'))" and id: "appt_id b = aid"
    then obtain q where q: "b = (if appt_id q = aid
        then q\<lparr>appt_status := CONFIRMED, detailer_id := Some (user_id det)\<rparr> else q)"
      by (auto simp: m' set_ride_status_def answer_offer_def set_update_where)
    with id show "appt_status b = CONFIRMED \<and> detailer_id b = Some (user_id det)"
      by (cases "appt_id q = aid") simp_all
  qed
  then have "find (\<lambda>a. appt_id a = aid \<and> appt_status a = SEARCHING) (appointments (mk_db m')) = None"
    by (auto simp: find_None_iff)
  then have "\<exists>e. accept_ride pr' now' eid' aid det' m' g'' = (Inl e, m', g'')"
    by (auto simp: accept_ride_def require_role_def)
  with rows offer show ?thesis using a coord_capture_Inr [OF cap] m'
    by (auto simp: find_Some_iff intro!: exI [of _ a])
qed

lemma rowcount_update_blind:
  "(\<And>r. r \<in> set rows \<Longrightarrow> q r \<Longrightarrow> \<not> p r \<and> \<not> p (f r)) \<Longrightarrow> rowcount p (update_where q f rows) = rowcount p rows"
  by (induction rows) (auto simp: rowcount_def)

text \<open>
  An accepted ride does not block the detailer's calendar: a ride row has no travel buffer end,
  so the overlap count the booking flow relies on is, for every detailer and window, what it was
  before the acceptance, and a booking for the very time of the ride passes the check.
\<close>

lemma accepted_ride_invisible_to_calendar:
  assumes "accept_ride pr now eid aid det m g = (Inr (), m', g')"
    and "\<And>a. a \<in> set (appointments (mk_db m)) \<Longrightarrow> appt_id a = aid \<Longrightarrow> travel_buffer_end_time a = None"
  shows "get_overlapping_count (mk_db m') who s e = get_overlapping_count (mk_db m) who s e"
proof -
  from assms(1) obtain l where m': "m' = m\<lparr>mk_db := set_ride_status aid (\<lambda>a. a\<lparr>appt_status := CONFIRMED, detailer_id := Some (user_id det)\<rparr>)
                        (answer_offer aid (user_id det) ACCEPTED now (mk_db m)), mk_ledger := l\<rparr>"
    by (auto elim: accept_ride_InrE)
  show ?thesis
    unfolding m' get_overlapping_count_def
    by (simp add: set_ride_status_def answer_offer_def)
       (rule rowcount_update_blind, use assms(2) in \<open>auto simp: overlaps_def\<close>)
qed

text \<open>A fare with its token, under a transparent code and some key; then a searching ride with an offer.\<close>

definition demo_fare :: fare where
  "demo_fare = \<lparr>fare_id = 1, fare_client = 1, fare_service = 5, fare_sizes = [SMALL], fare_base = 2500,
     fare_surge = flt_1_0, fare_price = 2500, fare_nearby = 9, fare_token = fare_message (\<lambda>_. '''') 1 2500 10, fare_expires = 10\<rparr>"

definition fare_market :: market where
  "fare_market = \<lparr>mk_db = empty_db, fares = [demo_fare], mk_ledger = \<lparr>entries = [], seals = []\<rparr>, assignment_queue = []\<rparr>"

definition offer_market :: market where
  "offer_market = fare_market\<lparr>mk_db := empty_db\<lparr>appointments := [ride_appointment 100 0 demo_client demo_fare],
     assignments := [\<lparr>asg_appointment = 100, asg_detailer = 7, asg_status = OFFERED, responded_at = None, offer_expires_at = 15\<rparr>]\<rparr>\<rparr>"

lemma fare_message_nonempty: "fare_message isof fid price expires \<noteq> ''''"
  by (simp add: fare_message_def)

lemma demo_verify: "verify_fare_token (\<lambda>_ s. s) (\<lambda>_. '''') (Some ''k'') 5 (fare_token demo_fare) 1 2500 10 = Inr True"
  by (simp add: verify_fare_token_def generate_fare_token_def demo_fare_def)

lemma mock_authorize:
  "\<exists>entry l'. coord_authorize (mock_processor rnd) now eid aid (int n) ''usd'' l () = (Inr (entry, l'), ())"
  by (simp add: coord_authorize_def mock_processor_def ledger_create_def lower_usd Let_def)

lemma demo_request:
  "\<exists>a m'. request_ride (\<lambda>_ s. s) (\<lambda>_. '''') (Some ''k'') (mock_processor 1) 5 100 200 (fare_token demo_fare) demo_client fare_market ()
     = (Inr a, m', ())"
proof -
  obtain entry l where "coord_authorize (mock_processor 1) 5 200 100 (int 2500) ''usd'' \<lparr>entries = [], seals = []\<rparr> () = (Inr (entry, l), ())"
    using mock_authorize by blast
  moreover have "fare_id demo_fare = 1" "fare_price demo_fare = 2500" "fare_expires demo_fare = 10"
    "fare_token demo_fare \<noteq> ''''" by (simp_all add: demo_fare_def fare_message_nonempty)
  moreover have "is_client demo_client" by (simp add: role_defs demo_client_def demo_detailer_def)
  ultimately show ?thesis
    by (simp add: request_ride_def require_role_def fare_market_def demo_verify role_defs Let_def)
qed

lemma demo_accept:
  "\<exists>m'. accept_ride (mock_processor 1) 5 300 100 demo_detailer offer_market () = (Inr (), m', ())"
  by (simp add: accept_ride_def require_role_def offer_market_def role_defs demo_detailer_def ride_appointment_def
      is_offer_def empty_db_def coord_capture_def mock_processor_def ledger_create_def lower_usd demo_fare_def
      fare_market_def Let_def)

theorem ride_accepted_once_witness:
  "\<exists>m' e. accept_ride (mock_processor 1) 5 300 100 demo_detailer offer_market () = (Inr (), m', ()) \<and>
          accept_ride (mock_processor 2) 6 301 100 (demo_detailer\<lparr>user_id := 8\<rparr>) m' () = (Inl e, m', ())"
proof -
  obtain m' where "accept_ride (mock_processor 1) 5 300 100 demo_detailer offer_market () = (Inr (), m', ())"
    using demo_accept by blast
  from ride_accepted_once [OF this, of "mock_processor 2" 6 301 "demo_detailer\<lparr>user_id := 8\<rparr>" "()"] this
  show ?thesis by blast
qed

end
