(* ===== verification/Matching.thy ===== *)
theory Matching
  imports Rides
begin

text \<open>
  Finding a detailer: the discovery query (\<open>list_available\<close>, domains/providers/repository.py) and
  the search endpoint over it (domains/matching/router.py), and the assignment of an instant ride
  (domains/matching/service.py) as a state machine of the worker and the detailers who answer.
  Coordinates, distances and scores are real numbers in place of binary64; a distance is what the
  haversine formula gives.
\<close>

section \<open>Distance and score\<close>

definition radians :: "real \<Rightarrow> real" where
  "radians x = x * pi / 180"

definition haversine :: "real \<Rightarrow> real \<Rightarrow> real \<Rightarrow> real \<Rightarrow> real \<Rightarrow> real" where
  "haversine radius lat1 lng1 lat2 lng2 =
     (let phi1 = radians lat1; phi2 = radians lat2;
          a = (sin ((phi2 - phi1) / 2))\<^sup>2 + cos phi1 * cos phi2 * (sin (radians (lng2 - lng1) / 2))\<^sup>2
      in 2 * radius * arcsin (sqrt a))"

definition haversine_miles :: "real \<Rightarrow> real \<Rightarrow> real \<Rightarrow> real \<Rightarrow> real" where
  "haversine_miles = haversine 3958.8"

text \<open>\<open>x or default\<close> on a number: zero is false.\<close>

definition num_or :: "real option \<Rightarrow> real \<Rightarrow> real" where
  "num_or x dflt = (case x of None \<Rightarrow> dflt | Some v \<Rightarrow> if v = 0 then dflt else v)"

definition score :: "provider_profile \<Rightarrow> real \<Rightarrow> real \<Rightarrow> real" where
  "score p lat lng =
     (case (current_lat p, current_lng p) of
        (Some plat, Some plng) \<Rightarrow>
          (let d = max (haversine_miles plat plng lat lng) 0.01;
               rating = num_or (map_option of_rat (average_rating p)) 3;
               rr = num_or (Some (of_rat (response_rate p))) 0.5
           in 0.4 * (1 / d) + 0.4 * rating + 0.2 * rr)
      | _ \<Rightarrow> 0)"

text \<open>\<open>sorted(profiles, key=score, reverse=True)\<close>: stable, best first.\<close>

definition ranked :: "real \<Rightarrow> real \<Rightarrow> provider_profile list \<Rightarrow> provider_profile list" where
  "ranked lat lng ps = sort_key (\<lambda>p. - score p lat lng) ps"

section \<open>Discovery\<close>

text \<open>The bounding box of the query; the longitude delta guards against the poles.\<close>

definition in_box :: "real \<Rightarrow> real \<Rightarrow> real \<Rightarrow> provider_profile \<Rightarrow> bool" where
  "in_box lat lng radius p =
     (let dlat = radius / 69; dlng = radius / max 0.001 (69 * cos (radians lat))
      in case (current_lat p, current_lng p) of
           (Some plat, Some plng) \<Rightarrow> lat - dlat \<le> plat \<and> plat \<le> lat + dlat \<and> lng - dlng \<le> plng \<and> plng \<le> lng + dlng
         | _ \<Rightarrow> False)"

definition distance_from :: "real \<Rightarrow> real \<Rightarrow> provider_profile \<Rightarrow> real" where
  "distance_from lat lng p = haversine_miles lat lng (the (current_lat p)) (the (current_lng p))"

text \<open>The join of users with the role, and their live, active profiles of whatever type.\<close>

definition discovery_rows :: "db \<Rightarrow> rat option \<Rightarrow> (user \<times> provider_profile) list" where
  "discovery_rows d min_rating =
     filter (\<lambda>(u, p). prof_user p = user_id u \<and> has_role u ''detailer'' \<and> user_active u \<and> \<not> user_deleted u \<and>
               \<not> prof_deleted p \<and> prof_active p \<and>
               (case min_rating of None \<Rightarrow> True | Some r \<Rightarrow>
                  (case average_rating p of None \<Rightarrow> False | Some a \<Rightarrow> r \<le> a)))
       (List.product (users d) (profiles d))"

text \<open>The sort key of the geographic listing: \<open>distance or inf\<close>, so a distance of zero is infinite.\<close>

definition near_first :: "real \<Rightarrow> real \<Rightarrow> (user \<times> provider_profile) list \<Rightarrow> (user \<times> provider_profile) list" where
  "near_first lat lng rows =
     (let dist = (\<lambda>r. distance_from lat lng (snd r))
      in sort_key dist (filter (\<lambda>r. dist r \<noteq> 0) rows) @ filter (\<lambda>r. dist r = 0) rows)"

definition list_available ::
  "db \<Rightarrow> (real \<times> real) option \<Rightarrow> real \<Rightarrow> rat option \<Rightarrow> nat \<Rightarrow> nat \<Rightarrow> (user \<times> provider_profile) list \<times> nat" where
  "list_available d pos radius min_rating page sz =
     (let rows = discovery_rows d min_rating;
          found = (case pos of
              Some (lat, lng) \<Rightarrow>
                near_first lat lng
                  (filter (\<lambda>(u, p). in_box lat lng radius p \<and> distance_from lat lng p \<le> radius) rows)
            | None \<Rightarrow> sort_key (\<lambda>(u, p). - (case average_rating p of None \<Rightarrow> 0 | Some r \<Rightarrow> r)) rows)
      in (page_of ((page - 1) * sz) sz found, length found))"

section \<open>The search endpoint\<close>

record matching_result =
  mr_user :: uuid
  mr_price :: nat
  mr_duration :: nat
  mr_rating :: rat
  mr_distance :: real
  mr_slots :: "time_slot list"

text \<open>\<open>round(distance, 2)\<close>.\<close>

definition round2 :: "real \<Rightarrow> real" where
  "round2 x = of_int (round (100 * x)) / 100"

definition MAX_SLOTS_RETURNED :: nat where "MAX_SLOTS_RETURNED = 5"

text \<open>
  One row: an \<open>HTTPException\<close> skips the detailer, any other exception ends the request.
\<close>

definition match_row ::
  "(uuid \<Rightarrow> time_slot list result) \<Rightarrow> nat \<Rightarrow> nat \<Rightarrow> (provider_profile \<Rightarrow> real) \<Rightarrow>
   user \<times> provider_profile \<Rightarrow> matching_result option result" where
  "match_row slots_of price dur far row =
     (case slots_of (user_id (fst row)) of
        Inl (HTTPException c msg) \<Rightarrow> Inr None
      | Inl e \<Rightarrow> Inl e
      | Inr slots \<Rightarrow>
          (case filter is_available slots of
             [] \<Rightarrow> Inr None
           | av \<Rightarrow> Inr (Some \<lparr>mr_user = user_id (fst row), mr_price = price, mr_duration = dur,
                              mr_rating = (case average_rating (snd row) of None \<Rightarrow> 0 | Some r \<Rightarrow> r),
                              mr_distance = round2 (far (snd row)), mr_slots = take MAX_SLOTS_RETURNED av\<rparr>)))"

fun match_rows ::
  "(uuid \<Rightarrow> time_slot list result) \<Rightarrow> nat \<Rightarrow> nat \<Rightarrow> (provider_profile \<Rightarrow> real) \<Rightarrow>
   (user \<times> provider_profile) list \<Rightarrow> matching_result list result" where
  "match_rows slots_of price dur far [] = Inr []"
| "match_rows slots_of price dur far (row # rows) =
     (case match_row slots_of price dur far row of
        Inl e \<Rightarrow> Inl e
      | Inr res \<Rightarrow>
          (case match_rows slots_of price dur far rows of
             Inl e \<Rightarrow> Inl e
           | Inr rest \<Rightarrow> Inr ((case res of None \<Rightarrow> [] | Some r \<Rightarrow> [r]) @ rest)))"

text \<open>Best rating first, then the shortest distance, a distance of 0.0 counting as infinite.\<close>

definition best_first :: "matching_result list \<Rightarrow> matching_result list" where
  "best_first rs =
     sort_key (\<lambda>r. - mr_rating r)
       (sort_key mr_distance (filter (\<lambda>r. mr_distance r \<noteq> 0) rs) @ filter (\<lambda>r. mr_distance r = 0) rs)"

definition search_rows ::
  "settings \<Rightarrow> (string \<Rightarrow> (int \<Rightarrow> instant) option) \<Rightarrow> instant \<Rightarrow> db \<Rightarrow> real \<Rightarrow> real \<Rightarrow> int \<Rightarrow> real \<Rightarrow>
   nat \<times> nat \<Rightarrow> matching_result list result" where
  "search_rows st tz now d lat lng date radius tot =
     match_rows (\<lambda>det. get_available_slots st tz now d det date None None (Some (int (snd tot))))
       (fst tot) (snd tot) (distance_from lat lng) (fst (list_available d (Some (lat, lng)) radius None 1 50))"

definition find_matching_detailers ::
  "settings \<Rightarrow> (string \<Rightarrow> (int \<Rightarrow> instant) option) \<Rightarrow> instant \<Rightarrow> db \<Rightarrow> real \<Rightarrow> real \<Rightarrow> int \<Rightarrow> uuid \<Rightarrow>
   vehicle_size list \<Rightarrow> uuid list \<Rightarrow> real \<Rightarrow> matching_result list result" where
  "find_matching_detailers st tz now d lat lng date sid sizes aids radius =
     (if sizes = [] then Inl (unprocessable ''At least one vehicle_size is required.'')
      else (case get_service d sid of
              None \<Rightarrow> Inl (HTTPException 404 ''Service not found or inactive.'')
            | Some svc \<Rightarrow>
                (case collect_addons d aids of
                   Inl e \<Rightarrow> Inl e
                 | Inr as \<Rightarrow>
                     (case search_rows st tz now d lat lng date radius
                             (sum_addons (map snd as) (sum_sizes svc sizes (0, 0))) of
                        Inl e \<Rightarrow> Inl e
                      | Inr rs \<Rightarrow> Inr (best_first rs)))))"

section \<open>What the search returns\<close>

lemma match_rows_Inr:
  "match_rows slots_of price dur far rows = Inr rs \<Longrightarrow> r \<in> set rs \<Longrightarrow>
     \<exists>row slots. row \<in> set rows \<and> mr_user r = user_id (fst row) \<and> slots_of (user_id (fst row)) = Inr slots \<and>
       mr_price r = price \<and> mr_duration r = dur \<and>
       mr_slots r = take MAX_SLOTS_RETURNED (filter is_available slots) \<and> filter is_available slots \<noteq> []"
proof (induction rows arbitrary: rs)
  case (Cons row rows)
  from Cons.prems obtain res rest where res: "match_row slots_of price dur far row = Inr res"
    and rest: "match_rows slots_of price dur far rows = Inr rest"
    and rs: "rs = (case res of None \<Rightarrow> [] | Some r \<Rightarrow> [r]) @ rest"
    by (auto split: sum.splits)
  show ?case
  proof (cases "r \<in> set rest")
    case True
    with Cons.IH [OF rest] show ?thesis by auto
  next
    case False
    with rs Cons.prems(2) have "res = Some r" by (cases res) auto
    with res show ?thesis
      by (intro exI [of _ row]) (auto simp: match_row_def split: sum.splits exn.splits list.splits)
  qed
qed simp

lemma match_rows_ok:
  "match_rows slots_of price dur far rows = Inr rs \<Longrightarrow> row \<in> set rows \<Longrightarrow> slots_of (user_id (fst row)) = Inl e \<Longrightarrow>
     \<exists>c msg. e = HTTPException c msg"
  by (induction rows arbitrary: rs) (auto simp: match_row_def split: sum.splits exn.splits)

lemma set_best_first [simp]: "set (best_first rs) = set rs"
  by (auto simp: best_first_def)

lemma set_near_first [simp]: "set (near_first lat lng rows) = set rows"
  by (auto simp: near_first_def Let_def)

lemma set_page_of: "x \<in> set (page_of offset limit rows) \<Longrightarrow> x \<in> set rows"
  by (auto simp: page_of_def dest!: in_set_takeD in_set_dropD)

lemma list_available_near:
  assumes "(u, p) \<in> set (fst (list_available d (Some (lat, lng)) radius mr page sz))"
  shows "(u, p) \<in> set (discovery_rows d mr) \<and> distance_from lat lng p \<le> radius \<and> in_box lat lng radius p"
proof -
  let ?rows = "filter (\<lambda>(u, p). in_box lat lng radius p \<and> distance_from lat lng p \<le> radius) (discovery_rows d mr)"
  from assms have "(u, p) \<in> set (page_of ((page - 1) * sz) sz (near_first lat lng ?rows))"
    by (simp add: list_available_def Let_def)
  then have "(u, p) \<in> set (near_first lat lng ?rows)" by (rule set_page_of)
  then show ?thesis by simp
qed

lemma find_matching_InrE:
  assumes "find_matching_detailers st tz now d lat lng date sid sizes aids radius = Inr rs"
  obtains tot rs' where "search_rows st tz now d lat lng date radius tot = Inr rs'" "rs = best_first rs'"
  using assms by (auto simp: find_matching_detailers_def split: if_splits option.splits sum.splits)

text \<open>
  Whom the search offers: every result is an active detailer with an active profile whose last
  known position is within the radius, and the one to five slots shown are available slots of the
  slot engine for the requested date and the total duration of the request.
\<close>

lemma search_results_sound:
  assumes "find_matching_detailers st tz now d lat lng date sid sizes aids radius = Inr rs" and "r \<in> set rs"
  shows "\<exists>u p slots. u \<in> set (users d) \<and> p \<in> set (profiles d) \<and> mr_user r = user_id u \<and> prof_user p = user_id u \<and>
           is_detailer u \<and> user_active u \<and> prof_active p \<and> distance_from lat lng p \<le> radius \<and>
           get_available_slots st tz now d (user_id u) date None None (Some (int (mr_duration r))) = Inr slots \<and>
           mr_slots r \<noteq> [] \<and> length (mr_slots r) \<le> 5 \<and>
           (\<forall>s \<in> set (mr_slots r). s \<in> set slots \<and> is_available s)"
proof -
  from assms obtain tot rs' where m: "search_rows st tz now d lat lng date radius tot = Inr rs'" and r: "r \<in> set rs'"
    by (auto elim!: find_matching_InrE)
  from match_rows_Inr [OF m [unfolded search_rows_def] r] obtain u p slots
    where row: "(u, p) \<in> set (fst (list_available d (Some (lat, lng)) radius None 1 50))" and "mr_user r = user_id u"
    and "get_available_slots st tz now d (user_id u) date None None (Some (int (mr_duration r))) = Inr slots"
    and sl: "mr_slots r = take MAX_SLOTS_RETURNED (filter is_available slots)" "filter is_available slots \<noteq> []"
    by auto
  moreover have "mr_slots r \<noteq> []" "length (mr_slots r) \<le> 5" "\<forall>s \<in> set (mr_slots r). s \<in> set slots \<and> is_available s"
    using sl by (auto simp: MAX_SLOTS_RETURNED_def dest: in_set_takeD)
  moreover from list_available_near [OF row] have "u \<in> set (users d)" "p \<in> set (profiles d)" "prof_user p = user_id u"
    "is_detailer u" "user_active u" "prof_active p" "distance_from lat lng p \<le> radius"
    by (auto simp: discovery_rows_def is_detailer_def)
  ultimately show ?thesis by blast
qed

text \<open>
  One detailer can break the search for everybody: only \<open>HTTPException\<close> is caught per row, so
  when the slot list of any detailer on the first page raises anything else (an accepted ride first
  in the day makes it a \<open>TypeError\<close>) the whole search fails.
\<close>

lemma one_detailer_breaks_search:
  assumes "(u, p) \<in> set (fst (list_available d (Some (lat, lng)) radius None 1 50))"
    and "get_service d sid = Some svc" and "collect_addons d aids = Inr as"
    and "tot = sum_addons (map snd as) (sum_sizes svc sizes (0, 0))"
    and "get_available_slots st tz now d (user_id u) date None None (Some (int (snd tot))) = Inl TypeError"
  shows "\<exists>e. find_matching_detailers st tz now d lat lng date sid sizes aids radius = Inl e"
proof (cases "search_rows st tz now d lat lng date radius tot")
  case (Inl e)
  with assms(2-4) show ?thesis by (auto simp: find_matching_detailers_def)
next
  case (Inr rs)
  from match_rows_ok [OF this [unfolded search_rows_def] assms(1), of TypeError] assms(5) show ?thesis by simp
qed

section \<open>Assigning a ride\<close>

text \<open>
  The worker of one appointment: the candidates left, whom it waits for, and what it was told. The
  offer's Redis lock may be found taken, whoever holds it, and the candidate is then passed over; an answer
  reaches the worker only while it waits for that detailer (\<open>assignment_events\<close>).
\<close>

datatype worker =
    Trying "uuid list"
  | Awaiting uuid "assignment_status option" "uuid list"
  | Over

record matching =
  mt_market :: market
  mt_worker :: worker

definition MAX_CANDIDATES :: nat where "MAX_CANDIDATES = 3"

definition mark_no_detailer :: "uuid \<Rightarrow> db \<Rightarrow> db" where
  "mark_no_detailer aid d = set_ride_status aid (\<lambda>a. a\<lparr>appt_status := NO_DETAILER_FOUND\<rparr>) d"

definition add_offer :: "uuid \<Rightarrow> uuid \<Rightarrow> instant \<Rightarrow> db \<Rightarrow> db" where
  "add_offer aid det expires d =
     d\<lparr>assignments := assignments d @ [\<lparr>asg_appointment = aid, asg_detailer = det, asg_status = OFFERED,
                                       responded_at = None, offer_expires_at = expires\<rparr>]\<rparr>"

text \<open>The update by primary key after an answer or a timeout: it does not look at the status.\<close>

definition close_offer :: "uuid \<Rightarrow> uuid \<Rightarrow> assignment_status \<Rightarrow> instant \<Rightarrow> db \<Rightarrow> db" where
  "close_offer aid det s now d =
     d\<lparr>assignments := update_where (\<lambda>r. asg_appointment r = aid \<and> asg_detailer r = det)
                        (\<lambda>r. r\<lparr>asg_status := s, responded_at := Some now\<rparr>) (assignments d)\<rparr>"

definition on_db :: "(db \<Rightarrow> db) \<Rightarrow> market \<Rightarrow> market" where
  "on_db f m = m\<lparr>mk_db := f (mk_db m)\<rparr>"

inductive assign_step :: "uuid \<Rightarrow> matching \<Rightarrow> matching \<Rightarrow> bool" for aid where
  give_offer:
    "mt_worker c = Trying (det # ds) \<Longrightarrow>
     \<not> (\<exists>r \<in> set (assignments (mk_db (mt_market c))). asg_appointment r = aid \<and> asg_detailer r = det) \<Longrightarrow>
     assign_step aid c (c\<lparr>mt_market := on_db (add_offer aid det expires) (mt_market c),
                          mt_worker := Awaiting det None ds\<rparr>)"
| lock_taken:
    "mt_worker c = Trying (det # ds) \<Longrightarrow> assign_step aid c (c\<lparr>mt_worker := Trying ds\<rparr>)"
| exhausted:
    "mt_worker c = Trying [] \<Longrightarrow>
     assign_step aid c (c\<lparr>mt_market := on_db (mark_no_detailer aid) (mt_market c), mt_worker := Over\<rparr>)"
| told_accepted:
    "mt_worker c = Awaiting det (Some ACCEPTED) ds \<Longrightarrow> assign_step aid c (c\<lparr>mt_worker := Over\<rparr>)"
| told_declined:
    "mt_worker c = Awaiting det (Some DECLINED) ds \<Longrightarrow>
     assign_step aid c (c\<lparr>mt_market := on_db (close_offer aid det DECLINED now) (mt_market c), mt_worker := Trying ds\<rparr>)"
| timed_out:
    "mt_worker c = Awaiting det None ds \<Longrightarrow>
     assign_step aid c (c\<lparr>mt_market := on_db (close_offer aid det TIMEOUT now) (mt_market c), mt_worker := Trying ds\<rparr>)"
| accept_committed:
    "accept_ride (mock_processor rnd) now eid aid det (mt_market c) () = (Inr (), m', ()) \<Longrightarrow>
     assign_step aid c (c\<lparr>mt_market := m'\<rparr>)"
| decline_committed:
    "decline_ride now aid det (mt_market c) = Inr ((), m') \<Longrightarrow> assign_step aid c (c\<lparr>mt_market := m'\<rparr>)"
| signalled:
    "mt_worker c = Awaiting who None ds \<Longrightarrow> s \<in> {ACCEPTED, DECLINED} \<Longrightarrow>
     (\<exists>r \<in> set (assignments (mk_db (mt_market c))).
        asg_appointment r = aid \<and> asg_detailer r = who \<and> asg_status r = s) \<Longrightarrow>
     assign_step aid c (c\<lparr>mt_worker := Awaiting who (Some s) ds\<rparr>)"

inductive assign_run :: "uuid \<Rightarrow> matching \<Rightarrow> matching \<Rightarrow> bool" for aid c0 where
  assign_start: "assign_run aid c0 c0"
| assign_more: "assign_run aid c0 c \<Longrightarrow> assign_step aid c c' \<Longrightarrow> assign_run aid c0 c'"

section \<open>Properties of the assignment\<close>

text \<open>Offers made for the appointment, and offers the worker may still make.\<close>

definition offers_made :: "uuid \<Rightarrow> matching \<Rightarrow> nat" where
  "offers_made aid c = rowcount (\<lambda>r. asg_appointment r = aid) (assignments (mk_db (mt_market c)))"

fun offers_left :: "worker \<Rightarrow> nat" where
  "offers_left (Trying ds) = length ds"
| "offers_left (Awaiting _ _ ds) = length ds"
| "offers_left Over = 0"

lemma rowcount_update_where:
  "(\<And>r. p (f r) = p r) \<Longrightarrow> rowcount p (update_where q f rows) = rowcount p rows"
  by (induction rows) (auto simp: rowcount_def)

lemma accept_ride_db:
  "accept_ride pr now eid aid det m g = (Inr (), m', g') \<Longrightarrow>
     mk_db m' = set_ride_status aid (\<lambda>a. a\<lparr>appt_status := CONFIRMED, detailer_id := Some (user_id det)\<rparr>)
                  (answer_offer aid (user_id det) ACCEPTED now (mk_db m))"
  by (auto elim: accept_ride_InrE)

lemma decline_ride_db:
  "decline_ride now aid det m = Inr ((), m') \<Longrightarrow> m' = m\<lparr>mk_db := answer_offer aid (user_id det) DECLINED now (mk_db m)\<rparr>"
  by (auto simp: decline_ride_def require_role_def split: if_splits sum.splits)

lemma assign_step_offers:
  "assign_step aid c c' \<Longrightarrow> offers_made aid c' + offers_left (mt_worker c') \<le> offers_made aid c + offers_left (mt_worker c)"
  by (induction rule: assign_step.induct)
     (auto simp: offers_made_def on_db_def add_offer_def mark_no_detailer_def set_ride_status_def close_offer_def
       answer_offer_def rowcount_update_where rowcount_def [of _ "[_]"] dest!: accept_ride_db decline_ride_db)

text \<open>
  C11. Offers are bounded: from the moment the worker has its ranked candidates, however long it
  waits and whoever answers when, the appointment gets at most one offer per candidate.
\<close>

theorem offers_bounded:
  assumes "assign_run aid c c'" and "mt_worker c = Trying ds"
  shows "offers_made aid c' \<le> offers_made aid c + length ds"
proof -
  from assms(1) have "offers_made aid c' + offers_left (mt_worker c') \<le> offers_made aid c + offers_left (mt_worker c)"
  proof (induction rule: assign_run.induct)
    case (assign_more d d')
    with assign_step_offers [of aid d d'] show ?case by linarith
  qed simp
  with assms(2) show ?thesis by simp
qed

definition never_found :: "uuid \<Rightarrow> matching \<Rightarrow> bool" where
  "never_found aid c \<longleftrightarrow> (\<exists>a \<in> set (appointments (mk_db (mt_market c))). appt_id a = aid \<and> appt_status a = NO_DETAILER_FOUND)"

lemma set_ride_status_cases:
  "a \<in> set (appointments (set_ride_status aid f d)) \<Longrightarrow>
     (a \<in> set (appointments d) \<and> appt_id a \<noteq> aid) \<or> (\<exists>q \<in> set (appointments d). appt_id q = aid \<and> a = f q)"
proof -
  assume "a \<in> set (appointments (set_ride_status aid f d))"
  then obtain q where "q \<in> set (appointments d)" "a = (if appt_id q = aid then f q else q)"
    by (auto simp: set_ride_status_def set_update_where)
  then show ?thesis by (cases "appt_id q = aid") auto
qed

lemma ride_rows_all:
  assumes "\<And>q. P (f q)" and "a \<in> set (appointments (set_ride_status aid f d))" and "appt_id a = aid"
  shows "P a"
  using set_ride_status_cases [OF assms(2)] assms(1,3) by blast

lemma accepted_step:
  assumes "assign_step aid c c'" and "\<not> never_found aid c"
    and "mt_worker c = Over \<or> (\<exists>det ds. mt_worker c = Awaiting det (Some ACCEPTED) ds)"
  shows "\<not> never_found aid c' \<and> (mt_worker c' = Over \<or> (\<exists>det ds. mt_worker c' = Awaiting det (Some ACCEPTED) ds))"
  using assms
proof (induction rule: assign_step.induct)
  case (accept_committed rnd now eid det c m')
  have "appt_status a = CONFIRMED" if "a \<in> set (appointments (mk_db m'))" "appt_id a = aid" for a
    using that unfolding accept_ride_db [OF accept_committed.hyps]
    by (rule ride_rows_all [where P = "\<lambda>a. appt_status a = CONFIRMED", rotated]) simp
  then show ?case using accept_committed.prems by (fastforce simp: never_found_def)
next
  case (decline_committed now det c m')
  then show ?case
    by (auto simp: never_found_def decline_ride_db [OF decline_committed.hyps] answer_offer_def)
qed (auto simp: never_found_def)

text \<open>
  C12. An acceptance the worker heard stays: once it has been told that its candidate accepted, no
  continuation ends with the ride marked as unmatched.
\<close>

theorem heard_acceptance_is_kept:
  assumes "assign_run aid c c'" and "mt_worker c = Awaiting det (Some ACCEPTED) ds" and "\<not> never_found aid c"
  shows "\<not> never_found aid c'"
proof -
  from assms(1) have "\<not> never_found aid c' \<and> (mt_worker c' = Over \<or> (\<exists>det ds. mt_worker c' = Awaiting det (Some ACCEPTED) ds))"
  proof (induction rule: assign_run.induct)
    case assign_start
    with assms(2,3) show ?case by blast
  next
    case (assign_more d d')
    with accepted_step show ?case by blast
  qed
  then show ?thesis by blast
qed

text \<open>
  An acceptance the worker did not hear is lost: when the last candidate's acceptance commits and
  the offer times out before the signal, the worker overwrites the confirmed ride with
  \<open>NO_DETAILER_FOUND\<close>, while the capture of the price stays in the ledger.
\<close>

lemma late_acceptance_is_overwritten:
  assumes "mt_worker c = Awaiting (user_id det) None []"
    and "accept_ride (mock_processor rnd) now eid aid det (mt_market c) () = (Inr (), m', ())"
  shows "\<exists>c'. assign_run aid c c' \<and> mt_worker c' = Over \<and>
           (\<forall>a \<in> set (appointments (mk_db (mt_market c'))). appt_id a = aid \<longrightarrow> appt_status a = NO_DETAILER_FOUND) \<and>
           (\<exists>e \<in> set (entries (mk_ledger (mt_market c'))). le_type e = CAPTURE \<and> le_appointment e = aid)"
proof -
  let ?c1 = "c\<lparr>mt_market := m'\<rparr>"
  let ?c2 = "?c1\<lparr>mt_market := on_db (close_offer aid (user_id det) TIMEOUT now) (mt_market ?c1), mt_worker := Trying []\<rparr>"
  let ?c3 = "?c2\<lparr>mt_market := on_db (mark_no_detailer aid) (mt_market ?c2), mt_worker := Over\<rparr>"
  have "assign_step aid c ?c1" by (rule accept_committed [OF assms(2)])
  moreover have "assign_step aid ?c1 ?c2" by (rule timed_out) (simp add: assms(1))
  moreover have "assign_step aid ?c2 ?c3" by (rule exhausted) simp
  ultimately have run: "assign_run aid c ?c3" by (meson assign_run.intros)
  obtain entry where "entries (mk_ledger m') = entries (mk_ledger (mt_market c)) @ [entry]" "le_type entry = CAPTURE"
    "le_appointment entry = aid"
    using assms(2) by (auto elim!: accept_ride_InrE dest!: coord_capture_Inr)
  then have led: "\<exists>e \<in> set (entries (mk_ledger (mt_market ?c3))). le_type e = CAPTURE \<and> le_appointment e = aid"
    by (simp add: on_db_def)
  have "appt_status a = NO_DETAILER_FOUND" if "a \<in> set (appointments (mk_db (mt_market ?c3)))" "appt_id a = aid" for a
  proof -
    have "a \<in> set (appointments (set_ride_status aid (\<lambda>a. a\<lparr>appt_status := NO_DETAILER_FOUND\<rparr>)
            (close_offer aid (user_id det) TIMEOUT now (mk_db m'))))"
      using that(1) by (simp add: on_db_def mark_no_detailer_def)
    then show ?thesis
      by (rule ride_rows_all [where P = "\<lambda>a. appt_status a = NO_DETAILER_FOUND", rotated, OF _ that(2)]) simp
  qed
  with run led show ?thesis by (intro exI [of _ ?c3]) auto
qed

text \<open>The witnesses' data: detailer 7 stands where the search starts.\<close>

definition near_market :: "appointment list \<Rightarrow> db" where
  "near_market as = (demo_db as)\<lparr>profiles := [demo_profile\<lparr>current_lat := Some 0, current_lng := Some 0\<rparr>], services := [demo_service]\<rparr>"

lemma near_lookups:
  "get_active_detailer (near_market as) 7 = Some demo_detailer"
  "get_profile (near_market as) 7 DETAILER = Some (demo_profile\<lparr>current_lat := Some 0, current_lng := Some 0\<rparr>)"
  "get_working_hours (near_market as) 7 = get_working_hours (demo_db as) 7"
  "get_service (near_market as) 5 = Some demo_service"
  "occupied_on (near_market as) det date = occupied_on (demo_db as) det date"
  by (simp_all add: near_market_def demo_db_def empty_db_def get_active_detailer_def demo_detailer_def has_role_def
      get_profile_def demo_profile_def get_working_hours_def get_service_def demo_service_def occupied_on_def
      get_active_for_detailer_on_date_def)

lemma near_window:
  "work_window utc_only (Some (demo_profile\<lparr>current_lat := x, current_lng := y\<rparr>))
     (day_config_of (get_working_hours (demo_db as) 7) 20000) 20000 = Inr (days 20000 + hours 8, days 20000 + hours 10)"
proof -
  have z: "zone_of tz (Some (p\<lparr>current_lat := x, current_lng := y\<rparr>)) = zone_of tz (Some p)" for tz p
    by (simp add: zone_of_def)
  show ?thesis using demo_window [of as] unfolding work_window_def z .
qed

lemmas near_evals = demo_lookups near_lookups near_window demo_occupied

lemma near_slots:
  "\<exists>s. get_available_slots default_settings utc_only (days 20000) (near_market []) 7 20000 None None (Some 60) = Inr s
     \<and> filter is_available s \<noteq> []"
proof -
  have none: "occupied_on (demo_db []) 7 20000 = []"
    by (simp add: occupied_on_def get_active_for_detailer_on_date_def demo_db_def empty_db_def)
  show ?thesis
    apply (simp add: get_available_slots_def near_evals demo_active none)
    apply (simp add: slot_loop.simps slot_availability_def service_minutes_def time_defs demo_profile_def
        default_settings_def MIN_ADVANCE_BOOKING_MINUTES_def SLOT_GRANULARITY_MINUTES_def)
    done
qed

lemma near_found:
  "list_available (near_market as) (Some (0, 0)) 10 None (Suc 0) 50 =
     ([(demo_detailer, demo_profile\<lparr>current_lat := Some 0, current_lng := Some 0\<rparr>)], 1)"
  by (simp add: list_available_def discovery_rows_def near_market_def demo_db_def empty_db_def demo_detailer_def demo_profile_def has_role_def
     in_box_def distance_from_def haversine_miles_def haversine_def radians_def near_first_def page_of_def Let_def)

lemma demo_totals:
  "ceil_scaled (base_price_cents demo_service) SMALL = 10000" "ceil_scaled (base_duration_minutes demo_service) SMALL = 60"
  by (simp_all add: demo_service_def ceil_scaled_exact exact_scaled_def)

lemma demo_id: "user_id demo_detailer = 7"
  by (simp add: demo_detailer_def)

lemma match_one:
  assumes "slots_of (user_id u) = Inr s" and "filter is_available s \<noteq> []"
  shows "\<exists>r. match_rows slots_of price dur far [(u, p)] = Inr [r]"
proof -
  from assms(2) obtain x xs where "filter is_available s = x # xs" by (auto simp: neq_Nil_conv)
  then have "\<exists>r. match_row slots_of price dur far (u, p) = Inr (Some r)"
    unfolding match_row_def by (simp only: assms(1) fst_conv sum.case list.case) simp
  then show ?thesis by auto
qed

lemma near_search:
  "\<exists>r. find_matching_detailers default_settings utc_only (days 20000) (near_market []) 0 0 20000 5 [SMALL] [] 10 = Inr [r]"
proof -
  let ?slots = "\<lambda>det. get_available_slots default_settings utc_only (days 20000) (near_market []) det 20000 None None (Some (int (snd (10000::nat, 60::nat))))"
  obtain s where s: "?slots (user_id demo_detailer) = Inr s" "filter is_available s \<noteq> []"
    using near_slots by (auto simp: demo_id)
  from match_one [of ?slots, OF s] obtain r
    where "search_rows default_settings utc_only (days 20000) (near_market []) 0 0 20000 10 (10000, 60) = Inr [r]"
    unfolding search_rows_def near_found [unfolded One_nat_def [symmetric]] fst_conv by metis
  then show ?thesis
    by (cases "mr_distance r = 0")
       (simp_all add: find_matching_detailers_def near_lookups collect_addons_def get_many_addons_def demo_totals best_first_def)
qed

lemma ride_breaks_slots:
  "get_available_slots default_settings utc_only (days 20000)
     (near_market [demo_appointment (days 20000 + hours 9) None]) 7 20000 None None (Some 60) = Inl TypeError"
  by (rule null_buffer_breaks_slots [where k = 0 and ws = "days 20000 + hours 8" and we = "days 20000 + hours 10"
        and s = "days 20000 + hours 9" and rest = "[]"])
     (simp_all add: near_evals demo_active, simp_all add: default_settings_def service_minutes_def time_defs demo_profile_def
        MIN_ADVANCE_BOOKING_MINUTES_def SLOT_GRANULARITY_MINUTES_def)

definition waiting :: "market \<Rightarrow> assignment_status option \<Rightarrow> matching" where
  "waiting m told = \<lparr>mt_market = m, mt_worker = Awaiting (user_id demo_detailer) told []\<rparr>"

theorem offers_bounded_witness:
  "\<exists>c'. assign_run 100 \<lparr>mt_market = fare_market, mt_worker = Trying [7]\<rparr> c' \<and> offers_made 100 c' \<le> 1"
proof -
  let ?c = "\<lparr>mt_market = fare_market, mt_worker = Trying [7]\<rparr>"
  let ?c' = "?c\<lparr>mt_market := on_db (add_offer 100 7 15) (mt_market ?c), mt_worker := Awaiting 7 None []\<rparr>"
  have run: "assign_run 100 ?c ?c'"
    by (rule assign_more, rule assign_start, rule give_offer) (simp_all add: fare_market_def empty_db_def)
  from offers_bounded [OF run, of "[7]"] run show ?thesis
    by (intro exI [of _ ?c']) (simp add: offers_made_def fare_market_def empty_db_def rowcount_def)
qed

theorem heard_acceptance_is_kept_witness:
  "\<exists>c'. assign_run 100 (waiting offer_market (Some ACCEPTED)) c' \<and> mt_worker c' = Over \<and> \<not> never_found 100 c'"
proof -
  let ?c = "waiting offer_market (Some ACCEPTED)"
  have run: "assign_run 100 ?c (?c\<lparr>mt_worker := Over\<rparr>)"
    by (rule assign_more, rule assign_start, rule told_accepted) (simp add: waiting_def)
  have "\<not> never_found 100 ?c"
    by (simp add: never_found_def waiting_def offer_market_def ride_appointment_def)
  then have "\<not> never_found 100 (?c\<lparr>mt_worker := Over\<rparr>)"
    by (intro heard_acceptance_is_kept [OF run]) (simp add: waiting_def)
  with run show ?thesis by (intro exI [of _ "?c\<lparr>mt_worker := Over\<rparr>"]) simp
qed

end
