(* ===== verification/Auth_Store.thy ===== *)
theory Auth_Store
  imports Schema Settings
begin

text \<open>
  The tables of domains/auth/models.py and their repositories (refresh_token_repository.py,
  session_repository.py, password_reset_token_repository.py, email_verification_token_repository.py).
  Tables are in order of creation. Raw tokens are never stored: \<open>sha\<close> is SHA-256 in hexadecimal, and
  the column that holds it is unique.
\<close>

section \<open>Rows\<close>

record refresh_token =
  rt_id :: uuid
  rt_user :: uuid
  rt_hash :: string
  rt_family :: uuid
  rt_used :: "instant option"
  rt_revoked :: bool
  rt_expires :: instant

record login_session =
  ses_id :: uuid
  ses_user :: uuid
  ses_family :: uuid
  last_active_at :: instant
  ses_revoked :: bool
  ses_revoked_at :: "instant option"

text \<open>\<open>PasswordResetToken\<close> and \<open>EmailVerificationToken\<close> have the same columns.\<close>

record one_time_token =
  ot_id :: uuid
  ot_user :: uuid
  ot_hash :: string
  ot_used :: "instant option"
  ot_expires :: instant

record login_event =
  lh_user :: uuid
  lh_method :: string
  lh_success :: bool
  lh_reason :: "string option"

record auth_db =
  core :: db
  refresh_tokens :: "refresh_token list"
  login_sessions :: "login_session list"
  reset_tokens :: "one_time_token list"
  verify_tokens :: "one_time_token list"
  login_history :: "login_event list"

definition on_core :: "(db \<Rightarrow> db) \<Rightarrow> auth_db \<Rightarrow> auth_db" where
  "on_core f d = d\<lparr>core := f (core d)\<rparr>"

definition on_user :: "uuid \<Rightarrow> (user \<Rightarrow> user) \<Rightarrow> auth_db \<Rightarrow> auth_db" where
  "on_user uid f d = on_core (\<lambda>c. c\<lparr>users := update_where (\<lambda>u. user_id u = uid) f (users c)\<rparr>) d"

section \<open>Refresh tokens\<close>

definition get_refresh :: "(string \<Rightarrow> string) \<Rightarrow> string \<Rightarrow> auth_db \<Rightarrow> refresh_token option" where
  "get_refresh sha raw d = find (\<lambda>t. rt_hash t = sha raw) (refresh_tokens d)"

definition create_refresh ::
  "(string \<Rightarrow> string) \<Rightarrow> uuid \<Rightarrow> uuid \<Rightarrow> string \<Rightarrow> uuid \<Rightarrow> instant \<Rightarrow> auth_db \<Rightarrow> auth_db result" where
  "create_refresh sha tid uid raw fam expires d =
     (if \<exists>t \<in> set (refresh_tokens d). rt_id t = tid \<or> rt_hash t = sha raw then Inl (IntegrityError ''token_hash'')
      else Inr (d\<lparr>refresh_tokens := refresh_tokens d @
             [\<lparr>rt_id = tid, rt_user = uid, rt_hash = sha raw, rt_family = fam, rt_used = None, rt_revoked = False,
               rt_expires = expires\<rparr>]\<rparr>))"

definition on_refresh :: "(refresh_token list \<Rightarrow> refresh_token list) \<Rightarrow> auth_db \<Rightarrow> auth_db" where
  "on_refresh f d = d\<lparr>refresh_tokens := f (refresh_tokens d)\<rparr>"

definition mark_used :: "uuid \<Rightarrow> instant \<Rightarrow> auth_db \<Rightarrow> auth_db" where
  "mark_used tid now d = on_refresh (update_where (\<lambda>t. rt_id t = tid) (\<lambda>t. t\<lparr>rt_used := Some now\<rparr>)) d"

text \<open>The conditional UPDATE and its row count.\<close>

definition mark_used_atomic :: "uuid \<Rightarrow> instant \<Rightarrow> auth_db \<Rightarrow> bool \<times> auth_db" where
  "mark_used_atomic tid now d =
     (let p = (\<lambda>t. rt_id t = tid \<and> rt_used t = None \<and> \<not> rt_revoked t)
      in (rowcount p (refresh_tokens d) = 1, on_refresh (update_where p (\<lambda>t. t\<lparr>rt_used := Some now\<rparr>)) d))"

definition revoke_family :: "uuid \<Rightarrow> auth_db \<Rightarrow> auth_db" where
  "revoke_family fam d = on_refresh (update_where (\<lambda>t. rt_family t = fam) (\<lambda>t. t\<lparr>rt_revoked := True\<rparr>)) d"

definition revoke_by_raw :: "(string \<Rightarrow> string) \<Rightarrow> string \<Rightarrow> auth_db \<Rightarrow> bool \<times> auth_db" where
  "revoke_by_raw sha raw d =
     (case get_refresh sha raw d of
        None \<Rightarrow> (False, d)
      | Some t \<Rightarrow> (True, on_refresh (update_where (\<lambda>q. rt_id q = rt_id t) (\<lambda>q. q\<lparr>rt_revoked := True\<rparr>)) d))"

definition revoke_user_tokens :: "uuid \<Rightarrow> auth_db \<Rightarrow> auth_db" where
  "revoke_user_tokens uid d = on_refresh (update_where (\<lambda>t. rt_user t = uid) (\<lambda>t. t\<lparr>rt_revoked := True\<rparr>)) d"

definition get_session_by_family :: "uuid \<Rightarrow> uuid \<Rightarrow> auth_db \<Rightarrow> refresh_token option" where
  "get_session_by_family uid fam d = find (\<lambda>t. rt_user t = uid \<and> rt_family t = fam) (rev (refresh_tokens d))"

text \<open>One token, the latest, for each family on the page, and the number of families.\<close>

definition get_sessions_for_user :: "uuid \<Rightarrow> nat \<Rightarrow> nat \<Rightarrow> auth_db \<Rightarrow> refresh_token list \<times> nat" where
  "get_sessions_for_user uid limit offset d =
     (let fams = sort (remdups (map rt_family (filter (\<lambda>t. rt_user t = uid) (refresh_tokens d))));
          page = page_of offset limit fams
      in if page = [] then ([], 0)
         else (List.map_filter (\<lambda>fam. get_session_by_family uid fam d) page, length fams))"

definition revoke_token_family :: "uuid \<Rightarrow> uuid \<Rightarrow> auth_db \<Rightarrow> bool \<times> auth_db" where
  "revoke_token_family uid fam d =
     (let p = (\<lambda>t. rt_user t = uid \<and> rt_family t = fam)
      in (0 < rowcount p (refresh_tokens d), on_refresh (update_where p (\<lambda>t. t\<lparr>rt_revoked := True\<rparr>)) d))"

definition delete_expired_tokens :: "int \<Rightarrow> instant \<Rightarrow> auth_db \<Rightarrow> auth_db" where
  "delete_expired_tokens grace now d = on_refresh (delete_where (\<lambda>t. rt_expires t < now - days grace)) d"

section \<open>Sessions\<close>

definition on_sessions :: "(login_session list \<Rightarrow> login_session list) \<Rightarrow> auth_db \<Rightarrow> auth_db" where
  "on_sessions f d = d\<lparr>login_sessions := f (login_sessions d)\<rparr>"

definition create_session :: "uuid \<Rightarrow> uuid \<Rightarrow> uuid \<Rightarrow> instant \<Rightarrow> auth_db \<Rightarrow> (login_session \<times> auth_db) result" where
  "create_session sid uid fam now d =
     (let s = \<lparr>ses_id = sid, ses_user = uid, ses_family = fam, last_active_at = now, ses_revoked = False, ses_revoked_at = None\<rparr>
      in if sid \<in> ses_id ` set (login_sessions d) then Inl (IntegrityError ''sessions_pkey'')
         else Inr (s, on_sessions (\<lambda>ss. ss @ [s]) d))"

definition session_by_id :: "uuid \<Rightarrow> auth_db \<Rightarrow> login_session option" where
  "session_by_id sid d = find (\<lambda>s. ses_id s = sid) (login_sessions d)"

definition session_by_family :: "uuid \<Rightarrow> auth_db \<Rightarrow> login_session option" where
  "session_by_family fam d = find (\<lambda>s. ses_family s = fam \<and> \<not> ses_revoked s) (rev (login_sessions d))"

definition close_session :: "instant \<Rightarrow> login_session \<Rightarrow> login_session" where
  "close_session now s = s\<lparr>ses_revoked := True, ses_revoked_at := Some now\<rparr>"

definition revoke_session :: "uuid \<Rightarrow> instant \<Rightarrow> auth_db \<Rightarrow> bool \<times> auth_db" where
  "revoke_session sid now d =
     (let p = (\<lambda>s. ses_id s = sid \<and> \<not> ses_revoked s)
      in (0 < rowcount p (login_sessions d), on_sessions (update_where p (close_session now)) d))"

definition revoke_user_sessions :: "uuid \<Rightarrow> instant \<Rightarrow> auth_db \<Rightarrow> nat \<times> auth_db" where
  "revoke_user_sessions uid now d =
     (let p = (\<lambda>s. ses_user s = uid \<and> \<not> ses_revoked s)
      in (rowcount p (login_sessions d), on_sessions (update_where p (close_session now)) d))"

definition update_last_active :: "uuid \<Rightarrow> instant \<Rightarrow> auth_db \<Rightarrow> auth_db" where
  "update_last_active sid now d = on_sessions (update_where (\<lambda>s. ses_id s = sid) (\<lambda>s. s\<lparr>last_active_at := now\<rparr>)) d"

definition list_sessions_for_user :: "uuid \<Rightarrow> nat \<Rightarrow> nat \<Rightarrow> bool \<Rightarrow> auth_db \<Rightarrow> login_session list \<times> nat" where
  "list_sessions_for_user uid limit offset include_revoked d =
     (let mine = filter (\<lambda>s. ses_user s = uid \<and> (include_revoked \<or> \<not> ses_revoked s)) (login_sessions d)
      in (page_of offset limit (sort_key (\<lambda>s. - last_active_at s) mine), length mine))"

definition delete_old_sessions :: "int \<Rightarrow> instant \<Rightarrow> auth_db \<Rightarrow> auth_db" where
  "delete_old_sessions n now d =
     on_sessions (delete_where (\<lambda>s. ses_revoked s \<and> (case ses_revoked_at s of None \<Rightarrow> False | Some t \<Rightarrow> t < now - days n))) d"

section \<open>Single-use tokens\<close>

text \<open>
  Both repositories work on a table of \<open>one_time_token\<close>s in the same way; \<open>is_valid\<close> exists for
  password resets only. \<open>cleanup_expired\<close>, an UPDATE that names no column to set, is left out.
\<close>

definition get_one_time :: "(string \<Rightarrow> string) \<Rightarrow> string \<Rightarrow> one_time_token list \<Rightarrow> one_time_token option" where
  "get_one_time sha raw ts = find (\<lambda>t. ot_hash t = sha raw) ts"

definition create_one_time ::
  "(string \<Rightarrow> string) \<Rightarrow> uuid \<Rightarrow> uuid \<Rightarrow> string \<Rightarrow> instant \<Rightarrow> one_time_token list \<Rightarrow> one_time_token list result" where
  "create_one_time sha tid uid raw expires ts =
     (if \<exists>t \<in> set ts. ot_id t = tid \<or> ot_hash t = sha raw then Inl (IntegrityError ''token_hash'')
      else Inr (ts @ [\<lparr>ot_id = tid, ot_user = uid, ot_hash = sha raw, ot_used = None, ot_expires = expires\<rparr>]))"

definition use_token :: "uuid \<Rightarrow> instant \<Rightarrow> one_time_token list \<Rightarrow> one_time_token list" where
  "use_token tid now ts = update_where (\<lambda>t. ot_id t = tid) (\<lambda>t. t\<lparr>ot_used := Some now\<rparr>) ts"

definition token_valid :: "(string \<Rightarrow> string) \<Rightarrow> instant \<Rightarrow> string \<Rightarrow> one_time_token list \<Rightarrow> bool" where
  "token_valid sha now raw ts \<longleftrightarrow>
     (case get_one_time sha raw ts of None \<Rightarrow> False | Some t \<Rightarrow> ot_used t = None \<and> \<not> ot_expires t < now)"

definition consume_one_time ::
  "(string \<Rightarrow> string) \<Rightarrow> instant \<Rightarrow> string \<Rightarrow> one_time_token list \<Rightarrow> one_time_token option \<times> one_time_token list" where
  "consume_one_time sha now raw ts =
     (case get_one_time sha raw ts of
        None \<Rightarrow> (None, ts)
      | Some t \<Rightarrow>
          if ot_used t \<noteq> None then (None, ts)
          else if ot_expires t < now then (None, ts)
          else (Some t, use_token (ot_id t) now ts))"

definition invalidate_all :: "uuid \<Rightarrow> instant \<Rightarrow> one_time_token list \<Rightarrow> one_time_token list" where
  "invalidate_all uid now ts = update_where (\<lambda>t. ot_user t = uid \<and> ot_used t = None) (\<lambda>t. t\<lparr>ot_used := Some now\<rparr>) ts"

end
