(* ===== verification/Recovery.thy ===== *)
theory Recovery
  imports Auth_Store "HOL-Library.Char_ord"
begin

text \<open>
  Single-use tokens: the contract both token repositories keep, as a locale, and the endpoints over
  them, password reset (domains/auth/routers/password.py) and e-mail verification
  (domains/auth/routers/email_verification.py), with the token functions of
  domains/auth/service.py. The e-mail service only sends.
\<close>

section \<open>The contract of a single-use token store\<close>

text \<open>
  \<open>consume\<close> redeems a raw token for its user, \<open>issue\<close> hands out a new one; \<open>spent\<close> says that a raw
  token has been redeemed.
\<close>

datatype token_op = Consume instant string | Issue uuid uuid string instant

definition token_step ::
  "(instant \<Rightarrow> string \<Rightarrow> 's \<Rightarrow> uuid option \<times> 's) \<Rightarrow> (uuid \<Rightarrow> uuid \<Rightarrow> string \<Rightarrow> instant \<Rightarrow> 's \<Rightarrow> 's result) \<Rightarrow>
   token_op \<Rightarrow> 's \<Rightarrow> 's" where
  "token_step consume issue op s =
     (case op of
        Consume now raw \<Rightarrow> snd (consume now raw s)
      | Issue tid uid raw now \<Rightarrow> (case issue tid uid raw now s of Inl _ \<Rightarrow> s | Inr s' \<Rightarrow> s'))"

locale single_use =
  fixes consume :: "instant \<Rightarrow> string \<Rightarrow> 's \<Rightarrow> uuid option \<times> 's"
    and issue :: "uuid \<Rightarrow> uuid \<Rightarrow> string \<Rightarrow> instant \<Rightarrow> 's \<Rightarrow> 's result"
    and lifetime :: int
    and spent :: "string \<Rightarrow> 's \<Rightarrow> bool"
  assumes consume_spends: "consume now raw s = (Some u, s') \<Longrightarrow> spent raw s'"
    and spent_refused: "spent raw s \<Longrightarrow> consume now raw s = (None, s)"
    and consume_keeps: "spent raw s \<Longrightarrow> spent raw (snd (consume now raw' s))"
    and issue_keeps: "spent raw s \<Longrightarrow> issue tid uid raw' now s = Inr s' \<Longrightarrow> spent raw s'"
    and issue_consume: "issue tid uid raw now s = Inr s' \<Longrightarrow>
                          fst (consume now' raw s') = (if now' \<le> now + lifetime then Some uid else None)"
begin

lemma step_spent: "spent raw s \<Longrightarrow> spent raw (token_step consume issue op s)"
  by (auto simp: token_step_def consume_keeps issue_keeps split: token_op.splits sum.splits)

lemma never_twice:
  assumes "consume now raw s = (Some u, s1)"
  shows "consume now' raw (fold (token_step consume issue) ops s1) = (None, fold (token_step consume issue) ops s1)"
proof -
  have "spent raw (fold (token_step consume issue) ops s1)"
    using consume_spends [OF assms] by (induction ops arbitrary: s1) (simp_all add: step_spent)
  then show ?thesis by (rule spent_refused)
qed

end

sublocale single_use \<subseteq> history: guarded "token_step consume issue" "\<lambda>_. True" "spent raw" for raw
  by unfold_locales (rule step_spent)

section \<open>The two stores\<close>

definition create_password_reset_token ::
  "(string \<Rightarrow> string) \<Rightarrow> uuid \<Rightarrow> uuid \<Rightarrow> string \<Rightarrow> instant \<Rightarrow> auth_db \<Rightarrow> auth_db result" where
  "create_password_reset_token sha tid uid raw now d =
     (case create_one_time sha tid uid raw (now + hours 1) (invalidate_all uid now (reset_tokens d)) of
        Inl e \<Rightarrow> Inl e
      | Inr ts \<Rightarrow> Inr (d\<lparr>reset_tokens := ts\<rparr>))"

definition verify_password_reset_token ::
  "(string \<Rightarrow> string) \<Rightarrow> instant \<Rightarrow> string \<Rightarrow> auth_db \<Rightarrow> uuid option \<times> auth_db" where
  "verify_password_reset_token sha now raw d =
     (case consume_one_time sha now raw (reset_tokens d) of
        (t, ts) \<Rightarrow> (map_option ot_user t, d\<lparr>reset_tokens := ts\<rparr>))"

definition create_email_verification_token ::
  "settings \<Rightarrow> (string \<Rightarrow> string) \<Rightarrow> uuid \<Rightarrow> uuid \<Rightarrow> string \<Rightarrow> instant \<Rightarrow> auth_db \<Rightarrow> auth_db result" where
  "create_email_verification_token st sha tid uid raw now d =
     (case create_one_time sha tid uid raw (now + hours (EMAIL_VERIFICATION_EXPIRE_HOURS st))
             (invalidate_all uid now (verify_tokens d)) of
        Inl e \<Rightarrow> Inl e
      | Inr ts \<Rightarrow> Inr (d\<lparr>verify_tokens := ts\<rparr>))"

definition verify_email_verification_token ::
  "(string \<Rightarrow> string) \<Rightarrow> instant \<Rightarrow> string \<Rightarrow> auth_db \<Rightarrow> uuid option \<times> auth_db" where
  "verify_email_verification_token sha now raw d =
     (case consume_one_time sha now raw (verify_tokens d) of
        (t, ts) \<Rightarrow> (map_option ot_user t, d\<lparr>verify_tokens := ts\<rparr>))"

text \<open>A raw token whose row is used; the column's uniqueness keeps that row the only one.\<close>

definition used_up :: "(string \<Rightarrow> string) \<Rightarrow> string \<Rightarrow> one_time_token list \<Rightarrow> bool" where
  "used_up sha raw ts \<longleftrightarrow> (case get_one_time sha raw ts of None \<Rightarrow> False | Some t \<Rightarrow> ot_used t \<noteq> None)"

lemma get_one_time_update:
  "(\<And>t. ot_hash (f t) = ot_hash t) \<Longrightarrow>
     get_one_time sha raw (update_where p f ts) = map_option (\<lambda>t. if p t then f t else t) (get_one_time sha raw ts)"
  by (induction ts) (auto simp: get_one_time_def)

lemma get_one_time_append:
  "get_one_time sha raw (ts @ us) =
     (case get_one_time sha raw ts of Some t \<Rightarrow> Some t | None \<Rightarrow> get_one_time sha raw us)"
  by (induction ts) (auto simp: get_one_time_def)

lemma consume_one_time_spends:
  "consume_one_time sha now raw ts = (Some t, ts') \<Longrightarrow> used_up sha raw ts'"
  by (auto simp: consume_one_time_def used_up_def use_token_def get_one_time_update split: option.splits if_splits)

lemma used_up_refused: "used_up sha raw ts \<Longrightarrow> consume_one_time sha now raw ts = (None, ts)"
  by (auto simp: consume_one_time_def used_up_def split: option.splits)

lemma consume_one_time_keeps: "used_up sha raw ts \<Longrightarrow> used_up sha raw (snd (consume_one_time sha now raw' ts))"
  by (auto simp: consume_one_time_def used_up_def use_token_def get_one_time_update split: option.splits)

lemma invalidate_all_keeps: "used_up sha raw ts \<Longrightarrow> used_up sha raw (invalidate_all uid now ts)"
  by (auto simp: invalidate_all_def used_up_def get_one_time_update split: option.splits)

lemma create_one_time_keeps:
  "used_up sha raw ts \<Longrightarrow> create_one_time sha tid uid raw' expires ts = Inr ts' \<Longrightarrow> used_up sha raw ts'"
  by (auto simp: create_one_time_def used_up_def get_one_time_append split: if_splits option.splits)

lemma create_then_consume:
  assumes "create_one_time sha tid uid raw (now + n) ts = Inr ts'"
  shows "map_option ot_user (fst (consume_one_time sha now' raw ts')) = (if now' \<le> now + n then Some uid else None)"
proof -
  from assms have "get_one_time sha raw ts = None"
    by (auto simp: create_one_time_def get_one_time_def find_None_iff split: if_splits)
  with assms have "get_one_time sha raw ts' =
      Some \<lparr>ot_id = tid, ot_user = uid, ot_hash = sha raw, ot_used = None, ot_expires = now + n\<rparr>"
    by (auto simp: create_one_time_def get_one_time_append split: if_splits) (simp add: get_one_time_def)
  then show ?thesis by (simp add: consume_one_time_def)
qed

interpretation reset_store: single_use "verify_password_reset_token sha" "create_password_reset_token sha" "hours 1"
  "\<lambda>raw d :: auth_db. used_up sha raw (reset_tokens d)" for sha
proof
  fix now now' raw raw' uid tid u and s s' :: auth_db
  { assume "verify_password_reset_token sha now raw s = (Some u, s')"
    then show "used_up sha raw (reset_tokens s')"
      by (cases "consume_one_time sha now raw (reset_tokens s)") (auto simp: verify_password_reset_token_def dest: consume_one_time_spends) }
  { assume "used_up sha raw (reset_tokens s)"
    then show "verify_password_reset_token sha now raw s = (None, s)"
      by (simp add: verify_password_reset_token_def used_up_refused) }
  { assume "used_up sha raw (reset_tokens s)"
    from consume_one_time_keeps [OF this, of now raw'] show "used_up sha raw (reset_tokens (snd (verify_password_reset_token sha now raw' s)))"
      by (auto simp: verify_password_reset_token_def split: prod.splits) }
  { assume "used_up sha raw (reset_tokens s)" and i: "create_password_reset_token sha tid uid raw' now s = Inr s'"
    note create_one_time_keeps [OF invalidate_all_keeps [OF this(1)]]
    with i show "used_up sha raw (reset_tokens s')" by (auto simp: create_password_reset_token_def split: sum.splits) }
  { assume "create_password_reset_token sha tid uid raw now s = Inr s'"
    then obtain ts where "create_one_time sha tid uid raw (now + hours 1) (invalidate_all uid now (reset_tokens s)) = Inr ts" "reset_tokens s' = ts"
      by (auto simp: create_password_reset_token_def split: sum.splits)
    with create_then_consume [OF this(1), of now']
    show "fst (verify_password_reset_token sha now' raw s') = (if now' \<le> now + hours 1 then Some uid else None)"
      by (cases "consume_one_time sha now' raw ts") (simp_all add: verify_password_reset_token_def) }
qed

interpretation verify_store: single_use "verify_email_verification_token sha" "create_email_verification_token st sha"
  "hours (EMAIL_VERIFICATION_EXPIRE_HOURS st)" "\<lambda>raw d :: auth_db. used_up sha raw (verify_tokens d)" for st sha
proof
  fix now now' raw raw' uid tid u and s s' :: auth_db
  { assume "verify_email_verification_token sha now raw s = (Some u, s')"
    then show "used_up sha raw (verify_tokens s')"
      by (cases "consume_one_time sha now raw (verify_tokens s)") (auto simp: verify_email_verification_token_def dest: consume_one_time_spends) }
  { assume "used_up sha raw (verify_tokens s)"
    then show "verify_email_verification_token sha now raw s = (None, s)"
      by (simp add: verify_email_verification_token_def used_up_refused) }
  { assume "used_up sha raw (verify_tokens s)"
    from consume_one_time_keeps [OF this, of now raw'] show "used_up sha raw (verify_tokens (snd (verify_email_verification_token sha now raw' s)))"
      by (auto simp: verify_email_verification_token_def split: prod.splits) }
  { assume "used_up sha raw (verify_tokens s)" and i: "create_email_verification_token st sha tid uid raw' now s = Inr s'"
    note create_one_time_keeps [OF invalidate_all_keeps [OF this(1)]]
    with i show "used_up sha raw (verify_tokens s')" by (auto simp: create_email_verification_token_def split: sum.splits) }
  { assume "create_email_verification_token st sha tid uid raw now s = Inr s'"
    then obtain ts where "create_one_time sha tid uid raw (now + hours (EMAIL_VERIFICATION_EXPIRE_HOURS st)) (invalidate_all uid now (verify_tokens s)) = Inr ts" "verify_tokens s' = ts"
      by (auto simp: create_email_verification_token_def split: sum.splits)
    with create_then_consume [OF this(1), of now']
    show "fst (verify_email_verification_token sha now' raw s') = (if now' \<le> now + hours (EMAIL_VERIFICATION_EXPIRE_HOURS st) then Some uid else None)"
      by (cases "consume_one_time sha now' raw ts") (simp_all add: verify_email_verification_token_def) }
qed

section \<open>The endpoints\<close>

text \<open>
  \<open>_validate_password_strength\<close> and the bounds of the schema. \<open>hash\<close> is the password hash with its
  fresh salt.
\<close>

definition SPECIALS :: string where
  "SPECIALS = ''!@#$%^&*()-_=+[]{};:,.<>?/|`~'' @ [CHR 0x27, CHR 0x22, CHR 0x5C]"

definition strong_password :: "string \<Rightarrow> bool" where
  "strong_password v \<longleftrightarrow>
     list_ex (\<lambda>c. CHR ''A'' \<le> c \<and> c \<le> CHR ''Z'') v \<and> list_ex (\<lambda>c. CHR ''a'' \<le> c \<and> c \<le> CHR ''z'') v \<and>
     list_ex (\<lambda>c. CHR ''0'' \<le> c \<and> c \<le> CHR ''9'') v \<and> list_ex (\<lambda>c. c \<in> set SPECIALS) v"

definition password_ok :: "string \<Rightarrow> bool" where
  "password_ok v \<longleftrightarrow> 8 \<le> length v \<and> length v \<le> 128 \<and> strong_password v"

definition usable :: "user option \<Rightarrow> bool" where
  "usable u = (case u of None \<Rightarrow> False | Some u \<Rightarrow> user_active u \<and> \<not> user_deleted u)"

definition request_password_reset ::
  "(string \<Rightarrow> string) \<Rightarrow> instant \<Rightarrow> uuid \<Rightarrow> string \<Rightarrow> string \<Rightarrow> auth_db \<Rightarrow> (unit \<times> auth_db) result" where
  "request_password_reset sha now tid raw mail d =
     (let u = user_by_email (core d) mail in
      if \<not> usable u then Inr ((), d)
      else (case create_password_reset_token sha tid (user_id (the u)) raw now d of
              Inl e \<Rightarrow> Inl e
            | Inr d' \<Rightarrow>
                Inr ((), on_core (audit_log ''password_reset_requested'' ''user'' (Some (user_id (the u))) []) d')))"

definition confirm_password_reset ::
  "(string \<Rightarrow> string) \<Rightarrow> (string \<Rightarrow> string) \<Rightarrow> instant \<Rightarrow> string \<Rightarrow> string \<Rightarrow> auth_db \<Rightarrow> (uuid \<times> auth_db) result" where
  "confirm_password_reset sha hash now raw pw d =
     (if \<not> password_ok pw then Inl (HTTPException 422 ''password'')
      else (case verify_password_reset_token sha now raw d of
              (None, _) \<Rightarrow> Inl (HTTPException 400 ''Invalid or expired reset token.'')
            | (Some uid, d1) \<Rightarrow>
                if \<not> usable (user_by_id (core d1) uid) then Inl (HTTPException 400 ''User not found or inactive.'')
                else Inr (uid, on_core (audit_log ''password_reset_requested'' ''user'' (Some uid) [])
                       (on_user uid (\<lambda>u. u\<lparr>password_hash := hash pw, token_version := token_version u + 1\<rparr>) d1))))"

definition verify_email :: "(string \<Rightarrow> string) \<Rightarrow> instant \<Rightarrow> string \<Rightarrow> auth_db \<Rightarrow> (uuid \<times> auth_db) result" where
  "verify_email sha now raw d =
     (case verify_email_verification_token sha now raw d of
        (None, _) \<Rightarrow> Inl (HTTPException 400 ''Invalid or expired verification token.'')
      | (Some uid, d1) \<Rightarrow>
          if \<not> usable (user_by_id (core d1) uid) then Inl (HTTPException 400 ''User not found.'')
          else Inr (uid, on_user uid (\<lambda>u. if user_verified u then u else u\<lparr>user_verified := True\<rparr>) d1))"

definition resend_verification ::
  "settings \<Rightarrow> (string \<Rightarrow> string) \<Rightarrow> instant \<Rightarrow> uuid \<Rightarrow> string \<Rightarrow> string \<Rightarrow> auth_db \<Rightarrow> (unit \<times> auth_db) result" where
  "resend_verification st sha now tid raw mail d =
     (let u = user_by_email (core d) mail in
      if \<not> usable u \<or> user_verified (the u) then Inr ((), d)
      else (case create_email_verification_token st sha tid (user_id (the u)) raw now d of
              Inl e \<Rightarrow> Inl e
            | Inr d' \<Rightarrow> Inr ((), d')))"

datatype recovery_request =
    Ask_Reset instant uuid string string
  | Confirm_Reset instant string string
  | Verify_Email instant string
  | Resend_Verification instant uuid string string

fun recovery_handler ::
  "settings \<Rightarrow> (string \<Rightarrow> string) \<Rightarrow> (string \<Rightarrow> string) \<Rightarrow> recovery_request \<Rightarrow> auth_db \<Rightarrow> (unit \<times> auth_db) result" where
  "recovery_handler st sha hash (Ask_Reset now tid raw mail) d = request_password_reset sha now tid raw mail d"
| "recovery_handler st sha hash (Confirm_Reset now raw pw) d = map_sum id (\<lambda>(_, d'). ((), d')) (confirm_password_reset sha hash now raw pw d)"
| "recovery_handler st sha hash (Verify_Email now raw) d = map_sum id (\<lambda>(_, d'). ((), d')) (verify_email sha now raw d)"
| "recovery_handler st sha hash (Resend_Verification now tid raw mail) d = resend_verification st sha now tid raw mail d"

definition recovery_step ::
  "settings \<Rightarrow> (string \<Rightarrow> string) \<Rightarrow> (string \<Rightarrow> string) \<Rightarrow> recovery_request \<Rightarrow> auth_db \<Rightarrow> auth_db" where
  "recovery_step st sha hash rq d = snd (run_request (recovery_handler st sha hash rq) d)"

section \<open>Properties\<close>

lemma core_steps [simp]:
  "reset_tokens (on_core f d) = reset_tokens d" "verify_tokens (on_core f d) = verify_tokens d"
  "reset_tokens (on_user uid g d) = reset_tokens d" "verify_tokens (on_user uid g d) = verify_tokens d"
  "refresh_tokens (on_core f d) = refresh_tokens d" "refresh_tokens (on_user uid g d) = refresh_tokens d"
  "login_sessions (on_core f d) = login_sessions d" "login_sessions (on_user uid g d) = login_sessions d"
  by (simp_all add: on_core_def on_user_def)

lemma token_functions_keep [simp]:
  "create_password_reset_token sha tid uid raw now d = Inr d' \<Longrightarrow> verify_tokens d' = verify_tokens d"
  "create_email_verification_token st sha tid uid raw now d = Inr d' \<Longrightarrow> reset_tokens d' = reset_tokens d"
  "verify_tokens (snd (verify_password_reset_token sha now raw d)) = verify_tokens d"
  "reset_tokens (snd (verify_email_verification_token sha now raw d)) = reset_tokens d"
  by (auto simp: create_password_reset_token_def create_email_verification_token_def
      verify_password_reset_token_def verify_email_verification_token_def split: sum.splits prod.splits)

lemma confirm_password_reset_InrE:
  assumes "confirm_password_reset sha hash now raw pw d = Inr (uid, d')"
  obtains d1 where "verify_password_reset_token sha now raw d = (Some uid, d1)" "usable (user_by_id (core d1) uid)"
    "d' = on_core (audit_log ''password_reset_requested'' ''user'' (Some uid) [])
            (on_user uid (\<lambda>u. u\<lparr>password_hash := hash pw, token_version := token_version u + 1\<rparr>) d1)"
  using assms by (auto simp: confirm_password_reset_def split: if_splits prod.splits option.splits)

lemma reset_spent_handler:
  assumes "recovery_handler st sha hash rq d = Inr ((), d')" and "used_up sha raw (reset_tokens d)"
  shows "used_up sha raw (reset_tokens d')"
proof (cases rq)
  case (Ask_Reset now tid raw' mail)
  with assms reset_store.issue_keeps [of sha raw d] show ?thesis
    by (auto simp: request_password_reset_def Let_def split: if_splits sum.splits)
next
  case (Confirm_Reset now raw' pw)
  with assms(1) obtain uid where "confirm_password_reset sha hash now raw' pw d = Inr (uid, d')"
    by (auto simp: map_sum_def split: sum.splits prod.splits)
  then obtain d1 where v: "verify_password_reset_token sha now raw' d = (Some uid, d1)" and "reset_tokens d' = reset_tokens d1"
    by (auto elim!: confirm_password_reset_InrE)
  with reset_store.consume_keeps [OF assms(2), of now raw'] show ?thesis by simp
next
  case (Verify_Email now raw')
  with assms(1) obtain uid d1 where "verify_email_verification_token sha now raw' d = (Some uid, d1)" "reset_tokens d' = reset_tokens d1"
    by (auto simp: verify_email_def map_sum_def split: sum.splits prod.splits option.splits if_splits)
  with token_functions_keep(4) [of sha now raw' d] assms(2) show ?thesis by simp
next
  case (Resend_Verification now tid raw' mail)
  with assms show ?thesis
    by (auto simp: resend_verification_def Let_def split: if_splits sum.splits)
qed

interpretation reset_links: guarded "recovery_step st sha hash" "\<lambda>_. True" "\<lambda>d :: auth_db. used_up sha raw (reset_tokens d)"
  for st sha hash raw
proof
  fix rq and d :: auth_db
  assume "used_up sha raw (reset_tokens d)"
  with reset_spent_handler [of st sha hash rq d _ raw]
  show "used_up sha raw (reset_tokens (recovery_step st sha hash rq d))"
    by (auto simp: recovery_step_def run_request_def split: sum.splits)
qed

text \<open>
  C18. A reset link works once: after a password reset with it, it is refused whatever resets,
  verifications and further links are asked for in between.
\<close>

theorem reset_link_single_use:
  assumes "confirm_password_reset sha hash now raw pw d = Inr (uid, d1)"
  shows "\<exists>e. confirm_password_reset sha hash now' raw pw' (fold (recovery_step st sha hash) rqs d1) = Inl e"
proof -
  from assms obtain d0 where "verify_password_reset_token sha now raw d = (Some uid, d0)" "reset_tokens d1 = reset_tokens d0"
    by (auto elim!: confirm_password_reset_InrE)
  with reset_store.consume_spends have "used_up sha raw (reset_tokens d1)" by metis
  then have "used_up sha raw (reset_tokens (fold (recovery_step st sha hash) rqs d1))"
    by (intro reset_links.run_inv) simp
  then show ?thesis by (simp add: confirm_password_reset_def reset_store.spent_refused)
qed

lemma user_by_id_create_token [simp]:
  "create_password_reset_token sha tid uid raw now d = Inr d' \<Longrightarrow> core d' = core d"
  "core (snd (verify_password_reset_token sha now raw d)) = core d"
  by (auto simp: create_password_reset_token_def verify_password_reset_token_def split: sum.splits prod.splits)

lemma user_by_id_audit [simp]: "user_by_id (audit_log ac en actor am c) = user_by_id c"
  by (simp add: user_by_id_def fun_eq_iff)

lemma user_by_id_on_user:
  "(\<And>u. user_id (f u) = user_id u) \<Longrightarrow> (\<And>u. user_deleted (f u) = user_deleted u) \<Longrightarrow>
     user_by_id (core (on_user uid f d)) uid = map_option f (user_by_id (core d) uid)"
proof -
  assume f: "\<And>u. user_id (f u) = user_id u" "\<And>u. user_deleted (f u) = user_deleted u"
  have "find (\<lambda>u. user_id u = uid \<and> \<not> user_deleted u) (update_where (\<lambda>u. user_id u = uid) f us)
      = map_option f (find (\<lambda>u. user_id u = uid \<and> \<not> user_deleted u) us)" for us
    by (induction us) (simp_all add: f)
  then show ?thesis by (simp add: user_by_id_def on_user_def on_core_def)
qed

lemma reset_token_verifies:
  assumes "user_by_email (core d) mail = Some u" and "usable (Some u)"
    and "request_password_reset sha now tid raw mail d = Inr ((), d1)"
  shows "fst (verify_password_reset_token sha now' raw d1) = (if now' \<le> now + hours 1 then Some (user_id u) else None)"
    and "user_by_id (core d1) = user_by_id (core d)"
proof -
  from assms obtain d0 where c: "create_password_reset_token sha tid (user_id u) raw now d = Inr d0"
    and d1: "d1 = on_core (audit_log ''password_reset_requested'' ''user'' (Some (user_id u)) []) d0"
    by (auto simp: request_password_reset_def split: sum.splits)
  have "fst (verify_password_reset_token sha now' raw d1) = fst (verify_password_reset_token sha now' raw d0)"
    by (simp add: d1 verify_password_reset_token_def split: prod.split)
  with reset_store.issue_consume [OF c, of now']
  show "fst (verify_password_reset_token sha now' raw d1) = (if now' \<le> now + hours 1 then Some (user_id u) else None)" by simp
  show "user_by_id (core d1) = user_by_id (core d)" using c by (simp add: d1 on_core_def)
qed

lemma confirm_goes_through:
  assumes "fst (verify_password_reset_token sha now raw d) = Some uid" and "user_by_id (core d) uid = Some u"
    and "usable (Some u)" and "password_ok pw"
  shows "\<exists>d2. confirm_password_reset sha hash now raw pw d = Inr (uid, d2) \<and>
           user_by_id (core d2) uid = Some (u\<lparr>password_hash := hash pw, token_version := token_version u + 1\<rparr>)"
proof -
  let ?f = "\<lambda>u. u\<lparr>password_hash := hash pw, token_version := token_version u + 1\<rparr>"
  obtain x d1 where x: "verify_password_reset_token sha now raw d = (x, d1)" by fastforce
  with assms(1,2) user_by_id_create_token(2) [of sha now raw d] have d1: "x = Some uid" "user_by_id (core d1) uid = Some u" by simp_all
  then have "user_by_id (core (on_user uid ?f d1)) uid = Some (?f u)"
    by (subst user_by_id_on_user) simp_all
  with x d1 assms(3,4) show ?thesis by (simp add: confirm_password_reset_def on_core_def)
qed

text \<open>
  Round trip of a reset link: the link mailed to a usable account sets, within an hour and for an
  acceptable password, that account's password hash and a new token version; after the hour it is
  refused.
\<close>

lemma reset_link_roundtrip:
  assumes "user_by_email (core d) mail = Some u" and "user_by_id (core d) (user_id u) = Some u" and "usable (Some u)"
    and "request_password_reset sha now tid raw mail d = Inr ((), d1)" and "password_ok pw"
  shows "if now' \<le> now + hours 1
         then \<exists>d2. confirm_password_reset sha hash now' raw pw d1 = Inr (user_id u, d2) \<and>
                user_by_id (core d2) (user_id u) = Some (u\<lparr>password_hash := hash pw, token_version := token_version u + 1\<rparr>)
         else \<exists>e. confirm_password_reset sha hash now' raw pw d1 = Inl e"
proof (cases "now' \<le> now + hours 1")
  case True
  with reset_token_verifies [OF assms(1,3,4)] assms(2) confirm_goes_through [OF _ _ assms(3,5), of sha now' raw d1 "user_id u" hash]
  show ?thesis by simp
next
  case False
  with reset_token_verifies(1) [OF assms(1,3,4), of now'] show ?thesis
    by (auto simp: confirm_password_reset_def split: prod.splits option.splits)
qed

definition mail_user :: user where
  "mail_user = \<lparr>user_id = 1, email = ''a@b.c'', password_hash = ''old'', role_names = [''client''], user_active = True,
     user_verified = True, failed_login_attempts = 0, locked_until = None, onboarding_completed = True,
     token_version = 1, stripe_customer_id = None, last_step_up_at = None, active_role = None, user_deleted = False\<rparr>"

definition auth_demo :: auth_db where
  "auth_demo = \<lparr>core = empty_db\<lparr>users := [mail_user]\<rparr>, refresh_tokens = [], login_sessions = [], reset_tokens = [],
     verify_tokens = [], login_history = []\<rparr>"

lemma auth_demo_user:
  "user_by_email (core auth_demo) ''a@b.c'' = Some mail_user" "user_by_id (core auth_demo) (user_id mail_user) = Some mail_user"
  "usable (Some mail_user)" "user_id mail_user = 1"
  by code_simp+

lemma demo_password: "password_ok ''Abcdef1!''"
  by code_simp

lemma demo_ask:
  "\<exists>d1. request_password_reset id 0 9 ''tok'' ''a@b.c'' auth_demo = Inr ((), d1)"
  by (simp add: request_password_reset_def auth_demo_user create_password_reset_token_def)
     (simp add: create_one_time_def auth_demo_def invalidate_all_def)

lemma in_time: "5 \<le> (0::int) + hours 1"
  by (simp add: hours_def)

theorem reset_link_single_use_witness:
  "\<exists>d1 d2 e. request_password_reset id 0 9 ''tok'' ''a@b.c'' auth_demo = Inr ((), d1) \<and>
     confirm_password_reset id id 5 ''tok'' ''Abcdef1!'' d1 = Inr (1, d2) \<and>
     confirm_password_reset id id 6 ''tok'' ''Abcdef1!'' d2 = Inl e"
proof -
  obtain d1 where d1: "request_password_reset id 0 9 ''tok'' ''a@b.c'' auth_demo = Inr ((), d1)" using demo_ask by blast
  note v = reset_token_verifies(1) [OF auth_demo_user(1,3) d1, of 5] reset_token_verifies(2) [OF auth_demo_user(1,3) d1]
  with in_time auth_demo_user have "fst (verify_password_reset_token id 5 ''tok'' d1) = Some 1" "user_by_id (core d1) 1 = Some mail_user"
    by simp_all
  from confirm_goes_through [OF this auth_demo_user(3) demo_password, of id] obtain d2
    where d2: "confirm_password_reset id id 5 ''tok'' ''Abcdef1!'' d1 = Inr (1, d2)" by blast
  from reset_link_single_use [OF d2, of 6 "''Abcdef1!''" default_settings "[]"] d1 d2 show ?thesis by auto
qed

end
