(* ===== verification/Sessions.thy ===== *)
theory Sessions
  imports Recovery Rides
begin

text \<open>
  Access tokens, refresh-token rotation and sessions: the token and session functions of
  domains/auth/service.py and the endpoints of domains/auth/routers/sessions.py, and refresh and
  logout of domains/auth/routers/core.py. PyJWT is a parameter: \<open>encode\<close> signs the claims, \<open>decode now
  aud raw\<close> gives the claims of a token whose signature and expiry hold at \<open>now\<close>, and whose audience is
  checked when \<open>aud\<close> is set. Redis keeps a copy of a session until it is evicted or expires.
\<close>

section \<open>Access tokens\<close>

record claims =
  cl_sub :: "uuid option"
  cl_role :: string
  cl_type :: string
  cl_version :: "int option"
  cl_sid :: "uuid option"
  cl_exp :: int
  cl_aud :: "string option"

definition build_token :: "instant \<Rightarrow> uuid \<Rightarrow> string \<Rightarrow> string \<Rightarrow> int \<Rightarrow> int \<Rightarrow> uuid option \<Rightarrow> claims" where
  "build_token now subject role ty lifetime version sid =
     \<lparr>cl_sub = Some subject, cl_role = role, cl_type = ty, cl_version = Some version, cl_sid = sid,
      cl_exp = (now + lifetime) div 1000000, cl_aud = Some ''raycarwash-api''\<rparr>"

definition create_access_token :: "settings \<Rightarrow> instant \<Rightarrow> uuid \<Rightarrow> string \<Rightarrow> int \<Rightarrow> uuid option \<Rightarrow> claims" where
  "create_access_token st now subject role version sid =
     build_token now subject role ''access'' (minutes (ACCESS_TOKEN_EXPIRE_MINUTES st)) version sid"

definition create_onboarding_token :: "settings \<Rightarrow> instant \<Rightarrow> uuid \<Rightarrow> claims" where
  "create_onboarding_token st now uid =
     \<lparr>cl_sub = Some uid, cl_role = '''', cl_type = ''onboarding'', cl_version = None, cl_sid = None,
      cl_exp = (now + minutes (ONBOARDING_TOKEN_EXPIRE_MINUTES st)) div 1000000, cl_aud = None\<rparr>"

definition decode_token :: "(bool \<Rightarrow> string \<Rightarrow> claims option) \<Rightarrow> string \<Rightarrow> string \<Rightarrow> claims option" where
  "decode_token decode expected raw =
     (case decode True raw of None \<Rightarrow> None | Some c \<Rightarrow> if cl_type c = expected then Some c else None)"

section \<open>Rotation\<close>

definition unauthorized :: "string \<Rightarrow> exn" where
  "unauthorized msg = HTTPException 401 msg"

definition or_string :: "string option \<Rightarrow> string \<Rightarrow> string" where
  "or_string x dflt = (case x of None \<Rightarrow> dflt | Some s \<Rightarrow> if s = '''' then dflt else s)"

definition effective_role :: "user \<Rightarrow> string" where
  "effective_role u = or_string (active_role u) (or_string (primary_role u) ''client'')"

text \<open>
  From the atomic claim of the row read before to the new pair. A handler returns its result and the
  data as it has written them, whatever the request's session then does with them.
\<close>

definition claim_rotation ::
  "settings \<Rightarrow> (string \<Rightarrow> string) \<Rightarrow> (claims \<Rightarrow> string) \<Rightarrow> instant \<Rightarrow> uuid \<Rightarrow> string \<Rightarrow> refresh_token \<Rightarrow> auth_db \<Rightarrow>
   (string \<times> string) result \<times> auth_db" where
  "claim_rotation st sha encode now new_tid new_raw t d =
     (case mark_used_atomic (rt_id t) now d of
        (False, d1) \<Rightarrow> (Inl (unauthorized ''Concurrent refresh detected. Please log in again.''), revoke_family (rt_family t) d1)
      | (True, d1) \<Rightarrow>
          (let u = user_by_id (core d1) (rt_user t) in
           if \<not> usable u then (Inl (unauthorized ''Refresh token is invalid or has expired.''), d1)
           else (let ses = session_by_family (rt_family t) d1;
                     d2 = (case ses of None \<Rightarrow> d1 | Some s \<Rightarrow> update_last_active (ses_id s) now d1);
                     access = create_access_token st now (user_id (the u)) (effective_role (the u)) (token_version (the u))
                                (map_option ses_id ses)
                 in case create_refresh sha new_tid (user_id (the u)) new_raw (rt_family t)
                           (now + days (REFRESH_TOKEN_EXPIRE_DAYS st)) d2 of
                      Inl e \<Rightarrow> (Inl e, d2)
                    | Inr d3 \<Rightarrow> (Inr (encode access, new_raw), d3))))"

definition rotate_refresh_token ::
  "settings \<Rightarrow> (string \<Rightarrow> string) \<Rightarrow> (claims \<Rightarrow> string) \<Rightarrow> instant \<Rightarrow> uuid \<Rightarrow> string \<Rightarrow> string \<Rightarrow> auth_db \<Rightarrow>
   (string \<times> string) result \<times> auth_db" where
  "rotate_refresh_token st sha encode now new_tid new_raw raw d =
     (case get_refresh sha raw d of
        None \<Rightarrow> (Inl (unauthorized ''Refresh token is invalid or has expired.''), d)
      | Some t \<Rightarrow>
          if rt_used t \<noteq> None \<or> rt_revoked t
          then (Inl (unauthorized ''Session invalidated. Please log in again.''), revoke_family (rt_family t) d)
          else if rt_expires t < now then (Inl (unauthorized ''Refresh token is invalid or has expired.''), d)
          else claim_rotation st sha encode now new_tid new_raw t d)"

text \<open>\<open>POST /auth/refresh\<close>: the rotation in a request.\<close>

definition refresh_access_token ::
  "settings \<Rightarrow> (string \<Rightarrow> string) \<Rightarrow> (claims \<Rightarrow> string) \<Rightarrow> instant \<Rightarrow> uuid \<Rightarrow> string \<Rightarrow> string \<Rightarrow> auth_db \<Rightarrow>
   (string \<times> string) result \<times> auth_db" where
  "refresh_access_token st sha encode now new_tid new_raw raw d =
     get_db d (lift_db (rotate_refresh_token st sha encode now new_tid new_raw raw))"

text \<open>The login flows' single way to a session with its tokens.\<close>

definition create_session_and_tokens ::
  "settings \<Rightarrow> (string \<Rightarrow> string) \<Rightarrow> (claims \<Rightarrow> string) \<Rightarrow> instant \<Rightarrow> uuid \<Rightarrow> uuid \<Rightarrow> uuid \<Rightarrow> string \<Rightarrow> user \<Rightarrow> auth_db \<Rightarrow>
   ((string \<times> string \<times> login_session) \<times> auth_db) result" where
  "create_session_and_tokens st sha encode now tid fam sid raw u d =
     (case create_refresh sha tid (user_id u) raw fam (now + days (REFRESH_TOKEN_EXPIRE_DAYS st)) d of
        Inl e \<Rightarrow> Inl e
      | Inr d1 \<Rightarrow>
          (case create_session sid (user_id u) fam now d1 of
             Inl e \<Rightarrow> Inl e
           | Inr (s, d2) \<Rightarrow>
               Inr ((encode (create_access_token st now (user_id u) (or_string (primary_role u) ''client'')
                               (token_version u) (Some (ses_id s))), raw, s), d2)))"

section \<open>Sessions behind Redis\<close>

record redis =
  cached :: "uuid \<Rightarrow> login_session option"
  seen :: "uuid \<Rightarrow> bool"

record auth_state =
  store :: auth_db
  cache :: "redis option"

definition on_cache :: "(redis \<Rightarrow> redis) \<Rightarrow> auth_state \<Rightarrow> auth_state" where
  "on_cache f s = s\<lparr>cache := map_option f (cache s)\<rparr>"

definition get_session_cached :: "uuid \<Rightarrow> auth_state \<Rightarrow> login_session option \<times> auth_state" where
  "get_session_cached sid s =
     (case (case cache s of None \<Rightarrow> None | Some r \<Rightarrow> cached r sid) of
        Some x \<Rightarrow> (Some x, s)
      | None \<Rightarrow>
          (case session_by_id sid (store s) of
             None \<Rightarrow> (None, s)
           | Some x \<Rightarrow> (Some x, on_cache (\<lambda>r. r\<lparr>cached := (cached r)(sid := Some x)\<rparr>) s)))"

definition invalidate_session_cache :: "uuid \<Rightarrow> auth_state \<Rightarrow> auth_state" where
  "invalidate_session_cache sid s =
     on_cache (\<lambda>r. r\<lparr>cached := (cached r)(sid := None), seen := (seen r)(sid := False)\<rparr>) s"

text \<open>The throttled write of \<open>last_active_at\<close>, committed at once.\<close>

definition touch_session :: "instant \<Rightarrow> uuid \<Rightarrow> auth_state \<Rightarrow> auth_state" where
  "touch_session now sid s =
     (case cache s of
        Some r \<Rightarrow> if seen r sid then s
                  else on_cache (\<lambda>r. r\<lparr>seen := (seen r)(sid := True)\<rparr>) (s\<lparr>store := update_last_active sid now (store s)\<rparr>)
      | None \<Rightarrow> s\<lparr>store := update_last_active sid now (store s)\<rparr>)"

text \<open>The session part of \<open>get_current_user\<close>; \<open>None\<close>: refused.\<close>

definition enforce_session ::
  "settings \<Rightarrow> instant \<Rightarrow> uuid option \<Rightarrow> user \<Rightarrow> auth_state \<Rightarrow> unit option \<times> auth_state" where
  "enforce_session st now sid u s =
     (case sid of
        None \<Rightarrow> (Some (), s)
      | Some sid \<Rightarrow>
          if \<not> AUTH_ENFORCE_SESSION st then (Some (), s)
          else (case get_session_cached sid s of
                  (None, s1) \<Rightarrow> (None, s1)
                | (Some x, s1) \<Rightarrow>
                    if ses_revoked x \<or> ses_user x \<noteq> user_id u then (None, s1)
                    else (Some (), touch_session now (ses_id x) s1)))"

definition get_current_user ::
  "settings \<Rightarrow> (bool \<Rightarrow> string \<Rightarrow> claims option) \<Rightarrow> instant \<Rightarrow> bool \<Rightarrow> string \<Rightarrow> auth_state \<Rightarrow> user result \<times> auth_state" where
  "get_current_user st decode now allow_onboarding raw s =
     (let refused = unauthorized ''Could not validate credentials.'';
          access = decode_token decode ''access'' raw;
          payload = (if access \<noteq> None then access
                     else (case decode False raw of
                             None \<Rightarrow> None
                           | Some c \<Rightarrow> if cl_type c = ''onboarding'' then Some c else None))
      in case payload of
           None \<Rightarrow> (Inl refused, s)
         | Some c \<Rightarrow>
             (case cl_sub c of
                None \<Rightarrow> (Inl refused, s)
              | Some uid \<Rightarrow>
                  if access = None \<and> \<not> allow_onboarding then (Inl (HTTPException 403 ''Onboarding required.''), s)
                  else if \<not> usable (user_by_id (core (store s)) uid) then (Inl refused, s)
                  else (let u = the (user_by_id (core (store s)) uid) in
                        if access \<noteq> None \<and> cl_version c \<noteq> None \<and> cl_version c \<noteq> Some (token_version u)
                        then (Inl refused, s)
                        else (case (if access \<noteq> None then enforce_session st now (cl_sid c) u s else (Some (), s)) of
                                (None, s1) \<Rightarrow> (Inl refused, s1)
                              | (Some _, s1) \<Rightarrow>
                                  if access \<noteq> None \<and> \<not> onboarding_completed u
                                  then (Inl (HTTPException 403 ''Account setup incomplete.''), s1)
                                  else (Inr u, s1)))))"

definition ws_get_current_user :: "(bool \<Rightarrow> string \<Rightarrow> claims option) \<Rightarrow> string \<Rightarrow> auth_db \<Rightarrow> user option" where
  "ws_get_current_user decode raw d =
     (case decode_token decode ''access'' raw of
        None \<Rightarrow> None
      | Some c \<Rightarrow> (case cl_sub c of
                    None \<Rightarrow> None
                  | Some uid \<Rightarrow> if usable (user_by_id (core d) uid) then user_by_id (core d) uid else None))"

section \<open>Endpoints\<close>

definition logout :: "(string \<Rightarrow> string) \<Rightarrow> string \<Rightarrow> user \<Rightarrow> auth_state \<Rightarrow> auth_state" where
  "logout sha raw u s =
     (case get_refresh sha raw (store s) of
        None \<Rightarrow> s
      | Some t \<Rightarrow> if rt_user t \<noteq> user_id u then s else s\<lparr>store := snd (revoke_by_raw sha raw (store s))\<rparr>)"

definition revoke_session_by_id :: "instant \<Rightarrow> uuid \<Rightarrow> user \<Rightarrow> auth_state \<Rightarrow> bool result \<times> auth_state" where
  "revoke_session_by_id now sid u s =
     (case session_by_id sid (store s) of
        None \<Rightarrow> (Inl (HTTPException 404 ''Session not found.''), s)
      | Some x \<Rightarrow>
          if ses_user x \<noteq> user_id u then (Inl (HTTPException 404 ''Session not found.''), s)
          else (case revoke_session sid now (store s) of
                  (False, _) \<Rightarrow> (Inr False, s)
                | (True, d) \<Rightarrow> (Inr True, invalidate_session_cache sid (s\<lparr>store := revoke_family (ses_family x) d\<rparr>))))"

definition revoke_session_legacy :: "instant \<Rightarrow> uuid \<Rightarrow> user \<Rightarrow> auth_state \<Rightarrow> unit result \<times> auth_state" where
  "revoke_session_legacy now fam u s =
     (case session_by_family fam (store s) of
        Some x \<Rightarrow>
          if ses_user x = user_id u
          then (Inr (), invalidate_session_cache (ses_id x)
                  (s\<lparr>store := revoke_family fam (snd (revoke_session (ses_id x) now (store s)))\<rparr>))
          else (case get_session_by_family (user_id u) fam (store s) of
                  None \<Rightarrow> (Inl (HTTPException 404 ''Session not found.''), s)
                | Some _ \<Rightarrow> (Inr (), s\<lparr>store := snd (revoke_token_family (user_id u) fam (store s))\<rparr>))
      | None \<Rightarrow>
          (case get_session_by_family (user_id u) fam (store s) of
             None \<Rightarrow> (Inl (HTTPException 404 ''Session not found.''), s)
           | Some _ \<Rightarrow> (Inr (), s\<lparr>store := snd (revoke_token_family (user_id u) fam (store s))\<rparr>)))"

definition revoke_all_sessions :: "instant \<Rightarrow> user \<Rightarrow> auth_state \<Rightarrow> auth_state" where
  "revoke_all_sessions now u s =
     s\<lparr>store := revoke_user_tokens (user_id u) (snd (revoke_user_sessions (user_id u) now (store s)))\<rparr>"

text \<open>
  The daily sweep (workers/session_cleanup_worker.py): sessions whose whole family expired a day ago
  are revoked, sessions revoked 90 days ago are deleted, and both are evicted from the cache.
\<close>

definition family_expiry :: "uuid \<Rightarrow> auth_db \<Rightarrow> instant option" where
  "family_expiry fam d =
     (case map rt_expires (filter (\<lambda>t. rt_family t = fam) (refresh_tokens d)) of
        [] \<Rightarrow> None | e # es \<Rightarrow> Some (fold max es e))"

definition sweep_sessions :: "instant \<Rightarrow> auth_state \<Rightarrow> auth_state" where
  "sweep_sessions now s =
     (let d = store s;
          dead = filter (\<lambda>x. \<not> ses_revoked x \<and>
                   (case family_expiry (ses_family x) d of None \<Rightarrow> False | Some e \<Rightarrow> e < now - days 1)) (login_sessions d);
          d1 = on_sessions (update_where (\<lambda>x. ses_id x \<in> ses_id ` set dead) (close_session now)) d;
          old = filter (\<lambda>x. ses_revoked x \<and> (case ses_revoked_at x of None \<Rightarrow> False | Some t \<Rightarrow> t < now - days 90))
                  (login_sessions d1);
          d2 = on_sessions (delete_where (\<lambda>x. ses_id x \<in> ses_id ` set old)) d1
      in fold invalidate_session_cache (map ses_id dead @ map ses_id old) (s\<lparr>store := d2\<rparr>))"

section \<open>Runs of the session service\<close>

text \<open>
  The requests that touch refresh tokens and sessions. A sign-in is \<open>create_session_and_tokens\<close> at
  the end of a login flow; \<open>Enter\<close> is any authenticated request; the sweeps are the two workers.
\<close>

datatype session_request =
    Sign_In instant uuid uuid uuid string user
  | Refresh instant uuid string string
  | Enter instant bool string
  | Logout string user
  | Revoke_One instant uuid user
  | Revoke_Family instant uuid user
  | Revoke_All instant user
  | Sweep_Tokens int instant
  | Sweep_Sessions instant

definition on_store :: "(auth_db \<Rightarrow> 'a result \<times> auth_db) \<Rightarrow> auth_state \<Rightarrow> auth_state" where
  "on_store h s = s\<lparr>store := snd (h (store s))\<rparr>"

fun session_step ::
  "settings \<Rightarrow> (string \<Rightarrow> string) \<Rightarrow> (claims \<Rightarrow> string) \<Rightarrow> (bool \<Rightarrow> string \<Rightarrow> claims option) \<Rightarrow> session_request \<Rightarrow>
   auth_state \<Rightarrow> auth_state" where
  "session_step st sha encode decode (Sign_In now tid fam sid raw u) s =
     on_store (run_request (create_session_and_tokens st sha encode now tid fam sid raw u)) s"
| "session_step st sha encode decode (Refresh now tid new_raw raw) s =
     on_store (refresh_access_token st sha encode now tid new_raw raw) s"
| "session_step st sha encode decode (Enter now al raw) s = snd (get_current_user st decode now al raw s)"
| "session_step st sha encode decode (Logout raw u) s = logout sha raw u s"
| "session_step st sha encode decode (Revoke_One now sid u) s = snd (revoke_session_by_id now sid u s)"
| "session_step st sha encode decode (Revoke_Family now fam u) s = snd (revoke_session_legacy now fam u s)"
| "session_step st sha encode decode (Revoke_All now u) s = revoke_all_sessions now u s"
| "session_step st sha encode decode (Sweep_Tokens grace now) s = s\<lparr>store := delete_expired_tokens grace now (store s)\<rparr>"
| "session_step st sha encode decode (Sweep_Sessions now) s = sweep_sessions now s"

text \<open>
  Refresh tokens only ever change by being used, revoked, deleted or appended. A property of rows that
  is closed under the first two is kept by every request whose new row has it.
\<close>

definition rows_all :: "(refresh_token \<Rightarrow> bool) \<Rightarrow> auth_db \<Rightarrow> bool" where
  "rows_all P d \<longleftrightarrow> (\<forall>t \<in> set (refresh_tokens d). P t)"

definition closed_row :: "(refresh_token \<Rightarrow> bool) \<Rightarrow> bool" where
  "closed_row P \<longleftrightarrow> (\<forall>t now. P t \<longrightarrow> P (t\<lparr>rt_used := Some now\<rparr>) \<and> P (t\<lparr>rt_revoked := True\<rparr>))"

lemma rows_all_update:
  "rows_all P d \<Longrightarrow> (\<And>t. P t \<Longrightarrow> P (f t)) \<Longrightarrow> rows_all P (on_refresh (update_where p f) d)"
  by (auto simp: rows_all_def on_refresh_def set_update_where)

lemma rows_all_delete: "rows_all P d \<Longrightarrow> rows_all P (on_refresh (delete_where p) d)"
  by (auto simp: rows_all_def on_refresh_def delete_where_def)

lemma rows_all_same: "refresh_tokens d' = refresh_tokens d \<Longrightarrow> rows_all P d' = rows_all P d"
  by (simp add: rows_all_def)

lemma session_updates_keep_refresh [simp]:
  "refresh_tokens (on_sessions f d) = refresh_tokens d"
  "refresh_tokens (update_last_active sid now d) = refresh_tokens d"
  "refresh_tokens (snd (revoke_session sid now d)) = refresh_tokens d"
  "refresh_tokens (snd (revoke_user_sessions uid now d)) = refresh_tokens d"
  by (simp_all add: on_sessions_def update_last_active_def revoke_session_def revoke_user_sessions_def Let_def)

lemma create_session_refresh [simp]: "create_session sid uid fam now d = Inr (s, d') \<Longrightarrow> refresh_tokens d' = refresh_tokens d"
  by (auto simp: create_session_def Let_def split: if_splits)

lemma create_refresh_InrE:
  assumes "create_refresh sha tid uid raw fam expires d = Inr d'"
  obtains "\<forall>t \<in> set (refresh_tokens d). rt_id t \<noteq> tid \<and> rt_hash t \<noteq> sha raw"
    "refresh_tokens d' = refresh_tokens d @ [\<lparr>rt_id = tid, rt_user = uid, rt_hash = sha raw, rt_family = fam,
       rt_used = None, rt_revoked = False, rt_expires = expires\<rparr>]"
    "core d' = core d" "login_sessions d' = login_sessions d"
  using assms by (auto simp: create_refresh_def split: if_splits)

lemma rows_all_revocations:
  assumes "closed_row P" and "rows_all P d"
  shows "rows_all P (revoke_family fam d)" "rows_all P (revoke_user_tokens uid d)"
    "rows_all P (snd (revoke_by_raw sha raw d))" "rows_all P (snd (revoke_token_family uid fam d))"
    "rows_all P (snd (mark_used_atomic tid now d))" "rows_all P (delete_expired_tokens grace now d)"
  using assms by (auto simp: revoke_family_def revoke_user_tokens_def revoke_by_raw_def revoke_token_family_def
      mark_used_atomic_def delete_expired_tokens_def closed_row_def Let_def
      intro!: rows_all_update rows_all_delete split: option.split)

lemma claim_rotation_cases:
  assumes "claim_rotation st sha encode now tid new_raw t d = (r, d')"
  obtains (lost) e d1 where "r = Inl e" "mark_used_atomic (rt_id t) now d = (False, d1)" "d' = revoke_family (rt_family t) d1"
  | (failed) e where "r = Inl e" "refresh_tokens d' = refresh_tokens (snd (mark_used_atomic (rt_id t) now d))"
  | (won) u d1 d2 access where "mark_used_atomic (rt_id t) now d = (True, d1)" "user_by_id (core d) (rt_user t) = Some u" "usable (Some u)"
      "refresh_tokens d2 = refresh_tokens d1" "core d2 = core d" "cl_version access = Some (token_version u)" "cl_sub access = Some (user_id u)"
      "create_refresh sha tid (user_id u) new_raw (rt_family t) (now + days (REFRESH_TOKEN_EXPIRE_DAYS st)) d2 = Inr d'"
      "r = Inr (encode access, new_raw)"
proof (cases "mark_used_atomic (rt_id t) now d")
  case (Pair ok d1)
  show thesis
  proof (cases ok)
    case False
    with Pair assms lost show thesis by (auto simp: claim_rotation_def)
  next
    case True
    from Pair have core: "core d1 = core d" by (auto simp: mark_used_atomic_def on_refresh_def Let_def)
    show thesis
    proof (cases "usable (user_by_id (core d1) (rt_user t))")
      case False
      with Pair True assms failed show thesis by (auto simp: claim_rotation_def Let_def)
    next
      case usable: True
      then obtain u where u: "user_by_id (core d1) (rt_user t) = Some u" by (auto simp: usable_def split: option.splits)
      define ses where "ses = session_by_family (rt_family t) d1"
      define d2 where "d2 = (case ses of None \<Rightarrow> d1 | Some s \<Rightarrow> update_last_active (ses_id s) now d1)"
      define access where "access = create_access_token st now (user_id u) (effective_role u) (token_version u) (map_option ses_id ses)"
      have r: "(case create_refresh sha tid (user_id u) new_raw (rt_family t) (now + days (REFRESH_TOKEN_EXPIRE_DAYS st)) d2 of
                  Inl e \<Rightarrow> (Inl e, d2) | Inr d3 \<Rightarrow> (Inr (encode access, new_raw), d3)) = (r, d')"
        unfolding access_def d2_def ses_def using assms Pair True usable u by (simp add: claim_rotation_def Let_def)
      have same: "refresh_tokens d2 = refresh_tokens d1" "core d2 = core d"
        by (auto simp: d2_def update_last_active_def on_sessions_def core split: option.split)
      have access: "cl_version access = Some (token_version u)" "cl_sub access = Some (user_id u)"
        by (simp_all add: access_def create_access_token_def build_token_def)
      show thesis
      proof (cases "create_refresh sha tid (user_id u) new_raw (rt_family t) (now + days (REFRESH_TOKEN_EXPIRE_DAYS st)) d2")
        case (Inl e)
        with r same Pair failed show thesis by auto
      next
        case (Inr d3)
        with r same access Pair True u usable core won [of d1 u d2 access] show thesis by auto
      qed
    qed
  qed
qed

lemma claim_rotation_rows:
  assumes "closed_row P" and "rows_all P d" and "\<And>t. rt_hash t = sha new_raw \<Longrightarrow> P t"
  shows "rows_all P (snd (claim_rotation st sha encode now tid new_raw t d))"
proof -
  obtain r d' where c: "claim_rotation st sha encode now tid new_raw t d = (r, d')" by fastforce
  then show ?thesis
  proof (cases rule: claim_rotation_cases)
    case (lost e d1)
    with rows_all_revocations [OF assms(1)] assms(2) c show ?thesis by (metis snd_conv)
  next
    case (failed e)
    with rows_all_revocations(5) [OF assms(1,2), of "rt_id t" now] c show ?thesis by (simp add: rows_all_def)
  next
    case (won u d1 d2 access)
    with rows_all_revocations(5) [OF assms(1,2), of "rt_id t" now] assms(3) c show ?thesis
      by (auto simp: rows_all_def elim!: create_refresh_InrE)
  qed
qed

lemma rotate_rows:
  assumes "closed_row P" and "rows_all P d" and "\<And>t. rt_hash t = sha new_raw \<Longrightarrow> P t"
  shows "rows_all P (snd (refresh_access_token st sha encode now tid new_raw raw d))"
proof -
  have "rows_all P (snd (rotate_refresh_token st sha encode now tid new_raw raw d))"
    using assms rows_all_revocations(1) [OF assms(1,2)] claim_rotation_rows [OF assms]
    by (simp add: rotate_refresh_token_def split: option.split)
  with assms(2) show ?thesis
    by (cases "rotate_refresh_token st sha encode now tid new_raw raw d")
       (auto simp: refresh_access_token_def get_db_lift split: sum.splits)
qed

lemma sign_in_rows:
  assumes "rows_all P d" and "\<And>t. rt_hash t = sha raw \<Longrightarrow> P t"
  shows "rows_all P (snd (run_request (create_session_and_tokens st sha encode now tid fam sid raw u) d))"
  using assms
  by (auto simp: run_request_def create_session_and_tokens_def rows_all_def split: sum.splits elim!: create_refresh_InrE)

lemma get_session_cached_store [simp]: "store (snd (get_session_cached sid s)) = store s"
  by (simp add: get_session_cached_def on_cache_def split: option.split)

definition touched :: "instant \<Rightarrow> auth_db \<Rightarrow> auth_db \<Rightarrow> bool" where
  "touched now d d' \<longleftrightarrow> d' = d \<or> (\<exists>x. d' = update_last_active x now d)"

lemma touched_refl [simp]: "touched now d d" and touched_update [simp]: "touched now d (update_last_active x now d)"
  by (auto simp: touched_def)

lemma touch_session_touched: "store s1 = d \<Longrightarrow> touched now d (store (touch_session now sid s1))"
  by (auto simp: touch_session_def on_cache_def split: option.split)

lemma enforce_session_touched: "touched now (store s) (store (snd (enforce_session st now sid u s)))"
proof -
  have "touched now (store s) (store s1)" "touched now (store s) (store (touch_session now x s1))"
    if "get_session_cached k s = (r, s1)" for k r s1 x
    using get_session_cached_store [of k s] that by (simp_all add: touch_session_touched)
  then show ?thesis by (auto simp: enforce_session_def split: option.split prod.split)
qed

lemma get_current_user_touched: "touched now (store s) (store (snd (get_current_user st decode now al raw s)))"
proof -
  have "touched now (store s) (store s1)" if "enforce_session st now sid u s = (r, s1)" for sid u r s1
    using enforce_session_touched [of now s st sid u] that by simp
  then show ?thesis by (simp add: get_current_user_def Let_def split: option.split prod.split)
qed

lemma access_keeps_refresh:
  "refresh_tokens (store (snd (get_current_user st decode now al raw s))) = refresh_tokens (store s)"
  using get_current_user_touched [of now s st decode al raw] by (auto simp: touched_def)

lemma store_evictions [simp]: "store (fold invalidate_session_cache ids s) = store s"
  by (induction ids arbitrary: s) (simp_all add: invalidate_session_cache_def on_cache_def)

lemma sweep_keeps_refresh: "refresh_tokens (store (sweep_sessions now s)) = refresh_tokens (store s)"
  by (simp add: sweep_sessions_def Let_def)

fun mints :: "session_request \<Rightarrow> string option" where
  "mints (Sign_In now tid fam sid raw u) = Some raw"
| "mints (Refresh now tid new_raw raw) = Some new_raw"
| "mints _ = None"

lemma session_step_rows:
  assumes "closed_row P" and "rows_all P (store s)" and "\<And>new t. mints rq = Some new \<Longrightarrow> rt_hash t = sha new \<Longrightarrow> P t"
  shows "rows_all P (store (session_step st sha encode decode rq s))"
proof (cases rq)
  case (Logout raw u)
  with rows_all_revocations(3) [OF assms(1,2)] assms(2) show ?thesis by (simp add: logout_def split: option.split)
next
  case (Revoke_One now sid u)
  have "rows_all P (snd (revoke_session sid now (store s)))" using assms(2) by (simp add: rows_all_def)
  with rows_all_revocations(1) [OF assms(1)] assms(2) Revoke_One show ?thesis
    by (auto simp: revoke_session_by_id_def invalidate_session_cache_def on_cache_def split: option.split prod.splits bool.split)
next
  case (Revoke_Family now fam u)
  have "rows_all P (snd (revoke_session sid now (store s)))" for sid using assms(2) by (simp add: rows_all_def)
  with rows_all_revocations [OF assms(1)] assms(2) Revoke_Family show ?thesis
    by (auto simp: revoke_session_legacy_def invalidate_session_cache_def on_cache_def split: option.split)
next
  case (Revoke_All now u)
  have "rows_all P (snd (revoke_user_sessions (user_id u) now (store s)))" using assms(2) by (simp add: rows_all_def)
  with rows_all_revocations(2) [OF assms(1)] Revoke_All show ?thesis by (simp add: revoke_all_sessions_def)
next
  case (Sweep_Tokens grace now)
  with rows_all_revocations(6) [OF assms(1,2)] show ?thesis by simp
next
  case (Sign_In now tid fam sid raw u)
  with assms sign_in_rows [of P "store s" sha raw] show ?thesis by (simp add: on_store_def)
next
  case (Refresh now tid new_raw raw)
  with assms(3) rotate_rows [OF assms(1,2), of sha new_raw] show ?thesis by (simp add: on_store_def)
next
  case (Enter now al raw)
  with assms(2) show ?thesis by (simp add: rows_all_same [OF access_keeps_refresh])
next
  case (Sweep_Sessions now)
  with assms(2) show ?thesis by (simp add: rows_all_same [OF sweep_keeps_refresh])
qed

section \<open>A refresh token works once\<close>

definition dead :: "(string \<Rightarrow> string) \<Rightarrow> string \<Rightarrow> refresh_token \<Rightarrow> bool" where
  "dead sha raw t \<longleftrightarrow> (rt_hash t = sha raw \<longrightarrow> rt_used t \<noteq> None \<or> rt_revoked t)"

definition mints_other :: "(string \<Rightarrow> string) \<Rightarrow> string \<Rightarrow> session_request \<Rightarrow> bool" where
  "mints_other sha raw rq \<longleftrightarrow> (case mints rq of None \<Rightarrow> True | Some new \<Rightarrow> sha new \<noteq> sha raw)"

lemma closed_dead: "closed_row (dead sha raw)"
  by (simp add: closed_row_def dead_def)

interpretation spent_tokens: guarded "session_step st sha encode decode" "mints_other sha raw"
  "\<lambda>s :: auth_state. rows_all (dead sha raw) (store s)" for st sha encode decode raw
proof
  fix rq and s :: auth_state
  assume "mints_other sha raw rq" and "rows_all (dead sha raw) (store s)"
  then show "rows_all (dead sha raw) (store (session_step st sha encode decode rq s))"
    by (intro session_step_rows [OF closed_dead]) (auto simp: mints_other_def dead_def)
qed

lemma find_unique_hash:
  assumes "distinct (map rt_hash ts)" and "find (\<lambda>t. rt_hash t = h) ts = Some t"
  shows "\<forall>q \<in> set ts. rt_hash q = h \<longrightarrow> q = t"
proof -
  from assms(2) have t: "t \<in> set ts" "rt_hash t = h" by (auto simp: find_Some_iff)
  with assms(1) show ?thesis by (auto simp: distinct_map dest: inj_onD)
qed

lemma rows_all_dead_refused:
  assumes "rows_all (dead sha raw) d"
  shows "\<exists>msg. refresh_access_token st sha encode now tid new_raw raw d = (Inl (HTTPException 401 msg), d)"
proof (cases "get_refresh sha raw d")
  case None
  then show ?thesis by (simp add: refresh_access_token_def rotate_refresh_token_def get_db_lift unauthorized_def)
next
  case (Some t)
  then have "t \<in> set (refresh_tokens d)" "rt_hash t = sha raw" by (auto simp: get_refresh_def find_Some_iff)
  with assms have "rt_used t \<noteq> None \<or> rt_revoked t" by (auto simp: rows_all_def dead_def)
  with Some show ?thesis by (simp add: refresh_access_token_def rotate_refresh_token_def get_db_lift unauthorized_def)
qed

text \<open>What a successful rotation did.\<close>

lemma refresh_InrE:
  assumes "refresh_access_token st sha encode now tid new_raw raw d = (Inr p, d')"
  obtains t u d1 d2 access where "get_refresh sha raw d = Some t" "rt_used t = None" "\<not> rt_revoked t" "\<not> rt_expires t < now"
    "mark_used_atomic (rt_id t) now d = (True, d1)" "user_by_id (core d) (rt_user t) = Some u" "usable (Some u)"
    "refresh_tokens d2 = refresh_tokens d1" "core d2 = core d" "cl_version access = Some (token_version u)" "cl_sub access = Some (user_id u)"
    "create_refresh sha tid (user_id u) new_raw (rt_family t) (now + days (REFRESH_TOKEN_EXPIRE_DAYS st)) d2 = Inr d'"
    "p = (encode access, new_raw)"
proof -
  obtain r d0 where rot: "rotate_refresh_token st sha encode now tid new_raw raw d = (r, d0)" by fastforce
  with assms have r: "rotate_refresh_token st sha encode now tid new_raw raw d = (Inr p, d')"
    by (auto simp: refresh_access_token_def get_db_lift split: sum.splits)
  then obtain t where t: "get_refresh sha raw d = Some t" "rt_used t = None" "\<not> rt_revoked t" "\<not> rt_expires t < now"
      and c: "claim_rotation st sha encode now tid new_raw t d = (Inr p, d')"
    by (auto simp: rotate_refresh_token_def split: option.splits if_splits)
  from c show thesis by (cases rule: claim_rotation_cases) (use t that in auto)
qed

lemma refresh_dead:
  assumes "distinct (map rt_hash (refresh_tokens d))" and "refresh_access_token st sha encode now tid new_raw raw d = (Inr p, d')"
  shows "rows_all (dead sha raw) d'"
proof -
  from assms(2) obtain t d1 d2 fam exp and u :: user where t: "get_refresh sha raw d = Some t" "rt_used t = None" "\<not> rt_revoked t"
      and m: "mark_used_atomic (rt_id t) now d = (True, d1)" "refresh_tokens d2 = refresh_tokens d1"
      and c: "create_refresh sha tid (user_id u) new_raw fam exp d2 = Inr d'"
    by (rule refresh_InrE) blast
  from t(1) have in_d: "t \<in> set (refresh_tokens d)" "rt_hash t = sha raw" by (auto simp: get_refresh_def find_Some_iff)
  from find_unique_hash [OF assms(1)] t(1) have only: "\<And>q. q \<in> set (refresh_tokens d) \<Longrightarrow> rt_hash q = sha raw \<Longrightarrow> q = t"
    by (auto simp: get_refresh_def)
  from m have rows: "refresh_tokens d2 = update_where (\<lambda>q. rt_id q = rt_id t \<and> rt_used q = None \<and> \<not> rt_revoked q)
      (\<lambda>q. q\<lparr>rt_used := Some now\<rparr>) (refresh_tokens d)"
    by (auto simp: mark_used_atomic_def on_refresh_def Let_def)
  have d2: "rows_all (dead sha raw) d2"
    using only t by (auto simp: rows_all_def rows set_update_where dead_def)
  have "t\<lparr>rt_used := Some now\<rparr> \<in> set (refresh_tokens d2)"
    unfolding rows set_update_where using in_d t by (intro bexI [of _ t]) auto
  with c in_d(2) have "sha new_raw \<noteq> sha raw" by (force elim!: create_refresh_InrE)
  with d2 c show ?thesis by (auto simp: rows_all_def dead_def elim!: create_refresh_InrE)
qed

text \<open>
  C13. A refresh token is single-use: once it has been rotated it never rotates again, whatever
  sign-ins, rotations, requests, revocations and clean-ups follow, as long as no new token has the
  same hash; the request is refused with 401 and writes nothing.
\<close>

theorem refresh_token_single_use:
  assumes "distinct (map rt_hash (refresh_tokens (store s)))"
    and "refresh_access_token st sha encode now tid new_raw raw (store s) = (Inr p, d1)"
    and "\<forall>rq \<in> set rqs. mints_other sha raw rq"
  shows "\<exists>msg. refresh_access_token st sha encode now' tid' new_raw' raw
                 (store (fold (session_step st sha encode decode) rqs (s\<lparr>store := d1\<rparr>)))
               = (Inl (HTTPException 401 msg), store (fold (session_step st sha encode decode) rqs (s\<lparr>store := d1\<rparr>)))"
  using refresh_dead [OF assms(1,2)]
  by (intro rows_all_dead_refused spent_tokens.run_inv [OF assms(3)]) simp

section \<open>Concurrent rotations\<close>

text \<open>
  Requests that all read the row \<open>t\<close> before any of them claimed it. The row lock of the UPDATE puts the
  claims in some order; each request commits or rolls back before the next one's UPDATE sees the row.
\<close>

fun race ::
  "settings \<Rightarrow> (string \<Rightarrow> string) \<Rightarrow> (claims \<Rightarrow> string) \<Rightarrow> refresh_token \<Rightarrow> (instant \<times> uuid \<times> string) list \<Rightarrow> auth_db \<Rightarrow>
   (string \<times> string) result list \<times> auth_db" where
  "race st sha encode t [] d = ([], d)"
| "race st sha encode t ((now, tid, new_raw) # cs) d =
     (case get_db d (lift_db (claim_rotation st sha encode now tid new_raw t)) of
        (r, d1) \<Rightarrow> (case race st sha encode t cs d1 of (rs, d2) \<Rightarrow> (r # rs, d2)))"

definition claimed :: "refresh_token \<Rightarrow> refresh_token \<Rightarrow> bool" where
  "claimed t q \<longleftrightarrow> (rt_id q = rt_id t \<longrightarrow> rt_used q \<noteq> None \<or> rt_revoked q)"

lemma claim_once:
  assumes "claim_rotation st sha encode now tid new_raw t d = (Inr p, d')"
  shows "rows_all (claimed t) d'"
  using assms
proof (cases rule: claim_rotation_cases)
  case (won u d1 d2 access)
  let ?p = "\<lambda>q. rt_id q = rt_id t \<and> rt_used q = None \<and> \<not> rt_revoked q"
  from won(1) have rows: "refresh_tokens d1 = update_where ?p (\<lambda>q. q\<lparr>rt_used := Some now\<rparr>) (refresh_tokens d)"
      and "rowcount ?p (refresh_tokens d) = 1"
    by (auto simp: mark_used_atomic_def on_refresh_def Let_def)
  then obtain q where q: "q \<in> set (refresh_tokens d)" "?p q"
    by (cases "\<exists>q \<in> set (refresh_tokens d). ?p q") (auto simp: rowcount_def filter_empty_conv)
  then have "q\<lparr>rt_used := Some now\<rparr> \<in> set (refresh_tokens d1)"
    unfolding rows set_update_where by (intro bexI [of _ q]) auto
  with won(4) have "q\<lparr>rt_used := Some now\<rparr> \<in> set (refresh_tokens d2)" by simp
  with won(8) have "rt_id (q\<lparr>rt_used := Some now\<rparr>) \<noteq> tid" by (elim create_refresh_InrE) blast
  with q(2) have "tid \<noteq> rt_id t" by simp
  moreover have "claimed t r" if "r \<in> set (refresh_tokens d2)" for r
    using that won(4) by (auto simp: claimed_def rows set_update_where)
  ultimately show ?thesis using won(8)
    by (elim create_refresh_InrE) (simp add: rows_all_def ball_Un, simp add: claimed_def)
qed simp_all

lemma claimed_loses:
  assumes "rows_all (claimed t) d"
  shows "\<exists>e. get_db d (lift_db (claim_rotation st sha encode now tid new_raw t)) = (Inl e, d)"
proof -
  have "filter (\<lambda>q. rt_id q = rt_id t \<and> rt_used q = None \<and> \<not> rt_revoked q) (refresh_tokens d) = []"
    using assms by (auto simp: rows_all_def claimed_def filter_empty_conv)
  then have "fst (mark_used_atomic (rt_id t) now d) = False"
    by (simp add: mark_used_atomic_def rowcount_def Let_def)
  then show ?thesis
    by (cases "mark_used_atomic (rt_id t) now d") (simp add: claim_rotation_def get_db_lift)
qed

lemma race_all_lose: "rows_all (claimed t) d \<Longrightarrow> filter is_ok (fst (race st sha encode t cs d)) = []"
proof (induction cs arbitrary: d)
  case (Cons c cs)
  obtain now tid new_raw where c: "c = (now, tid, new_raw)" by (cases c)
  from claimed_loses [OF Cons.prems, of st sha encode now tid new_raw] Cons.IH [OF Cons.prems] show ?case
    by (auto simp: c split: prod.split)
qed simp

text \<open>
  Of any number of rotations that race for the same refresh token at most one succeeds.
\<close>

lemma concurrent_refresh_single_winner:
  "length (filter is_ok (fst (race st sha encode t cs d))) \<le> 1"
proof (induction cs arbitrary: d)
  case (Cons c cs)
  obtain now tid new_raw where c: "c = (now, tid, new_raw)" by (cases c)
  obtain r d1 where g: "get_db d (lift_db (claim_rotation st sha encode now tid new_raw t)) = (r, d1)" by fastforce
  show ?case
  proof (cases r)
    case (Inl e)
    with g Cons.IH [of d1] show ?thesis by (cases "race st sha encode t cs d1") (simp add: c)
  next
    case (Inr p)
    with g have "claim_rotation st sha encode now tid new_raw t d = (Inr p, d1)"
      by (auto simp: get_db_lift split: prod.splits sum.splits)
    from race_all_lose [OF claim_once [OF this], of st sha encode cs] g Inr show ?thesis
      by (cases "race st sha encode t cs d1") (simp add: c)
  qed
qed simp

section \<open>What a refused or completed request leaves usable\<close>

lemma filter_key_unique: "x \<in> set xs \<Longrightarrow> distinct (map k xs) \<Longrightarrow> P x \<Longrightarrow> filter (\<lambda>y. k y = k x \<and> P y) xs = [x]"
  by (induction xs) (auto simp: filter_empty_conv image_iff)

lemma find_append_none: "\<forall>x \<in> set xs. \<not> p x \<Longrightarrow> find p (xs @ ys) = find p ys"
  by (induction xs) auto

lemma refresh_goes_through:
  assumes "get_refresh sha raw d = Some t" and "rt_used t = None" and "\<not> rt_revoked t" and "now \<le> rt_expires t"
    and "distinct (map rt_id (refresh_tokens d))"
    and "user_by_id (core d) (rt_user t) = Some u" and "usable (Some u)"
    and "\<forall>q \<in> set (refresh_tokens d). rt_id q \<noteq> tid \<and> rt_hash q \<noteq> sha new_raw"
  shows "\<exists>access d'. refresh_access_token st sha encode now tid new_raw raw d = (Inr (encode access, new_raw), d') \<and>
           cl_version access = Some (token_version u) \<and> cl_sub access = Some (user_id u)"
proof -
  let ?p = "\<lambda>q. rt_id q = rt_id t \<and> rt_used q = None \<and> \<not> rt_revoked q"
  have t: "t \<in> set (refresh_tokens d)" using assms(1) by (auto simp: get_refresh_def find_Some_iff)
  have "filter ?p (refresh_tokens d) = [t]"
    using t assms(2,3,5) by (intro filter_key_unique) auto
  then have "fst (mark_used_atomic (rt_id t) now d)" by (simp add: mark_used_atomic_def rowcount_def Let_def)
  then obtain d1 where m: "mark_used_atomic (rt_id t) now d = (True, d1)" by (cases "mark_used_atomic (rt_id t) now d") auto
  then have d1: "core d1 = core d" and rows: "refresh_tokens d1 = update_where ?p (\<lambda>q. q\<lparr>rt_used := Some now\<rparr>) (refresh_tokens d)"
    by (auto simp: mark_used_atomic_def on_refresh_def Let_def)
  have fresh: "\<forall>q \<in> set (refresh_tokens d1). rt_id q \<noteq> tid \<and> rt_hash q \<noteq> sha new_raw"
    using assms(8) by (auto simp: rows set_update_where split: if_splits)
  define ses where "ses = session_by_family (rt_family t) d1"
  define d2 where "d2 = (case ses of None \<Rightarrow> d1 | Some s \<Rightarrow> update_last_active (ses_id s) now d1)"
  have "refresh_tokens d2 = refresh_tokens d1" by (simp add: d2_def split: option.split)
  with fresh obtain d3 where
    "create_refresh sha tid (user_id u) new_raw (rt_family t) (now + days (REFRESH_TOKEN_EXPIRE_DAYS st)) d2 = Inr d3"
    by (auto simp: create_refresh_def)
  then have "refresh_access_token st sha encode now tid new_raw raw d =
      (Inr (encode (create_access_token st now (user_id u) (effective_role u) (token_version u) (map_option ses_id ses)), new_raw), d3)"
    unfolding d2_def ses_def
    by (simp add: refresh_access_token_def get_db_lift rotate_refresh_token_def claim_rotation_def assms(1-4,6,7) m d1 Let_def)
       (use assms(4) in simp)
  then show ?thesis by (auto simp: create_access_token_def build_token_def)
qed

lemma user_by_id_same: "user_by_id c uid = Some u \<Longrightarrow> user_id u = uid"
  by (auto simp: user_by_id_def find_Some_iff)

lemma refresh_new_row:
  assumes "distinct (map rt_id (refresh_tokens d))"
    and "refresh_access_token st sha encode now tid new_raw raw d = (Inr p, d')"
  obtains t u where "get_refresh sha new_raw d' = Some t" "rt_used t = None" "\<not> rt_revoked t"
    "rt_expires t = now + days (REFRESH_TOKEN_EXPIRE_DAYS st)" "user_by_id (core d') (rt_user t) = Some u" "usable (Some u)"
    "distinct (map rt_id (refresh_tokens d'))"
proof -
  from assms(2) obtain t :: refresh_token and d1 d2 and u :: user where m: "mark_used_atomic (rt_id t) now d = (True, d1)"
      and u: "user_by_id (core d) (rt_user t) = Some u" "usable (Some u)"
      and d2: "refresh_tokens d2 = refresh_tokens d1" "core d2 = core d"
      and c: "create_refresh sha tid (user_id u) new_raw (rt_family t) (now + days (REFRESH_TOKEN_EXPIRE_DAYS st)) d2 = Inr d'"
    by (rule refresh_InrE) blast
  have ids: "map rt_id (refresh_tokens d2) = map rt_id (refresh_tokens d)"
    using m d2(1) by (auto simp: mark_used_atomic_def on_refresh_def Let_def intro!: map_update_where)
  from c obtain fresh: "\<forall>t \<in> set (refresh_tokens d2). rt_id t \<noteq> tid \<and> rt_hash t \<noteq> sha new_raw"
      and rows: "refresh_tokens d' = refresh_tokens d2 @ [\<lparr>rt_id = tid, rt_user = user_id u, rt_hash = sha new_raw,
        rt_family = rt_family t, rt_used = None, rt_revoked = False, rt_expires = now + days (REFRESH_TOKEN_EXPIRE_DAYS st)\<rparr>]"
      and core: "core d' = core d2"
    by (rule create_refresh_InrE) blast
  have "get_refresh sha new_raw d' = Some \<lparr>rt_id = tid, rt_user = user_id u, rt_hash = sha new_raw,
        rt_family = rt_family t, rt_used = None, rt_revoked = False, rt_expires = now + days (REFRESH_TOKEN_EXPIRE_DAYS st)\<rparr>"
    using fresh by (simp add: get_refresh_def rows find_append_none)
  moreover have "distinct (map rt_id (refresh_tokens d'))" proof -
    have "tid \<notin> set (map rt_id (refresh_tokens d2))" using fresh by auto
    with assms(1) ids show ?thesis by (simp add: rows)
  qed
  moreover have "user_by_id (core d') (user_id u) = Some u" using u user_by_id_same [OF u(1)] by (simp add: core d2)
  ultimately show thesis using u(2) that by simp
qed

text \<open>
  C21. Theft detection has no lasting effect: presenting a rotated token again revokes its family in the
  request's session only, the 401 rolls that back, and the token the first rotation handed out still
  rotates.
\<close>

theorem reuse_revocation_is_lost:
  assumes "distinct (map rt_id (refresh_tokens d))" and "distinct (map rt_hash (refresh_tokens d))"
    and "refresh_access_token st sha encode now tid raw1 raw d = (Inr p, d1)"
    and "refresh_access_token st sha encode now' tid' raw' raw d1 = (r, d2)"
    and "\<forall>q \<in> set (refresh_tokens d1). rt_id q \<noteq> tid'' \<and> rt_hash q \<noteq> sha raw''"
    and "now'' \<le> now + days (REFRESH_TOKEN_EXPIRE_DAYS st)"
  shows "(\<exists>msg. r = Inl (HTTPException 401 msg)) \<and> d2 = d1 \<and>
         (\<exists>p' d3. refresh_access_token st sha encode now'' tid'' raw'' raw1 d2 = (Inr p', d3))"
proof -
  from rows_all_dead_refused [OF refresh_dead [OF assms(2,3)], of st encode now' tid' raw'] assms(4)
  have r: "\<exists>msg. r = Inl (HTTPException 401 msg)" "d2 = d1" by auto
  from assms(1,3) obtain t u where "get_refresh sha raw1 d1 = Some t" "rt_used t = None" "\<not> rt_revoked t"
    "rt_expires t = now + days (REFRESH_TOKEN_EXPIRE_DAYS st)" "user_by_id (core d1) (rt_user t) = Some u" "usable (Some u)"
    "distinct (map rt_id (refresh_tokens d1))"
    by (rule refresh_new_row) blast
  with refresh_goes_through [of sha raw1 d1 t now'' u tid'' raw'' st encode] assms(5,6) r show ?thesis by auto
qed

text \<open>
  Resetting a password does not end the sessions: a refresh token handed out before still
  rotates, and the access token it gives carries the new token version.
\<close>

lemma password_reset_keeps_refresh_tokens:
  assumes "confirm_password_reset sha hash now raw pw d = Inr (uid, d1)"
    and "get_refresh sha old d = Some t" and "rt_user t = uid" and "rt_used t = None" and "\<not> rt_revoked t" and "now' \<le> rt_expires t"
    and "distinct (map rt_id (refresh_tokens d))"
    and "\<forall>q \<in> set (refresh_tokens d). rt_id q \<noteq> tid \<and> rt_hash q \<noteq> sha new_raw"
  shows "\<exists>u access d2. user_by_id (core d1) uid = Some u \<and>
           refresh_access_token st sha encode now' tid new_raw old d1 = (Inr (encode access, new_raw), d2) \<and>
           cl_sub access = Some uid \<and> cl_version access = Some (token_version u)"
proof -
  let ?f = "\<lambda>u. u\<lparr>password_hash := hash pw, token_version := token_version u + 1\<rparr>"
  from assms(1) obtain d0 where v: "verify_password_reset_token sha now raw d = (Some uid, d0)" and u0: "usable (user_by_id (core d0) uid)"
      and d1: "d1 = on_core (audit_log ''password_reset_requested'' ''user'' (Some uid) []) (on_user uid ?f d0)"
    by (rule confirm_password_reset_InrE)
  from v have rows: "refresh_tokens d1 = refresh_tokens d"
    by (auto simp: d1 verify_password_reset_token_def split: prod.splits)
  from u0 obtain u where u: "user_by_id (core d0) uid = Some u" by (auto simp: usable_def split: option.splits)
  have "user_by_id (core (on_user uid ?f d0)) uid = Some (?f u)" using u by (subst user_by_id_on_user) simp_all
  then have u1: "user_by_id (core d1) uid = Some (?f u)" by (simp add: d1 on_core_def)
  have "usable (Some (?f u))" using u0 u by (simp add: usable_def)
  with refresh_goes_through [of sha old d1 t now' "?f u" tid new_raw st encode] assms(2-8) u1 rows user_by_id_same [OF u1]
  show ?thesis by (auto simp: get_refresh_def)
qed

section \<open>Who is let in\<close>

text \<open>The row of a session as the check sees it: the copy in Redis, if there is one, else the table's.\<close>

definition session_seen :: "uuid \<Rightarrow> auth_state \<Rightarrow> login_session option" where
  "session_seen sid s =
     (case (case cache s of None \<Rightarrow> None | Some r \<Rightarrow> cached r sid) of Some x \<Rightarrow> Some x | None \<Rightarrow> session_by_id sid (store s))"

lemma get_session_cached_seen: "fst (get_session_cached sid s) = session_seen sid s"
  by (simp add: get_session_cached_def session_seen_def split: option.split)

lemma enforce_session_iff:
  "(\<exists>s1. enforce_session st now sid u s = (Some (), s1)) \<longleftrightarrow>
     (AUTH_ENFORCE_SESSION st \<longrightarrow>
        (case sid of None \<Rightarrow> True | Some k \<Rightarrow>
           (case session_seen k s of None \<Rightarrow> False | Some x \<Rightarrow> \<not> ses_revoked x \<and> ses_user x = user_id u)))"
proof (cases sid)
  case (Some k)
  obtain x s1 where g: "get_session_cached k s = (x, s1)" by (cases "get_session_cached k s")
  then have "session_seen k s = x" using get_session_cached_seen [of k s] by simp
  with g Some show ?thesis by (auto simp: enforce_session_def split: option.split)
qed (simp add: enforce_session_def)

text \<open>
  C15. Who is let in, exactly. A request is let in as a user if and only if its access token names the user,
  whose account exists, is active, not deleted and onboarded; the version the token carries is the account's
  current one, or it carries none; and, where sessions are enforced, the session it names is, in the copy Redis
  has or else in the table, not revoked and the user's, or it names none.
\<close>

theorem let_in_iff:
  "fst (get_current_user st decode now False raw s) = Inr u \<longleftrightarrow>
     (\<exists>c. decode True raw = Some c \<and> cl_type c = ''access'' \<and> cl_sub c = Some (user_id u) \<and>
        user_by_id (core (store s)) (user_id u) = Some u \<and> user_active u \<and> \<not> user_deleted u \<and> onboarding_completed u \<and>
        cl_version c \<in> {None, Some (token_version u)} \<and>
        (AUTH_ENFORCE_SESSION st \<longrightarrow>
           (case cl_sid c of None \<Rightarrow> True | Some sid \<Rightarrow>
              (case session_seen sid s of None \<Rightarrow> False | Some x \<Rightarrow> \<not> ses_revoked x \<and> ses_user x = user_id u))))"
  (is "?L \<longleftrightarrow> ?R")
proof
  assume ?L
  then obtain c uid s1 where c: "decode True raw = Some c" "cl_type c = ''access''" "cl_sub c = Some uid"
      and u: "usable (user_by_id (core (store s)) uid)" "user_by_id (core (store s)) uid = Some u"
      and v: "cl_version c = None \<or> cl_version c = Some (token_version u)" "onboarding_completed u"
      and e: "enforce_session st now (cl_sid c) u s = (Some (), s1)"
    by (auto simp: get_current_user_def decode_token_def usable_def Let_def split: option.splits if_splits prod.splits)
  from e have "\<exists>s1. enforce_session st now (cl_sid c) u s = (Some (), s1)" by blast
  with c u v user_by_id_same [OF u(2)] show ?R unfolding enforce_session_iff by (auto simp: usable_def)
next
  assume ?R
  then obtain c where c: "decode True raw = Some c" "cl_type c = ''access''" "cl_sub c = Some (user_id u)"
      and u: "user_by_id (core (store s)) (user_id u) = Some u" "user_active u" "\<not> user_deleted u" "onboarding_completed u"
      and v: "cl_version c \<in> {None, Some (token_version u)}"
      and e: "\<exists>s1. enforce_session st now (cl_sid c) u s = (Some (), s1)"
    unfolding enforce_session_iff by blast
  from e obtain s1 where "enforce_session st now (cl_sid c) u s = (Some (), s1)" by blast
  with c u v show ?L by (auto simp: get_current_user_def decode_token_def usable_def Let_def)
qed

text \<open>The WebSocket variant looks at the account only: it takes a token of a superseded version.\<close>

lemma ws_takes_stale_token:
  assumes "decode True raw = Some c" and "cl_type c = ''access''" and "cl_sub c = Some uid"
    and "user_by_id (core (store s)) uid = Some u" and "usable (Some u)" and "cl_version c = Some v" and "v \<noteq> token_version u"
  shows "ws_get_current_user decode raw (store s) = Some u" and "\<exists>e. fst (get_current_user st decode now al raw s) = Inl e"
  using assms by (auto simp: ws_get_current_user_def get_current_user_def decode_token_def Let_def)

definition lives :: "uuid \<Rightarrow> auth_db \<Rightarrow> bool" where
  "lives sid d \<longleftrightarrow> list_ex (\<lambda>x. ses_id x = sid \<and> \<not> ses_revoked x) (login_sessions d)"

lemma refresh_writes_keep_sessions [simp]:
  "login_sessions (on_refresh f d) = login_sessions d" "login_sessions (revoke_family fam d) = login_sessions d"
  "login_sessions (revoke_user_tokens uid d) = login_sessions d" "login_sessions (delete_expired_tokens g now d) = login_sessions d"
  "login_sessions (snd (revoke_by_raw sha raw d)) = login_sessions d"
  "login_sessions (snd (revoke_token_family uid fam d)) = login_sessions d"
  by (simp_all add: on_refresh_def revoke_family_def revoke_user_tokens_def delete_expired_tokens_def revoke_by_raw_def
      revoke_token_family_def Let_def split: option.split)

lemma lives_refresh_writes [simp]:
  "lives sid (on_refresh f d) = lives sid d" "lives sid (revoke_family fam d) = lives sid d"
  "lives sid (revoke_user_tokens uid d) = lives sid d" "lives sid (delete_expired_tokens g now d) = lives sid d"
  "lives sid (snd (revoke_by_raw sha raw d)) = lives sid d" "lives sid (snd (revoke_token_family uid fam d)) = lives sid d"
  by (simp_all add: lives_def)























section \<open>Witnesses\<close>

definition demo_claims :: claims where
  "demo_claims = create_access_token default_settings 0 1 ''client'' 1 (Some 5)"

definition auth_demo2 :: auth_db where
  "auth_demo2 = auth_demo\<lparr>
     refresh_tokens := [\<lparr>rt_id = 11, rt_user = 1, rt_hash = ''r1'', rt_family = 7, rt_used = None, rt_revoked = False, rt_expires = 1000\<rparr>],
     login_sessions := [\<lparr>ses_id = 5, ses_user = 1, ses_family = 7, last_active_at = 0, ses_revoked = False, ses_revoked_at = None\<rparr>],
     reset_tokens := [\<lparr>ot_id = 9, ot_user = 1, ot_hash = ''tok'', ot_used = None, ot_expires = 100\<rparr>]\<rparr>"

definition demo_state :: auth_state where
  "demo_state = \<lparr>store = auth_demo2, cache = Some \<lparr>cached = (\<lambda>_. None), seen = (\<lambda>_. False)\<rparr>\<rparr>"

definition demo_rotated :: auth_db where
  "demo_rotated = snd (refresh_access_token default_settings id (\<lambda>_. ''jwt'') 5 12 ''r2'' ''r1'' auth_demo2)"

lemma demo_core: "user_by_id (core auth_demo2) 1 = Some mail_user" "core auth_demo2 = core auth_demo"
  using auth_demo_user(2,4) by (simp_all add: auth_demo2_def)

lemma demo_token:
  "get_refresh id ''r1'' auth_demo2 = Some (hd (refresh_tokens auth_demo2))" "rt_user (hd (refresh_tokens auth_demo2)) = 1"
  "rt_used (hd (refresh_tokens auth_demo2)) = None" "\<not> rt_revoked (hd (refresh_tokens auth_demo2))"
  "6 \<le> rt_expires (hd (refresh_tokens auth_demo2))"
  by (simp_all add: auth_demo2_def get_refresh_def)

lemma demo_rows:
  "distinct (map rt_id (refresh_tokens auth_demo2))" "distinct (map rt_hash (refresh_tokens auth_demo2))"
  "\<forall>q \<in> set (refresh_tokens auth_demo2). rt_id q \<noteq> 12 \<and> rt_hash q \<noteq> id ''r2''"
  "\<forall>q \<in> set (refresh_tokens auth_demo2). rt_id q \<noteq> 14 \<and> rt_hash q \<noteq> id ''r4''"
  by (simp_all add: auth_demo2_def)

lemma demo_refresh: "\<exists>p. refresh_access_token default_settings id (\<lambda>_. ''jwt'') 5 12 ''r2'' ''r1'' auth_demo2 = (Inr p, demo_rotated)"
proof -
  have "5 \<le> rt_expires (hd (refresh_tokens auth_demo2))" using demo_token(5) by simp
  moreover have "user_by_id (core auth_demo2) (rt_user (hd (refresh_tokens auth_demo2))) = Some mail_user"
    by (simp add: demo_token(2) demo_core(1))
  ultimately show ?thesis unfolding demo_rotated_def
    using refresh_goes_through [OF demo_token(1,3,4) _ demo_rows(1) _ auth_demo_user(3) demo_rows(3)] by (metis snd_conv)
qed

lemma demo_rotated_rows: "\<forall>q \<in> set (refresh_tokens demo_rotated). rt_id q \<noteq> 14 \<and> rt_hash q \<noteq> id ''r4''"
proof -
  have "rows_all (\<lambda>q. rt_id q \<in> {11, 12} \<and> rt_hash q \<in> {''r1'', ''r2''}) demo_rotated"
    using demo_refresh
    by (auto elim!: refresh_InrE create_refresh_InrE simp: rows_all_def mark_used_atomic_def on_refresh_def Let_def auth_demo2_def)
  then show ?thesis by (auto simp: rows_all_def)
qed

theorem refresh_token_single_use_witness:
  "\<exists>p msg. refresh_access_token default_settings id (\<lambda>_. ''jwt'') 5 12 ''r2'' ''r1'' (store demo_state) = (Inr p, demo_rotated) \<and>
     fst (refresh_access_token default_settings id (\<lambda>_. ''jwt'') 6 13 ''r3'' ''r1'' demo_rotated) = Inl (HTTPException 401 msg)"
proof -
  have s: "store demo_state = auth_demo2" by (simp add: demo_state_def)
  obtain p where p: "refresh_access_token default_settings id (\<lambda>_. ''jwt'') 5 12 ''r2'' ''r1'' (store demo_state) = (Inr p, demo_rotated)"
    using demo_refresh s by auto
  from refresh_token_single_use [OF _ p, of "[]" 6 13 "''r3''"] demo_rows(2) p show ?thesis
    by (auto simp: s)
qed

theorem reuse_revocation_is_lost_witness:
  "\<exists>d2 r. refresh_access_token default_settings id (\<lambda>_. ''jwt'') 6 13 ''r3'' ''r1'' demo_rotated = (Inl r, d2) \<and>
     (\<exists>p d3. refresh_access_token default_settings id (\<lambda>_. ''jwt'') 7 14 ''r4'' ''r2'' d2 = (Inr p, d3))"
proof -
  obtain p where p: "refresh_access_token default_settings id (\<lambda>_. ''jwt'') 5 12 ''r2'' ''r1'' auth_demo2 = (Inr p, demo_rotated)"
    using demo_refresh by blast
  obtain r d2 where r: "refresh_access_token default_settings id (\<lambda>_. ''jwt'') 6 13 ''r3'' ''r1'' demo_rotated = (r, d2)" by fastforce
  have "(7::int) \<le> 5 + days (REFRESH_TOKEN_EXPIRE_DAYS default_settings)"
    by (simp add: days_def default_settings_def)
  from reuse_revocation_is_lost [OF demo_rows(1,2) p r demo_rotated_rows this] obtain msg p' d3
    where "r = Inl (HTTPException 401 msg)"
      "refresh_access_token default_settings id (\<lambda>_. ''jwt'') 7 14 ''r4'' ''r2'' d2 = (Inr p', d3)" by blast
  with r show ?thesis by blast
qed

lemma demo_enter:
  "fst (get_current_user default_settings (\<lambda>_ _. Some demo_claims) 6 False ''jwt'' demo_state) = Inr mail_user"
proof -
  have "enforce_session default_settings 6 sid u s = (Some (), s)" for sid u s
    by (simp add: enforce_session_def default_settings_def split: option.split)
  moreover have "token_version mail_user = 1" "onboarding_completed mail_user" by (simp_all add: mail_user_def)
  ultimately show ?thesis using demo_core(1) auth_demo_user(3)
    by (simp add: get_current_user_def decode_token_def demo_claims_def create_access_token_def build_token_def demo_state_def)
qed

text \<open>With enforcement on the demo token, bound to session 5, is let in: the session is in the table and live.\<close>

theorem let_in_iff_witness:
  "fst (get_current_user (default_settings\<lparr>AUTH_ENFORCE_SESSION := True\<rparr>) (\<lambda>_ _. Some demo_claims) 6 False ''jwt'' demo_state) = Inr mail_user
     \<and> cl_sid demo_claims = Some 5"
proof
  have c: "cl_type demo_claims = ''access''" "cl_sid demo_claims = Some 5" "cl_sub demo_claims = Some (user_id mail_user)"
      "cl_version demo_claims = Some (token_version mail_user)"
    by (simp_all add: demo_claims_def create_access_token_def build_token_def mail_user_def)
  then show "cl_sid demo_claims = Some 5" by simp
  from demo_enter let_in_iff [of default_settings "\<lambda>_ _. Some demo_claims" 6 "''jwt''" demo_state mail_user]
  have u: "user_by_id (core (store demo_state)) (user_id mail_user) = Some mail_user" "user_active mail_user" "\<not> user_deleted mail_user"
    "onboarding_completed mail_user" by auto
  have "case session_seen 5 demo_state of None \<Rightarrow> False | Some x \<Rightarrow> \<not> ses_revoked x \<and> ses_user x = user_id mail_user"
    by (simp add: session_seen_def demo_state_def auth_demo2_def session_by_id_def mail_user_def)
  with c u let_in_iff [of "default_settings\<lparr>AUTH_ENFORCE_SESSION := True\<rparr>" "\<lambda>_ _. Some demo_claims" 6 "''jwt''" demo_state mail_user]
  show "fst (get_current_user (default_settings\<lparr>AUTH_ENFORCE_SESSION := True\<rparr>) (\<lambda>_ _. Some demo_claims) 6 False ''jwt'' demo_state) = Inr mail_user"
    by auto
qed


end
