(* ===== verification/Login.thy ===== *)
theory Login
  imports Sessions
begin

text \<open>
  Registration and signing in: \<open>authenticate_user\<close> with its lockout, the login history and the step-up
  mark (domains/auth/service.py, app/core/step_up.py) and the endpoints of
  domains/auth/routers/core.py over them. The password hash is a parameter: \<open>verify pw h\<close> checks a
  password against a hash. Handlers work on a session, because some commit on the way; Redis' copy of
  the step-up time is an argument of its reader.
\<close>

section \<open>Authentication\<close>

definition LOCKOUT_THRESHOLD :: nat where "LOCKOUT_THRESHOLD = 5"
definition LOCKOUT_MINUTES :: int where "LOCKOUT_MINUTES = 15"

definition on_working :: "('d \<Rightarrow> 'd) \<Rightarrow> 'd session \<Rightarrow> 'd session" where
  "on_working f s = s\<lparr>working := f (working s)\<rparr>"

definition record_login_attempt ::
  "uuid option \<Rightarrow> string \<Rightarrow> bool \<Rightarrow> string option \<Rightarrow> auth_db \<Rightarrow> auth_db" where
  "record_login_attempt uid meth ok reason d =
     (case uid of
        None \<Rightarrow> d
      | Some uid \<Rightarrow> d\<lparr>login_history := login_history d @
                     [\<lparr>lh_user = uid, lh_method = meth, lh_success = ok, lh_reason = reason\<rparr>]\<rparr>)"

definition count_failure :: "instant \<Rightarrow> user \<Rightarrow> user" where
  "count_failure now u =
     (let n = failed_login_attempts u + 1
      in u\<lparr>failed_login_attempts := n,
           locked_until := (if LOCKOUT_THRESHOLD \<le> n then Some (now + minutes LOCKOUT_MINUTES) else locked_until u)\<rparr>)"

definition clear_failures :: "user \<Rightarrow> user" where
  "clear_failures u = u\<lparr>failed_login_attempts := 0, locked_until := None\<rparr>"

definition authenticate_user ::
  "settings \<Rightarrow> (string \<Rightarrow> string \<Rightarrow> bool) \<Rightarrow> instant \<Rightarrow> string \<Rightarrow> string \<Rightarrow> auth_db session \<Rightarrow> user option \<times> auth_db session" where
  "authenticate_user st verify now mail pw s =
     (case user_by_email (core (working s)) mail of
        None \<Rightarrow> (None, s)
      | Some u \<Rightarrow>
          if \<not> user_active u \<or> user_deleted u then (None, s)
          else if REQUIRE_EMAIL_VERIFICATION st \<and> \<not> user_verified u
          then (None, on_working (record_login_attempt (Some (user_id u)) ''password'' False (Some ''email_not_verified'')) s)
          else if is_locked now u
          then (None, on_working (record_login_attempt (Some (user_id u)) ''password'' False (Some ''account_locked'')) s)
          else if \<not> verify pw (password_hash u)
          then (let reason = (if LOCKOUT_THRESHOLD \<le> failed_login_attempts u + 1 then ''account_locked'' else ''invalid_password'')
                in (None, on_working (record_login_attempt (Some (user_id u)) ''password'' False (Some reason))
                            (commit (on_working (on_user (user_id u) (count_failure now)) s))))
          else (let f = (if failed_login_attempts u \<noteq> 0 then clear_failures else (\<lambda>u. u))
                in (Some (f u), on_working (record_login_attempt (Some (user_id u)) ''password'' True None)
                                  (on_working (on_user (user_id u) f) s))))"

section \<open>Step-up\<close>

definition mark_step_up :: "instant \<Rightarrow> uuid \<Rightarrow> auth_db \<Rightarrow> auth_db" where
  "mark_step_up now uid d = on_user uid (\<lambda>u. u\<lparr>last_step_up_at := Some now\<rparr>) d"

definition record_step_up_success :: "instant \<Rightarrow> uuid \<Rightarrow> string \<Rightarrow> auth_db \<Rightarrow> auth_db" where
  "record_step_up_success now uid meth d = mark_step_up now uid (record_login_attempt (Some uid) meth True None d)"

text \<open>\<open>mark\<close> is the time Redis holds, if any.\<close>

definition is_step_up_recent :: "settings \<Rightarrow> instant \<Rightarrow> instant option \<Rightarrow> user \<Rightarrow> bool" where
  "is_step_up_recent st now mark u \<longleftrightarrow>
     (let recent = (\<lambda>t. now - minutes (STEP_UP_TTL_MINUTES st) < t)
      in (case mark of None \<Rightarrow> False | Some t \<Rightarrow> recent t) \<or>
         (case last_step_up_at u of None \<Rightarrow> False | Some t \<Rightarrow> recent t))"

definition require_step_up :: "settings \<Rightarrow> instant \<Rightarrow> instant option \<Rightarrow> user \<Rightarrow> user result" where
  "require_step_up st now mark u =
     (if is_step_up_recent st now mark u then Inr u else Inl (unauthorized ''step_up_required''))"

section \<open>Endpoints\<close>

text \<open>What the environment supplies to a sign-in: fresh identifiers and a fresh raw token.\<close>

record fresh =
  fr_token :: uuid
  fr_family :: uuid
  fr_session :: uuid
  fr_profile :: uuid
  fr_raw :: string

datatype login_reply = Tokens string string | Onboarding string

definition sign_in ::
  "settings \<Rightarrow> (string \<Rightarrow> string) \<Rightarrow> (claims \<Rightarrow> string) \<Rightarrow> instant \<Rightarrow> fresh \<Rightarrow> user \<Rightarrow> auth_db \<Rightarrow>
   ((string \<times> string \<times> login_session) \<times> auth_db) result" where
  "sign_in st sha encode now fr u d =
     create_session_and_tokens st sha encode now (fr_token fr) (fr_family fr) (fr_session fr) (fr_raw fr) u d"

definition login ::
  "settings \<Rightarrow> (string \<Rightarrow> string) \<Rightarrow> (claims \<Rightarrow> string) \<Rightarrow> (string \<Rightarrow> string \<Rightarrow> bool) \<Rightarrow> instant \<Rightarrow> fresh \<Rightarrow> string \<Rightarrow> string \<Rightarrow>
   auth_db session \<Rightarrow> login_reply result \<times> auth_db session" where
  "login st sha encode verify now fr mail pw s =
     (case authenticate_user st verify now mail pw s of
        (None, s1) \<Rightarrow> (Inl (unauthorized ''Invalid credentials.''), s1)
      | (Some u, s1) \<Rightarrow>
          (let s2 = on_working (on_core (audit_log ''user_login'' ''user'' (Some (user_id u)) [])) s1 in
           if \<not> onboarding_completed u
           then (Inr (Onboarding (encode (create_onboarding_token st now (user_id u)))), commit s2)
           else (case sign_in st sha encode now fr u (working s2) of
                   Inl e \<Rightarrow> (Inl e, s2)
                 | Inr ((access, raw, _), d) \<Rightarrow>
                     (Inr (Tokens access raw), commit (s2\<lparr>working := record_step_up_success now (user_id u) ''password'' d\<rparr>)))))"

text \<open>\<open>POST /auth/verify\<close>; the social branch is a plain refusal.\<close>

definition verify_credentials ::
  "settings \<Rightarrow> (string \<Rightarrow> string) \<Rightarrow> (claims \<Rightarrow> string) \<Rightarrow> (string \<Rightarrow> string \<Rightarrow> bool) \<Rightarrow> instant \<Rightarrow> fresh \<Rightarrow> string \<Rightarrow>
   string option \<Rightarrow> bool \<Rightarrow> auth_db session \<Rightarrow> login_reply result \<times> auth_db session" where
  "verify_credentials st sha encode verify now fr mail pw social s =
     (if pw = None \<or> pw = Some ''''
      then (Inl (if social then HTTPException 400 ''Social authentication is no longer supported in this endpoint.''
                 else unauthorized ''Invalid credentials.''), s)
      else (case authenticate_user st verify now mail (the pw) s of
              (None, s1) \<Rightarrow> (Inl (unauthorized ''Invalid credentials.''), s1)
            | (Some u, s1) \<Rightarrow>
                if \<not> user_active u \<or> user_deleted u then (Inl (unauthorized ''This account is deactivated.''), s1)
                else if \<not> onboarding_completed u
                then (Inr (Onboarding (encode (create_onboarding_token st now (user_id u)))), commit s1)
                else (case sign_in st sha encode now fr u (working s1) of
                        Inl e \<Rightarrow> (Inl e, s1)
                      | Inr ((access, raw, _), d) \<Rightarrow>
                          (Inr (Tokens access raw),
                           commit (s1\<lparr>working := record_step_up_success now (user_id u) ''password''
                                      (on_core (audit_log ''user_login'' ''user'' (Some (user_id u)) []) d)\<rparr>)))))"

text \<open>\<open>POST /auth/token\<close>: tokens whether or not the onboarding is complete.\<close>

definition login_for_access_token ::
  "settings \<Rightarrow> (string \<Rightarrow> string) \<Rightarrow> (claims \<Rightarrow> string) \<Rightarrow> (string \<Rightarrow> string \<Rightarrow> bool) \<Rightarrow> instant \<Rightarrow> fresh \<Rightarrow> string \<Rightarrow> string \<Rightarrow>
   auth_db session \<Rightarrow> login_reply result \<times> auth_db session" where
  "login_for_access_token st sha encode verify now fr mail pw s =
     (case authenticate_user st verify now mail pw s of
        (None, s1) \<Rightarrow> (Inl (unauthorized ''Incorrect email or password.''), s1)
      | (Some u, s1) \<Rightarrow>
          (case sign_in st sha encode now fr u (working s1) of
             Inl e \<Rightarrow> (Inl e, s1)
           | Inr ((access, raw, _), d) \<Rightarrow>
               (Inr (Tokens access raw),
                s1\<lparr>working := record_step_up_success now (user_id u) ''password''
                     (on_core (audit_log ''user_login'' ''user'' (Some (user_id u)) []) d)\<rparr>)))"

text \<open>
  \<open>POST /auth/register\<close>. The address is as the schema delivers it. When the verification token cannot be
  stored the failed flush is swallowed, but leaves the session unusable for the commit of \<open>get_db\<close>.
\<close>

definition new_user :: "uuid \<Rightarrow> string \<Rightarrow> string \<Rightarrow> user" where
  "new_user uid mail h =
     \<lparr>user_id = uid, email = mail, password_hash = h, role_names = [], user_active = True, user_verified = False,
      failed_login_attempts = 0, locked_until = None, onboarding_completed = False, token_version = 1,
      stripe_customer_id = None, last_step_up_at = None, active_role = None, user_deleted = False\<rparr>"

definition create_user :: "user \<Rightarrow> db \<Rightarrow> db result" where
  "create_user u c =
     (if \<exists>q \<in> set (users c). user_id q = user_id u \<or> email q = email u then Inl (IntegrityError ''uq_users_email'')
      else Inr (c\<lparr>users := users c @ [u]\<rparr>))"

definition register ::
  "settings \<Rightarrow> (string \<Rightarrow> string) \<Rightarrow> (string \<Rightarrow> string) \<Rightarrow> (claims \<Rightarrow> string) \<Rightarrow> instant \<Rightarrow> uuid \<Rightarrow> uuid \<Rightarrow> string \<Rightarrow> string \<Rightarrow>
   string \<Rightarrow> auth_db session \<Rightarrow> login_reply result \<times> auth_db session" where
  "register st sha hash encode now uid tid raw mail pw s =
     (if \<not> password_ok pw then (Inl (HTTPException 422 ''password''), s)
      else if user_by_email (core (working s)) mail \<noteq> None
      then (Inl (HTTPException 409 ''An account with this email already exists.''), s)
      else (case create_user (new_user uid mail (hash pw)) (core (working s)) of
              Inl e \<Rightarrow> (Inl e, s)
            | Inr c \<Rightarrow>
                (let s1 = commit (on_working (on_core (\<lambda>_. audit_log ''user_registered'' ''user'' (Some uid) [] c)) s)
                 in case create_email_verification_token st sha tid uid raw now (working s1) of
                      Inl e \<Rightarrow> (Inl e, s1)
                    | Inr d \<Rightarrow> (Inr (Onboarding (encode (create_onboarding_token st now uid))), s1\<lparr>working := d\<rparr>))))"

text \<open>
  \<open>PUT /auth/complete-profile\<close>: \<open>roles\<close> are the names in the roles table; name and telephone number and
  the client profile, which hold nothing the model reads, are left out. The role of the access token is
  read from the roles that were loaded before the new one was added.
\<close>

definition service_role :: "string option \<Rightarrow> string result" where
  "service_role ty =
     (case ty of
        None \<Rightarrow> Inr ''client''
      | Some v \<Rightarrow> if py_lower (py_strip v) = ''detailer'' then Inr ''detailer'' else Inl (HTTPException 422 ''service_type''))"

definition complete_user_profile ::
  "settings \<Rightarrow> (string \<Rightarrow> string) \<Rightarrow> (claims \<Rightarrow> string) \<Rightarrow> string list \<Rightarrow> instant \<Rightarrow> fresh \<Rightarrow> string option \<Rightarrow> user \<Rightarrow>
   auth_db \<Rightarrow> ((string \<times> string) \<times> auth_db) result" where
  "complete_user_profile st sha encode roles now fr ty u d =
     (case service_role ty of
        Inl e \<Rightarrow> Inl e
      | Inr role \<Rightarrow>
          if \<not> user_active u \<or> user_deleted u then Inl (unauthorized ''User not found.'')
          else if onboarding_completed u then Inl (HTTPException 403 ''Profile already completed.'')
          else (let grant = (\<lambda>u. if role \<in> set roles \<and> role \<notin> set (role_names u)
                               then u\<lparr>role_names := role_names u @ [role]\<rparr> else u);
                    d1 = on_user (user_id u) (\<lambda>u. (grant u)\<lparr>onboarding_completed := True\<rparr>) d;
                    fits = (role = ''detailer'' \<and> get_profile (core d) (user_id u) DETAILER = None);
                    d2 = (if fits then on_core (\<lambda>c. c\<lparr>profiles := profiles c @ [new_profile (fr_profile fr) (user_id u)]\<rparr>) d1 else d1)
                in if fits \<and> slot_taken (core d) (user_id u) DETAILER
                   then Inl (IntegrityError ''uq_provider_profiles_user_type'')
                   else case sign_in st sha encode now fr u d2 of
                     Inl e \<Rightarrow> Inl e
                   | Inr ((access, raw, _), d3) \<Rightarrow> Inr ((access, raw), d3)))"

text \<open>Where the client goes next; the strings are the ones it branches on.\<close>

record nav_state =
  nav_type :: string
  nav_step :: "string option"
  nav_role :: "string option"

definition build_auth_state :: "db \<Rightarrow> user \<Rightarrow> string option \<Rightarrow> bool option \<Rightarrow> string option \<Rightarrow> nav_state" where
  "build_auth_state c u eff has_profile intent =
     (if \<not> onboarding_completed u
      then \<lparr>nav_type = ''onboarding'',
            nav_step = Some (if intent = Some ''detailer'' then ''provider_type'' else ''profile_creation''), nav_role = intent\<rparr>
      else (let role = or_string eff (or_string (primary_role u) ''client'') in
            \<lparr>nav_type = ''active'',
             nav_step = (if role = ''detailer'' \<and>
                            \<not> (case has_profile of None \<Rightarrow> get_profile c (user_id u) DETAILER \<noteq> None | Some b \<Rightarrow> b)
                         then Some ''detailer_setup'' else None),
             nav_role = Some role\<rparr>))"

text \<open>What an address tells a stranger; \<open>providers\<close> are the names of the user's social providers.\<close>

definition has_password :: "user \<Rightarrow> bool" where
  "has_password u \<longleftrightarrow> password_hash u \<notin> {'''', ''$!unusable$!''}"

definition check_email_exists :: "(uuid \<Rightarrow> string set) \<Rightarrow> string \<Rightarrow> db \<Rightarrow> bool \<times> string \<times> string" where
  "check_email_exists providers mail c =
     (let u = user_by_email c (py_strip (py_lower mail)) in
      if \<not> usable u then (False, ''none'', ''register'')
      else (let ps = providers (user_id (the u));
                google = ''google'' \<in> ps; apple = ''apple'' \<in> ps
            in if has_password (the u) then (True, if google \<or> apple then ''both'' else ''password'', ''login'')
               else if google then (True, ''google'', ''social_login'')
               else if apple then (True, ''apple'', ''social_login'')
               else (True, ''password'', ''login'')))"

definition identify_user :: "(uuid \<Rightarrow> string set) \<Rightarrow> string \<Rightarrow> string option \<Rightarrow> db \<Rightarrow> (bool \<times> string list \<times> string) result" where
  "identify_user providers ident ty c =
     (let i = py_strip ident;
          kind = (if CHR ''@'' \<in> set i \<and> CHR ''.'' \<in> set i then ''email''
                  else if take 1 i = ''+'' \<or> (i \<noteq> '''' \<and> list_all py_isdigit i) then ''phone''
                  else or_string ty ''email'')
      in if kind = ''phone'' then Inl (HTTPException 422 ''Phone-based login is not yet supported.'')
         else (let u = user_by_email c (py_lower i) in
               if \<not> usable u then Inr (False, [], ''register'')
               else (let ps = providers (user_id (the u));
                         ms = (if has_password (the u) then [''password''] else []) @
                              (if ''google'' \<in> ps then [''google''] else []) @ (if ''apple'' \<in> ps then [''apple''] else [])
                     in Inr (True, if ms = [] then [''password''] else ms,
                             if has_password (the u) then ''login_password'' else ''login_social''))))"

section \<open>Properties\<close>

lemma session_simps [simp]:
  "working (on_working f s) = f (working s)" "committed (on_working f s) = committed s"
  "working (commit s) = working s" "committed (commit s) = working s"
  "working (begin_session d) = d" "committed (begin_session d) = d"
  by (simp_all add: on_working_def commit_def begin_session_def)

lemma user_by_email_on_user:
  assumes "\<And>u. email (f u) = email u" and "\<And>u. user_deleted (f u) = user_deleted u"
  shows "user_by_email (core (on_user uid f d)) mail
       = map_option (\<lambda>u. if user_id u = uid then f u else u) (user_by_email (core d) mail)"
proof -
  have "find (\<lambda>u. email u = m \<and> \<not> user_deleted u) (update_where (\<lambda>u. user_id u = uid) f us)
      = map_option (\<lambda>u. if user_id u = uid then f u else u) (find (\<lambda>u. email u = m \<and> \<not> user_deleted u) us)" for us m
    by (induction us) (auto simp: assms)
  then show ?thesis by (simp add: user_by_email_def on_user_def on_core_def)
qed

lemma count_failure_keeps [simp]:
  "user_id (count_failure now u) = user_id u" "email (count_failure now u) = email u"
  "user_deleted (count_failure now u) = user_deleted u" "user_active (count_failure now u) = user_active u"
  "user_verified (count_failure now u) = user_verified u" "password_hash (count_failure now u) = password_hash u"
  "failed_login_attempts (count_failure now u) = failed_login_attempts u + 1"
  by (simp_all add: count_failure_def Let_def)

definition may_sign_in :: "settings \<Rightarrow> user \<Rightarrow> bool" where
  "may_sign_in st u \<longleftrightarrow> usable (Some u) \<and> \<not> (REQUIRE_EMAIL_VERIFICATION st \<and> \<not> user_verified u)"

lemma wrong_password:
  assumes "user_by_email (core d) mail = Some u" and "may_sign_in st u" and "\<not> is_locked now u" and "\<not> verify pw (password_hash u)"
  shows "get_db d (login st sha encode verify now fr mail pw)
       = (Inl (unauthorized ''Invalid credentials.''), on_user (user_id u) (count_failure now) d)"
  using assms by (auto simp: get_db_def login_def authenticate_user_def may_sign_in_def usable_def Let_def)

lemma locked_refused:
  assumes "user_by_email (core d) mail = Some u" and "may_sign_in st u" and "is_locked now u"
  shows "get_db d (login st sha encode verify now fr mail pw) = (Inl (unauthorized ''Invalid credentials.''), d)"
  using assms by (auto simp: get_db_def login_def authenticate_user_def may_sign_in_def usable_def)

text \<open>One attempt at an account: time, what the environment supplies, password.\<close>

type_synonym attempt = "instant \<times> fresh \<times> string"

fun attempt_step ::
  "settings \<Rightarrow> (string \<Rightarrow> string) \<Rightarrow> (claims \<Rightarrow> string) \<Rightarrow> (string \<Rightarrow> string \<Rightarrow> bool) \<Rightarrow> string \<Rightarrow> attempt \<Rightarrow> auth_db \<Rightarrow> auth_db" where
  "attempt_step st sha encode verify mail (now, fr, pw) d = snd (get_db d (login st sha encode verify now fr mail pw))"

text \<open>Wrong passwords count up; the one that reaches the threshold locks.\<close>

lemma failures_lock:
  assumes "user_by_email (core d) mail = Some u" and "may_sign_in st u" and "locked_until u = None"
    and "failed_login_attempts u + length ws = LOCKOUT_THRESHOLD" and "ws \<noteq> []"
    and "\<forall>w \<in> set ws. \<not> verify (snd (snd w)) (password_hash u)"
  shows "\<exists>v. user_by_email (core (fold (attempt_step st sha encode verify mail) ws d)) mail = Some v \<and> may_sign_in st v \<and>
           locked_until v = Some (fst (last ws) + minutes LOCKOUT_MINUTES)"
  using assms
proof (induction ws arbitrary: d u)
  case (Cons w ws)
  obtain now fr pw where w: "w = (now, fr, pw)" by (cases w)
  let ?u = "count_failure now u" and ?d = "on_user (user_id u) (count_failure now) d"
  have step: "attempt_step st sha encode verify mail w d = ?d"
    using wrong_password [OF Cons.prems(1,2), of now verify pw sha encode fr] Cons.prems(3,6) by (simp add: w is_locked_def)
  have u: "user_by_email (core ?d) mail = Some ?u" using Cons.prems(1) by (simp add: user_by_email_on_user)
  have m: "may_sign_in st ?u" using Cons.prems(2) by (simp add: may_sign_in_def usable_def)
  show ?case
  proof (cases "ws = []")
    case True
    with Cons.prems(4) have "locked_until ?u = Some (now + minutes LOCKOUT_MINUTES)"
      by (simp add: count_failure_def Let_def)
    with u m step True show ?thesis by (simp add: w)
  next
    case False
    then have "0 < length ws" by simp
    with Cons.prems(4) have "\<not> LOCKOUT_THRESHOLD \<le> failed_login_attempts u + 1" unfolding length_Cons by linarith
    with Cons.prems(3) have lu: "locked_until ?u = None" by (simp add: count_failure_def Let_def)
    have n: "failed_login_attempts ?u + length ws = LOCKOUT_THRESHOLD" using Cons.prems(4) by simp
    have wrong: "\<forall>w \<in> set ws. \<not> verify (snd (snd w)) (password_hash ?u)" using Cons.prems(6) by simp
    have "fold (attempt_step st sha encode verify mail) (w # ws) d = fold (attempt_step st sha encode verify mail) ws ?d"
      by (simp add: step)
    moreover have "last (w # ws) = last ws" using False by simp
    ultimately show ?thesis using Cons.IH [OF u m lu n False wrong] by metis
  qed
next
  case Nil
  from Nil.prems(5) show ?case by blast
qed

lemma locked_attempts_change_nothing:
  assumes "user_by_email (core d) mail = Some v" and "may_sign_in st v" and "locked_until v = Some t"
    and "\<forall>w \<in> set later. fst w < t"
  shows "fold (attempt_step st sha encode verify mail) later d = d"
  using assms(4)
proof (induction later)
  case (Cons w later)
  obtain now fr pw where w: "w = (now, fr, pw)" by (cases w)
  with locked_refused [OF assms(1,2)] assms(3) Cons.prems have "attempt_step st sha encode verify mail w d = d"
    by (simp add: is_locked_def)
  with Cons show ?case by simp
qed simp

text \<open>
  C17. Guessing is throttled: once the wrong passwords for an account reach five in a row, every attempt
  within the next fifteen minutes is refused, the right password included, and changes nothing.
\<close>

theorem lockout_after_five_failures:
  assumes "user_by_email (core d) mail = Some u" and "may_sign_in st u" and "locked_until u = None"
    and "failed_login_attempts u + length ws = 5" and "ws \<noteq> []"
    and "\<forall>w \<in> set ws. \<not> verify (snd (snd w)) (password_hash u)"
    and "\<forall>w \<in> set later. fst w < fst (last ws) + minutes 15" and "now < fst (last ws) + minutes 15"
  shows "let d' = fold (attempt_step st sha encode verify mail) (ws @ later) d
         in get_db d' (login st sha encode verify now fr mail pw) = (Inl (unauthorized ''Invalid credentials.''), d')"
proof -
  let ?d = "fold (attempt_step st sha encode verify mail) ws d"
  have "failed_login_attempts u + length ws = LOCKOUT_THRESHOLD" using assms(4) by (simp add: LOCKOUT_THRESHOLD_def)
  from failures_lock [where verify = verify, OF assms(1-3) this assms(5,6), of sha encode] obtain v where v:
    "user_by_email (core ?d) mail = Some v" "may_sign_in st v" "locked_until v = Some (fst (last ws) + minutes 15)"
    by (auto simp: LOCKOUT_MINUTES_def)
  with locked_attempts_change_nothing [OF v assms(7)] assms(8) show ?thesis
    by (simp add: Let_def locked_refused is_locked_def)
qed

text \<open>The counter outlives the lock: after it has expired one wrong password locks again.\<close>

lemma one_failure_relocks:
  assumes "user_by_email (core d) mail = Some u" and "may_sign_in st u" and "\<not> is_locked now u"
    and "LOCKOUT_THRESHOLD \<le> failed_login_attempts u" and "\<not> verify pw (password_hash u)"
  shows "\<exists>v. user_by_email (core (snd (get_db d (login st sha encode verify now fr mail pw)))) mail = Some v \<and>
           locked_until v = Some (now + minutes LOCKOUT_MINUTES)"
  using wrong_password [where verify = verify, OF assms(1-3,5), of sha encode fr] assms(1,4)
  by (simp add: user_by_email_on_user) (simp add: count_failure_def Let_def)

lemma authenticate_user_NoneE:
  assumes "authenticate_user st verify now mail pw s = (None, s1)"
  obtains "committed s1 = committed s"
  | u where "user_by_email (core (working s)) mail = Some u" "committed s1 = on_user (user_id u) (count_failure now) (working s)"
  using assms by (fastforce simp: authenticate_user_def Let_def split: option.splits if_splits)

lemma authenticate_user_SomeE:
  assumes "authenticate_user st verify now mail pw s = (Some v, s1)"
  obtains u f where "user_by_email (core (working s)) mail = Some u" "f = (\<lambda>u. u) \<or> f = clear_failures" "v = f u"
    "may_sign_in st u" "\<not> is_locked now u" "verify pw (password_hash u)" "committed s1 = committed s"
    "working s1 = record_login_attempt (Some (user_id u)) ''password'' True None (on_user (user_id u) f (working s))"
proof -
  from assms obtain u where u: "user_by_email (core (working s)) mail = Some u" "may_sign_in st u" "\<not> is_locked now u"
      "verify pw (password_hash u)"
    by (auto simp: authenticate_user_def may_sign_in_def usable_def Let_def split: option.splits if_splits)
  define f where "f = (if failed_login_attempts u \<noteq> 0 then clear_failures else (\<lambda>u. u))"
  from assms u have "v = f u" "s1 = on_working (record_login_attempt (Some (user_id u)) ''password'' True None)
      (on_working (on_user (user_id u) f) s)"
    by (auto simp: authenticate_user_def may_sign_in_def usable_def f_def Let_def split: if_splits)
  with u that [of u f] show thesis by (simp add: f_def)
qed

text \<open>
  A refused sign-in leaves nothing but the failure counter and the lock: in particular its entry in
  the login history is rolled back with the 401.
\<close>

lemma refused_sign_in_leaves_no_history:
  assumes "get_db d (login st sha encode verify now fr mail pw) = (Inl e, d')"
  shows "login_history d' = login_history d \<and>
         (d' = d \<or> (\<exists>u. user_by_email (core d) mail = Some u \<and> d' = on_user (user_id u) (count_failure now) d))"
proof -
  obtain r s1 where a: "authenticate_user st verify now mail pw (begin_session d) = (r, s1)" by fastforce
  show ?thesis
  proof (cases r)
    case None
    with assms a have d': "d' = committed s1" by (simp add: get_db_def login_def)
    from a [unfolded None] show ?thesis
      by (cases rule: authenticate_user_NoneE) (auto simp: d' on_user_def on_core_def)
  next
    case (Some v)
    with a have "committed s1 = d" by (auto elim!: authenticate_user_SomeE)
    with assms a Some show ?thesis
      by (auto simp: get_db_def login_def Let_def split: sum.splits if_splits prod.splits)
  qed
qed

lemma login_TokensE:
  assumes "get_db d (login st sha encode verify now fr mail pw) = (Inr (Tokens access raw), d1)"
  obtains u f x d2 d3 where "user_by_email (core d) mail = Some u" "f = (\<lambda>u. u) \<or> f = clear_failures" "may_sign_in st u"
    "onboarding_completed u" "verify pw (password_hash u)"
    "core d2 = audit_log ''user_login'' ''user'' (Some (user_id u)) [] (core (on_user (user_id u) f d))"
    "sign_in st sha encode now fr (f u) d2 = Inr ((access, raw, x), d3)"
    "d1 = record_step_up_success now (user_id u) ''password'' d3"
proof -
  obtain r s1 where a: "authenticate_user st verify now mail pw (begin_session d) = (r, s1)" by fastforce
  with assms obtain v where v: "r = Some v" by (cases r) (auto simp: get_db_def login_def)
  from a [unfolded v] obtain u f where u: "user_by_email (core d) mail = Some u" "f = (\<lambda>u. u) \<or> f = clear_failures" "v = f u"
      "may_sign_in st u" "verify pw (password_hash u)"
      and w: "working s1 = record_login_attempt (Some (user_id u)) ''password'' True None (on_user (user_id u) f d)"
    by (rule authenticate_user_SomeE) (use that in simp_all)
  have f: "user_id (f u) = user_id u" "onboarding_completed (f u) = onboarding_completed u"
    using u(2) by (auto simp: clear_failures_def)
  define d2 where "d2 = on_core (audit_log ''user_login'' ''user'' (Some (user_id u)) []) (working s1)"
  have core: "core d2 = audit_log ''user_login'' ''user'' (Some (user_id u)) [] (core (on_user (user_id u) f d))"
    by (simp add: d2_def w record_login_attempt_def on_core_def)
  from assms a have onb: "onboarding_completed u"
    by (auto simp: get_db_def login_def v u(3) f Let_def split: if_splits)
  with assms a obtain x d3 where "sign_in st sha encode now fr (f u) d2 = Inr ((access, raw, x), d3)"
      "d1 = record_step_up_success now (user_id u) ''password'' d3"
    by (auto simp: get_db_def login_def v u(3) f d2_def Let_def split: sum.splits prod.splits)
  with that u core onb show thesis by blast
qed

lemma sign_in_InrE:
  assumes "sign_in st sha encode now fr u d = Inr ((access, raw, x), d')"
  obtains "access = encode (create_access_token st now (user_id u) (or_string (primary_role u) ''client'') (token_version u) (Some (fr_session fr)))"
    "raw = fr_raw fr" "core d' = core d" "session_by_id (fr_session fr) d' = Some x"
    "ses_user x = user_id u" "\<not> ses_revoked x"
proof -
  from assms obtain d1 where c: "create_refresh sha (fr_token fr) (user_id u) (fr_raw fr) (fr_family fr)
        (now + days (REFRESH_TOKEN_EXPIRE_DAYS st)) d = Inr d1"
      and s: "create_session (fr_session fr) (user_id u) (fr_family fr) now d1 = Inr (x, d')"
      and r: "access = encode (create_access_token st now (user_id u) (or_string (primary_role u) ''client'') (token_version u) (Some (ses_id x)))"
        "raw = fr_raw fr"
    by (auto simp: sign_in_def create_session_and_tokens_def split: sum.splits)
  from c have core1: "core d1 = core d" by (rule create_refresh_InrE)
  from s have x: "x = \<lparr>ses_id = fr_session fr, ses_user = user_id u, ses_family = fr_family fr, last_active_at = now,
        ses_revoked = False, ses_revoked_at = None\<rparr>"
      and fresh: "\<forall>q \<in> set (login_sessions d1). ses_id q \<noteq> fr_session fr" and d': "d' = on_sessions (\<lambda>ss. ss @ [x]) d1"
    by (force simp: create_session_def Let_def split: if_splits)+
  have "session_by_id (fr_session fr) d' = Some x"
    using fresh by (simp add: session_by_id_def d' on_sessions_def find_append_none) (simp add: x)
  with that r core1 show thesis by (simp add: x d' on_sessions_def)
qed

lemma enforce_session_ok:
  assumes "fst (get_session_cached sid s) = Some x" and "\<not> ses_revoked x" and "ses_user x = user_id u"
  shows "fst (enforce_session st now (Some sid) u s) = Some ()"
  using assms by (cases "get_session_cached sid s") (simp add: enforce_session_def)

lemma let_in:
  assumes "decode True raw = Some c" and "cl_type c = ''access''" and "cl_sub c = Some uid" and "cl_version c = Some (token_version u)"
    and "user_by_id (core (store s)) uid = Some u" and "usable (Some u)" and "onboarding_completed u"
    and "fst (enforce_session st now (cl_sid c) u s) = Some ()"
  shows "fst (get_current_user st decode now al raw s) = Inr u"
  using assms
  by (cases "enforce_session st now (cl_sid c) u s") (simp add: get_current_user_def decode_token_def Let_def)

lemma core_step_up [simp]:
  "core (record_step_up_success now uid meth d) = core (mark_step_up now uid d)"
  "login_sessions (record_step_up_success now uid meth d) = login_sessions d"
  "refresh_tokens (record_step_up_success now uid meth d) = refresh_tokens d"
  by (simp_all add: record_step_up_success_def record_login_attempt_def mark_step_up_def on_user_def on_core_def)

lemma user_by_id_core: "core d = core d' \<Longrightarrow> user_by_id (core (on_user uid f d)) = user_by_id (core (on_user uid f d'))"
  by (simp add: on_user_def on_core_def)

text \<open>
  C16. Round trip of a sign-in: the access token it returns is let in, for the account that signed in,
  until it expires, whether sessions are enforced or not.
\<close>

theorem sign_in_roundtrip:
  assumes "get_db d (login st sha encode verify now fr mail pw) = (Inr (Tokens access raw), d1)"
    and "user_by_email (core d) mail = Some u" and "user_by_id (core d) (user_id u) = Some u"
    and "\<forall>c. encode c = access \<and> now' < cl_exp c * 1000000 \<longrightarrow> decode True access = Some c"
    and "now' < ((now + minutes (ACCESS_TOKEN_EXPIRE_MINUTES st)) div 1000000) * 1000000"
    and "case ca of None \<Rightarrow> True | Some r \<Rightarrow> cached r (fr_session fr) = None"
  shows "\<exists>v. fst (get_current_user st decode now' al access \<lparr>store = d1, cache = ca\<rparr>) = Inr v \<and> user_id v = user_id u"
proof -
  from assms(1) obtain f x d2 d3 where f: "f = (\<lambda>u. u) \<or> f = clear_failures" and u: "may_sign_in st u" "onboarding_completed u"
      and core2: "core d2 = audit_log ''user_login'' ''user'' (Some (user_id u)) [] (core (on_user (user_id u) f d))"
      and s: "sign_in st sha encode now fr (f u) d2 = Inr ((access, raw, x), d3)"
      and d1: "d1 = record_step_up_success now (user_id u) ''password'' d3"
    by (rule login_TokensE) (use that assms(2) in simp_all)
  have keeps: "user_id (f v) = user_id v" "user_deleted (f v) = user_deleted v" "user_active (f v) = user_active v"
      "token_version (f v) = token_version v" "onboarding_completed (f v) = onboarding_completed v" for v
    using f by (auto simp: clear_failures_def)
  from s obtain a: "access = encode (create_access_token st now (user_id u) (or_string (primary_role (f u)) ''client'') (token_version u) (Some (fr_session fr)))"
      and core3: "core d3 = core d2" and x: "session_by_id (fr_session fr) d3 = Some x" "ses_user x = user_id u" "\<not> ses_revoked x"
    by (rule sign_in_InrE) (simp add: keeps)
  define c where "c = create_access_token st now (user_id u) (or_string (primary_role (f u)) ''client'') (token_version u) (Some (fr_session fr))"
  have c: "cl_type c = ''access''" "cl_sub c = Some (user_id u)" "cl_version c = Some (token_version u)" "cl_sid c = Some (fr_session fr)"
      "cl_exp c = (now + minutes (ACCESS_TOKEN_EXPIRE_MINUTES st)) div 1000000"
    by (simp_all add: c_def create_access_token_def build_token_def)
  with assms(4,5) have dec: "decode True access = Some c" by (simp add: a c_def [symmetric])
  have "user_by_id (core d3) (user_id u) = Some (f u)"
    using assms(3) by (simp add: core3 core2 user_by_id_on_user keeps)
  then have v: "user_by_id (core d1) (user_id u) = Some ((f u)\<lparr>last_step_up_at := Some now\<rparr>)" (is "_ = Some ?v")
    by (simp add: d1 mark_step_up_def user_by_id_on_user)
  have usable: "usable (Some ?v)" using u(1) by (simp add: may_sign_in_def usable_def keeps)
  have "session_by_id (fr_session fr) d1 = Some x" using x(1) by (simp add: session_by_id_def d1)
  with assms(6) have "fst (get_session_cached (fr_session fr) \<lparr>store = d1, cache = ca\<rparr>) = Some x"
    by (simp add: get_session_cached_def split: option.splits)
  with x c(4) have "fst (enforce_session st now' (cl_sid c) ?v \<lparr>store = d1, cache = ca\<rparr>) = Some ()"
    by (simp add: enforce_session_ok keeps)
  with let_in [of decode access c "user_id u" ?v "\<lparr>store = d1, cache = ca\<rparr>" st now' al] dec c v usable u(2) show ?thesis
    by (simp add: keeps)
qed

section \<open>Witnesses\<close>

definition demo_fresh :: fresh where
  "demo_fresh = \<lparr>fr_token = 21, fr_family = 22, fr_session = 23, fr_profile = 24, fr_raw = ''rr''\<rparr>"

definition demo_access :: claims where
  "demo_access = create_access_token default_settings 0 1 ''client'' 1 (Some 23)"

definition demo_encode :: "claims \<Rightarrow> string" where
  "demo_encode c = (if c = demo_access then ''jwt'' else '''')"

lemma demo_wrong: "may_sign_in st mail_user \<longleftrightarrow> True" "locked_until mail_user = None" "failed_login_attempts mail_user = 0"
  "password_hash mail_user = ''old''" "onboarding_completed mail_user" "user_id mail_user = 1" "role_names mail_user = [''client'']"
  "token_version mail_user = 1" "active_role mail_user = None" "user_active mail_user" "\<not> user_deleted mail_user"
  by (simp_all add: may_sign_in_def usable_def mail_user_def)

theorem lockout_after_five_failures_witness:
  "\<exists>d'. get_db d' (login default_settings id demo_encode (=) 9 demo_fresh ''a@b.c'' ''old'')
       = (Inl (unauthorized ''Invalid credentials.''), d')"
  using lockout_after_five_failures [OF auth_demo_user(1), of default_settings
      "[(0, demo_fresh, ''w1''), (1, demo_fresh, ''w2''), (2, demo_fresh, ''w3''), (3, demo_fresh, ''w4''), (4, demo_fresh, ''w5'')]"
      "(=)" "[(8, demo_fresh, ''old'')]" 9 id demo_encode demo_fresh "''old''"]
  by (auto simp: demo_wrong minutes_def Let_def)

lemma demo_login:
  "\<exists>d1. get_db auth_demo (login default_settings id demo_encode (=) 0 demo_fresh ''a@b.c'' ''old'') = (Inr (Tokens ''jwt'' ''rr''), d1)"
proof -
  have "fst (get_db auth_demo (login default_settings id demo_encode (=) 0 demo_fresh ''a@b.c'' ''old'')) = Inr (Tokens ''jwt'' ''rr'')"
  proof -
    have "\<not> REQUIRE_EMAIL_VERIFICATION default_settings" by (simp add: default_settings_def)
    with auth_demo_user(1) show ?thesis
      by (simp add: get_db_def login_def authenticate_user_def demo_wrong is_locked_def Let_def)
         (simp add: sign_in_def create_session_and_tokens_def create_refresh_def create_session_def demo_fresh_def auth_demo_def
           on_user_def on_core_def record_login_attempt_def on_sessions_def demo_encode_def demo_access_def or_string_def
           primary_role_def demo_wrong Let_def)
  qed
  then show ?thesis by (metis prod.collapse)
qed

theorem sign_in_roundtrip_witness:
  "\<exists>d1. get_db auth_demo (login default_settings id demo_encode (=) 0 demo_fresh ''a@b.c'' ''old'') = (Inr (Tokens ''jwt'' ''rr''), d1) \<and>
     (\<exists>v. fst (get_current_user default_settings (\<lambda>_ _. Some demo_access) 5 False ''jwt'' \<lparr>store = d1, cache = None\<rparr>) = Inr v)"
proof -
  obtain d1 where d1: "get_db auth_demo (login default_settings id demo_encode (=) 0 demo_fresh ''a@b.c'' ''old'') = (Inr (Tokens ''jwt'' ''rr''), d1)"
    using demo_login by blast
  have t: "5 < ((0 + minutes (ACCESS_TOKEN_EXPIRE_MINUTES default_settings)) div 1000000) * 1000000"
    by (simp add: minutes_def default_settings_def)
  have dec: "\<forall>c. demo_encode c = ''jwt'' \<and> 5 < cl_exp c * 1000000 \<longrightarrow> (\<lambda>_ _. Some demo_access) True ''jwt'' = Some c"
    by (simp add: demo_encode_def)
  from sign_in_roundtrip [OF d1 auth_demo_user(1,2) dec t, of None False] d1 show ?thesis by auto
qed

end
