(* ===== verification/Account_Security.thy ===== *)
theory Account_Security
  imports Login
begin

text \<open>
  Changing the e-mail address and the telephone number (domains/users/contact_change_service.py),
  two-factor authentication (domains/auth/totp_service.py) and switching the active role
  (domains/users/active_role_service.py). \<open>lookup\<close> is the keyed hash of a telephone number, \<open>totp\<close>
  the check of a one-time code against a secret at a moment. A handler returns its result and the data
  as it has written them; \<open>get_db\<close> decides what stays.
\<close>

section \<open>State\<close>

record pending_change =
  pc_id :: uuid
  pc_user :: uuid
  pc_is_email :: bool
  pc_value :: string
  pc_hash :: string
  pc_attempts :: nat
  pc_created :: instant
  pc_expires :: instant
  pc_consumed :: "instant option"

record totp_credential =
  tc_user :: uuid
  tc_secret :: string
  tc_codes :: "string list"
  tc_enabled :: bool

record account_db =
  acct :: auth_db
  pendings :: "pending_change list"
  phone_numbers :: "uuid \<Rightarrow> string option"
  phone_hashes :: "uuid \<Rightarrow> string option"
  totps :: "totp_credential list"

definition on_acct :: "(auth_db \<Rightarrow> auth_db) \<Rightarrow> account_db \<Rightarrow> account_db" where
  "on_acct f d = d\<lparr>acct := f (acct d)\<rparr>"

definition log_account :: "string \<Rightarrow> uuid \<Rightarrow> account_db \<Rightarrow> account_db" where
  "log_account action uid d = on_acct (on_core (audit_log action ''user'' (Some uid) [])) d"

section \<open>Contact changes\<close>

definition EMAIL_TOKEN_TTL :: int where "EMAIL_TOKEN_TTL = hours 1"
definition PHONE_OTP_TTL :: int where "PHONE_OTP_TTL = minutes 10"
definition MAX_PHONE_ATTEMPTS :: nat where "MAX_PHONE_ATTEMPTS = 5"

definition gone :: exn where "gone = HTTPException 410 ''gone''"

definition purge_existing :: "uuid \<Rightarrow> bool \<Rightarrow> account_db \<Rightarrow> account_db" where
  "purge_existing uid is_email d =
     d\<lparr>pendings := delete_where (\<lambda>r. pc_user r = uid \<and> pc_is_email r = is_email \<and> pc_consumed r = None) (pendings d)\<rparr>"

definition add_pending :: "(string \<Rightarrow> string) \<Rightarrow> uuid \<Rightarrow> uuid \<Rightarrow> bool \<Rightarrow> string \<Rightarrow> string \<Rightarrow> instant \<Rightarrow> int \<Rightarrow> account_db \<Rightarrow> account_db" where
  "add_pending sha rid uid is_email value raw now ttl d =
     d\<lparr>pendings := pendings d @ [\<lparr>pc_id = rid, pc_user = uid, pc_is_email = is_email, pc_value = value, pc_hash = sha raw,
                                 pc_attempts = 0, pc_created = now, pc_expires = now + ttl, pc_consumed = None\<rparr>]\<rparr>"

definition request_email_change ::
  "(string \<Rightarrow> string) \<Rightarrow> (string \<Rightarrow> string \<Rightarrow> bool) \<Rightarrow> instant \<Rightarrow> uuid \<Rightarrow> string \<Rightarrow> user \<Rightarrow> string \<Rightarrow> string \<Rightarrow> account_db \<Rightarrow>
   unit result \<times> account_db" where
  "request_email_change sha verify now rid raw u new_email pw d =
     (let new = py_lower (py_strip new_email) in
      if \<not> verify pw (password_hash u) then (Inl (HTTPException 403 ''permission_denied''), d)
      else if new = py_lower (email u) then (Inl (HTTPException 422 ''validation_failed''), d)
      else (Inr (), log_account ''email_change_requested'' (user_id u)
                      (add_pending sha rid (user_id u) True new raw now EMAIL_TOKEN_TTL (purge_existing (user_id u) True d))))"

definition consume_pending :: "uuid \<Rightarrow> instant \<Rightarrow> account_db \<Rightarrow> account_db" where
  "consume_pending rid now d = d\<lparr>pendings := update_where (\<lambda>r. pc_id r = rid) (\<lambda>r. r\<lparr>pc_consumed := Some now\<rparr>) (pendings d)\<rparr>"

definition confirm_email_change :: "(string \<Rightarrow> string) \<Rightarrow> instant \<Rightarrow> string \<Rightarrow> account_db \<Rightarrow> string result \<times> account_db" where
  "confirm_email_change sha now raw d =
     (case find (\<lambda>r. pc_hash r = sha raw \<and> pc_is_email r \<and> pc_consumed r = None) (pendings d) of
        None \<Rightarrow> (Inl gone, d)
      | Some r \<Rightarrow>
          if pc_expires r < now then (Inl gone, d)
          else (case user_by_id (core (acct d)) (pc_user r) of
                  None \<Rightarrow> (Inl (HTTPException 404 ''resource_not_found''), d)
                | Some u \<Rightarrow>
                    if \<exists>q \<in> set (users (core (acct d))). email q = pc_value r \<and> user_id q \<noteq> user_id u
                    then (Inl (IntegrityError ''uq_users_email''), d)
                    else (Inr (pc_value r),
                          log_account ''email_changed'' (user_id u)
                            (on_acct (revoke_user_tokens (user_id u))
                              (consume_pending (pc_id r) now
                                (on_acct (on_user (user_id u) (\<lambda>u. u\<lparr>email := pc_value r, user_verified := True,
                                            token_version := token_version u + 1\<rparr>)) d))))))"

definition request_phone_change ::
  "(string \<Rightarrow> string) \<Rightarrow> (string \<Rightarrow> string \<Rightarrow> bool) \<Rightarrow> instant \<Rightarrow> uuid \<Rightarrow> string \<Rightarrow> user \<Rightarrow> string \<Rightarrow> string \<Rightarrow> account_db \<Rightarrow>
   unit result \<times> account_db" where
  "request_phone_change sha verify now rid otp u new_phone pw d =
     (let new = py_strip new_phone in
      if \<not> verify pw (password_hash u) then (Inl (HTTPException 403 ''permission_denied''), d)
      else if (case phone_numbers d (user_id u) of None \<Rightarrow> False | Some p \<Rightarrow> p \<noteq> '''' \<and> new = p)
      then (Inl (HTTPException 422 ''validation_failed''), d)
      else (Inr (), log_account ''phone_change_requested'' (user_id u)
                      (add_pending sha rid (user_id u) False new otp now PHONE_OTP_TTL (purge_existing (user_id u) False d))))"

text \<open>The latest open request for a new number; rows are in order of creation.\<close>

definition open_phone_change :: "uuid \<Rightarrow> account_db \<Rightarrow> pending_change option" where
  "open_phone_change uid d =
     find (\<lambda>r. pc_user r = uid \<and> \<not> pc_is_email r \<and> pc_consumed r = None) (rev (pendings d))"

definition verify_phone_change ::
  "(string \<Rightarrow> string) \<Rightarrow> (string \<Rightarrow> string) \<Rightarrow> instant \<Rightarrow> user \<Rightarrow> string \<Rightarrow> account_db \<Rightarrow> string result \<times> account_db" where
  "verify_phone_change sha lookup now u otp d =
     (case open_phone_change (user_id u) d of
        None \<Rightarrow> (Inl gone, d)
      | Some r \<Rightarrow>
          if pc_expires r < now then (Inl gone, d)
          else if MAX_PHONE_ATTEMPTS \<le> pc_attempts r
          then (Inl (HTTPException 423 ''account_locked''), d\<lparr>pendings := delete_where (\<lambda>q. pc_id q = pc_id r) (pendings d)\<rparr>)
          else if pc_hash r \<noteq> sha otp
          then (Inl (HTTPException 422 ''validation_failed''),
                d\<lparr>pendings := update_where (\<lambda>q. pc_id q = pc_id r) (\<lambda>q. q\<lparr>pc_attempts := pc_attempts q + 1\<rparr>) (pendings d)\<rparr>)
          else if \<exists>q \<in> set (users (core (acct d))). user_id q \<noteq> user_id u \<and> phone_hashes d (user_id q) = Some (lookup (pc_value r))
          then (Inl (IntegrityError ''phone_hash''), d)
          else (Inr (pc_value r),
                log_account ''phone_changed'' (user_id u)
                  (on_acct (revoke_user_tokens (user_id u))
                    (consume_pending (pc_id r) now
                      (on_acct (on_user (user_id u) (\<lambda>u. u\<lparr>token_version := token_version u + 1\<rparr>))
                        (d\<lparr>phone_numbers := (phone_numbers d)(user_id u \<mapsto> pc_value r),
                          phone_hashes := (phone_hashes d)(user_id u \<mapsto> lookup (pc_value r))\<rparr>))))))"

definition cleanup_pendings :: "instant \<Rightarrow> account_db \<Rightarrow> account_db" where
  "cleanup_pendings now d = d\<lparr>pendings := delete_where (\<lambda>r. pc_expires r < now \<and> pc_consumed r = None) (pendings d)\<rparr>"

section \<open>Two-factor authentication\<close>

definition BACKUP_CODE_COUNT :: nat where "BACKUP_CODE_COUNT = 10"
definition TOTP_DIGITS :: nat where "TOTP_DIGITS = 6"

definition hash_backup_code :: "(string \<Rightarrow> string) \<Rightarrow> string \<Rightarrow> string" where
  "hash_backup_code sha code = sha (py_upper (py_strip code))"

text \<open>Eight symbols the generator drew, with the hyphen.\<close>

definition format_backup_code :: "string \<Rightarrow> string" where
  "format_backup_code raw = take 4 raw @ ''-'' @ drop 4 raw"

definition get_credential :: "uuid \<Rightarrow> account_db \<Rightarrow> totp_credential option" where
  "get_credential uid d = find (\<lambda>c. tc_user c = uid) (totps d)"

definition on_credential :: "uuid \<Rightarrow> (totp_credential \<Rightarrow> totp_credential) \<Rightarrow> account_db \<Rightarrow> account_db" where
  "on_credential uid f d = d\<lparr>totps := update_where (\<lambda>c. tc_user c = uid) f (totps d)\<rparr>"

definition enroll :: "(string \<Rightarrow> string) \<Rightarrow> string \<Rightarrow> string list \<Rightarrow> user \<Rightarrow> account_db \<Rightarrow> account_db" where
  "enroll sha secret codes u d =
     (let hs = map (hash_backup_code sha) codes;
          d1 = (if get_credential (user_id u) d = None
                then d\<lparr>totps := totps d @ [\<lparr>tc_user = user_id u, tc_secret = secret, tc_codes = hs, tc_enabled = False\<rparr>]\<rparr>
                else on_credential (user_id u) (\<lambda>c. c\<lparr>tc_secret := secret, tc_codes := hs, tc_enabled := False\<rparr>) d)
      in log_account ''two_fa_enabled'' (user_id u) d1)"

text \<open>The credential with a used backup code removed, when the code matches.\<close>

definition matches_code ::
  "(string \<Rightarrow> string) \<Rightarrow> (string \<Rightarrow> instant \<Rightarrow> string \<Rightarrow> bool) \<Rightarrow> instant \<Rightarrow> string \<Rightarrow> totp_credential \<Rightarrow> totp_credential option" where
  "matches_code sha totp now code c =
     (let plain = filter (\<lambda>x. x \<noteq> CHR '' '' \<and> x \<noteq> CHR ''-'') (py_strip code)
      in if plain \<noteq> '''' \<and> list_all py_isdigit plain \<and> length plain = TOTP_DIGITS
         then (if totp (tc_secret c) now plain then Some c else None)
         else (let h = hash_backup_code sha code
               in if h \<in> set (tc_codes c) then Some (c\<lparr>tc_codes := filter (\<lambda>x. x \<noteq> h) (tc_codes c)\<rparr>) else None))"

definition verify_two_fa ::
  "(string \<Rightarrow> string) \<Rightarrow> (string \<Rightarrow> instant \<Rightarrow> string \<Rightarrow> bool) \<Rightarrow> instant \<Rightarrow> user \<Rightarrow> string \<Rightarrow> account_db \<Rightarrow> (unit \<times> account_db) result" where
  "verify_two_fa sha totp now u code d =
     (case get_credential (user_id u) d of
        None \<Rightarrow> Inl (HTTPException 404 ''resource_not_found'')
      | Some c \<Rightarrow>
          (case matches_code sha totp now code c of
             None \<Rightarrow> Inl (HTTPException 422 ''validation_failed'')
           | Some c' \<Rightarrow> Inr ((), log_account ''two_fa_enabled'' (user_id u)
                                (on_credential (user_id u) (\<lambda>_. c'\<lparr>tc_enabled := True\<rparr>) d))))"

definition two_fa_verify ::
  "(string \<Rightarrow> string) \<Rightarrow> (string \<Rightarrow> instant \<Rightarrow> string \<Rightarrow> bool) \<Rightarrow> instant \<Rightarrow> user \<Rightarrow> string \<Rightarrow> account_db \<Rightarrow> (unit \<times> account_db) result" where
  "two_fa_verify sha totp now u code d =
     (case verify_two_fa sha totp now u code d of
        Inl e \<Rightarrow> Inl e
      | Inr (_, d1) \<Rightarrow> Inr ((), on_acct (record_step_up_success now (user_id u) ''totp'') d1))"

definition disable_two_fa :: "user \<Rightarrow> account_db \<Rightarrow> account_db" where
  "disable_two_fa u d =
     (if get_credential (user_id u) d = None then d
      else log_account ''two_fa_disabled'' (user_id u) (d\<lparr>totps := delete_where (\<lambda>c. tc_user c = user_id u) (totps d)\<rparr>))"

definition regenerate_backup_codes :: "(string \<Rightarrow> string) \<Rightarrow> string list \<Rightarrow> user \<Rightarrow> account_db \<Rightarrow> (unit \<times> account_db) result" where
  "regenerate_backup_codes sha codes u d =
     (case get_credential (user_id u) d of
        None \<Rightarrow> Inl (HTTPException 409 ''conflict'')
      | Some c \<Rightarrow>
          if \<not> tc_enabled c then Inl (HTTPException 409 ''conflict'')
          else Inr ((), log_account ''two_fa_enabled'' (user_id u)
                 (on_credential (user_id u) (\<lambda>c. c\<lparr>tc_codes := map (hash_backup_code sha) codes\<rparr>) d)))"

section \<open>Switching the active role\<close>

definition switch_role ::
  "settings \<Rightarrow> (string \<Rightarrow> string) \<Rightarrow> (claims \<Rightarrow> string) \<Rightarrow> instant \<Rightarrow> uuid \<Rightarrow> string \<Rightarrow> user \<Rightarrow> string \<Rightarrow> string \<Rightarrow> auth_db \<Rightarrow>
   (string \<times> string) result \<times> auth_db" where
  "switch_role st sha encode now tid new_raw u target raw d =
     (if target \<notin> {''client'', ''detailer'', ''mechanic''} then (Inl (HTTPException 400 ''bad_request''), d)
      else if target \<notin> set (role_names u) then (Inl (HTTPException 403 ''permission_denied''), d)
      else (case rotate_refresh_token st sha encode now tid new_raw raw d of
              (Inl e, d1) \<Rightarrow> (Inl e, d1)
            | (Inr (_, refresh), d1) \<Rightarrow>
                (Inr (encode (create_access_token st now (user_id u) target (token_version u) None), refresh),
                 on_core (audit_log ''role_switched'' ''user'' (Some (user_id u)) [])
                   (on_user (user_id u) (\<lambda>u. u\<lparr>active_role := Some target\<rparr>) d1))))"

section \<open>Guessing a telephone code\<close>

definition phone_verify ::
  "(string \<Rightarrow> string) \<Rightarrow> (string \<Rightarrow> string) \<Rightarrow> instant \<Rightarrow> user \<Rightarrow> string \<Rightarrow> account_db \<Rightarrow> string result \<times> account_db" where
  "phone_verify sha lookup now u otp d = get_db d (lift_db (verify_phone_change sha lookup now u otp))"

fun guess_step :: "(string \<Rightarrow> string) \<Rightarrow> (string \<Rightarrow> string) \<Rightarrow> user \<Rightarrow> instant \<times> string \<Rightarrow> account_db \<Rightarrow> account_db" where
  "guess_step sha lookup u (now, otp) d = snd (phone_verify sha lookup now u otp d)"

lemma wrong_guess_rolls_back:
  assumes "open_phone_change (user_id u) d = Some r" and "sha otp \<noteq> pc_hash r"
  shows "snd (phone_verify sha lookup now u otp d) = d"
  using assms by (simp add: phone_verify_def get_db_lift verify_phone_change_def)

lemma wrong_guesses_roll_back:
  assumes "open_phone_change (user_id u) d = Some r" and "\<forall>g \<in> set gs. sha (snd g) \<noteq> pc_hash r"
  shows "fold (guess_step sha lookup u) gs d = d"
  using assms(2)
proof (induction gs)
  case (Cons g gs)
  with wrong_guess_rolls_back [OF assms(1), of sha "snd g" lookup "fst g"] show ?case
    by (cases g) simp
qed simp

text \<open>
  The limit of five wrong codes for a change of telephone number is never reached: each refusal rolls
  back the attempt it counted, so the right code still goes through after any number of guesses, as
  long as the request has not expired.
\<close>

lemma otp_guesses_are_free:
  assumes "open_phone_change (user_id u) d = Some r" and "pc_attempts r < 5"
    and "\<forall>g \<in> set gs. sha (snd g) \<noteq> pc_hash r"
    and "sha otp = pc_hash r" and "now \<le> pc_expires r"
    and "\<forall>q \<in> set (users (core (acct d))). user_id q \<noteq> user_id u \<longrightarrow> phone_hashes d (user_id q) \<noteq> Some (lookup (pc_value r))"
  shows "fold (guess_step sha lookup u) gs d = d \<and>
         (\<exists>d'. phone_verify sha lookup now u otp (fold (guess_step sha lookup u) gs d) = (Inr (pc_value r), d') \<and>
               phone_numbers d' (user_id u) = Some (pc_value r))"
proof -
  have "\<not> MAX_PHONE_ATTEMPTS \<le> pc_attempts r" using assms(2) by (simp add: MAX_PHONE_ATTEMPTS_def)
  then have "fst (verify_phone_change sha lookup now u otp d) = Inr (pc_value r)"
    "phone_numbers (snd (verify_phone_change sha lookup now u otp d)) (user_id u) = Some (pc_value r)"
    using assms(1,4-6)
    by (auto simp: verify_phone_change_def log_account_def on_acct_def consume_pending_def)
  then have "\<exists>d'. phone_verify sha lookup now u otp d = (Inr (pc_value r), d') \<and> phone_numbers d' (user_id u) = Some (pc_value r)"
    by (auto simp: phone_verify_def get_db_lift split: prod.split sum.split)
  then show ?thesis by (simp add: wrong_guesses_roll_back [OF assms(1,3)])
qed

section \<open>A new address ends every session\<close>

lemma acct_log_account: "acct (log_account ac uid d) = on_core (audit_log ac ''user'' (Some uid) []) (acct d)"
  by (simp add: log_account_def on_acct_def)

lemma confirm_email_change_InrE:
  assumes "confirm_email_change sha now raw d = (Inr new, d')"
  obtains r u where "find (\<lambda>r. pc_hash r = sha raw \<and> pc_is_email r \<and> pc_consumed r = None) (pendings d) = Some r"
    "new = pc_value r" "now \<le> pc_expires r" "user_by_id (core (acct d)) (pc_user r) = Some u" "user_id u = pc_user r"
    "acct d' = on_core (audit_log ''email_changed'' ''user'' (Some (user_id u)) [])
                 (revoke_user_tokens (user_id u)
                   (on_user (user_id u) (\<lambda>u. u\<lparr>email := new, user_verified := True, token_version := token_version u + 1\<rparr>) (acct d)))"
proof -
  obtain r u where "find (\<lambda>r. pc_hash r = sha raw \<and> pc_is_email r \<and> pc_consumed r = None) (pendings d) = Some r"
    "user_by_id (core (acct d)) (pc_user r) = Some u" "\<not> pc_expires r < now" "new = pc_value r"
    "d' = log_account ''email_changed'' (user_id u) (on_acct (revoke_user_tokens (user_id u)) (consume_pending (pc_id r) now
            (on_acct (on_user (user_id u) (\<lambda>u. u\<lparr>email := pc_value r, user_verified := True, token_version := token_version u + 1\<rparr>)) d)))"
    using assms by (auto simp: confirm_email_change_def split: option.splits if_splits)
  with user_by_id_same show thesis
    by (intro that) (auto simp: acct_log_account on_acct_def consume_pending_def)
qed

lemma revoked_row_refused:
  assumes "get_refresh sha raw d = Some t" and "rt_revoked t"
  shows "refresh_access_token st sha encode now tid new_raw raw d = (Inl (unauthorized ''Session invalidated. Please log in again.''), d)"
  using assms by (simp add: refresh_access_token_def rotate_refresh_token_def get_db_lift)

lemma stale_version_refused:
  assumes "decode_token decode ''access'' raw = Some c" and "cl_sub c = Some uid" and "cl_version c = Some v"
    and "user_by_id (core (store s)) uid = Some u" and "v \<noteq> token_version u"
  shows "fst (get_current_user st decode now al raw s) = Inl (unauthorized ''Could not validate credentials.'')"
  using assms by (auto simp: get_current_user_def Let_def)

lemma revoke_user_tokens_row:
  assumes "get_refresh sha raw (revoke_user_tokens uid d) = Some t" and "rt_user t = uid"
  shows "rt_revoked t"
proof -
  from assms(1) have "t \<in> set (refresh_tokens (revoke_user_tokens uid d))"
    by (auto simp: get_refresh_def find_Some_iff)
  then obtain q where "t = (if rt_user q = uid then q\<lparr>rt_revoked := True\<rparr> else q)"
    by (auto simp: revoke_user_tokens_def on_refresh_def set_update_where)
  with assms(2) show ?thesis by (simp split: if_splits)
qed

text \<open>
  Confirming a new e-mail address ends what was signed in before: the account has the new, verified
  address and the next token version, every refresh token of it is refused, and so is every access
  token of the old version.
\<close>

lemma email_change_ends_sessions:
  assumes "confirm_email_change sha now raw d = (Inr new, d')"
    and "find (\<lambda>r. pc_hash r = sha raw \<and> pc_is_email r \<and> pc_consumed r = None) (pendings d) = Some r"
    and "user_by_id (core (acct d)) (pc_user r) = Some u"
  shows "user_by_id (core (acct d')) (pc_user r)
           = Some (u\<lparr>email := new, user_verified := True, token_version := token_version u + 1\<rparr>) \<and>
         (\<forall>old t. get_refresh sha old (acct d') = Some t \<and> rt_user t = pc_user r \<longrightarrow>
            refresh_access_token st sha encode now' tid new_raw old (acct d')
              = (Inl (unauthorized ''Session invalidated. Please log in again.''), acct d')) \<and>
         (\<forall>old c. decode_token decode ''access'' old = Some c \<and> cl_sub c = Some (pc_user r) \<and> cl_version c = Some (token_version u) \<longrightarrow>
            fst (get_current_user st decode now' al old (s\<lparr>store := acct d'\<rparr>)) = Inl (unauthorized ''Could not validate credentials.''))"
proof -
  let ?f = "\<lambda>u. u\<lparr>email := new, user_verified := True, token_version := token_version u + 1\<rparr>"
  from assms have id: "user_id u = pc_user r"
    and d': "acct d' = on_core (audit_log ''email_changed'' ''user'' (Some (pc_user r)) [])
                 (revoke_user_tokens (pc_user r) (on_user (pc_user r) ?f (acct d)))"
    by (auto elim!: confirm_email_change_InrE)
  have "core (acct d') = audit_log ''email_changed'' ''user'' (Some (pc_user r)) [] (core (on_user (pc_user r) ?f (acct d)))"
    by (simp add: d' on_core_def revoke_user_tokens_def on_refresh_def)
  then have u: "user_by_id (core (acct d')) (pc_user r) = Some (?f u)"
    using assms(3) by (simp add: user_by_id_on_user)
  have "get_refresh sha old (acct d') = get_refresh sha old (revoke_user_tokens (pc_user r) (on_user (pc_user r) ?f (acct d)))" for old
    by (simp add: d' get_refresh_def on_core_def)
  with revoke_user_tokens_row have "get_refresh sha old (acct d') = Some t \<Longrightarrow> rt_user t = pc_user r \<Longrightarrow> rt_revoked t" for old t
    by metis
  with u show ?thesis
    using stale_version_refused [of decode _ _ "pc_user r" "token_version u" "s\<lparr>store := acct d'\<rparr>" "?f u"]
    by (auto simp: revoked_row_refused)
qed

section \<open>A backup code works once\<close>

text \<open>The two-factor endpoints; disabling and regenerating come behind a step-up check that changes nothing.\<close>

datatype two_fa_request =
    Enroll string "string list" user
  | Verify_2FA instant user string
  | Disable_2FA user
  | Regenerate "string list" user

fun two_fa_step ::
  "(string \<Rightarrow> string) \<Rightarrow> (string \<Rightarrow> instant \<Rightarrow> string \<Rightarrow> bool) \<Rightarrow> two_fa_request \<Rightarrow> account_db \<Rightarrow> account_db" where
  "two_fa_step sha totp (Enroll secret codes u) d = enroll sha secret codes u d"
| "two_fa_step sha totp (Verify_2FA now u code) d = snd (run_request (two_fa_verify sha totp now u code) d)"
| "two_fa_step sha totp (Disable_2FA u) d = disable_two_fa u d"
| "two_fa_step sha totp (Regenerate codes u) d = snd (run_request (regenerate_backup_codes sha codes u) d)"

fun new_codes :: "two_fa_request \<Rightarrow> string list" where
  "new_codes (Enroll secret codes u) = codes"
| "new_codes (Regenerate codes u) = codes"
| "new_codes _ = []"

definition code_gone :: "uuid \<Rightarrow> string \<Rightarrow> account_db \<Rightarrow> bool" where
  "code_gone uid h d \<longleftrightarrow> (\<forall>c \<in> set (totps d). tc_user c = uid \<longrightarrow> h \<notin> set (tc_codes c))"

definition one_time_code :: "string \<Rightarrow> bool" where
  "one_time_code code \<longleftrightarrow>
     (let plain = filter (\<lambda>x. x \<noteq> CHR '' '' \<and> x \<noteq> CHR ''-'') (py_strip code)
      in plain \<noteq> '''' \<and> list_all py_isdigit plain \<and> length plain = TOTP_DIGITS)"

lemma matches_code_split:
  "matches_code sha totp now code c =
     (if one_time_code code
      then (if totp (tc_secret c) now (filter (\<lambda>x. x \<noteq> CHR '' '' \<and> x \<noteq> CHR ''-'') (py_strip code)) then Some c else None)
      else if hash_backup_code sha code \<in> set (tc_codes c)
      then Some (c\<lparr>tc_codes := filter (\<lambda>x. x \<noteq> hash_backup_code sha code) (tc_codes c)\<rparr>) else None)"
  by (simp add: matches_code_def one_time_code_def Let_def)

lemma matches_code_user: "matches_code sha totp now code c = Some c' \<Longrightarrow> tc_user c' = tc_user c \<and> set (tc_codes c') \<subseteq> set (tc_codes c)"
  by (auto simp: matches_code_split split: if_splits)

lemma totps_log [simp]: "totps (log_account ac uid d) = totps d" and totps_on_acct [simp]: "totps (on_acct f d) = totps d"
  by (simp_all add: log_account_def on_acct_def)

lemma get_credential_user: "get_credential uid d = Some c \<Longrightarrow> c \<in> set (totps d) \<and> tc_user c = uid"
  by (auto simp: get_credential_def find_Some_iff)

lemma code_gone_update:
  assumes "code_gone uid h d" and "\<And>c. c \<in> set (totps d) \<Longrightarrow> tc_user c = v \<Longrightarrow> tc_user (f c) = uid \<Longrightarrow> h \<notin> set (tc_codes (f c))"
  shows "code_gone uid h (on_credential v f d)"
  using assms by (auto simp: code_gone_def on_credential_def set_update_where split: if_splits)

lemma code_gone_same: "totps d' = totps d \<Longrightarrow> code_gone uid h d' = code_gone uid h d"
  by (simp add: code_gone_def)

lemma two_fa_verify_InrE:
  assumes "two_fa_verify sha totp now u code d = Inr (x, d')"
  obtains c c' where "get_credential (user_id u) d = Some c" "matches_code sha totp now code c = Some c'"
    "totps d' = totps (on_credential (user_id u) (\<lambda>_. c'\<lparr>tc_enabled := True\<rparr>) d)"
  using assms by (auto simp: two_fa_verify_def verify_two_fa_def split: option.splits sum.splits prod.splits)

lemma two_fa_step_keeps:
  assumes "\<forall>k \<in> set (new_codes rq). hash_backup_code sha k \<noteq> h" and "code_gone uid h d"
  shows "code_gone uid h (two_fa_step sha totp rq d)"
proof (cases rq)
  case (Enroll secret codes u)
  have "code_gone uid h (d\<lparr>totps := totps d @ [\<lparr>tc_user = user_id u, tc_secret = secret,
      tc_codes = map (hash_backup_code sha) codes, tc_enabled = False\<rparr>]\<rparr>)"
    using assms Enroll by (auto simp: code_gone_def)
  moreover have "code_gone uid h (on_credential (user_id u)
      (\<lambda>c. c\<lparr>tc_secret := secret, tc_codes := map (hash_backup_code sha) codes, tc_enabled := False\<rparr>) d)"
    using assms Enroll by (intro code_gone_update) auto
  ultimately show ?thesis by (simp add: Enroll enroll_def Let_def code_gone_same [OF totps_log])
next
  case (Verify_2FA now u code)
  show ?thesis
  proof (cases "two_fa_verify sha totp now u code d")
    case (Inr p)
    obtain x d' where p: "p = (x, d')" by (cases p)
    with Inr obtain c c' where c: "get_credential (user_id u) d = Some c" "matches_code sha totp now code c = Some c'"
      and d': "totps d' = totps (on_credential (user_id u) (\<lambda>_. c'\<lparr>tc_enabled := True\<rparr>) d)"
      using two_fa_verify_InrE by blast
    from get_credential_user [OF c(1)] matches_code_user [OF c(2)] assms(2)
    have "code_gone uid h (on_credential (user_id u) (\<lambda>_. c'\<lparr>tc_enabled := True\<rparr>) d)"
      by (intro code_gone_update) (auto simp: code_gone_def)
    with Inr p show ?thesis by (simp add: Verify_2FA run_request_def code_gone_same [OF d'])
  qed (use assms(2) in \<open>simp add: Verify_2FA run_request_def\<close>)
next
  case (Disable_2FA u)
  have "code_gone uid h (d\<lparr>totps := delete_where (\<lambda>c. tc_user c = user_id u) (totps d)\<rparr>)"
    using assms(2) by (auto simp: code_gone_def delete_where_def)
  with assms(2) Disable_2FA show ?thesis by (simp add: disable_two_fa_def code_gone_same [OF totps_log])
next
  case (Regenerate codes u)
  have "code_gone uid h (on_credential (user_id u) (\<lambda>c. c\<lparr>tc_codes := map (hash_backup_code sha) codes\<rparr>) d)"
    using assms Regenerate by (intro code_gone_update) auto
  with assms(2) Regenerate show ?thesis
    by (auto simp: regenerate_backup_codes_def run_request_def code_gone_same [OF totps_log] split: option.split)
qed

interpretation spent_codes: guarded "two_fa_step sha totp"
  "\<lambda>rq. \<forall>k \<in> set (new_codes rq). hash_backup_code sha k \<noteq> h" "code_gone uid h" for sha totp h uid
  by unfold_locales (rule two_fa_step_keeps)

lemma used_code_gone:
  assumes "two_fa_verify sha totp now u code d = Inr (x, d')" and "\<not> one_time_code code"
  shows "code_gone (user_id u) (hash_backup_code sha code) d'"
proof -
  from assms(1) obtain c c' where c: "get_credential (user_id u) d = Some c" "matches_code sha totp now code c = Some c'"
    and d': "totps d' = totps (on_credential (user_id u) (\<lambda>_. c'\<lparr>tc_enabled := True\<rparr>) d)"
    by (rule two_fa_verify_InrE)
  from c(2) assms(2) have "hash_backup_code sha code \<notin> set (tc_codes c')"
    by (auto simp: matches_code_split split: if_splits)
  then show ?thesis by (auto simp: code_gone_def d' on_credential_def set_update_where split: if_splits)
qed

text \<open>
  C22. A backup code works once: after it has passed a two-factor check, the account is refused with the
  same code through any later enrolments, checks and regenerations whose new codes are different.
\<close>

theorem backup_code_single_use:
  assumes "two_fa_verify sha totp now u code d = Inr ((), d')" and "\<not> one_time_code code"
    and "\<forall>rq \<in> set rqs. \<forall>k \<in> set (new_codes rq). hash_backup_code sha k \<noteq> hash_backup_code sha code"
  shows "\<exists>e. two_fa_verify sha totp now' u code (fold (two_fa_step sha totp) rqs d') = Inl e"
proof -
  let ?d = "fold (two_fa_step sha totp) rqs d'"
  from used_code_gone [OF assms(1,2)] have "code_gone (user_id u) (hash_backup_code sha code) ?d"
    by (intro spent_codes.run_inv [OF assms(3)])
  then have "matches_code sha totp now' code c = None" if "get_credential (user_id u) ?d = Some c" for c
    using get_credential_user [OF that] assms(2) by (auto simp: matches_code_split code_gone_def)
  then show ?thesis by (auto simp: two_fa_verify_def verify_two_fa_def split: option.split)
qed

text \<open>The hyphen of a backup code is part of what is hashed: a code entered without it is refused.\<close>

lemma hyphen_is_not_optional:
  assumes "get_credential (user_id u) d = Some c" and "\<not> one_time_code code" and "hash_backup_code sha code \<notin> set (tc_codes c)"
  shows "two_fa_verify sha totp now u code d = Inl (HTTPException 422 ''validation_failed'')"
  using assms by (simp add: two_fa_verify_def verify_two_fa_def matches_code_split)

text \<open>Enrolling again switches an active second factor off until the new secret is verified.\<close>

lemma enrolling_again_disables:
  assumes "get_credential (user_id u) d = Some c"
  shows "\<exists>c'. get_credential (user_id u) (enroll sha secret codes u d) = Some c' \<and> \<not> tc_enabled c'"
proof -
  have "get_credential (user_id u) (enroll sha secret codes u d)
      = map_option (\<lambda>c. c\<lparr>tc_secret := secret, tc_codes := map (hash_backup_code sha) codes, tc_enabled := False\<rparr>)
          (get_credential (user_id u) d)"
    using assms by (simp add: enroll_def get_credential_def on_credential_def Let_def find_update_where)
  with assms show ?thesis by simp
qed

section \<open>A role switch leaves the session\<close>

lemma update_last_active_core: "core (update_last_active x now d) = core d"
  by (simp add: update_last_active_def on_sessions_def)

lemma revocations_keep_core [simp]:
  "core (revoke_family fam d) = core d" "core (snd (revoke_by_raw sha raw d)) = core d" "core (revoke_user_tokens uid d) = core d"
  "core (snd (revoke_token_family uid fam d)) = core d" "core (delete_expired_tokens grace now d) = core d"
  "core (snd (revoke_session sid now d)) = core d" "core (snd (revoke_user_sessions uid now d)) = core d"
  "core (on_sessions f d) = core d" "core (on_refresh g d) = core d"
  by (simp_all add: revoke_family_def revoke_by_raw_def revoke_user_tokens_def revoke_token_family_def delete_expired_tokens_def
      revoke_session_def revoke_user_sessions_def on_sessions_def on_refresh_def Let_def split: option.split)

lemma sign_in_keeps_core: "core (snd (run_request (create_session_and_tokens st sha encode now tid fam sid raw u) d)) = core d"
proof -
  have "core d2 = core d1" if "create_session sid (user_id u) fam now d1 = Inr (x, d2)" for x d1 d2
    using that by (simp add: create_session_def Let_def split: if_splits) auto
  then show ?thesis
    by (auto simp: run_request_def create_session_and_tokens_def split: sum.splits elim!: create_refresh_InrE)
qed

lemma refresh_keeps_core: "core (snd (refresh_access_token st sha encode now tid new_raw raw d)) = core d"
proof (cases "refresh_access_token st sha encode now tid new_raw raw d")
  case (Pair r d')
  show ?thesis
  proof (cases r)
    case (Inl e)
    with Pair show ?thesis by (auto simp: refresh_access_token_def dest: get_db_error_rolls_back)
  next
    case (Inr p)
    with Pair show ?thesis by (auto elim!: refresh_InrE create_refresh_InrE)
  qed
qed

lemma session_step_keeps_core: "core (store (session_step st sha encode decode rq s)) = core (store s)"
proof (cases rq)
  case (Enter now al raw)
  have "core (store (snd (get_current_user st decode now al raw s))) = core (store s)"
    using get_current_user_touched [of now s st decode al raw] by (auto simp: touched_def update_last_active_core)
  with Enter show ?thesis by simp
next
  case (Revoke_One now sid u)
  then show ?thesis
    by (auto simp: revoke_session_by_id_def invalidate_session_cache_def on_cache_def revoke_session_def Let_def
        split: option.split prod.splits bool.splits)
next
  case (Sweep_Sessions now)
  then show ?thesis by (simp add: sweep_sessions_def Let_def)
qed (simp_all add: on_store_def sign_in_keeps_core refresh_keeps_core logout_def revoke_session_legacy_def revoke_all_sessions_def
      invalidate_session_cache_def on_cache_def split: option.split)

lemma session_run_keeps_core: "core (store (fold (session_step st sha encode decode) rqs s)) = core (store s)"
  by (induction rqs arbitrary: s) (simp_all add: session_step_keeps_core)

lemma rotate_Inr_core:
  assumes "rotate_refresh_token st sha encode now tid new_raw raw d = (Inr p, d0)"
  shows "core d0 = core d"
proof -
  from assms have "refresh_access_token st sha encode now tid new_raw raw d = (Inr p, d0)"
    by (simp add: refresh_access_token_def get_db_lift)
  with refresh_keeps_core [of st sha encode now tid new_raw raw d] show ?thesis by simp
qed

text \<open>
  The access token of a role switch names no session: whatever sessions are revoked afterwards, all
  of the account's included, it is let in until it expires, also where sessions are enforced.
\<close>

lemma role_switch_escapes_revocation:
  assumes "switch_role st sha encode now tid new_raw u target raw (store s) = (Inr (access, refresh), d1)"
    and "user_by_id (core (store s)) (user_id u) = Some u" and "usable (Some u)" and "onboarding_completed u"
    and "\<forall>c. encode c = access \<and> now' < cl_exp c * 1000000 \<longrightarrow> decode True access = Some c"
    and "now' + 1000000 \<le> now + minutes (ACCESS_TOKEN_EXPIRE_MINUTES st)"
  shows "\<exists>v. fst (get_current_user st decode now' al access
           (fold (session_step st sha encode decode) rqs (s\<lparr>store := d1\<rparr>))) = Inr v \<and> user_id v = user_id u \<and> active_role v = Some target"
proof -
  let ?s = "fold (session_step st sha encode decode) rqs (s\<lparr>store := d1\<rparr>)" and ?v = "u\<lparr>active_role := Some target\<rparr>"
  let ?c = "create_access_token st now (user_id u) target (token_version u) None"
  from assms(1) obtain p d0 where rot: "rotate_refresh_token st sha encode now tid new_raw raw (store s) = (Inr p, d0)"
      and access: "access = encode ?c"
      and d1: "d1 = on_core (audit_log ''role_switched'' ''user'' (Some (user_id u)) [])
                 (on_user (user_id u) (\<lambda>u. u\<lparr>active_role := Some target\<rparr>) d0)"
    by (auto simp: switch_role_def split: if_splits prod.splits sum.splits)
  have "core d1 = audit_log ''role_switched'' ''user'' (Some (user_id u)) [] (core (on_user (user_id u) (\<lambda>u. u\<lparr>active_role := Some target\<rparr>) d0))"
    by (simp add: d1 on_core_def)
  then have "user_by_id (core d1) (user_id u) = Some ?v"
    using assms(2) rotate_Inr_core [OF rot] by (simp add: user_by_id_on_user)
  then have v: "user_by_id (core (store ?s)) (user_id u) = Some ?v" by (simp add: session_run_keeps_core)
  have "now' < cl_exp ?c * 1000000"
    using assms(6) by (simp add: create_access_token_def build_token_def)
  with assms(5) access have dec: "decode True access = Some ?c" by blast
  have c: "cl_type ?c = ''access''" "cl_sub ?c = Some (user_id u)" "cl_version ?c = Some (token_version u)" "cl_sid ?c = None"
    by (simp_all add: create_access_token_def build_token_def)
  have "usable (Some ?v)" using assms(3) by (simp add: usable_def)
  then have "fst (get_current_user st decode now' al access ?s) = Inr ?v"
    using v assms(4) by (simp add: get_current_user_def decode_token_def dec c enforce_session_def)
  then show ?thesis by simp
qed

section \<open>Witnesses\<close>

definition demo_email_change :: pending_change where
  "demo_email_change = \<lparr>pc_id = 31, pc_user = 1, pc_is_email = True, pc_value = ''n@b.c'', pc_hash = ''link'', pc_attempts = 0,
                        pc_created = 0, pc_expires = 100, pc_consumed = None\<rparr>"

definition demo_phone_change :: pending_change where
  "demo_phone_change = \<lparr>pc_id = 32, pc_user = 1, pc_is_email = False, pc_value = ''+1555'', pc_hash = ''123456'', pc_attempts = 0,
                        pc_created = 0, pc_expires = 100, pc_consumed = None\<rparr>"

definition demo_credential :: totp_credential where
  "demo_credential = \<lparr>tc_user = 1, tc_secret = ''s'', tc_codes = [''ABCD-EFGH'', ''JKLM-NPQR''], tc_enabled = True\<rparr>"

definition demo_account :: account_db where
  "demo_account = \<lparr>acct = auth_demo2, pendings = [demo_email_change, demo_phone_change], phone_numbers = (\<lambda>_. None),
                   phone_hashes = (\<lambda>_. None), totps = [demo_credential]\<rparr>"

lemma demo_account_phone:
  "open_phone_change (user_id mail_user) demo_account = Some demo_phone_change" "pc_attempts demo_phone_change < 5"
  "4 \<le> pc_expires demo_phone_change" "id ''123456'' = pc_hash demo_phone_change" "phone_hashes demo_account v = None"
  by (simp_all add: open_phone_change_def demo_account_def demo_phone_change_def demo_email_change_def auth_demo_user)

definition demo_guesses :: "(instant \<times> string) list" where
  "demo_guesses = [(1, ''0''), (1, ''1''), (2, ''2''), (2, ''3''), (3, ''4''), (3, ''5'')]"

theorem backup_code_single_use_witness:
  "\<exists>d' e. two_fa_verify id (\<lambda>_ _ _. False) 1 mail_user ''abcd-efgh'' demo_account = Inr ((), d') \<and>
     two_fa_verify id (\<lambda>_ _ _. False) 2 mail_user ''abcd-efgh''
       (fold (two_fa_step id (\<lambda>_ _ _. False)) [Regenerate [''STUV-WXYZ''] mail_user] d') = Inl e"
proof -
  have n: "\<not> one_time_code ''abcd-efgh''" and h: "hash_backup_code id ''abcd-efgh'' = ''ABCD-EFGH''"
    and k: "hash_backup_code id ''STUV-WXYZ'' = ''STUV-WXYZ''" by code_simp+
  have "get_credential (user_id mail_user) demo_account = Some demo_credential"
    by (simp add: get_credential_def demo_account_def demo_credential_def auth_demo_user)
  then have "\<exists>d'. two_fa_verify id (\<lambda>_ _ _. False) 1 mail_user ''abcd-efgh'' demo_account = Inr ((), d')"
    using n by (simp add: two_fa_verify_def verify_two_fa_def matches_code_split h) (simp add: demo_credential_def)
  then obtain d' where d': "two_fa_verify id (\<lambda>_ _ _. False) 1 mail_user ''abcd-efgh'' demo_account = Inr ((), d')" by blast
  have "\<forall>rq \<in> set [Regenerate [''STUV-WXYZ''] mail_user]. \<forall>k \<in> set (new_codes rq). hash_backup_code id k \<noteq> hash_backup_code id ''abcd-efgh''"
    by (simp add: h k)
  from backup_code_single_use [OF d' n this, of 2] d' show ?thesis by blast
qed

definition demo_switched :: claims where
  "demo_switched = create_access_token default_settings 3 1 ''client'' 1 None"

definition switch_encode :: "claims \<Rightarrow> string" where
  "switch_encode c = (if c = demo_switched then ''jwt'' else '''')"

definition strict_settings :: settings where
  "strict_settings = default_settings\<lparr>AUTH_ENFORCE_SESSION := True\<rparr>"

end
