(* ===== verification/Saved_Items.thy ===== *)
theory Saved_Items
  imports Schema
begin

text \<open>
  The addresses and payment methods of an account (domains/users/address_repository.py,
  address_service.py, payment_method_repository.py, payment_method_service.py). Both tables carry
  the same bookkeeping: an owner, a soft-delete flag and a default flag, with a partial unique index
  that allows an owner one live default. The shared columns are one record, the shared statements
  are defined once over it, and each table extends it. Tables are in order of creation.
\<close>

section \<open>Rows\<close>

record owned =
  row_id :: uuid
  row_user :: uuid
  is_default :: bool
  is_deleted :: bool
  deleted_at :: "instant option"

record address = owned +
  addr_label :: "string option"
  line1 :: string
  line2 :: "string option"
  city :: string
  state :: string
  zip_code :: string
  country :: string
  addr_notes :: "string option"
  latitude :: "real option"
  longitude :: "real option"
  h3_index :: "string option"

record payment_method = owned +
  stripe_pm :: string
  pm_type :: string
  brand :: "string option"
  last4 :: "string option"
  exp_month :: "int option"
  exp_year :: "int option"
  billing_zip :: "string option"

record coverage_zip =
  cz_zip :: string
  cz_zone :: string
  cz_eta :: "int option"
  cz_deleted :: bool
  cz_active :: bool

record wallet =
  addresses :: "address list"
  cards :: "payment_method list"
  coverage_zips :: "coverage_zip list"
  trail :: "audit_entry list"

section \<open>Statements both repositories use\<close>

definition live_of :: "uuid \<Rightarrow> 'a owned_scheme \<Rightarrow> bool" where
  "live_of uid r \<longleftrightarrow> row_user r = uid \<and> \<not> is_deleted r"

definition list_active :: "uuid \<Rightarrow> 'a owned_scheme list \<Rightarrow> 'a owned_scheme list" where
  "list_active uid rows = rev (filter (live_of uid) rows)"

definition count_active :: "uuid \<Rightarrow> 'a owned_scheme list \<Rightarrow> nat" where
  "count_active uid rows = length (list_active uid rows)"

definition get_owned :: "uuid \<Rightarrow> uuid \<Rightarrow> 'a owned_scheme list \<Rightarrow> 'a owned_scheme option" where
  "get_owned uid rid rows = find (\<lambda>r. row_id r = rid \<and> live_of uid r) rows"

definition get_default :: "uuid \<Rightarrow> 'a owned_scheme list \<Rightarrow> 'a owned_scheme option" where
  "get_default uid rows = find (\<lambda>r. live_of uid r \<and> is_default r) rows"

text \<open>The oldest live row, the deleted one excluded.\<close>

definition first_active :: "uuid \<Rightarrow> uuid option \<Rightarrow> 'a owned_scheme list \<Rightarrow> 'a owned_scheme option" where
  "first_active uid excl rows = find (\<lambda>r. live_of uid r \<and> excl \<noteq> Some (row_id r)) rows"

definition soft_delete :: "uuid \<Rightarrow> uuid \<Rightarrow> instant \<Rightarrow> 'a owned_scheme list \<Rightarrow> 'a owned_scheme list" where
  "soft_delete uid rid now rows =
     update_where (\<lambda>r. row_id r = rid \<and> live_of uid r)
       (\<lambda>r. r\<lparr>is_deleted := True, deleted_at := Some now, is_default := False\<rparr>) rows"

definition clear_default :: "uuid \<Rightarrow> 'a owned_scheme list \<Rightarrow> 'a owned_scheme list" where
  "clear_default uid rows = update_where (\<lambda>r. live_of uid r \<and> is_default r) (\<lambda>r. r\<lparr>is_default := False\<rparr>) rows"

text \<open>The partial unique index on \<open>user_id\<close> of the live defaults, and the primary key.\<close>

definition default_index_ok :: "'a owned_scheme list \<Rightarrow> bool" where
  "default_index_ok rows \<longleftrightarrow> distinct (map row_user (filter (\<lambda>r. is_default r \<and> \<not> is_deleted r) rows))"

definition checked :: "'a owned_scheme list \<Rightarrow> 'a owned_scheme list result" where
  "checked rows =
     (if \<not> distinct (map row_id rows) then Inl (IntegrityError ''pkey'')
      else if \<not> default_index_ok rows then Inl (IntegrityError ''default_unique'')
      else Inr rows)"

text \<open>
  \<open>set_default_atomic\<close>: one UPDATE writes the flag of every live row of the owner. PostgreSQL
  checks a unique index that is not a deferrable constraint as each row is modified, in the order
  the statement visits the rows; that order is the database's choice (\<open>scan\<close>).
\<close>

fun pivot_rows :: "uuid \<Rightarrow> uuid \<Rightarrow> uuid list \<Rightarrow> 'a owned_scheme list \<Rightarrow> 'a owned_scheme list result" where
  "pivot_rows uid target [] rows = Inr rows"
| "pivot_rows uid target (v # vs) rows =
     (case checked (update_where (\<lambda>r. row_id r = v \<and> live_of uid r) (\<lambda>r. r\<lparr>is_default := (row_id r = target)\<rparr>) rows) of
        Inl e \<Rightarrow> Inl e
      | Inr rows' \<Rightarrow> pivot_rows uid target vs rows')"

definition set_default_atomic ::
  "(uuid list \<Rightarrow> uuid list) \<Rightarrow> uuid \<Rightarrow> uuid \<Rightarrow> 'a owned_scheme list \<Rightarrow> (bool \<times> 'a owned_scheme list) result" where
  "set_default_atomic scan uid target rows =
     (case get_owned uid target rows of
        None \<Rightarrow> Inr (False, rows)
      | Some _ \<Rightarrow>
          (case pivot_rows uid target (scan (map row_id (filter (live_of uid) rows))) rows of
             Inl e \<Rightarrow> Inl e
           | Inr rows' \<Rightarrow> Inr (True, rows')))"

text \<open>The end of both services' \<open>delete\<close>: promote the oldest row left when the default went.\<close>

definition promote :: "uuid \<Rightarrow> uuid \<Rightarrow> bool \<Rightarrow> 'a owned_scheme list \<Rightarrow> 'a owned_scheme list result" where
  "promote uid rid was_default rows =
     (if was_default
      then (case first_active uid (Some rid) rows of
              None \<Rightarrow> Inr rows
            | Some q \<Rightarrow> checked (update_where (\<lambda>r. row_id r = row_id q) (\<lambda>r. r\<lparr>is_default := True\<rparr>) rows))
      else Inr rows)"

definition not_found :: "string \<Rightarrow> exn" where
  "not_found what = HTTPException 404 (what @ '' not found.'')"

definition log_trail :: "string \<Rightarrow> string \<Rightarrow> uuid option \<Rightarrow> (string \<times> int) list \<Rightarrow> wallet \<Rightarrow> wallet" where
  "log_trail action entity actor amounts w =
     w\<lparr>trail := trail w @ [\<lparr>audit_action = action, audit_entity = entity, audit_actor = actor, audit_amounts = amounts\<rparr>]\<rparr>"

section \<open>Addresses\<close>

record address_create =
  ac_label :: "string option"
  ac_line1 :: string
  ac_line2 :: "string option"
  ac_city :: string
  ac_state :: string
  ac_zip :: string
  ac_country :: string
  ac_notes :: "string option"
  ac_default :: bool
  ac_enforce :: bool

record address_update =
  au_label :: "string option"
  au_line1 :: "string option"
  au_line2 :: "string option"
  au_city :: "string option"
  au_state :: "string option"
  au_zip :: "string option"
  au_country :: "string option"
  au_notes :: "string option"

definition uppercase_state :: "string \<Rightarrow> string" where
  "uppercase_state v = (if length v = 2 then py_upper v else v)"

definition validate_address :: "address_create \<Rightarrow> address_create" where
  "validate_address b = b\<lparr>ac_country := py_upper (ac_country b), ac_state := uppercase_state (ac_state b)\<rparr>"

definition validate_edit :: "address_update \<Rightarrow> address_update" where
  "validate_edit b = b\<lparr>au_country := map_option py_upper (au_country b), au_state := map_option uppercase_state (au_state b)\<rparr>"

definition has_geocodable_change :: "address_update \<Rightarrow> bool" where
  "has_geocodable_change b \<longleftrightarrow>
     (\<exists>f \<in> {au_line1 b, au_line2 b, au_city b, au_state b, au_zip b, au_country b}. f \<noteq> None)"

text \<open>
  The geocoding adapter answers a query of the address parts with coordinates, with no match, or
  fails (\<open>Inl\<close>); \<open>cell\<close> is \<open>h3.latlng_to_cell\<close> at the stored resolution.
\<close>

type_synonym geocoder = "string \<times> string option \<times> string \<times> string \<times> string \<times> string \<Rightarrow> unit + (real \<times> real) option"

definition geocode_or_warn ::
  "geocoder \<Rightarrow> (real \<Rightarrow> real \<Rightarrow> string) \<Rightarrow> string \<times> string option \<times> string \<times> string \<times> string \<times> string \<Rightarrow>
   real option \<times> real option \<times> string option" where
  "geocode_or_warn geo cell q =
     (case geo q of
        Inl _ \<Rightarrow> (None, None, None)
      | Inr None \<Rightarrow> (None, None, None)
      | Inr (Some (lat, lng)) \<Rightarrow> (Some lat, Some lng, Some (cell lat lng)))"

definition zip_in_coverage :: "wallet \<Rightarrow> string \<Rightarrow> bool result" where
  "zip_in_coverage w z =
     (case scalar_one_or_none (filter (\<lambda>c. cz_zip c = z \<and> \<not> cz_deleted c \<and> cz_active c) (coverage_zips w)) of
        Inl e \<Rightarrow> Inl e
      | Inr row \<Rightarrow> Inr (row \<noteq> None))"

definition address_row :: "uuid \<Rightarrow> uuid \<Rightarrow> address_create \<Rightarrow> real option \<times> real option \<times> string option \<Rightarrow> bool \<Rightarrow> address" where
  "address_row aid uid b loc dflt =
     \<lparr>row_id = aid, row_user = uid, is_default = dflt, is_deleted = False, deleted_at = None,
      addr_label = ac_label b, line1 = ac_line1 b, line2 = ac_line2 b, city = ac_city b, state = ac_state b,
      zip_code = ac_zip b, country = ac_country b, addr_notes = ac_notes b,
      latitude = fst loc, longitude = fst (snd loc), h3_index = snd (snd loc)\<rparr>"

definition create_address ::
  "geocoder \<Rightarrow> (real \<Rightarrow> real \<Rightarrow> string) \<Rightarrow> uuid \<Rightarrow> uuid \<Rightarrow> address_create \<Rightarrow> wallet \<Rightarrow> (address \<times> wallet) result" where
  "create_address geo cell aid uid body w =
     (let b = validate_address body in
      case (if ac_enforce b then zip_in_coverage w (ac_zip b) else Inr True) of
        Inl e \<Rightarrow> Inl e
      | Inr False \<Rightarrow> Inl (HTTPException 422 ''zip_outside_coverage'')
      | Inr True \<Rightarrow>
          (let loc = geocode_or_warn geo cell (ac_line1 b, ac_line2 b, ac_city b, ac_state b, ac_zip b, ac_country b);
               rows = (if ac_default b then clear_default uid (addresses w) else addresses w);
               row = address_row aid uid b loc (ac_default b \<or> count_active uid rows = 0)
           in case checked (rows @ [row]) of
                Inl e \<Rightarrow> Inl e
              | Inr rows' \<Rightarrow>
                  Inr (row, log_trail ''address_added'' ''user_address'' (Some uid)
                              [(''is_default'', of_bool (is_default row))] (w\<lparr>addresses := rows'\<rparr>))))"

definition or_keep :: "'v option \<Rightarrow> 'v \<Rightarrow> 'v" where
  "or_keep x old = (case x of None \<Rightarrow> old | Some v \<Rightarrow> v)"

definition edit_row :: "geocoder \<Rightarrow> (real \<Rightarrow> real \<Rightarrow> string) \<Rightarrow> address_update \<Rightarrow> address \<Rightarrow> address" where
  "edit_row geo cell b r =
     (let r' = r\<lparr>addr_label := (if au_label b = None then addr_label r else au_label b),
                 line1 := or_keep (au_line1 b) (line1 r),
                 line2 := (if au_line2 b = None then line2 r else au_line2 b),
                 city := or_keep (au_city b) (city r), state := or_keep (au_state b) (state r),
                 zip_code := or_keep (au_zip b) (zip_code r), country := or_keep (au_country b) (country r),
                 addr_notes := (if au_notes b = None then addr_notes r else au_notes b)\<rparr>
      in if has_geocodable_change b
         then (let loc = geocode_or_warn geo cell (line1 r', line2 r', city r', state r', zip_code r', country r')
               in r'\<lparr>latitude := fst loc, longitude := fst (snd loc), h3_index := snd (snd loc)\<rparr>)
         else r')"

definition update_address ::
  "geocoder \<Rightarrow> (real \<Rightarrow> real \<Rightarrow> string) \<Rightarrow> uuid \<Rightarrow> uuid \<Rightarrow> address_update \<Rightarrow> wallet \<Rightarrow> (address \<times> wallet) result" where
  "update_address geo cell uid aid body w =
     (let b = validate_edit body in
      case get_owned uid aid (addresses w) of
        None \<Rightarrow> Inl (not_found ''Address'')
      | Some r \<Rightarrow>
          Inr (edit_row geo cell b r,
               log_trail ''address_updated'' ''user_address'' (Some uid) []
                 (w\<lparr>addresses := update_where (\<lambda>q. row_id q = aid) (\<lambda>_. edit_row geo cell b r) (addresses w)\<rparr>)))"

definition set_default_address ::
  "(uuid list \<Rightarrow> uuid list) \<Rightarrow> uuid \<Rightarrow> uuid \<Rightarrow> wallet \<Rightarrow> (unit \<times> wallet) result" where
  "set_default_address scan uid aid w =
     (case set_default_atomic scan uid aid (addresses w) of
        Inl e \<Rightarrow> Inl e
      | Inr (False, _) \<Rightarrow> Inl (not_found ''Address'')
      | Inr (True, rows) \<Rightarrow>
          Inr ((), log_trail ''address_updated'' ''user_address'' (Some uid) [(''is_default'', 1)] (w\<lparr>addresses := rows\<rparr>)))"

text \<open>
  The audit entry reads \<open>row.is_default\<close> after the bulk update has been synchronised into the row,
  where it is false whatever it was.
\<close>

definition delete_address :: "instant \<Rightarrow> uuid \<Rightarrow> uuid \<Rightarrow> wallet \<Rightarrow> (unit \<times> wallet) result" where
  "delete_address now uid aid w =
     (case get_owned uid aid (addresses w) of
        None \<Rightarrow> Inl (not_found ''Address'')
      | Some r \<Rightarrow>
          (case promote uid aid (is_default r) (soft_delete uid aid now (addresses w)) of
             Inl e \<Rightarrow> Inl e
           | Inr rows \<Rightarrow>
               Inr ((), log_trail ''address_removed'' ''user_address'' (Some uid) [(''was_default'', 0)] (w\<lparr>addresses := rows\<rparr>))))"

datatype address_request =
    Add_Address uuid uuid address_create
  | Edit_Address uuid uuid address_update
  | Choose_Address uuid uuid
  | Remove_Address instant uuid uuid

definition no_answer :: "('a \<times> 'd) result \<Rightarrow> (unit \<times> 'd) result" where
  "no_answer r = (case r of Inl e \<Rightarrow> Inl e | Inr (_, d) \<Rightarrow> Inr ((), d))"

fun address_handler ::
  "geocoder \<Rightarrow> (real \<Rightarrow> real \<Rightarrow> string) \<Rightarrow> (uuid list \<Rightarrow> uuid list) \<Rightarrow> address_request \<Rightarrow> wallet \<Rightarrow> (unit \<times> wallet) result" where
  "address_handler geo cell scan (Add_Address aid uid b) w = no_answer (create_address geo cell aid uid b w)"
| "address_handler geo cell scan (Edit_Address uid aid b) w = no_answer (update_address geo cell uid aid b w)"
| "address_handler geo cell scan (Choose_Address uid aid) w = set_default_address scan uid aid w"
| "address_handler geo cell scan (Remove_Address now uid aid) w = delete_address now uid aid w"

definition address_step ::
  "geocoder \<Rightarrow> (real \<Rightarrow> real \<Rightarrow> string) \<Rightarrow> (uuid list \<Rightarrow> uuid list) \<Rightarrow> address_request \<Rightarrow> wallet \<Rightarrow> wallet" where
  "address_step geo cell scan rq w = snd (run_request (address_handler geo cell scan rq) w)"

section \<open>Payment methods\<close>

text \<open>
  The local mirror of Stripe's payment methods. \<open>stripe_payment_method_id\<close> is unique, whatever the
  owner and the soft-delete flag; the expiry columns carry range checks.
\<close>

record snapshot =
  sn_id :: string
  sn_type :: string
  sn_brand :: "string option"
  sn_last4 :: "string option"
  sn_month :: "int option"
  sn_year :: "int option"
  sn_zip :: "string option"

definition expiry_ok :: "payment_method \<Rightarrow> bool" where
  "expiry_ok r \<longleftrightarrow> (case exp_month r of None \<Rightarrow> True | Some m \<Rightarrow> 1 \<le> m \<and> m \<le> 12) \<and>
                  (case exp_year r of None \<Rightarrow> True | Some y \<Rightarrow> 2000 \<le> y)"

definition checked_cards :: "payment_method list \<Rightarrow> payment_method list result" where
  "checked_cards rows =
     (if \<not> list_all expiry_ok rows then Inl (IntegrityError ''exp_range'')
      else if \<not> distinct (map stripe_pm rows) then Inl (IntegrityError ''stripe_payment_method_id'')
      else checked rows)"

definition get_by_stripe_id :: "string \<Rightarrow> payment_method list \<Rightarrow> payment_method option" where
  "get_by_stripe_id pm rows = find (\<lambda>r. stripe_pm r = pm) rows"

definition soft_delete_by_stripe_id :: "string \<Rightarrow> instant \<Rightarrow> payment_method list \<Rightarrow> bool \<times> payment_method list" where
  "soft_delete_by_stripe_id pm now rows =
     (let p = (\<lambda>r. stripe_pm r = pm \<and> \<not> is_deleted r)
      in (0 < rowcount p rows,
          update_where p (\<lambda>r. r\<lparr>is_deleted := True, deleted_at := Some now, is_default := False\<rparr>) rows))"

definition set_default_card ::
  "(uuid list \<Rightarrow> uuid list) \<Rightarrow> uuid \<Rightarrow> uuid \<Rightarrow> wallet \<Rightarrow> (unit \<times> wallet) result" where
  "set_default_card scan uid cid w =
     (case set_default_atomic scan uid cid (cards w) of
        Inl e \<Rightarrow> Inl e
      | Inr (False, _) \<Rightarrow> Inl (not_found ''Payment method'')
      | Inr (True, rows) \<Rightarrow>
          Inr ((), log_trail ''payment_method_default'' ''payment_method'' (Some uid) [(''is_default'', 1)] (w\<lparr>cards := rows\<rparr>)))"

text \<open>The detach call at the provider comes last and its failure is swallowed.\<close>

definition delete_card :: "instant \<Rightarrow> uuid \<Rightarrow> uuid \<Rightarrow> wallet \<Rightarrow> (unit \<times> wallet) result" where
  "delete_card now uid cid w =
     (case get_owned uid cid (cards w) of
        None \<Rightarrow> Inl (not_found ''Payment method'')
      | Some r \<Rightarrow>
          (case promote uid cid (is_default r) (soft_delete uid cid now (cards w)) of
             Inl e \<Rightarrow> Inl e
           | Inr rows \<Rightarrow>
               Inr ((), log_trail ''payment_method_removed'' ''payment_method'' (Some uid)
                          [(''was_default'', of_bool (is_default r))] (w\<lparr>cards := rows\<rparr>))))"

definition take_snapshot :: "snapshot \<Rightarrow> payment_method \<Rightarrow> payment_method" where
  "take_snapshot sn r =
     r\<lparr>pm_type := sn_type sn, brand := sn_brand sn, last4 := sn_last4 sn, exp_month := sn_month sn,
       exp_year := sn_year sn, billing_zip := sn_zip sn,
       is_deleted := False, deleted_at := (if is_deleted r then None else deleted_at r)\<rparr>"

definition card_row :: "uuid \<Rightarrow> uuid \<Rightarrow> snapshot \<Rightarrow> bool \<Rightarrow> payment_method" where
  "card_row cid uid sn dflt =
     \<lparr>row_id = cid, row_user = uid, is_default = dflt, is_deleted = False, deleted_at = None,
      stripe_pm = sn_id sn, pm_type = sn_type sn, brand = sn_brand sn, last4 = sn_last4 sn,
      exp_month = sn_month sn, exp_year = sn_year sn, billing_zip = sn_zip sn\<rparr>"

definition upsert_from_snapshot :: "uuid \<Rightarrow> uuid \<Rightarrow> snapshot \<Rightarrow> wallet \<Rightarrow> (payment_method \<times> wallet) result" where
  "upsert_from_snapshot cid uid sn w =
     (case get_by_stripe_id (sn_id sn) (cards w) of
        Some r \<Rightarrow>
          (case checked_cards (update_where (\<lambda>q. row_id q = row_id r) (take_snapshot sn) (cards w)) of
             Inl e \<Rightarrow> Inl e
           | Inr rows \<Rightarrow> Inr (take_snapshot sn r, w\<lparr>cards := rows\<rparr>))
      | None \<Rightarrow>
          (let row = card_row cid uid sn (count_active uid (cards w) = 0)
           in case checked_cards (cards w @ [row]) of
                Inl e \<Rightarrow> Inl e
              | Inr rows \<Rightarrow>
                  Inr (row, log_trail ''payment_method_added'' ''payment_method'' (Some uid)
                              [(''is_default'', of_bool (is_default row))] (w\<lparr>cards := rows\<rparr>))))"

definition mark_detached :: "string \<Rightarrow> instant \<Rightarrow> wallet \<Rightarrow> bool \<times> wallet" where
  "mark_detached pm now w =
     (case soft_delete_by_stripe_id pm now (cards w) of
        (False, _) \<Rightarrow> (False, w)
      | (True, rows) \<Rightarrow> (True, log_trail ''payment_method_removed'' ''payment_method'' None [] (w\<lparr>cards := rows\<rparr>)))"

datatype card_request =
    Choose_Card uuid uuid
  | Remove_Card instant uuid uuid
  | Attached uuid uuid snapshot
  | Detached string instant

fun card_handler :: "(uuid list \<Rightarrow> uuid list) \<Rightarrow> card_request \<Rightarrow> wallet \<Rightarrow> (unit \<times> wallet) result" where
  "card_handler scan (Choose_Card uid cid) w = set_default_card scan uid cid w"
| "card_handler scan (Remove_Card now uid cid) w = delete_card now uid cid w"
| "card_handler scan (Attached cid uid sn) w = no_answer (upsert_from_snapshot cid uid sn w)"
| "card_handler scan (Detached pm now) w = Inr ((), snd (mark_detached pm now w))"

definition card_step :: "(uuid list \<Rightarrow> uuid list) \<Rightarrow> card_request \<Rightarrow> wallet \<Rightarrow> wallet" where
  "card_step scan rq w = snd (run_request (card_handler scan rq) w)"

section \<open>What the tables keep\<close>

text \<open>
  \<open>tidy\<close> is what both tables keep: distinct keys, no default among the deleted rows, at most one
  default for an owner. \<open>one_default\<close> adds that an owner with a live row has a default.
\<close>

definition tidy :: "'a owned_scheme list \<Rightarrow> bool" where
  "tidy rows \<longleftrightarrow> distinct (map row_id rows) \<and> (\<forall>r \<in> set rows. is_deleted r \<longrightarrow> \<not> is_default r) \<and>
     (\<forall>q \<in> set rows. \<forall>r \<in> set rows. is_default q \<and> is_default r \<and> row_user q = row_user r \<longrightarrow> q = r)"

definition one_default :: "'a owned_scheme list \<Rightarrow> bool" where
  "one_default rows \<longleftrightarrow> distinct (map row_id rows) \<and> (\<forall>r \<in> set rows. is_deleted r \<longrightarrow> \<not> is_default r) \<and>
     (\<forall>uid. if \<exists>r \<in> set rows. live_of uid r then \<exists>!r. r \<in> set rows \<and> live_of uid r \<and> is_default r else True)"

definition covered :: "uuid \<Rightarrow> 'a owned_scheme list \<Rightarrow> bool" where
  "covered uid rows \<longleftrightarrow> ((\<exists>r \<in> set rows. live_of uid r) \<longrightarrow> (\<exists>r \<in> set rows. live_of uid r \<and> is_default r))"

lemma one_default_iff: "one_default rows \<longleftrightarrow> tidy rows \<and> (\<forall>uid. covered uid rows)"
proof
  assume one: "one_default rows"
  have "q = r" if "q \<in> set rows" "r \<in> set rows" "is_default q" "is_default r" "row_user q = row_user r" for q r
  proof -
    from one that have "live_of (row_user q) q" "live_of (row_user q) r" by (auto simp: one_default_def live_of_def)
    with one that show ?thesis unfolding one_default_def by metis
  qed
  with one have "tidy rows" by (auto simp: tidy_def one_default_def)
  moreover from one have "covered uid rows" for uid unfolding one_default_def covered_def by metis
  ultimately show "tidy rows \<and> (\<forall>uid. covered uid rows)" by blast
next
  assume "tidy rows \<and> (\<forall>uid. covered uid rows)"
  then show "one_default rows"
    by (auto simp: one_default_def tidy_def covered_def live_of_def)
qed

lemma tidy_single:
  "tidy rows \<Longrightarrow> q \<in> set rows \<Longrightarrow> r \<in> set rows \<Longrightarrow> row_id q = row_id r \<Longrightarrow> q = r"
  by (auto simp: tidy_def distinct_map dest: inj_onD)

lemma default_index_iff:
  assumes "distinct (map row_id rows)" and "\<forall>r \<in> set rows. is_deleted r \<longrightarrow> \<not> is_default r"
  shows "default_index_ok rows \<longleftrightarrow> tidy rows"
proof -
  have "filter (\<lambda>r. is_default r \<and> \<not> is_deleted r) rows = filter is_default rows"
    using assms(2) by (auto intro: filter_cong)
  moreover have "distinct rows" using assms(1) by (simp add: distinct_map)
  ultimately show ?thesis
    unfolding default_index_ok_def tidy_def using assms by (simp add: distinct_map inj_on_def) blast
qed

lemma checked_eq: "checked rows = Inr rows' \<longleftrightarrow> rows' = rows \<and> distinct (map row_id rows) \<and> default_index_ok rows"
  by (auto simp: checked_def)

lemma checked_tidy:
  "checked rows = Inr rows' \<Longrightarrow> \<forall>r \<in> set rows. is_deleted r \<longrightarrow> \<not> is_default r \<Longrightarrow> tidy rows' \<and> rows' = rows"
  using default_index_iff [of rows] by (auto simp: checked_eq)

lemma tidy_checked: "tidy rows \<Longrightarrow> checked rows = Inr rows"
  by (subst checked_eq, subst default_index_iff) (auto simp: tidy_def)

text \<open>An update that keeps keys and owners and sets no default keeps a tidy table tidy.\<close>

lemma map_keys_update:
  "(\<And>r. row_id (f r) = row_id r) \<Longrightarrow> map row_id (update_where p f rows) = map row_id rows"
  by (simp add: map_update_where)

lemma tidy_shrink:
  assumes "tidy rows" and f: "\<And>r. row_id (f r) = row_id r" "\<And>r. row_user (f r) = row_user r"
    and sub: "\<And>r. is_default (f r) \<Longrightarrow> is_default r" and del: "\<And>r. is_deleted (f r) \<Longrightarrow> \<not> is_default (f r) \<or> is_deleted r"
  shows "tidy (update_where p f rows)"
  unfolding tidy_def
proof (intro conjI ballI impI)
  show "distinct (map row_id (update_where p f rows))"
    using assms(1) by (simp add: map_keys_update f tidy_def)
  fix r assume r: "r \<in> set (update_where p f rows)"
  { assume "is_deleted r" then show "\<not> is_default r"
      using r assms(1) sub del by (auto simp: set_update_where tidy_def split: if_splits) }
  fix q assume q: "q \<in> set (update_where p f rows)" and eq: "is_default r \<and> is_default q \<and> row_user r = row_user q"
  from r q obtain r0 q0 where r0: "r0 \<in> set rows" "r = (if p r0 then f r0 else r0)"
    and q0: "q0 \<in> set rows" "q = (if p q0 then f q0 else q0)" by (auto simp: set_update_where)
  with eq sub f have "is_default r0" "is_default q0" "row_user r0 = row_user q0" by (auto split: if_splits)
  with assms(1) r0(1) q0(1) have "r0 = q0" by (auto simp: tidy_def)
  with r0 q0 show "r = q" by simp
qed

lemma tidy_soft_delete: "tidy rows \<Longrightarrow> tidy (soft_delete uid rid now rows)"
  unfolding soft_delete_def by (rule tidy_shrink) auto

lemma tidy_clear: "tidy rows \<Longrightarrow> tidy (clear_default uid rows)"
  unfolding clear_default_def by (rule tidy_shrink) auto

lemma covered_clear:
  assumes "covered u rows" and "u \<noteq> uid"
  shows "covered u (clear_default uid rows)"
proof -
  have same: "r \<in> set (clear_default uid rows) \<longleftrightarrow> r \<in> set rows" if "live_of u r" for r
    using that assms(2) by (auto simp: clear_default_def set_update_where live_of_def)
  with assms(1) show ?thesis unfolding covered_def by blast
qed

text \<open>A new row at the end of the table.\<close>

lemma tidy_append:
  assumes "tidy rows" and "checked (rows @ [row]) = Inr rows'" and "\<not> is_deleted row"
  shows "tidy rows' \<and> rows' = rows @ [row]"
proof -
  have "\<forall>r \<in> set (rows @ [row]). is_deleted r \<longrightarrow> \<not> is_default r"
    using assms(1,3) by (simp add: tidy_def)
  from checked_tidy [OF assms(2) this] show ?thesis .
qed

lemma covered_append:
  assumes "\<And>u. u \<noteq> row_user row \<Longrightarrow> covered u rows"
    and "is_default row \<and> \<not> is_deleted row \<or> covered (row_user row) rows \<and> count_active (row_user row) rows \<noteq> 0"
  shows "covered u (rows @ [row])"
proof (cases "u = row_user row")
  case True
  then show ?thesis
    using assms(2) by (auto simp: covered_def count_active_def list_active_def live_of_def filter_empty_conv)
next
  case False
  then show ?thesis using assms(1) [OF False] by (auto simp: covered_def live_of_def)
qed

text \<open>Deleting a row and promoting the oldest one left.\<close>

lemma get_owned_SomeD: "get_owned uid rid rows = Some r \<Longrightarrow> r \<in> set rows \<and> row_id r = rid \<and> live_of uid r"
  by (auto simp: get_owned_def find_Some_iff)

lemma mem_soft_delete:
  assumes "live_of u r"
  shows "r \<in> set (soft_delete uid rid now rows) \<longleftrightarrow> r \<in> set rows \<and> (row_id r \<noteq> rid \<or> u \<noteq> uid)"
proof -
  have "r \<noteq> q\<lparr>is_deleted := True, deleted_at := Some now, is_default := False\<rparr>" for q :: "'a owned_scheme"
  proof
    assume "r = q\<lparr>is_deleted := True, deleted_at := Some now, is_default := False\<rparr>"
    then have "is_deleted r" by simp
    with assms show False by (simp add: live_of_def)
  qed
  with assms show ?thesis by (auto simp: soft_delete_def set_update_where live_of_def)
qed

lemma promote_None: "first_active uid (Some rid) rows = None \<longleftrightarrow> (\<forall>r \<in> set rows. live_of uid r \<longrightarrow> row_id r = rid)"
  by (auto simp: first_active_def find_None_iff)

lemma promote_tidy:
  assumes "tidy rows" and "promote uid rid b rows = Inr rows'"
  shows "tidy rows'"
proof (cases "b \<and> first_active uid (Some rid) rows \<noteq> None")
  case True
  then obtain q where q: "first_active uid (Some rid) rows = Some q" by auto
  then have q': "q \<in> set rows" "live_of uid q" by (auto simp: first_active_def find_Some_iff)
  let ?rows = "update_where (\<lambda>r. row_id r = row_id q) (\<lambda>r. r\<lparr>is_default := True\<rparr>) rows"
  have "\<forall>r \<in> set ?rows. is_deleted r \<longrightarrow> \<not> is_default r"
  proof (intro ballI impI)
    fix r assume "r \<in> set ?rows" and del: "is_deleted r"
    then obtain r0 where r0: "r0 \<in> set rows" "r = (if row_id r0 = row_id q then r0\<lparr>is_default := True\<rparr> else r0)"
      by (auto simp: set_update_where)
    show "\<not> is_default r"
    proof (cases "row_id r0 = row_id q")
      case True
      with tidy_single [OF assms(1) r0(1) q'(1)] r0(2) del q'(2) show ?thesis by (simp add: live_of_def)
    next
      case False
      with r0 del assms(1) show ?thesis by (simp add: tidy_def)
    qed
  qed
  with assms(2) True q show ?thesis by (auto simp: promote_def dest: checked_tidy)
next
  case False
  with assms show ?thesis by (auto simp: promote_def split: if_splits option.splits)
qed

lemma delete_promote_covered:
  assumes "tidy rows" and c: "\<And>u. covered u rows" and r: "get_owned uid rid rows = Some r"
    and p: "promote uid rid (is_default r) (soft_delete uid rid now rows) = Inr rows'"
  shows "covered u rows'"
proof -
  let ?del = "soft_delete uid rid now rows"
  have other: "covered u ?del" if "u \<noteq> uid" for u
    using c [of u] that mem_soft_delete [of u _ uid rid now rows] unfolding covered_def by metis
  note r' = get_owned_SomeD [OF r]
  show ?thesis
  proof (cases "is_default r")
    case False
    have "covered uid ?del"
    proof -
      from c [of uid] r' obtain q where "q \<in> set rows" "live_of uid q" "is_default q" by (auto simp: covered_def)
      moreover with False r' tidy_single [OF assms(1), of q r] have "row_id q \<noteq> rid" by auto
      ultimately show ?thesis using mem_soft_delete [of uid q] by (auto simp: covered_def)
    qed
    with False p other show ?thesis by (cases "u = uid") (auto simp: promote_def)
  next
    case True
    show ?thesis
    proof (cases "first_active uid (Some rid) ?del")
      case None
      then have "\<not> (\<exists>q \<in> set ?del. live_of uid q)"
        using mem_soft_delete [of uid _ uid rid now rows] by (auto simp: promote_None)
      with None True p other show ?thesis by (cases "u = uid") (auto simp: promote_def covered_def)
    next
      case (Some q)
      then have q: "q \<in> set ?del" "live_of uid q" by (auto simp: first_active_def find_Some_iff)
      let ?f = "\<lambda>r. r\<lparr>is_default := True\<rparr>"
      from Some True p have rows': "rows' = update_where (\<lambda>r. row_id r = row_id q) ?f ?del"
        by (auto simp: promote_def checked_eq)
      have live: "live_of v (?f x) = live_of v x" for v and x :: "'a owned_scheme" by (simp add: live_of_def)
      show ?thesis
      proof (cases "u = uid")
        case True
        from q have "?f q \<in> set rows'" by (auto simp: rows' set_update_where intro!: bexI [of _ q])
        with True q(2) live show ?thesis unfolding covered_def by force
      next
        case False
        have "x \<in> set rows' \<longleftrightarrow> x \<in> set ?del" if "live_of u x" for x
        proof -
          have "row_id x \<noteq> row_id q \<or> x \<notin> set ?del"
            using tidy_single [OF tidy_soft_delete [OF assms(1)], of x uid rid now q] q that False by (auto simp: live_of_def)
          moreover have "row_id y = row_id q \<Longrightarrow> y \<in> set ?del \<Longrightarrow> x \<noteq> ?f y" for y
            using tidy_single [OF tidy_soft_delete [OF assms(1)], of y uid rid now q] q that False by (auto simp: live_of_def)
          ultimately show ?thesis by (auto simp: rows' set_update_where split: if_splits)
        qed
        with other [OF False] show ?thesis unfolding covered_def by blast
      qed
    qed
  qed
qed

text \<open>The pivot: when it goes through, it has set the flag of every row it visited.\<close>

lemma pivot_rows_Inr:
  "pivot_rows uid target vs rows = Inr rows' \<Longrightarrow>
     rows' = update_where (\<lambda>r. row_id r \<in> set vs \<and> live_of uid r) (\<lambda>r. r\<lparr>is_default := (row_id r = target)\<rparr>) rows"
proof (induction vs arbitrary: rows)
  case (Cons v vs)
  let ?f = "\<lambda>r. r\<lparr>is_default := (row_id r = target)\<rparr>"
  from Cons.prems have "pivot_rows uid target vs (update_where (\<lambda>r. row_id r = v \<and> live_of uid r) ?f rows) = Inr rows'"
    by (auto simp: checked_eq split: sum.splits)
  from Cons.IH [OF this] show ?case
    by (auto simp: update_where_def live_of_def)
qed (simp add: update_where_def)

lemma set_default_atomic_Inr:
  assumes "set_default_atomic scan uid target rows = Inr (True, rows')" and "\<And>ids. set (scan ids) = set ids"
  shows "rows' = update_where (live_of uid) (\<lambda>r. r\<lparr>is_default := (row_id r = target)\<rparr>) rows \<and>
         (\<exists>r. get_owned uid target rows = Some r)"
proof -
  from assms obtain r where r: "get_owned uid target rows = Some r"
    and p: "pivot_rows uid target (scan (map row_id (filter (live_of uid) rows))) rows = Inr rows'"
    by (auto simp: set_default_atomic_def split: option.splits sum.splits)
  have "update_where (\<lambda>r. row_id r \<in> row_id ` {x \<in> set rows. live_of uid x} \<and> live_of uid r) f rows
      = update_where (live_of uid) f rows" for f
    by (auto simp: update_where_def)
  with pivot_rows_Inr [OF p] r assms(2) show ?thesis by simp
qed

lemma pivot_rows_mem:
  "live_of uid x \<Longrightarrow> x \<in> set (update_where (live_of uid) (\<lambda>r. r\<lparr>is_default := (row_id r = target)\<rparr>) rows) \<longleftrightarrow>
     (\<exists>y \<in> set rows. live_of uid y \<and> x = y\<lparr>is_default := (row_id y = target)\<rparr>)"
  "\<not> live_of uid x \<Longrightarrow> x \<in> set (update_where (live_of uid) (\<lambda>r. r\<lparr>is_default := (row_id r = target)\<rparr>) rows) \<longleftrightarrow>
     x \<in> set rows"
  by (auto simp: set_update_where live_of_def)

lemma pivot_tidy:
  assumes tidy: "tidy rows"
  shows "tidy (update_where (live_of uid) (\<lambda>r. r\<lparr>is_default := (row_id r = target)\<rparr>) rows)" (is "tidy ?rows")
proof -
  note mine = pivot_rows_mem(1) [of uid _ target rows] and theirs = pivot_rows_mem(2) [of uid _ target rows]
  have "\<not> is_default x" if "x \<in> set ?rows" "is_deleted x" for x
    using that theirs tidy by (auto simp: live_of_def tidy_def)
  moreover have "x = y" if x: "x \<in> set ?rows" "is_default x" and y: "y \<in> set ?rows" "is_default y" and u: "row_user x = row_user y" for x y
  proof (cases "live_of uid x")
    case True
    have "live_of uid y"
    proof (rule ccontr)
      assume "\<not> live_of uid y"
      with theirs y tidy show False using True u by (auto simp: live_of_def tidy_def)
    qed
    with True x y mine have "row_id x = target" "row_id y = target" by auto
    moreover from mine True x obtain x' where "x' \<in> set rows" "x = x'\<lparr>is_default := (row_id x' = target)\<rparr>" by auto
    moreover from mine \<open>live_of uid y\<close> y obtain y' where "y' \<in> set rows" "y = y'\<lparr>is_default := (row_id y' = target)\<rparr>" by auto
    ultimately show ?thesis using tidy_single [OF tidy, of x' y'] by simp
  next
    case False
    have "\<not> live_of uid y"
    proof
      assume "live_of uid y"
      with False u have "is_deleted x" by (simp add: live_of_def)
      with theirs [OF False] x tidy show False by (auto simp: tidy_def)
    qed
    with False theirs x y u tidy show ?thesis by (auto simp: tidy_def)
  qed
  moreover have "distinct (map row_id ?rows)"
    using tidy by (simp add: map_keys_update tidy_def)
  ultimately show ?thesis unfolding tidy_def by blast
qed

lemma pivot_one_default:
  assumes "one_default rows" and "get_owned uid target rows = Some r"
  shows "one_default (update_where (live_of uid) (\<lambda>r. r\<lparr>is_default := (row_id r = target)\<rparr>) rows)"
proof -
  let ?f = "\<lambda>r. r\<lparr>is_default := (row_id r = target)\<rparr>" and ?rows = "update_where (live_of uid) (\<lambda>r. r\<lparr>is_default := (row_id r = target)\<rparr>) rows"
  note r = get_owned_SomeD [OF assms(2)]
  have "covered u ?rows" for u
  proof (cases "u = uid")
    case True
    have "?f r \<in> set ?rows" "live_of uid (?f r)" "is_default (?f r)"
      using r by (auto simp: set_update_where live_of_def intro!: bexI [of _ r])
    with True show ?thesis unfolding covered_def by blast
  next
    case False
    have same: "x \<in> set ?rows \<longleftrightarrow> x \<in> set rows" if "live_of u x" for x
      using pivot_rows_mem(2) [of uid x target rows] that False by (auto simp: live_of_def)
    then show ?thesis using assms(1) unfolding one_default_iff covered_def by blast
  qed
  with pivot_tidy [of rows] assms(1) show ?thesis by (simp add: one_default_iff)
qed

text \<open>Once no row but the target is a default, the rest of the pivot goes through.\<close>

lemma pivot_goes_on:
  assumes "tidy rows" and "\<forall>r \<in> set rows. live_of uid r \<and> is_default r \<longrightarrow> row_id r = target"
  shows "\<exists>rows'. pivot_rows uid target vs rows = Inr rows'"
  using assms
proof (induction vs arbitrary: rows)
  case (Cons v vs)
  let ?p = "\<lambda>r. row_id r = v \<and> live_of uid r" and ?f = "\<lambda>r. r\<lparr>is_default := (row_id r = target)\<rparr>"
  let ?rows = "update_where ?p ?f rows"
  have id: "row_id (?f r) = row_id r" for r :: "'a owned_scheme" by simp
  have rows: "x \<in> set ?rows \<Longrightarrow> \<exists>y \<in> set rows. row_id x = row_id y \<and> row_user x = row_user y \<and> is_deleted x = is_deleted y \<and>
      (is_default x \<longrightarrow> is_default y \<or> row_id y = target \<and> live_of uid y)" for x
    by (auto simp: set_update_where)
  have "tidy ?rows"
    unfolding tidy_def
  proof (intro conjI ballI impI)
    show "distinct (map row_id ?rows)" using Cons.prems(1) by (simp add: map_keys_update tidy_def)
    fix x assume x: "x \<in> set ?rows"
    { assume "is_deleted x" with rows [OF x] Cons.prems(1) show "\<not> is_default x" by (auto simp: tidy_def live_of_def) }
    fix y assume y: "y \<in> set ?rows" and d: "is_default x \<and> is_default y \<and> row_user x = row_user y"
    have "row_id x = row_id y"
    proof -
      from rows [OF x] rows [OF y] obtain x' y' where xy: "x' \<in> set rows" "y' \<in> set rows"
        "row_id x = row_id x'" "row_user x = row_user x'" "is_default x' \<or> row_id x' = target \<and> live_of uid x'"
        "row_id y = row_id y'" "row_user y = row_user y'" "is_default y' \<or> row_id y' = target \<and> live_of uid y'"
        using d by blast
      with d Cons.prems show ?thesis unfolding tidy_def live_of_def by metis
    qed
    moreover have "distinct (map row_id ?rows)" using Cons.prems(1) by (simp add: map_keys_update tidy_def)
    ultimately show "x = y" using x y by (auto simp: distinct_map dest: inj_onD)
  qed
  moreover have "\<forall>r \<in> set ?rows. live_of uid r \<and> is_default r \<longrightarrow> row_id r = target"
  proof (intro ballI impI)
    fix x assume x: "x \<in> set ?rows" and "live_of uid x \<and> is_default x"
    moreover from rows [OF x] obtain y where "y \<in> set rows" "row_id x = row_id y" "row_user x = row_user y"
      "is_deleted x = is_deleted y" "is_default x \<longrightarrow> is_default y \<or> row_id y = target \<and> live_of uid y" by blast
    ultimately show "row_id x = target" using Cons.prems(2) by (auto simp: live_of_def)
  qed
  ultimately obtain rows' where "pivot_rows uid target vs ?rows = Inr rows'" using Cons.IH by blast
  with tidy_checked [OF \<open>tidy ?rows\<close>] show ?case by simp
qed simp

section \<open>Properties of the address book\<close>

lemma create_address_keeps:
  assumes "create_address geo cell aid uid body w = Inr (row, w')" and "one_default (addresses w)"
  shows "one_default (addresses w')"
proof -
  let ?b = "validate_address body"
  let ?rows = "if ac_default ?b then clear_default uid (addresses w) else addresses w"
  from assms(1) have row: "row_user row = uid" "\<not> is_deleted row" "is_default row \<longleftrightarrow> ac_default ?b \<or> count_active uid ?rows = 0"
    and ch: "checked (?rows @ [row]) = Inr (addresses w')"
    by (auto simp: create_address_def Let_def address_row_def log_trail_def split: sum.splits bool.splits if_splits)
  from assms(2) have w: "tidy (addresses w)" "\<And>u. covered u (addresses w)" by (simp_all add: one_default_iff)
  from w have "tidy ?rows" by (simp add: tidy_clear)
  note tidy_append [OF this ch row(2)]
  moreover have "covered u (?rows @ [row])" for u
  proof (rule covered_append)
    show "covered v ?rows" if "v \<noteq> row_user row" for v
      using that w row(1) by (simp add: covered_clear)
    show "is_default row \<and> \<not> is_deleted row \<or> covered (row_user row) ?rows \<and> count_active (row_user row) ?rows \<noteq> 0"
      using row w by auto
  qed
  ultimately show ?thesis by (metis one_default_iff)
qed

lemma edit_row_keeps [simp]:
  "row_id (edit_row geo cell b r) = row_id r" "row_user (edit_row geo cell b r) = row_user r"
  "is_default (edit_row geo cell b r) = is_default r" "is_deleted (edit_row geo cell b r) = is_deleted r"
  by (simp_all add: edit_row_def Let_def)

lemma one_default_same_columns:
  assumes "one_default rows" and "\<And>r. r \<in> set rows \<Longrightarrow> p r \<Longrightarrow> row_id (f r) = row_id r \<and> row_user (f r) = row_user r \<and>
      is_default (f r) = is_default r \<and> is_deleted (f r) = is_deleted r"
  shows "one_default (update_where p f rows)"
proof -
  let ?g = "\<lambda>r. if p r then f r else r"
  have g: "row_id (?g r) = row_id r" "row_user (?g r) = row_user r" "is_default (?g r) = is_default r"
    "is_deleted (?g r) = is_deleted r" if "r \<in> set rows" for r
    using assms(2) that by auto
  have set: "set (update_where p f rows) = ?g ` set rows" by (simp add: update_where_def)
  have "map row_id (update_where p f rows) = map row_id rows"
    unfolding update_where_def using g(1) by simp
  moreover from assms(1) have t: "tidy rows" by (simp add: one_default_iff)
  moreover have "\<not> is_default (?g r)" if "r \<in> set rows" "is_deleted (?g r)" for r
    using that t unfolding g(3,4) [OF that(1)] by (simp add: tidy_def)
  moreover have "?g q = ?g r"
    if "q \<in> set rows" "r \<in> set rows" "is_default (?g q)" "is_default (?g r)" "row_user (?g q) = row_user (?g r)" for q r
    using that t unfolding g(2,3) [OF that(1)] g(2,3) [OF that(2)] by (metis tidy_def)
  ultimately have "tidy (update_where p f rows)"
    unfolding tidy_def [of "update_where p f rows"] set by (auto simp only: tidy_def ball_simps)
  moreover have "covered u (update_where p f rows)" for u
  proof -
    have l: "live_of u (?g r) = live_of u r" if "r \<in> set rows" for r
      unfolding live_of_def g(2,4) [OF that] ..
    have "covered u rows" using assms(1) by (simp add: one_default_iff)
    then show ?thesis unfolding covered_def set bex_simps using l g(3) by metis
  qed
  ultimately show ?thesis by (simp add: one_default_iff)
qed

lemma update_address_keeps:
  assumes "update_address geo cell uid aid body w = Inr (row, w')" and "one_default (addresses w)"
  shows "one_default (addresses w')"
proof -
  from assms(1) obtain r where r: "get_owned uid aid (addresses w) = Some r"
    and w': "addresses w' = update_where (\<lambda>q. row_id q = aid) (\<lambda>_. edit_row geo cell (validate_edit body) r) (addresses w)"
    by (auto simp: update_address_def log_trail_def Let_def split: option.splits)
  from assms(2) have "tidy (addresses w)" by (simp add: one_default_iff)
  have "q = r" if "q \<in> set (addresses w)" "row_id q = aid" for q
    using tidy_single [OF \<open>tidy (addresses w)\<close>, of q r] get_owned_SomeD [OF r] that by simp
  then show ?thesis unfolding w' by (intro one_default_same_columns [OF assms(2)]) auto
qed

lemma set_default_address_keeps:
  assumes "set_default_address scan uid aid w = Inr ((), w')" and "one_default (addresses w)" and "\<And>ids. set (scan ids) = set ids"
  shows "one_default (addresses w')"
proof -
  from assms(1) have "set_default_atomic scan uid aid (addresses w) = Inr (True, addresses w')"
    by (auto simp: set_default_address_def log_trail_def split: sum.splits bool.splits)
  from set_default_atomic_Inr [OF this assms(3)] pivot_one_default [OF assms(2)] show ?thesis by auto
qed

lemma delete_address_keeps:
  assumes "delete_address now uid aid w = Inr ((), w')" and "one_default (addresses w)"
  shows "one_default (addresses w')"
proof -
  from assms(1) obtain r where r: "get_owned uid aid (addresses w) = Some r"
    and p: "promote uid aid (is_default r) (soft_delete uid aid now (addresses w)) = Inr (addresses w')"
    by (auto simp: delete_address_def log_trail_def split: option.splits sum.splits)
  from assms(2) have w: "tidy (addresses w)" "\<And>u. covered u (addresses w)" by (simp_all add: one_default_iff)
  from promote_tidy [OF tidy_soft_delete [OF w(1)] p] delete_promote_covered [OF w r p] show ?thesis
    by (simp add: one_default_iff)
qed

lemma no_answer_Inr: "no_answer r = Inr (x, d) \<longleftrightarrow> (\<exists>y. r = Inr (y, d))"
  by (auto simp: no_answer_def split: sum.splits)

lemma address_handler_keeps:
  "address_handler geo cell scan rq w = Inr ((), w') \<Longrightarrow> one_default (addresses w) \<Longrightarrow> (\<And>ids. set (scan ids) = set ids) \<Longrightarrow>
     one_default (addresses w')"
  by (cases rq) (auto simp: no_answer_Inr intro: create_address_keeps update_address_keeps set_default_address_keeps delete_address_keeps)

definition scans_all :: "(uuid list \<Rightarrow> uuid list) \<Rightarrow> bool" where
  "scans_all scan \<longleftrightarrow> (\<forall>ids. set (scan ids) = set ids)"

interpretation address_book: guarded "address_step geo cell scan" "\<lambda>_. scans_all scan" "\<lambda>w :: wallet. one_default (addresses w)"
  for geo cell scan
proof
  fix rq and w :: wallet
  assume "scans_all scan" and "one_default (addresses w)"
  then show "one_default (addresses (address_step geo cell scan rq w))"
    using address_handler_keeps [of geo cell scan rq w]
    by (auto simp: address_step_def run_request_def scans_all_def split: sum.splits prod.splits)
qed

text \<open>
  C20. The address book keeps one default: whatever sequence of creations, edits, choices of the
  default and deletions the owners make, successful or refused, every owner with a live address has
  exactly one default and it is live. The database may visit rows in any order, as long as it visits
  them all.
\<close>

theorem addresses_keep_one_default:
  assumes "scans_all scan" and "one_default (addresses w)"
  shows "one_default (addresses (fold (address_step geo cell scan) rqs w))"
  using assms by (intro address_book.run_inv) auto

definition plain_address :: "bool \<Rightarrow> address_create" where
  "plain_address dflt = \<lparr>ac_label = None, ac_line1 = ''1 Main St'', ac_line2 = None, ac_city = ''Fort Wayne'',
     ac_state = ''in'', ac_zip = ''46802'', ac_country = ''us'', ac_notes = None, ac_default = dflt, ac_enforce = False\<rparr>"

definition empty_wallet :: wallet where
  "empty_wallet = \<lparr>addresses = [], cards = [], coverage_zips = [], trail = []\<rparr>"

lemma empty_one_default: "one_default (addresses empty_wallet)" "tidy (cards empty_wallet)"
  by (simp_all add: empty_wallet_def one_default_def tidy_def)

text \<open>Two addresses, the first the default; then the default is deleted and the other takes over.\<close>

theorem addresses_keep_one_default_witness:
  "one_default (addresses (fold (address_step (\<lambda>_. Inr None) (\<lambda>_ _. '''') id)
     [Add_Address 1 7 (plain_address False), Add_Address 2 7 (plain_address False), Remove_Address 5 7 1] empty_wallet)) \<and>
   map (\<lambda>r. (row_id r, is_default r)) (addresses (fold (address_step (\<lambda>_. Inr None) (\<lambda>_ _. '''') id)
     [Add_Address 1 7 (plain_address False), Add_Address 2 7 (plain_address False), Remove_Address 5 7 1] empty_wallet))
     = [(1, False), (2, True)]"
  apply (intro conjI addresses_keep_one_default empty_one_default)
   apply (simp add: scans_all_def)
  apply code_simp
  done

text \<open>
  Choosing another default can fail on the index: the single UPDATE writes true into the chosen
  row and false into the old default one after the other. When the database visits the chosen row
  first, the index sees two live defaults, and the request ends in an \<open>IntegrityError\<close> with nothing
  changed; when it visits the old default first, the request goes through.
\<close>

lemma default_choice_depends_on_scan:
  assumes "one_default (addresses w)" and "get_owned uid target (addresses w) = Some r" and "\<not> is_default r"
    and "get_default uid (addresses w) = Some q"
    and "scan (map row_id (filter (live_of uid) (addresses w))) = v # vs"
  shows "(v = target \<longrightarrow> set_default_address scan uid target w = Inl (IntegrityError ''default_unique'')) \<and>
         (v = row_id q \<longrightarrow> (\<exists>w'. set_default_address scan uid target w = Inr ((), w')))"
proof -
  let ?p = "\<lambda>v r. row_id r = v \<and> live_of uid r" and ?f = "\<lambda>r. r\<lparr>is_default := (row_id r = target)\<rparr>"
  let ?rows = "\<lambda>v. update_where (?p v) ?f (addresses w)"
  from assms(1) have tidy: "tidy (addresses w)" by (simp add: one_default_iff)
  note r = get_owned_SomeD [OF assms(2)]
  from assms(4) have q: "q \<in> set (addresses w)" "live_of uid q" "is_default q"
    by (auto simp: get_default_def find_Some_iff)
  with r assms(3) have ne: "row_id q \<noteq> target" using tidy_single [OF tidy, of q r] by auto
  have keys: "distinct (map row_id (?rows v))" for v using tidy by (simp add: map_keys_update tidy_def)
  have mem: "q \<in> set (?rows target)" "?f r \<in> set (?rows target)"
    using q r ne by (auto simp: set_update_where intro: bexI [of _ q] bexI [of _ r])
  have same: "row_user q = row_user (?f r)" "is_default q" "\<not> is_deleted q" "is_default (?f r)" "\<not> is_deleted (?f r)"
    using q r by (simp_all add: live_of_def)
  have "\<not> inj_on row_user {x \<in> set (?rows target). is_default x \<and> \<not> is_deleted x}"
  proof
    assume "inj_on row_user {x \<in> set (?rows target). is_default x \<and> \<not> is_deleted x}"
    from inj_onD [OF this same(1)] mem same have "q = ?f r" by blast
    then have "row_id q = row_id r" by simp
    with r ne show False by simp
  qed
  then have "\<not> default_index_ok (?rows target)"
    by (simp add: default_index_ok_def distinct_map)
  then have "checked (?rows target) = Inl (IntegrityError ''default_unique'')"
    using keys by (simp add: checked_def)
  with assms(2,5) have 1: "v = target \<Longrightarrow> set_default_address scan uid target w = Inl (IntegrityError ''default_unique'')"
    by (simp add: set_default_address_def set_default_atomic_def)
  have eq: "?rows (row_id q) = update_where (?p (row_id q)) (\<lambda>r. r\<lparr>is_default := False\<rparr>) (addresses w)"
    using ne by (auto simp: update_where_def)
  have tq: "tidy (?rows (row_id q))" unfolding eq by (rule tidy_shrink [OF tidy]) auto
  have "\<forall>r \<in> set (?rows (row_id q)). \<not> (live_of uid r \<and> is_default r)"
  proof (intro ballI notI)
    fix x assume "x \<in> set (?rows (row_id q))" and x: "live_of uid x \<and> is_default x"
    then obtain y where y: "y \<in> set (addresses w)" "x = (if ?p (row_id q) y then y\<lparr>is_default := False\<rparr> else y)"
      unfolding eq set_update_where by blast
    show False
    proof (cases "?p (row_id q) y")
      case True
      with y x show False by simp
    next
      case False
      with y x have "is_default y" "live_of uid y" by simp_all
      with tidy y(1) q have "y = q" by (auto simp: tidy_def live_of_def)
      with False q show False by simp
    qed
  qed
  with pivot_goes_on [OF tq, of uid target vs] obtain rows' where "pivot_rows uid target vs (?rows (row_id q)) = Inr rows'"
    by auto
  with assms(2,5) tidy_checked [OF tq] have "v = row_id q \<Longrightarrow> \<exists>w'. set_default_address scan uid target w = Inr ((), w')"
    by (simp add: set_default_address_def set_default_atomic_def)
  with 1 show ?thesis by blast
qed

definition two_addresses :: wallet where
  "two_addresses = empty_wallet\<lparr>addresses :=
     [address_row 1 7 (plain_address True) (None, None, None) True, address_row 2 7 (plain_address False) (None, None, None) False]\<rparr>"

section \<open>Properties of the payment methods\<close>

lemma checked_cards_eq: "checked_cards rows = Inr rows' \<longleftrightarrow> checked rows = Inr rows' \<and> list_all expiry_ok rows \<and> distinct (map stripe_pm rows)"
  by (auto simp: checked_cards_def)

lemma take_snapshot_simps [simp]:
  "row_id (take_snapshot sn r) = row_id r" "row_user (take_snapshot sn r) = row_user r"
  "is_default (take_snapshot sn r) = is_default r" "\<not> is_deleted (take_snapshot sn r)"
  by (simp_all add: take_snapshot_def)

lemma upsert_tidy:
  assumes "upsert_from_snapshot cid uid sn w = Inr (row, w')" and "tidy (cards w)"
  shows "tidy (cards w')"
proof (cases "get_by_stripe_id (sn_id sn) (cards w)")
  case (Some r)
  with assms(1) have "checked (update_where (\<lambda>q. row_id q = row_id r) (take_snapshot sn) (cards w)) = Inr (cards w')"
    by (auto simp: upsert_from_snapshot_def checked_cards_eq split: sum.splits)
  moreover have "\<forall>x \<in> set (update_where (\<lambda>q. row_id q = row_id r) (take_snapshot sn) (cards w)). is_deleted x \<longrightarrow> \<not> is_default x"
    using assms(2) by (auto simp: set_update_where tidy_def split: if_splits)
  ultimately show ?thesis using checked_tidy by blast
next
  case None
  with assms(1) obtain row' where "checked (cards w @ [row']) = Inr (cards w')" "\<not> is_deleted row'"
    by (auto simp: upsert_from_snapshot_def checked_cards_eq card_row_def log_trail_def Let_def split: sum.splits)
  with tidy_append [OF assms(2)] show ?thesis by auto
qed

lemma detached_tidy:
  assumes "tidy (cards w)"
  shows "tidy (cards (snd (mark_detached pm now w)))"
proof -
  have "tidy (snd (soft_delete_by_stripe_id pm now (cards w)))"
    unfolding soft_delete_by_stripe_id_def Let_def snd_conv by (rule tidy_shrink [OF assms]) auto
  with assms show ?thesis
    by (cases "soft_delete_by_stripe_id pm now (cards w)")
       (auto simp: mark_detached_def log_trail_def split: bool.splits)
qed

lemma card_handler_tidy:
  assumes "card_handler scan rq w = Inr ((), w')" and "tidy (cards w)" and "\<And>ids. set (scan ids) = set ids"
  shows "tidy (cards w')"
proof (cases rq)
  case (Choose_Card uid cid)
  with assms(1) have "set_default_atomic scan uid cid (cards w) = Inr (True, cards w')"
    by (auto simp: set_default_card_def log_trail_def split: sum.splits bool.splits)
  from set_default_atomic_Inr [OF this assms(3)] pivot_tidy [OF assms(2)] show ?thesis by auto
next
  case (Remove_Card now uid cid)
  with assms(1) have "\<exists>r :: payment_method. promote uid cid (is_default r) (soft_delete uid cid now (cards w)) = Inr (cards w')"
    by (auto simp: delete_card_def log_trail_def split: option.splits sum.splits)
  then obtain r :: payment_method where "promote uid cid (is_default r) (soft_delete uid cid now (cards w)) = Inr (cards w')" ..
  from promote_tidy [OF tidy_soft_delete [OF assms(2)] this] show ?thesis .
next
  case (Attached cid uid sn)
  with assms show ?thesis by (auto simp: no_answer_Inr intro: upsert_tidy)
next
  case (Detached pm now)
  with assms(1) detached_tidy [OF assms(2)] show ?thesis by auto
qed

interpretation card_book: guarded "card_step scan" "\<lambda>_. scans_all scan" "\<lambda>w :: wallet. tidy (cards w)"
  for scan
proof
  fix rq and w :: wallet
  assume "scans_all scan" and "tidy (cards w)"
  then show "tidy (cards (card_step scan rq w))"
    using card_handler_tidy [of scan rq w]
    by (auto simp: card_step_def run_request_def scans_all_def split: sum.splits prod.splits)
qed

text \<open>
  Payment methods never have two defaults: through any sequence of choices, removals and Stripe
  events, two live cards of one owner are never both the default, and a removed card is never one.
\<close>

lemma cards_never_two_defaults:
  assumes "scans_all scan" and "tidy (cards w)"
    and "w' = fold (card_step scan) rqs w"
    and "q \<in> set (cards w')" and "r \<in> set (cards w')" and "row_user q = row_user r" and "is_default q" and "is_default r"
  shows "q = r \<and> \<not> is_deleted q"
proof -
  from assms(1-3) have "tidy (cards w')" by (simp add: card_book.run_inv)
  with assms(4-8) show ?thesis unfolding tidy_def by blast
qed

definition demo_snapshot :: "string \<Rightarrow> snapshot" where
  "demo_snapshot pm = \<lparr>sn_id = pm, sn_type = ''card'', sn_brand = Some ''visa'', sn_last4 = Some ''4242'',
     sn_month = Some 12, sn_year = Some 2030, sn_zip = None\<rparr>"

definition two_cards :: wallet where
  "two_cards = fold (card_step id) [Attached 1 7 (demo_snapshot ''pm_a''), Attached 2 7 (demo_snapshot ''pm_b'')] empty_wallet"

lemma two_cards_rows:
  "cards two_cards = [card_row 1 7 (demo_snapshot ''pm_a'') True, card_row 2 7 (demo_snapshot ''pm_b'') False]"
  by code_simp

text \<open>
  A card detached at Stripe is not replaced: when the default card is detached through the
  webhook, no other card of the owner becomes the default, although the owner's other live cards are
  kept; deleting the same card in the app would have promoted one.
\<close>

lemma detached_default_is_not_replaced:
  assumes "tidy (cards w)" and "r \<in> set (cards w)" and "is_default r"
  shows "get_default (row_user r) (cards (card_step scan (Detached (stripe_pm r) now) w)) = None \<and>
         (\<forall>q \<in> set (cards w). live_of (row_user r) q \<and> stripe_pm q \<noteq> stripe_pm r \<longrightarrow>
            q \<in> set (cards (card_step scan (Detached (stripe_pm r) now) w)))"
proof -
  let ?p = "\<lambda>x. stripe_pm x = stripe_pm r \<and> \<not> is_deleted x"
  let ?f = "\<lambda>x. x\<lparr>is_deleted := True, deleted_at := Some now, is_default := False\<rparr>"
  from assms have live: "\<not> is_deleted r" by (auto simp: tidy_def)
  with assms(2) have "0 < rowcount ?p (cards w)" by (auto simp: rowcount_pos)
  then have w': "cards (card_step scan (Detached (stripe_pm r) now) w) = update_where ?p ?f (cards w)"
    by (simp add: card_step_def run_request_def mark_detached_def soft_delete_by_stripe_id_def Let_def log_trail_def)
  have "\<not> (live_of (row_user r) x \<and> is_default x)" if x: "x \<in> set (update_where ?p ?f (cards w))" for x
  proof
    assume d: "live_of (row_user r) x \<and> is_default x"
    from x obtain y where y: "y \<in> set (cards w)" "x = (if ?p y then ?f y else y)" by (auto simp: set_update_where)
    with d have "x = y" "\<not> ?p y" by (auto split: if_splits)
    with y d assms have "y = r" by (auto simp: tidy_def live_of_def)
    with \<open>\<not> ?p y\<close> live show False by simp
  qed
  then have "get_default (row_user r) (update_where ?p ?f (cards w)) = None"
    unfolding get_default_def find_None_iff by blast
  moreover have "q \<in> set (update_where ?p ?f (cards w))" if "q \<in> set (cards w)" "stripe_pm q \<noteq> stripe_pm r" for q
    using that by (auto simp: set_update_where intro: bexI [of _ q])
  ultimately show ?thesis unfolding w' by blast
qed

end
