(* ===== verification/Providers.thy ===== *)
theory Providers
  imports Schema
begin

text \<open>
  Becoming a provider: activation, the multi-profile endpoints, the status toggle and the application
  (domains/users/provider_profile_service.py, domains/providers/profiles_service.py), the older detailer
  endpoints (domains/providers/router.py, domains/providers/verification_router.py), identity
  verification (domains/users/provider_verification_service.py) and what an administrator does to a
  provider (domains/admin/repository.py). The roles table and the cities are arguments. A profile's free
  text is left out. \<open>is_accepting_bookings\<close> is the property that stands for \<open>is_active\<close>.
\<close>

section \<open>Lookups and updates\<close>

definition profile_by_id :: "uuid \<Rightarrow> db \<Rightarrow> provider_profile option" where
  "profile_by_id pid d = find (\<lambda>p. prof_id p = pid \<and> \<not> prof_deleted p) (profiles d)"

definition on_profiles :: "(provider_profile \<Rightarrow> bool) \<Rightarrow> (provider_profile \<Rightarrow> provider_profile) \<Rightarrow> db \<Rightarrow> db" where
  "on_profiles q f d = d\<lparr>profiles := update_where q f (profiles d)\<rparr>"

text \<open>The one row an ORM object stands for.\<close>

definition on_row :: "provider_profile \<Rightarrow> (provider_profile \<Rightarrow> provider_profile) \<Rightarrow> db \<Rightarrow> db" where
  "on_row p f d = on_profiles (\<lambda>q. prof_id q = prof_id p) f d"

definition add_profile :: "provider_profile \<Rightarrow> db \<Rightarrow> db result" where
  "add_profile p d =
     (if prof_id p \<in> prof_id ` set (profiles d) then Inl (IntegrityError ''provider_profiles_pkey'')
      else if slot_taken d (prof_user p) (prof_type p) then Inl (IntegrityError ''uq_provider_profiles_user_type'')
      else Inr (d\<lparr>profiles := profiles d @ [p]\<rparr>))"

definition update_profile_columns :: "uuid \<Rightarrow> (provider_profile \<Rightarrow> provider_profile) \<Rightarrow> db \<Rightarrow> db" where
  "update_profile_columns uid f d = on_profiles (\<lambda>p. prof_user p = uid \<and> \<not> prof_deleted p) f d"

definition grant_role :: "string \<Rightarrow> uuid \<Rightarrow> db \<Rightarrow> db" where
  "grant_role r uid d =
     d\<lparr>users := update_where (\<lambda>u. user_id u = uid)
        (\<lambda>u. if r \<in> set (role_names u) then u else u\<lparr>role_names := role_names u @ [r]\<rparr>) (users d)\<rparr>"

definition log_profile :: "string \<Rightarrow> uuid \<Rightarrow> db \<Rightarrow> db" where
  "log_profile action uid d = audit_log action ''provider_profile'' (Some uid) [] d"

definition misconfigured :: exn where "misconfigured = HTTPException 500 ''internal_error''"
definition profile_not_found :: exn where "profile_not_found = HTTPException 404 ''resource_not_found''"
definition kyc_required :: exn where "kyc_required = HTTPException 403 ''kyc_required''"

section \<open>The detailer's own profile\<close>

definition activate :: "string list \<Rightarrow> uuid \<Rightarrow> user \<Rightarrow> int \<Rightarrow> db \<Rightarrow> (unit \<times> db) result" where
  "activate roles pid u radius d =
     (if ''detailer'' \<notin> set roles then Inl misconfigured
      else (let d1 = grant_role ''detailer'' (user_id u) d in
            case get_profile d1 (user_id u) DETAILER of
              None \<Rightarrow>
                (case add_profile ((new_profile pid (user_id u))\<lparr>prof_active := False,
                                     prof_signup := blank_signup\<lparr>service_radius_miles := radius\<rparr>\<rparr>) d1 of
                   Inl e \<Rightarrow> Inl e
                 | Inr d2 \<Rightarrow> Inr ((), log_profile ''provider_mode_switched'' (user_id u) d2))
            | Some p \<Rightarrow>
                Inr ((), log_profile ''provider_mode_switched'' (user_id u)
                  (on_row p (\<lambda>p. p\<lparr>prof_signup := (prof_signup p)\<lparr>service_radius_miles := radius\<rparr>\<rparr>) d1))))"

text \<open>A city is its code, its status and whether it is deleted.\<close>

type_synonym city = "string \<times> string \<times> bool"

definition assert_city_active :: "city list \<Rightarrow> string \<Rightarrow> unit result" where
  "assert_city_active cities code =
     (case find (\<lambda>(k, _, deleted). k = code \<and> \<not> deleted) cities of
        None \<Rightarrow> Inl (HTTPException 422 ''city_not_found'')
      | Some (_, status, _) \<Rightarrow>
          if status \<in> {''active'', ''pilot''} then Inr () else Inl (HTTPException 422 ''city_not_accepting_providers''))"

record profile_patch =
  pp_radius :: "int option"
  pp_hours :: "(string \<times> day_hours) list option"
  pp_city :: "string option"
  pp_tank :: "int option"
  pp_services :: "string list option"
  pp_ssn :: "string option"

definition given :: "'a option \<Rightarrow> 'a \<Rightarrow> 'a" where
  "given new old = (case new of None \<Rightarrow> old | Some x \<Rightarrow> x)"

definition given_opt :: "'a option \<Rightarrow> 'a option \<Rightarrow> 'a option" where
  "given_opt new old = (case new of None \<Rightarrow> old | Some x \<Rightarrow> Some x)"

definition apply_patch :: "profile_patch \<Rightarrow> provider_profile \<Rightarrow> provider_profile" where
  "apply_patch b p =
     (let s = prof_signup p in
      p\<lparr>working_hours := given (pp_hours b) (working_hours p),
        prof_signup := s\<lparr>service_radius_miles := given (pp_radius b) (service_radius_miles s),
                        home_city_code := given_opt (pp_city b) (home_city_code s),
                        water_tank_gallons := given_opt (pp_tank b) (water_tank_gallons s),
                        services_offered := given_opt (pp_services b) (services_offered s),
                        ssn_last_4 := given_opt (pp_ssn b) (ssn_last_4 s)\<rparr>\<rparr>)"

definition get_own_profile :: "user \<Rightarrow> db \<Rightarrow> provider_profile result" where
  "get_own_profile u d =
     (case get_profile d (user_id u) DETAILER of None \<Rightarrow> Inl profile_not_found | Some p \<Rightarrow> Inr p)"

definition update_own_profile :: "city list \<Rightarrow> user \<Rightarrow> profile_patch \<Rightarrow> db \<Rightarrow> (unit \<times> db) result" where
  "update_own_profile cities u b d =
     (case get_own_profile u d of
        Inl e \<Rightarrow> Inl e
      | Inr p \<Rightarrow>
          (case (case pp_city b of None \<Rightarrow> Inr () | Some code \<Rightarrow> assert_city_active cities code) of
             Inl e \<Rightarrow> Inl e
           | Inr _ \<Rightarrow> Inr ((), log_profile ''provider_profile_updated'' (user_id u) (on_row p (apply_patch b) d))))"

definition deactivate :: "user \<Rightarrow> db \<Rightarrow> (unit \<times> db) result" where
  "deactivate u d =
     (case get_own_profile u d of
        Inl e \<Rightarrow> Inl e
      | Inr p \<Rightarrow> Inr ((), log_profile ''provider_status_changed'' (user_id u) (on_row p (\<lambda>p. p\<lparr>prof_active := False\<rparr>) d)))"

definition set_accepting_bookings :: "user \<Rightarrow> bool \<Rightarrow> db \<Rightarrow> (unit \<times> db) result" where
  "set_accepting_bookings u accepting d =
     (case get_own_profile u d of
        Inl e \<Rightarrow> Inl e
      | Inr p \<Rightarrow>
          if accepting \<and> verification_status p \<noteq> ''approved'' then Inl kyc_required
          else if prof_active p = accepting then Inr ((), d)
          else Inr ((), log_profile ''provider_status_changed'' (user_id u) (on_row p (\<lambda>p. p\<lparr>prof_active := accepting\<rparr>) d)))"

text \<open>The application. A required column counts as missing when it is falsy.\<close>

definition missing_fields :: "signup_form \<Rightarrow> string list" where
  "missing_fields s =
     map fst (filter snd
       [(''Legal full name'', legal_full_name s \<in> {None, Some ''''}),
        (''Date of birth'', date_of_birth s = None),
        (''SSN last 4'', ssn_last_4 s \<in> {None, Some ''''}),
        (''Home city'', home_city_code s \<in> {None, Some ''''}),
        (''Travel radius'', service_radius_miles s = 0),
        (''Water tank size'', water_tank_gallons s \<in> {None, Some 0}),
        (''Services you can offer'', services_offered s \<in> {None, Some []}),
        (''Background-check consent'', \<not> background_check_consent s)])"

definition submit_form :: "instant \<Rightarrow> provider_profile \<Rightarrow> provider_profile" where
  "submit_form now p =
     p\<lparr>application_status := ''submitted'',
       prof_signup := (prof_signup p)\<lparr>verification_submitted_at :=
         given_opt (verification_submitted_at (prof_signup p)) (Some now)\<rparr>\<rparr>"

definition submit_application :: "instant \<Rightarrow> user \<Rightarrow> db \<Rightarrow> (unit \<times> db) result" where
  "submit_application now u d =
     (case get_own_profile u d of
        Inl e \<Rightarrow> Inl e
      | Inr p \<Rightarrow>
          if application_status p \<noteq> ''draft'' then Inl (HTTPException 409 ''application_not_in_draft'')
          else if missing_fields (prof_signup p) \<noteq> [] then Inl (HTTPException 422 ''application_incomplete'')
          else Inr ((), log_profile ''provider_profile_updated'' (user_id u) (on_row p (submit_form now) d)))"

section \<open>Profiles of either type\<close>

definition role_of_type :: "provider_type \<Rightarrow> string" where
  "role_of_type ty = (case ty of DETAILER \<Rightarrow> ''detailer'' | MECHANIC \<Rightarrow> ''mechanic'')"

definition load_owned :: "user \<Rightarrow> uuid \<Rightarrow> db \<Rightarrow> provider_profile result" where
  "load_owned u pid d =
     (case profile_by_id pid d of
        None \<Rightarrow> Inl profile_not_found
      | Some p \<Rightarrow> if prof_user p = user_id u then Inr p else Inl profile_not_found)"

definition create_profile :: "string list \<Rightarrow> uuid \<Rightarrow> user \<Rightarrow> provider_type \<Rightarrow> int \<Rightarrow> db \<Rightarrow> (unit \<times> db) result" where
  "create_profile roles pid u ty radius d =
     (if slot_taken d (user_id u) ty then Inl (HTTPException 409 ''already_exists'')
      else if role_of_type ty \<notin> set roles then Inl misconfigured
      else (case add_profile ((new_profile pid (user_id u))\<lparr>prof_type := ty, prof_active := False,
                                prof_signup := blank_signup\<lparr>service_radius_miles := radius\<rparr>\<rparr>)
                   (grant_role (role_of_type ty) (user_id u) d) of
              Inl e \<Rightarrow> Inl e
            | Inr d1 \<Rightarrow> Inr ((), log_profile ''provider_mode_switched'' (user_id u) d1)))"

definition update_profile :: "user \<Rightarrow> uuid \<Rightarrow> int option \<Rightarrow> bool option \<Rightarrow> db \<Rightarrow> (unit \<times> db) result" where
  "update_profile u pid radius active d =
     (case load_owned u pid d of
        Inl e \<Rightarrow> Inl e
      | Inr p \<Rightarrow>
          if active = Some True \<and> verification_status p \<noteq> ''approved'' then Inl kyc_required
          else Inr ((), log_profile ''provider_profile_updated'' (user_id u)
                 (on_row p (\<lambda>p. p\<lparr>prof_signup := (prof_signup p)\<lparr>service_radius_miles := given radius (service_radius_miles (prof_signup p))\<rparr>,
                                   prof_active := given active (prof_active p)\<rparr>) d)))"

definition delete_profile :: "user \<Rightarrow> uuid \<Rightarrow> db \<Rightarrow> (unit \<times> db) result" where
  "delete_profile u pid d =
     (case load_owned u pid d of
        Inl e \<Rightarrow> Inl e
      | Inr p \<Rightarrow> Inr ((), log_profile ''provider_mode_switched'' (user_id u) (on_row p (\<lambda>p. p\<lparr>prof_deleted := True\<rparr>) d)))"

section \<open>The older detailer endpoints\<close>

definition upsert_my_profile ::
  "uuid \<Rightarrow> user \<Rightarrow> int \<Rightarrow> string \<Rightarrow> (string \<times> day_hours) list \<Rightarrow> db \<Rightarrow> (unit \<times> db) result" where
  "upsert_my_profile pid u radius tz hrs d =
     (case require_role [''detailer''] u of
        Inl e \<Rightarrow> Inl e
      | Inr _ \<Rightarrow>
          (let hs = (if hrs = [] then default_hours else hrs);
               fields = (\<lambda>p. p\<lparr>prof_signup := (prof_signup p)\<lparr>service_radius_miles := radius\<rparr>, prof_timezone := tz, working_hours := hs\<rparr>)
           in case get_profile d (user_id u) DETAILER of
                None \<Rightarrow>
                  (case add_profile (fields ((new_profile pid (user_id u))\<lparr>prof_active := True\<rparr>)) d of
                     Inl e \<Rightarrow> Inl e
                   | Inr d1 \<Rightarrow> Inr ((), log_profile ''detailer_profile_created'' (user_id u) d1))
              | Some _ \<Rightarrow>
                  Inr ((), log_profile ''detailer_profile_updated'' (user_id u) (update_profile_columns (user_id u) fields d))))"

definition update_accepting_status :: "user \<Rightarrow> bool \<Rightarrow> db \<Rightarrow> (unit \<times> db) result" where
  "update_accepting_status u accepting d =
     (case require_role [''detailer''] u of
        Inl e \<Rightarrow> Inl e
      | Inr _ \<Rightarrow>
          (case get_profile d (user_id u) DETAILER of
             None \<Rightarrow> Inl (HTTPException 404 ''No detailer profile found.'')
           | Some _ \<Rightarrow> Inr ((), update_profile_columns (user_id u) (\<lambda>p. p\<lparr>prof_active := accepting\<rparr>) d)))"

text \<open>\<open>_get_or_create_profile\<close> and \<open>verification_submit\<close>: whatever the row, of either type, deleted or not.\<close>

definition get_or_create_profile :: "uuid \<Rightarrow> user \<Rightarrow> db \<Rightarrow> (provider_profile \<times> db) result" where
  "get_or_create_profile pid u d =
     (case scalar_one_or_none (filter (\<lambda>p. prof_user p = user_id u) (profiles d)) of
        Inl e \<Rightarrow> Inl e
      | Inr (Some p) \<Rightarrow> Inr (p, d)
      | Inr None \<Rightarrow> map_sum id (\<lambda>d1. (new_profile pid (user_id u), d1)) (add_profile (new_profile pid (user_id u)) d))"

definition submitted :: "instant \<Rightarrow> string \<Rightarrow> int \<Rightarrow> string option \<Rightarrow> provider_profile \<Rightarrow> provider_profile" where
  "submitted now name dob sid p =
     (let q = p\<lparr>prof_signup := (prof_signup p)\<lparr>legal_full_name := Some name, date_of_birth := Some dob,
                                             background_check_consent := True, verification_submitted_at := Some now\<rparr>\<rparr>
      in case sid of
           None \<Rightarrow> q\<lparr>verification_status := ''approved'', verification_reviewed_at := Some now, prof_active := True\<rparr>
         | Some s \<Rightarrow> q\<lparr>verification_session := Some s, verification_status := ''pending'', prof_active := False\<rparr>)"

definition verification_submit ::
  "instant \<Rightarrow> uuid \<Rightarrow> user \<Rightarrow> string \<Rightarrow> int \<Rightarrow> bool \<Rightarrow> string option \<Rightarrow> db \<Rightarrow> (string \<times> db) result" where
  "verification_submit now pid u name dob consent sid d =
     (if \<not> consent then Inl (HTTPException 422 ''consent'')
      else (case get_or_create_profile pid u d of
              Inl e \<Rightarrow> Inl e
            | Inr (p, d1) \<Rightarrow> Inr (verification_status (submitted now name dob sid p), on_row p (submitted now name dob sid) d1)))"

section \<open>Identity verification\<close>

text \<open>The guard of the verification, document and portfolio endpoints.\<close>

definition require_provider :: "user \<Rightarrow> db \<Rightarrow> provider_profile result" where
  "require_provider u d =
     (case scalar_one_or_none (filter (\<lambda>p. prof_user p = user_id u) (profiles d)) of
        Inl e \<Rightarrow> Inl e
      | Inr None \<Rightarrow> Inl (HTTPException 409 ''conflict'')
      | Inr (Some p) \<Rightarrow> Inr p)"

text \<open>\<open>bypass\<close>: debug mode or a placeholder key. \<open>session\<close>: what Stripe answers, \<open>None\<close> for an error.\<close>

definition start_verification :: "bool \<Rightarrow> string option \<Rightarrow> user \<Rightarrow> db \<Rightarrow> (string option \<times> db) result" where
  "start_verification bypass session u d =
     (case require_provider u d of
        Inl e \<Rightarrow> Inl e
      | Inr p \<Rightarrow>
          if bypass then Inr (None, d)
          else (case session of
                  None \<Rightarrow> Inl (HTTPException 502 ''service_unavailable'')
                | Some sid \<Rightarrow>
                    Inr (Some sid, on_row p (\<lambda>p. p\<lparr>verification_session := Some sid,
                           verification_status := (if verification_status p = ''not_submitted'' then ''pending''
                                                   else verification_status p)\<rparr>) d)))"

definition verification_status_of :: "user \<Rightarrow> db \<Rightarrow> (string \<times> bool) result" where
  "verification_status_of u d =
     (case require_provider u d of
        Inl e \<Rightarrow> Inl e
      | Inr p \<Rightarrow> Inr (if verification_status p = '''' then ''not_submitted'' else verification_status p,
                      verification_status p = ''pending'' \<and> verification_session p \<noteq> None))"

text \<open>What Stripe reports of a session, whose profile is looked up deleted or not; a session nobody has is ignored.\<close>

definition on_session :: "string \<Rightarrow> (provider_profile \<Rightarrow> provider_profile) \<Rightarrow> db \<Rightarrow> (unit \<times> db) result" where
  "on_session sid f d =
     (case scalar_one_or_none (filter (\<lambda>p. verification_session p = Some sid) (profiles d)) of
        Inl e \<Rightarrow> Inl e
      | Inr None \<Rightarrow> Inr ((), d)
      | Inr (Some _) \<Rightarrow> Inr ((), on_profiles (\<lambda>p. verification_session p = Some sid) f d))"

definition identity_verified :: "instant \<Rightarrow> string \<Rightarrow> db \<Rightarrow> (unit \<times> db) result" where
  "identity_verified now sid d =
     on_session sid (\<lambda>p. p\<lparr>verification_status := ''approved'', verification_reviewed_at := Some now, prof_active := True\<rparr>) d"

definition identity_requires_input :: "instant \<Rightarrow> string \<Rightarrow> string \<Rightarrow> db \<Rightarrow> (unit \<times> db) result" where
  "identity_requires_input now sid reason d =
     on_session sid (\<lambda>p. p\<lparr>verification_status := ''rejected'', verification_reviewed_at := Some now,
                           rejection_reason := Some reason, prof_active := False\<rparr>) d"

text \<open>
  What completing a registration as a detailer does to the provider tables; the sign-in it ends with is in
  the theory of the sign-in.
\<close>

definition complete_as_detailer :: "string list \<Rightarrow> uuid \<Rightarrow> user \<Rightarrow> db \<Rightarrow> (unit \<times> db) result" where
  "complete_as_detailer roles pid u d =
     (if \<not> user_active u \<or> user_deleted u then Inl (HTTPException 401 ''User not found.'')
      else if onboarding_completed u then Inl (HTTPException 403 ''Profile already completed.'')
      else (let d1 = (if ''detailer'' \<in> set roles then grant_role ''detailer'' (user_id u) d else d)
            in if get_profile d1 (user_id u) DETAILER = None
               then map_sum id (\<lambda>d2. ((), d2)) (add_profile (new_profile pid (user_id u)) d1)
               else Inr ((), d1)))"

section \<open>What an administrator does to a provider\<close>

definition review_provider :: "string \<Rightarrow> uuid \<Rightarrow> uuid \<Rightarrow> (provider_profile \<Rightarrow> provider_profile) \<Rightarrow> db \<Rightarrow> (unit \<times> db) result" where
  "review_provider action pid actor f d =
     (if rowcount (\<lambda>p. prof_id p = pid) (profiles d) = 0 then Inl (HTTPException 404 ''Provider not found.'')
      else Inr ((), log_profile action actor (on_profiles (\<lambda>p. prof_id p = pid) f d)))"

definition approve_verification :: "instant \<Rightarrow> uuid \<Rightarrow> uuid \<Rightarrow> db \<Rightarrow> (unit \<times> db) result" where
  "approve_verification now pid actor d =
     review_provider ''detailer_profile_updated'' pid actor
       (\<lambda>p. p\<lparr>verification_status := ''approved'', verification_reviewed_at := Some now, rejection_reason := None\<rparr>) d"

definition reject_verification :: "instant \<Rightarrow> uuid \<Rightarrow> string \<Rightarrow> uuid \<Rightarrow> db \<Rightarrow> (unit \<times> db) result" where
  "reject_verification now pid reason actor d =
     review_provider ''detailer_profile_updated'' pid actor
       (\<lambda>p. p\<lparr>verification_status := ''rejected'', verification_reviewed_at := Some now, rejection_reason := Some reason\<rparr>) d"

definition APPROVABLE_FROM :: "string set" where
  "APPROVABLE_FROM = {''submitted'', ''bg_check_pending'', ''docs_review'', ''suspended''}"

definition SUSPENDABLE_FROM :: "string set" where
  "SUSPENDABLE_FROM = {''approved''}"

definition move_application ::
  "string set \<Rightarrow> string \<Rightarrow> string option \<Rightarrow> instant \<Rightarrow> uuid \<Rightarrow> uuid \<Rightarrow> db \<Rightarrow> (unit \<times> db) result" where
  "move_application from target reason now pid actor d =
     (case find (\<lambda>p. prof_id p = pid) (profiles d) of
        None \<Rightarrow> Inl (HTTPException 404 ''Provider not found.'')
      | Some p \<Rightarrow>
          if application_status p \<notin> from then Inl (HTTPException 409 ''application_status'')
          else Inr ((), log_profile ''provider_status_changed'' actor
                 (on_row p (\<lambda>p. p\<lparr>application_status := target, verification_reviewed_at := Some now, rejection_reason := reason\<rparr>) d)))"

definition approve_detailer :: "instant \<Rightarrow> uuid \<Rightarrow> uuid \<Rightarrow> db \<Rightarrow> (unit \<times> db) result" where
  "approve_detailer now pid actor d = move_application APPROVABLE_FROM ''approved'' None now pid actor d"

definition suspend_detailer :: "instant \<Rightarrow> uuid \<Rightarrow> string \<Rightarrow> uuid \<Rightarrow> db \<Rightarrow> (unit \<times> db) result" where
  "suspend_detailer now pid reason actor d = move_application SUSPENDABLE_FROM ''suspended'' (Some reason) now pid actor d"

section \<open>Runs\<close>

datatype provider_request =
    Activate uuid user int
  | Patch_Own user profile_patch
  | Deactivate user
  | Toggle user bool
  | Submit instant user
  | Create uuid user provider_type int
  | Patch user uuid "int option" "bool option"
  | Delete user uuid
  | Start_Identity bool "string option" user
  | Approve_Identity instant uuid uuid
  | Reject_Identity instant uuid string uuid
  | Approve_Application instant uuid uuid
  | Suspend instant uuid string uuid
  | Legacy_Upsert uuid user int string "(string \<times> day_hours) list"
  | Legacy_Toggle user bool
  | Legacy_Submit instant uuid user string int bool "string option"
  | Stripe_Verified instant string
  | Stripe_Rejected instant string string
  | Complete_Registration uuid user

fun provider_handler :: "string list \<Rightarrow> city list \<Rightarrow> provider_request \<Rightarrow> db \<Rightarrow> (unit \<times> db) result" where
  "provider_handler roles cities (Activate pid u radius) d = activate roles pid u radius d"
| "provider_handler roles cities (Patch_Own u b) d = update_own_profile cities u b d"
| "provider_handler roles cities (Deactivate u) d = deactivate u d"
| "provider_handler roles cities (Toggle u accepting) d = set_accepting_bookings u accepting d"
| "provider_handler roles cities (Submit now u) d = submit_application now u d"
| "provider_handler roles cities (Create pid u ty radius) d = create_profile roles pid u ty radius d"
| "provider_handler roles cities (Patch u pid radius active) d = update_profile u pid radius active d"
| "provider_handler roles cities (Delete u pid) d = delete_profile u pid d"
| "provider_handler roles cities (Start_Identity bypass session u) d = map_sum id (apfst (\<lambda>_. ())) (start_verification bypass session u d)"
| "provider_handler roles cities (Approve_Identity now pid actor) d = approve_verification now pid actor d"
| "provider_handler roles cities (Reject_Identity now pid reason actor) d = reject_verification now pid reason actor d"
| "provider_handler roles cities (Approve_Application now pid actor) d = approve_detailer now pid actor d"
| "provider_handler roles cities (Suspend now pid reason actor) d = suspend_detailer now pid reason actor d"
| "provider_handler roles cities (Legacy_Upsert pid u radius tz hrs) d = upsert_my_profile pid u radius tz hrs d"
| "provider_handler roles cities (Legacy_Toggle u accepting) d = update_accepting_status u accepting d"
| "provider_handler roles cities (Legacy_Submit now pid u name dob consent sid) d =
     map_sum id (apfst (\<lambda>_. ())) (verification_submit now pid u name dob consent sid d)"
| "provider_handler roles cities (Stripe_Verified now sid) d = identity_verified now sid d"
| "provider_handler roles cities (Stripe_Rejected now sid reason) d = identity_requires_input now sid reason d"
| "provider_handler roles cities (Complete_Registration pid u) d = complete_as_detailer roles pid u d"

definition provider_step :: "string list \<Rightarrow> city list \<Rightarrow> provider_request \<Rightarrow> db \<Rightarrow> db" where
  "provider_step roles cities rq d = snd (run_request (provider_handler roles cities rq) d)"

lemma provider_step_keeps:
  assumes "P d" and "\<And>d'. provider_handler roles cities rq d = Inr ((), d') \<Longrightarrow> P d'"
  shows "P (provider_step roles cities rq d)"
  using assms by (auto simp: provider_step_def run_request_def split: sum.split prod.split)

lemma find_update_key:
  assumes "\<And>r. key (f r) = key r"
  shows "find (\<lambda>r. key r = k) (update_where q f rows) = map_option (\<lambda>r. if q r then f r else r) (find (\<lambda>r. key r = k) rows)"
  using assms by (induction rows) auto

lemma profiles_simps [simp]:
  "profiles (grant_role r uid d) = profiles d" "profiles (log_profile ac uid d) = profiles d"
  "profiles (on_profiles q f d) = update_where q f (profiles d)"
  by (simp_all add: grant_role_def log_profile_def on_profiles_def)

lemma get_profile_grant [simp]: "get_profile (grant_role r uid d) = get_profile d"
  by (simp add: get_profile_def fun_eq_iff)

section \<open>No active provider without a verified identity\<close>

text \<open>
  Where an identity is confirmed: an administrator approves the profile, or Stripe the session it is waiting
  for. The older endpoints that open or approve a profile with no such check, by their caller:
  \<open>opens_freely\<close>. A rejection by an administrator leaves the profile open; Stripe's closes it.
\<close>

fun confirms :: "provider_request \<Rightarrow> db \<Rightarrow> uuid \<Rightarrow> bool" where
  "confirms (Approve_Identity now k actor) d pid = (k = pid)"
| "confirms (Stripe_Verified now sid) d pid = (\<exists>q \<in> set (profiles d). prof_id q = pid \<and> verification_session q = Some sid)"
| "confirms _ d pid = False"

fun opens_freely :: "provider_request \<Rightarrow> uuid \<Rightarrow> bool" where
  "opens_freely (Legacy_Upsert k u radius tz hrs) uid = (user_id u = uid)"
| "opens_freely (Legacy_Toggle u accepting) uid = (accepting \<and> user_id u = uid)"
| "opens_freely (Legacy_Submit now k u name dob consent sid) uid = (sid = None \<and> user_id u = uid)"
| "opens_freely (Complete_Registration k u) uid = (user_id u = uid)"
| "opens_freely _ uid = False"

fun rejects :: "provider_request \<Rightarrow> uuid \<Rightarrow> bool" where
  "rejects (Reject_Identity now k reason actor) pid = (k = pid)"
| "rejects _ pid = False"

text \<open>What is known of a profile: excused by its id or its user, confirmed, rejected afterwards.\<close>

record clearance =
  excused :: "uuid \<Rightarrow> uuid \<Rightarrow> bool"
  confirmed :: "uuid \<Rightarrow> bool"
  rejected_once :: "uuid \<Rightarrow> bool"

definition row_ok :: "clearance \<Rightarrow> provider_profile \<Rightarrow> bool" where
  "row_ok c p \<longleftrightarrow> excused c (prof_id p) (prof_user p) \<or>
     (prof_active p \<longrightarrow> confirmed c (prof_id p) \<and> (verification_status p = ''approved'' \<or> rejected_once c (prof_id p))) \<and>
     (verification_status p = ''approved'' \<longrightarrow> confirmed c (prof_id p))"

definition kyc_gate :: "clearance \<Rightarrow> db \<Rightarrow> bool" where
  "kyc_gate c d \<longleftrightarrow> distinct (map prof_id (profiles d)) \<and> (\<forall>p \<in> set (profiles d). row_ok c p)"

text \<open>The request adds nothing that is not known.\<close>

definition covers :: "clearance \<Rightarrow> provider_request \<Rightarrow> db \<Rightarrow> bool" where
  "covers c rq d \<longleftrightarrow> (\<forall>uid pid. opens_freely rq uid \<longrightarrow> excused c pid uid) \<and> (\<forall>pid. confirms rq d pid \<longrightarrow> confirmed c pid) \<and>
     (\<forall>pid. rejects rq pid \<longrightarrow> rejected_once c pid)"

lemma kyc_gate_same: "profiles d' = profiles d \<Longrightarrow> kyc_gate c d' = kyc_gate c d"
  by (simp add: kyc_gate_def)

lemma kyc_gate_add: "add_profile p d = Inr d' \<Longrightarrow> kyc_gate c d \<Longrightarrow> row_ok c p \<Longrightarrow> kyc_gate c d'"
  by (auto simp: add_profile_def kyc_gate_def split: if_splits)

lemma kyc_gate_update:
  assumes "kyc_gate c d" and "\<And>p. prof_id (f p) = prof_id p"
    and "\<And>p. p \<in> set (profiles d) \<Longrightarrow> q p \<Longrightarrow> row_ok c p \<Longrightarrow> row_ok c (f p)"
  shows "kyc_gate c (on_profiles q f d)"
  using assms by (auto simp: kyc_gate_def set_update_where map_update_where)

lemma kyc_gate_row:
  assumes "kyc_gate c d" and "p \<in> set (profiles d)" and "\<And>p. prof_id (f p) = prof_id p" and "row_ok c p \<Longrightarrow> row_ok c (f p)"
  shows "kyc_gate c (on_row p f d)"
proof -
  have "q = p" if "q \<in> set (profiles d)" "prof_id q = prof_id p" for q
    using assms(1,2) that by (auto simp: kyc_gate_def distinct_map dest: inj_onD)
  with assms show ?thesis unfolding on_row_def by (intro kyc_gate_update) auto
qed

lemma get_profile_in: "get_profile d uid ty = Some p \<Longrightarrow> p \<in> set (profiles d)"
  and profile_by_id_in: "profile_by_id pid d = Some p \<Longrightarrow> p \<in> set (profiles d)"
  by (auto simp: get_profile_def profile_by_id_def find_Some_iff)

lemma get_own_profile_in: "get_own_profile u d = Inr p \<Longrightarrow> p \<in> set (profiles d)"
  and load_owned_in: "load_owned u pid d = Inr p \<Longrightarrow> p \<in> set (profiles d)"
  by (auto simp: get_own_profile_def load_owned_def dest: get_profile_in profile_by_id_in split: option.splits if_splits)

lemma require_provider_in: "require_provider u d = Inr p \<Longrightarrow> p \<in> set (profiles d) \<and> prof_user p = user_id u"
proof -
  assume "require_provider u d = Inr p"
  then have "filter (\<lambda>p. prof_user p = user_id u) (profiles d) = [p]"
    by (auto simp: require_provider_def dest: scalar_one_or_none_Some split: sum.splits option.splits)
  then have "p \<in> set (filter (\<lambda>p. prof_user p = user_id u) (profiles d))" by simp
  then show ?thesis by simp
qed

lemma get_or_create_InrE:
  assumes "get_or_create_profile pid u d = Inr (p, d')"
  obtains "d' = d" "p \<in> set (profiles d)" "prof_user p = user_id u"
  | "add_profile (new_profile pid (user_id u)) d = Inr d'" "p = new_profile pid (user_id u)"
proof (cases "scalar_one_or_none (filter (\<lambda>p. prof_user p = user_id u) (profiles d))")
  case (Inr x)
  show thesis
  proof (cases x)
    case (Some q)
    with Inr have "filter (\<lambda>p. prof_user p = user_id u) (profiles d) = [q]" by (simp add: scalar_one_or_none_Some)
    then have "q \<in> set (filter (\<lambda>p. prof_user p = user_id u) (profiles d))" by simp
    with assms Inr Some that(1) show thesis by (simp add: get_or_create_profile_def)
  next
    case None
    with assms Inr that(2) show thesis by (auto simp: get_or_create_profile_def map_sum_def split: sum.splits)
  qed
qed (use assms in \<open>simp add: get_or_create_profile_def\<close>)

lemma apply_patch_keeps [simp]:
  "prof_id (apply_patch b p) = prof_id p" "prof_user (apply_patch b p) = prof_user p" "prof_active (apply_patch b p) = prof_active p"
  "verification_status (apply_patch b p) = verification_status p" "application_status (apply_patch b p) = application_status p"
  by (simp_all add: apply_patch_def Let_def)

lemma submit_form_keeps [simp]:
  "prof_id (submit_form now p) = prof_id p" "prof_user (submit_form now p) = prof_user p" "prof_active (submit_form now p) = prof_active p"
  "verification_status (submit_form now p) = verification_status p"
  by (simp_all add: submit_form_def)

lemma submitted_keeps [simp]:
  "prof_id (submitted now name dob sid p) = prof_id p" "application_status (submitted now name dob sid p) = application_status p"
  by (simp_all add: submitted_def Let_def split: option.split)

lemma submitted_user [simp]: "prof_user (submitted now name dob sid p) = prof_user p"
  by (simp add: submitted_def Let_def split: option.split)

lemma submitted_row_ok: "sid \<noteq> None \<or> excused c (prof_id p) (prof_user p) \<Longrightarrow> row_ok c (submitted now name dob sid p)"
  by (cases sid) (simp_all add: row_ok_def, simp add: submitted_def Let_def)

lemma new_profile_columns [simp]:
  "prof_id (new_profile pid uid) = pid" "prof_user (new_profile pid uid) = uid" "prof_active (new_profile pid uid)"
  "verification_status (new_profile pid uid) = ''not_submitted''" "application_status (new_profile pid uid) = ''draft''"
  "prof_type (new_profile pid uid) = DETAILER" "\<not> prof_deleted (new_profile pid uid)"
  by (simp_all add: new_profile_def)

lemma fresh_profile_ok: "row_ok c ((new_profile pid uid)\<lparr>prof_active := False, prof_signup := s\<rparr>)"
  "row_ok c ((new_profile pid uid)\<lparr>prof_type := ty, prof_active := False, prof_signup := s\<rparr>)"
  by (simp_all add: row_ok_def new_profile_def)

lemma row_ok_keeps:
  "row_ok c p \<Longrightarrow> row_ok c (p\<lparr>prof_signup := s\<rparr>)" "row_ok c p \<Longrightarrow> row_ok c (apply_patch b p)"
  "row_ok c p \<Longrightarrow> row_ok c (p\<lparr>prof_active := False\<rparr>)" "row_ok c p \<Longrightarrow> row_ok c (submit_form now p)"
  "row_ok c p \<Longrightarrow> row_ok c (p\<lparr>prof_deleted := b'\<rparr>)"
  "row_ok c p \<Longrightarrow> row_ok c (p\<lparr>application_status := a, verification_reviewed_at := t, rejection_reason := r\<rparr>)"
  by (auto simp: row_ok_def)

lemma kyc_gate_handler:
  assumes "covers c rq d" and "kyc_gate c d" and "provider_handler roles cities rq d = Inr ((), d')"
  shows "kyc_gate c d'"
proof (cases rq)
  case (Activate pid u radius)
  let ?d = "grant_role ''detailer'' (user_id u) d"
  have g: "kyc_gate c ?d" using assms(2) by (simp add: kyc_gate_same [of ?d d])
  then have "kyc_gate c (on_row p (\<lambda>p. p\<lparr>prof_signup := (prof_signup p)\<lparr>service_radius_miles := radius\<rparr>\<rparr>) ?d)"
    if "get_profile d (user_id u) DETAILER = Some p" for p
    using get_profile_in [OF that] by (intro kyc_gate_row) (auto intro: row_ok_keeps)
  with assms(3) g Activate show ?thesis
    by (auto simp: activate_def Let_def kyc_gate_same [OF profiles_simps(2)] split: if_splits option.splits sum.splits
        dest!: kyc_gate_add [OF _ _ fresh_profile_ok(1)])
next
  case (Create pid u ty radius)
  let ?d = "grant_role (role_of_type ty) (user_id u) d"
  have "kyc_gate c ?d" using assms(2) by (simp add: kyc_gate_same [of ?d d])
  with assms(3) Create show ?thesis
    by (auto simp: create_profile_def kyc_gate_same [OF profiles_simps(2)] split: if_splits sum.splits
        dest!: kyc_gate_add [OF _ _ fresh_profile_ok(2)])
next
  case (Patch_Own u b)
  with assms(2,3) show ?thesis
    by (auto simp: update_own_profile_def kyc_gate_same [OF profiles_simps(2)] split: sum.splits
        intro!: kyc_gate_row row_ok_keeps dest: get_own_profile_in)
next
  case (Deactivate u)
  with assms(2,3) show ?thesis
    by (auto simp: deactivate_def kyc_gate_same [OF profiles_simps(2)] split: sum.splits
        intro!: kyc_gate_row row_ok_keeps dest: get_own_profile_in)
next
  case (Toggle u accepting)
  with assms(2,3) show ?thesis
    by (auto simp: set_accepting_bookings_def kyc_gate_same [OF profiles_simps(2)] row_ok_def split: sum.splits if_splits
        intro!: kyc_gate_row dest: get_own_profile_in)
next
  case (Submit now u)
  with assms(2,3) show ?thesis
    by (auto simp: submit_application_def kyc_gate_same [OF profiles_simps(2)] split: sum.splits if_splits
        intro!: kyc_gate_row row_ok_keeps dest: get_own_profile_in)
next
  case (Patch u pid radius active)
  with assms(2,3) show ?thesis
    by (auto simp: update_profile_def kyc_gate_same [OF profiles_simps(2)] row_ok_def given_def split: sum.splits if_splits option.splits
        intro!: kyc_gate_row dest: load_owned_in)
next
  case (Delete u pid)
  with assms(2,3) show ?thesis
    by (auto simp: delete_profile_def kyc_gate_same [OF profiles_simps(2)] split: sum.splits
        intro!: kyc_gate_row row_ok_keeps dest: load_owned_in)
next
  case (Start_Identity bypass session u)
  have "p \<in> set (profiles d)" if "require_provider u d = Inr p" for p using require_provider_in [OF that] by blast
  with Start_Identity assms(2,3) show ?thesis
    by (auto simp: start_verification_def row_ok_def map_sum_def split: sum.splits if_splits option.splits
        intro!: kyc_gate_row)
next
  case (Approve_Identity now pid actor)
  with assms(1-3) show ?thesis
    by (auto simp: approve_verification_def review_provider_def kyc_gate_same [OF profiles_simps(2)] row_ok_def covers_def split: if_splits
        intro!: kyc_gate_update)
next
  case (Approve_Application now pid actor)
  with assms(2,3) show ?thesis
    by (auto simp: approve_detailer_def move_application_def kyc_gate_same [OF profiles_simps(2)] find_Some_iff split: if_splits option.splits
        intro!: kyc_gate_row row_ok_keeps)
next
  case (Suspend now pid reason actor)
  with assms(2,3) show ?thesis
    by (auto simp: suspend_detailer_def move_application_def kyc_gate_same [OF profiles_simps(2)] find_Some_iff split: if_splits option.splits
        intro!: kyc_gate_row row_ok_keeps)
next
  case (Reject_Identity now pid reason actor)
  with assms(1-3) show ?thesis
    by (auto simp: reject_verification_def review_provider_def kyc_gate_same [OF profiles_simps(2)] row_ok_def covers_def split: if_splits
        intro!: kyc_gate_update)
next
  case (Legacy_Upsert pid u radius tz hrs)
  with assms(1) have e: "excused c k (user_id u)" for k by (simp add: covers_def)
  with Legacy_Upsert assms(2,3) show ?thesis
    by (auto simp: upsert_my_profile_def update_profile_columns_def kyc_gate_same [OF profiles_simps(2)] row_ok_def Let_def
        split: sum.splits option.splits intro!: kyc_gate_update dest!: kyc_gate_add)
next
  case (Legacy_Toggle u accepting)
  with assms(1) have e: "accepting \<Longrightarrow> excused c k (user_id u)" for k by (simp add: covers_def)
  with Legacy_Toggle assms(2,3) show ?thesis
    by (auto simp: update_accepting_status_def update_profile_columns_def row_ok_def split: sum.splits option.splits intro!: kyc_gate_update)
next
  case (Stripe_Verified now sid)
  with assms show ?thesis
    by (auto simp: identity_verified_def on_session_def row_ok_def covers_def split: sum.splits option.splits intro!: kyc_gate_update)
next
  case (Stripe_Rejected now sid reason)
  with assms show ?thesis
    by (auto simp: identity_requires_input_def on_session_def row_ok_def split: sum.splits option.splits intro!: kyc_gate_update)
next
  case (Complete_Registration pid u)
  let ?d = "if ''detailer'' \<in> set roles then grant_role ''detailer'' (user_id u) d else d"
  from Complete_Registration assms(1) have e: "row_ok c (new_profile pid (user_id u))" by (simp add: covers_def row_ok_def)
  have g: "kyc_gate c ?d" using assms(2) by (simp add: kyc_gate_same [of ?d d])
  from Complete_Registration assms(3) g show ?thesis
    by (auto simp: complete_as_detailer_def Let_def map_sum_def split: if_splits sum.splits dest: kyc_gate_add [OF _ _ e])
next
  case (Legacy_Submit now pid u name dob consent sid)
  with assms(1) have sid: "sid \<noteq> None \<or> excused c k (user_id u)" for k by (auto simp: covers_def)
  from assms(3) Legacy_Submit obtain p d1 where g: "get_or_create_profile pid u d = Inr (p, d1)"
      and d': "d' = on_row p (submitted now name dob sid) d1"
    by (auto simp: verification_submit_def map_sum_def split: if_splits sum.splits)
  from g show ?thesis
  proof (cases rule: get_or_create_InrE)
    case 1
    have "row_ok c (submitted now name dob sid p)" using sid [of "prof_id p"] 1(3) by (intro submitted_row_ok) simp
    with assms(2) 1 show ?thesis unfolding d' by (intro kyc_gate_row) auto
  next
    case 2
    then have "profiles d1 = profiles d @ [p]" "distinct (map prof_id (profiles d1))"
      using assms(2) by (auto simp: add_profile_def kyc_gate_def split: if_splits)
    moreover have "map prof_id (profiles d') = map prof_id (profiles d1)"
      by (simp add: d' on_row_def map_update_where)
    ultimately show ?thesis
      using assms(2) submitted_row_ok [of sid c p] sid [of "prof_id p"] 2(2) by (auto simp: kyc_gate_def d' on_row_def set_update_where)
  qed
qed

lemma kyc_gate_step: "covers c rq d \<Longrightarrow> kyc_gate c d \<Longrightarrow> kyc_gate c (provider_step roles cities rq d)"
  using kyc_gate_handler [of c rq d roles cities] by (intro provider_step_keeps [where P = "kyc_gate c"]) simp_all

text \<open>An event of a run: a request of it, with the state it met.\<close>

definition occurred :: "string list \<Rightarrow> city list \<Rightarrow> (provider_request \<Rightarrow> db \<Rightarrow> bool) \<Rightarrow> provider_request list \<Rightarrow> db \<Rightarrow> bool" where
  "occurred roles cities P rqs d \<longleftrightarrow> (\<exists>before rq after. rqs = before @ rq # after \<and> P rq (fold (provider_step roles cities) before d))"

lemma kyc_gate_run:
  assumes "\<And>before rq after. rqs = before @ rq # after \<Longrightarrow> covers c rq (fold (provider_step roles cities) before d)" and "kyc_gate c d"
  shows "kyc_gate c (fold (provider_step roles cities) rqs d)"
proof -
  have "kyc_gate c (fold (provider_step roles cities) xs d)" if "rqs = xs @ ys" for xs ys
    using that by (induction xs arbitrary: ys rule: rev_induct) (use assms in \<open>simp_all add: kyc_gate_step\<close>)
  then show ?thesis by simp
qed

text \<open>
  C23. Nobody takes bookings unchecked, but by the endpoints that do not check. Through any sequence of
  requests, rejections and the older endpoints included, a profile that takes bookings did so unapproved at
  the start, or its owner sent one of the four requests that skip the check (the older profile and status
  endpoints, the submission with no session, the completion of a registration), or its identity was
  confirmed: it was approved at the start, or by an administrator, or by Stripe for the session it was waiting
  for; and then it is still approved, unless an administrator has rejected it since.
\<close>

theorem active_only_when_verified:
  assumes "distinct (map prof_id (profiles d))"
    and "p \<in> set (profiles (fold (provider_step roles cities) rqs d))" and "prof_active p"
  shows "(\<exists>q \<in> set (profiles d). prof_id q = prof_id p \<and> prof_active q \<and> verification_status q \<noteq> ''approved'') \<or>
         (\<exists>rq \<in> set rqs. opens_freely rq (prof_user p)) \<or>
         ((\<exists>q \<in> set (profiles d). prof_id q = prof_id p \<and> verification_status q = ''approved'') \<or>
            occurred roles cities (\<lambda>rq d. confirms rq d (prof_id p)) rqs d) \<and>
         (verification_status p = ''approved'' \<or> (\<exists>rq \<in> set rqs. rejects rq (prof_id p)))"
proof -
  define c where "c = \<lparr>excused = (\<lambda>pid uid. (\<exists>q \<in> set (profiles d). prof_id q = pid \<and> prof_active q \<and> verification_status q \<noteq> ''approved'') \<or>
                                  (\<exists>rq \<in> set rqs. opens_freely rq uid)),
      confirmed = (\<lambda>pid. (\<exists>q \<in> set (profiles d). prof_id q = pid \<and> verification_status q = ''approved'') \<or>
                         occurred roles cities (\<lambda>rq d. confirms rq d pid) rqs d),
      rejected_once = (\<lambda>pid. \<exists>rq \<in> set rqs. rejects rq pid)\<rparr>"
  have "kyc_gate c d" using assms(1) by (auto simp: kyc_gate_def row_ok_def c_def)
  moreover have "covers c rq (fold (provider_step roles cities) before d)" if "rqs = before @ rq # after" for before rq after
    using that by (auto simp: covers_def c_def occurred_def)
  ultimately have "kyc_gate c (fold (provider_step roles cities) rqs d)" by (intro kyc_gate_run)
  with assms(2) have "row_ok c p" by (simp add: kyc_gate_def)
  with assms(3) show ?thesis by (auto simp: row_ok_def c_def)
qed

text \<open>The administrator's rejection of an open profile leaves it open; completing a registration opens one.\<close>

lemma rejected_profile_stays_open:
  assumes "reject_verification now pid reason actor d = Inr ((), d')" and "p \<in> set (profiles d)" and "prof_id p = pid" and "prof_active p"
  shows "\<exists>q \<in> set (profiles d'). prof_id q = pid \<and> prof_active q \<and> verification_status q = ''rejected''"
proof -
  let ?f = "\<lambda>p. p\<lparr>verification_status := ''rejected'', verification_reviewed_at := Some now, rejection_reason := Some reason\<rparr>"
  from assms(1) have "profiles d' = update_where (\<lambda>p. prof_id p = pid) ?f (profiles d)"
    by (auto simp: reject_verification_def review_provider_def split: if_splits)
  with assms(2-4) have "?f p \<in> set (profiles d')" by (auto simp: set_update_where intro!: bexI [of _ p])
  with assms(3,4) show ?thesis by (intro bexI [of _ "?f p"]) simp_all
qed

lemma registration_opens_profile:
  assumes "complete_as_detailer roles pid u d = Inr ((), d')" and "get_profile d (user_id u) DETAILER = None"
  shows "\<exists>q \<in> set (profiles d'). prof_user q = user_id u \<and> prof_active q \<and> verification_status q = ''not_submitted''"
  using assms by (auto simp: complete_as_detailer_def Let_def map_sum_def add_profile_def split: if_splits sum.splits)

text \<open>
  The identity check can be skipped: a submission that names no session approves and activates the
  caller's profile on the spot, in every environment.
\<close>

lemma anyone_can_self_approve:
  assumes "get_or_create_profile pid u d = Inr (p, d1)"
  shows "verification_submit now pid u name dob True None d = Inr (''approved'', on_row p (submitted now name dob None) d1) \<and>
         (\<exists>q \<in> set (profiles (on_row p (submitted now name dob None) d1)).
            prof_user q = user_id u \<and> verification_status q = ''approved'' \<and> prof_active q)"
proof -
  have "p \<in> set (profiles d1)" "prof_user p = user_id u"
    using assms by (auto elim!: get_or_create_InrE simp: add_profile_def split: if_splits)
  then have "submitted now name dob None p \<in> set (profiles (on_row p (submitted now name dob None) d1))"
    by (auto simp: on_row_def set_update_where)
  moreover have "prof_user (submitted now name dob None p) = prof_user p" "verification_status (submitted now name dob None p) = ''approved''"
    "prof_active (submitted now name dob None p)"
    by (simp_all add: submitted_def Let_def)
  ultimately show ?thesis using assms \<open>prof_user p = user_id u\<close>
    by (auto simp: verification_submit_def intro!: bexI [of _ "submitted now name dob None p"])
qed

text \<open>So can the older status toggle, which activates all profiles of a detailer whatever their state.\<close>

lemma old_toggle_skips_check:
  assumes "has_role u ''detailer''" and "get_profile d (user_id u) DETAILER = Some p"
  shows "\<exists>d'. update_accepting_status u True d = Inr ((), d') \<and>
           (\<forall>q \<in> set (profiles d'). prof_user q = user_id u \<and> \<not> prof_deleted q \<longrightarrow> prof_active q)"
proof -
  let ?d = "update_profile_columns (user_id u) (\<lambda>p. p\<lparr>prof_active := True\<rparr>) d"
  have "prof_active q" if "q \<in> set (profiles ?d)" "prof_user q = user_id u" "\<not> prof_deleted q" for q
  proof -
    from that(1) obtain r where "q = (if prof_user r = user_id u \<and> \<not> prof_deleted r then r\<lparr>prof_active := True\<rparr> else r)"
      by (auto simp only: update_profile_columns_def profiles_simps set_update_where)
    with that(2,3) show ?thesis by (cases "prof_user r = user_id u \<and> \<not> prof_deleted r") auto
  qed
  with assms show ?thesis by (simp add: update_accepting_status_def require_role_def)
qed

section \<open>The application moves along its machine\<close>

text \<open>The lifecycle the model's column promises, without the automation that does not exist yet.\<close>

inductive app_edge :: "string \<Rightarrow> string \<Rightarrow> bool" where
  submits: "app_edge ''draft'' ''submitted''"
| approves: "s \<in> {''submitted'', ''bg_check_pending'', ''docs_review'', ''suspended''} \<Longrightarrow> app_edge s ''approved''"
| suspends: "app_edge ''approved'' ''suspended''"

declare app_edge.intros [intro]
inductive_simps app_edge_from_draft: "app_edge ''draft'' s"

definition application_of :: "uuid \<Rightarrow> db \<Rightarrow> string option" where
  "application_of pid d = map_option application_status (find (\<lambda>p. prof_id p = pid) (profiles d))"

lemma application_of_same: "profiles d' = profiles d \<Longrightarrow> application_of pid d' = application_of pid d"
  by (simp add: application_of_def)

lemma application_of_log [simp]: "application_of pid (log_profile ac uid d) = application_of pid d"
  and application_of_grant [simp]: "application_of pid (grant_role r uid d) = application_of pid d"
  by (simp_all add: application_of_def)

lemma find_append_Some: "find q xs = Some x \<Longrightarrow> find q (xs @ ys) = Some x"
  by (induction xs) auto

lemma application_of_add: "add_profile p d = Inr d' \<Longrightarrow> application_of pid d = Some s \<Longrightarrow> application_of pid d' = Some s"
  by (auto simp: add_profile_def application_of_def find_append_Some split: if_splits)

lemma application_of_update:
  assumes "\<And>p. prof_id (f p) = prof_id p"
  shows "application_of pid (on_profiles q f d)
       = map_option (\<lambda>p. application_status (if q p then f p else p)) (find (\<lambda>p. prof_id p = pid) (profiles d))"
  using assms by (simp add: application_of_def find_update_key option.map_comp comp_def)

lemma application_of_keep:
  assumes "\<And>p. prof_id (f p) = prof_id p" and "\<And>p. application_status (f p) = application_status p"
  shows "application_of pid (on_profiles q f d) = application_of pid d" and "application_of pid (on_row r f d) = application_of pid d"
proof -
  have "(\<lambda>p. application_status (if b p then f p else p)) = application_status" for b using assms(2) by auto
  then have all: "application_of pid (on_profiles q f d) = application_of pid d" for q
    by (subst application_of_update [OF assms(1)]) (simp add: application_of_def)
  then show "application_of pid (on_profiles q f d) = application_of pid d" .
  show "application_of pid (on_row r f d) = application_of pid d" unfolding on_row_def by (rule all)
qed

text \<open>A move of one row from a status it is allowed in.\<close>

lemma application_of_move:
  assumes "find (\<lambda>p. prof_id p = k) (profiles d) = Some r" and "\<And>p. prof_id (f p) = prof_id p"
    and "\<And>p. application_status (f p) = target" and "application_of pid d = Some s" and "app_edge (application_status r) target"
  shows "\<exists>s'. application_of pid (on_row r f d) = Some s' \<and> (s' = s \<or> app_edge s s')"
proof -
  from assms(4) obtain p where p: "find (\<lambda>p. prof_id p = pid) (profiles d) = Some p" "application_status p = s"
    by (auto simp: application_of_def)
  from assms(1) p(1) have ids: "prof_id r = k" "prof_id p = pid" by (auto simp: find_Some_iff)
  show ?thesis
  proof (cases "pid = k")
    case True
    with assms(1) p have "r = p" by simp
    with p ids True assms show ?thesis by (simp add: on_row_def application_of_update)
  next
    case False
    with p ids assms show ?thesis by (simp add: on_row_def application_of_update)
  qed
qed

lemma find_own_row:
  assumes "get_own_profile u d = Inr p" and "distinct (map prof_id (profiles d))"
  shows "find (\<lambda>q. prof_id q = prof_id p) (profiles d) = Some p"
proof -
  have "find (\<lambda>q. k q = k x) xs = Some x" if "x \<in> set xs" "distinct (map k xs)" for k :: "provider_profile \<Rightarrow> uuid" and x xs
    using that by (induction xs) force+
  with assms get_own_profile_in show ?thesis by blast
qed

lemma distinct_ids_handler:
  assumes "distinct (map prof_id (profiles d))" and "provider_handler roles cities rq d = Inr ((), d')"
  shows "distinct (map prof_id (profiles d'))"
proof -
  have add: "distinct (map prof_id (profiles d''))" if "add_profile p d0 = Inr d''" "profiles d0 = profiles d" for p d0 d''
    using that assms(1) by (auto simp: add_profile_def split: if_splits)
  have upd: "map prof_id (profiles (on_profiles q f d0)) = map prof_id (profiles d0)" if "\<And>p. prof_id (f p) = prof_id p" for q f d0
    using that by (simp add: map_update_where)
  have row: "map prof_id (profiles (on_row p f d0)) = map prof_id (profiles d0)" if "\<And>p. prof_id (f p) = prof_id p" for p f d0
    using upd that by (simp add: on_row_def)
  have goc: "distinct (map prof_id (profiles d1))" if "get_or_create_profile pid u d = Inr (p, d1)" for pid u p d1
    using that assms(1) by (auto elim!: get_or_create_InrE dest: add)
  have "distinct (map prof_id (profiles d'))" if rq: "rq = Legacy_Submit now pid u name dob consent sid" for now pid u name dob consent sid
  proof -
    from assms(2) rq obtain p d1 where "get_or_create_profile pid u d = Inr (p, d1)" "d' = on_row p (submitted now name dob sid) d1"
      by (auto simp: verification_submit_def map_sum_def split: if_splits sum.splits)
    then show ?thesis by (simp add: row goc)
  qed
  then show ?thesis
    using assms
    by (cases rq)
      (auto simp: activate_def update_own_profile_def deactivate_def set_accepting_bookings_def submit_application_def
         create_profile_def update_profile_def delete_profile_def start_verification_def approve_verification_def
         reject_verification_def review_provider_def approve_detailer_def suspend_detailer_def move_application_def
         upsert_my_profile_def update_accepting_status_def update_profile_columns_def map_sum_def Let_def upd row map_update_where
         identity_verified_def identity_requires_input_def on_session_def complete_as_detailer_def
       split: if_splits option.splits sum.splits prod.splits dest: add)
qed

lemma application_step:
  assumes "distinct (map prof_id (profiles d))" and "application_of pid d = Some s"
    and "provider_handler roles cities rq d = Inr ((), d')"
  shows "\<exists>s'. application_of pid d' = Some s' \<and> (s' = s \<or> app_edge s s')"
proof (cases rq)
  case (Submit now u)
  with assms(3) obtain p where p: "get_own_profile u d = Inr p" "application_status p = ''draft''"
      and d': "d' = log_profile ''provider_profile_updated'' (user_id u) (on_row p (submit_form now) d)"
    by (auto simp: submit_application_def split: sum.splits if_splits)
  from application_of_move [OF find_own_row [OF p(1) assms(1)] _ _ assms(2), of "submit_form now" "''submitted''"] p(2)
  show ?thesis unfolding d' by (auto simp: submit_form_def)
next
  case (Approve_Application now k actor)
  with assms(3) obtain r where r: "find (\<lambda>p. prof_id p = k) (profiles d) = Some r" "application_status r \<in> APPROVABLE_FROM"
      and d': "d' = log_profile ''provider_status_changed'' actor (on_row r
        (\<lambda>p. p\<lparr>application_status := ''approved'', verification_reviewed_at := Some now, rejection_reason := None\<rparr>) d)"
    by (auto simp: approve_detailer_def move_application_def split: option.splits if_splits)
  from application_of_move [OF r(1) _ _ assms(2),
      of "\<lambda>p. p\<lparr>application_status := ''approved'', verification_reviewed_at := Some now, rejection_reason := None\<rparr>" "''approved''"] r(2)
  show ?thesis unfolding d' by (auto simp: APPROVABLE_FROM_def)
next
  case (Suspend now k reason actor)
  with assms(3) obtain r where r: "find (\<lambda>p. prof_id p = k) (profiles d) = Some r" "application_status r \<in> SUSPENDABLE_FROM"
      and d': "d' = log_profile ''provider_status_changed'' actor (on_row r
        (\<lambda>p. p\<lparr>application_status := ''suspended'', verification_reviewed_at := Some now, rejection_reason := Some reason\<rparr>) d)"
    by (auto simp: suspend_detailer_def move_application_def split: option.splits if_splits)
  from application_of_move [OF r(1) _ _ assms(2),
      of "\<lambda>p. p\<lparr>application_status := ''suspended'', verification_reviewed_at := Some now, rejection_reason := Some reason\<rparr>" "''suspended''"] r(2)
  show ?thesis unfolding d' by (auto simp: SUSPENDABLE_FROM_def)
next
  case (Legacy_Submit now k u name dob consent sid)
  with assms(3) obtain p d1 where g: "get_or_create_profile k u d = Inr (p, d1)" and d': "d' = on_row p (submitted now name dob sid) d1"
    by (auto simp: verification_submit_def map_sum_def split: if_splits sum.splits)
  from g assms(2) have "application_of pid d1 = Some s" by (auto elim!: get_or_create_InrE dest: application_of_add)
  then show ?thesis by (simp add: d' application_of_keep)
qed (use assms(2,3) in \<open>auto simp: activate_def update_own_profile_def deactivate_def set_accepting_bookings_def
       create_profile_def update_profile_def delete_profile_def start_verification_def approve_verification_def
       reject_verification_def review_provider_def upsert_my_profile_def update_accepting_status_def update_profile_columns_def
       identity_verified_def identity_requires_input_def on_session_def complete_as_detailer_def
       map_sum_def Let_def application_of_keep split: if_splits option.splits sum.splits prod.splits dest: application_of_add\<close>)

text \<open>
  C24. Through any sequence of requests, of the older endpoints and the administrator included, a
  provider's application moves along the edges of its machine, and its row is never lost.
\<close>

theorem application_follows_machine:
  assumes "distinct (map prof_id (profiles d))" and "application_of pid d = Some s"
  shows "\<exists>s'. application_of pid (fold (provider_step roles cities) rqs d) = Some s' \<and> app_edge\<^sup>*\<^sup>* s s'"
  using assms
proof (induction rqs arbitrary: d s)
  case (Cons rq rqs)
  let ?d = "provider_step roles cities rq d"
  have "distinct (map prof_id (profiles ?d))"
    using distinct_ids_handler [OF Cons.prems(1)] Cons.prems(1)
    by (intro provider_step_keeps [where P = "\<lambda>d. distinct (map prof_id (profiles d))"])
  moreover have "\<exists>s'. application_of pid ?d = Some s' \<and> (s' = s \<or> app_edge s s')"
    using application_step [OF Cons.prems] Cons.prems(2)
    by (intro provider_step_keeps [where P = "\<lambda>d. \<exists>s'. application_of pid d = Some s' \<and> (s' = s \<or> app_edge s s')"]) auto
  ultimately obtain s1 s2 where "s1 = s \<or> app_edge s s1" "application_of pid (fold (provider_step roles cities) rqs ?d) = Some s2" "app_edge\<^sup>*\<^sup>* s1 s2"
    using Cons.IH by metis
  then show ?case by (auto intro: converse_rtranclp_into_rtranclp)
qed simp

section \<open>The way to an active provider\<close>

text \<open>\<open>newest uid ps p d\<close>: \<open>p\<close> is the one profile of \<open>uid\<close>, the last of the table.\<close>

definition newest :: "uuid \<Rightarrow> provider_profile list \<Rightarrow> provider_profile \<Rightarrow> db \<Rightarrow> bool" where
  "newest uid ps p d \<longleftrightarrow> profiles d = ps @ [p] \<and> prof_user p = uid \<and> prof_type p = DETAILER \<and> \<not> prof_deleted p \<and>
     (\<forall>q \<in> set ps. prof_user q \<noteq> uid \<and> prof_id q \<noteq> prof_id p)"

lemma newest_get: "newest (user_id u) ps p d \<Longrightarrow> get_own_profile u d = Inr p"
proof -
  assume n: "newest (user_id u) ps p d"
  have "find r (ps @ [p]) = (if r p then Some p else None)" if "\<forall>q \<in> set ps. \<not> r q" for r
    using that by (induction ps) auto
  with n show ?thesis by (auto simp: newest_def get_own_profile_def get_profile_def)
qed

lemma newest_goc: "newest (user_id u) ps p d \<Longrightarrow> get_or_create_profile k u d = Inr (p, d)"
proof -
  assume "newest (user_id u) ps p d"
  then have "filter (\<lambda>q. prof_user q = user_id u) (profiles d) = [p]"
    by (auto simp: newest_def filter_empty_conv)
  then show ?thesis by (simp add: get_or_create_profile_def)
qed

lemma newest_update:
  assumes "newest uid ps p d" and "prof_id (f p) = prof_id p" "prof_user (f p) = prof_user p" "prof_type (f p) = prof_type p"
    "prof_deleted (f p) = prof_deleted p"
  shows "newest uid ps (f p) (on_profiles (\<lambda>q. prof_id q = prof_id p) f d)"
proof -
  let ?q = "\<lambda>q. prof_id q = prof_id p"
  from assms(1) have "\<forall>r \<in> set ps. \<not> ?q r" by (simp add: newest_def)
  then have "update_where ?q f ps = ps" by (rule update_where_none)
  then have "update_where ?q f (ps @ [p]) = ps @ [f p]" by (simp add: update_where_def)
  with assms show ?thesis by (simp add: newest_def)
qed

lemma newest_log: "newest uid ps p d \<Longrightarrow> newest uid ps p (log_profile ac actor d)"
  by (simp add: newest_def)

lemma newest_row:
  assumes "newest uid ps p d" and "prof_id (f p) = prof_id p" "prof_user (f p) = prof_user p" "prof_type (f p) = prof_type p"
    "prof_deleted (f p) = prof_deleted p"
  shows "newest uid ps (f p) (on_row p f d)"
  using assms unfolding on_row_def by (rule newest_update)

lemma newest_find: "newest uid ps p d \<Longrightarrow> find (\<lambda>q. prof_id q = prof_id p) (profiles d) = Some p"
proof -
  have "find r (ps @ [p]) = (if r p then Some p else None)" if "\<forall>q \<in> set ps. \<not> r q" for r
    using that by (induction ps) auto
  then show "newest uid ps p d \<Longrightarrow> ?thesis" by (auto simp: newest_def)
qed

definition full_signup :: "profile_patch \<Rightarrow> bool" where
  "full_signup b \<longleftrightarrow> (\<exists>r. pp_radius b = Some r \<and> r \<noteq> 0) \<and> (\<exists>t. pp_tank b = Some t \<and> t \<noteq> 0) \<and>
     (\<exists>s. pp_services b = Some s \<and> s \<noteq> []) \<and> (\<exists>n. pp_ssn b = Some n \<and> n \<noteq> '''') \<and> (\<exists>c. pp_city b = Some c \<and> c \<noteq> '''')"

definition signup_path :: "uuid \<Rightarrow> user \<Rightarrow> profile_patch \<Rightarrow> instant \<Rightarrow> string \<Rightarrow> int \<Rightarrow> string \<Rightarrow> uuid \<Rightarrow> provider_request list" where
  "signup_path pid u b now name dob sid admin =
     [Activate pid u 25, Patch_Own u b, Legacy_Submit now pid u name dob True (Some sid), Submit now u,
      Approve_Identity now pid admin, Approve_Application now pid admin, Toggle u True]"

lemma step_to:
  "provider_handler roles cities rq d = Inr ((), d') \<Longrightarrow> provider_step roles cities rq d = d'"
  by (simp add: provider_step_def run_request_def)

lemma activate_newest:
  assumes "''detailer'' \<in> set roles" and "\<forall>q \<in> set (profiles d). prof_user q \<noteq> user_id u \<and> prof_id q \<noteq> pid"
  shows "\<exists>p. newest (user_id u) (profiles d) p (provider_step roles cities (Activate pid u radius) d) \<and> prof_id p = pid \<and>
           application_status p = ''draft'' \<and> verification_status p = ''not_submitted''"
proof -
  let ?d = "grant_role ''detailer'' (user_id u) d"
  let ?p = "(new_profile pid (user_id u))\<lparr>prof_active := False, prof_signup := blank_signup\<lparr>service_radius_miles := radius\<rparr>\<rparr>"
  have none: "get_profile d (user_id u) DETAILER = None" using assms(2) by (auto simp: get_profile_def find_None_iff)
  have add: "add_profile ?p ?d = Inr (?d\<lparr>profiles := profiles d @ [?p]\<rparr>)"
    using assms(2) by (auto simp: add_profile_def slot_taken_def)
  have "provider_step roles cities (Activate pid u radius) d
      = log_profile ''provider_mode_switched'' (user_id u) (?d\<lparr>profiles := profiles d @ [?p]\<rparr>)"
    using assms(1) none add by (intro step_to) (simp add: activate_def Let_def)
  then show ?thesis using assms(2) by (intro exI [of _ ?p]) (auto simp: newest_def)
qed

lemma signup_submitted:
  assumes "''detailer'' \<in> set roles" and "\<forall>q \<in> set (profiles d). prof_user q \<noteq> user_id u \<and> prof_id q \<noteq> pid"
    and "full_signup b" and "assert_city_active cities (the (pp_city b)) = Inr ()" and "name \<noteq> ''''"
  shows "\<exists>p. newest (user_id u) (profiles d) p (fold (provider_step roles cities)
             [Activate pid u 25, Patch_Own u b, Legacy_Submit now pid u name dob True (Some sid), Submit now u] d) \<and>
           application_status p = ''submitted'' \<and> prof_id p = pid"
proof -
  let ?n = "newest (user_id u) (profiles d)"
  obtain p0 d0 where p0: "?n p0 d0" "d0 = provider_step roles cities (Activate pid u 25) d" "prof_id p0 = pid"
      "application_status p0 = ''draft''" using activate_newest [OF assms(1,2)] by blast
  define p1 where "p1 = apply_patch b p0"
  obtain d1 where d1: "d1 = provider_step roles cities (Patch_Own u b) d0" by blast
  have keys: "prof_user p1 = prof_user p0" "prof_type p1 = prof_type p0" "prof_deleted p1 = prof_deleted p0"
    by (simp_all add: p1_def apply_patch_def Let_def)
  have "case pp_city b of None \<Rightarrow> True | Some c \<Rightarrow> assert_city_active cities c = Inr ()"
    using assms(4) by (auto split: option.split)
  then have "d1 = log_profile ''provider_profile_updated'' (user_id u) (on_row p0 (apply_patch b) d0)"
    unfolding d1 using newest_get [OF p0(1)] by (intro step_to) (auto simp: update_own_profile_def split: option.splits)
  with newest_row [OF p0(1), of "apply_patch b"] keys have n1: "?n p1 d1" by (simp add: p1_def newest_log)
  define p2 where "p2 = submitted now name dob (Some sid) p1"
  obtain d2 where d2: "d2 = provider_step roles cities (Legacy_Submit now pid u name dob True (Some sid)) d1" by blast
  have "d2 = on_row p1 (submitted now name dob (Some sid)) d1"
    unfolding d2 using newest_goc [OF n1] by (intro step_to) (simp add: verification_submit_def map_sum_def)
  with newest_row [OF n1, of "submitted now name dob (Some sid)"] have n2: "?n p2 d2" by (simp add: p2_def submitted_def Let_def)
  have st2: "application_status p2 = ''draft''" "prof_id p2 = pid" using p0(3,4) by (simp_all add: p2_def p1_def)
  have full: "missing_fields (prof_signup p2) = []"
    using assms(3,5) by (auto simp: p2_def p1_def missing_fields_def submitted_def apply_patch_def full_signup_def given_def given_opt_def Let_def)
  define p3 where "p3 = submit_form now p2"
  obtain d3 where d3: "d3 = provider_step roles cities (Submit now u) d2" by blast
  have "d3 = log_profile ''provider_profile_updated'' (user_id u) (on_row p2 (submit_form now) d2)"
    unfolding d3 using newest_get [OF n2] st2 full by (intro step_to) (simp add: submit_application_def)
  with newest_row [OF n2, of "submit_form now"] have n3: "?n p3 d3" by (simp add: p3_def newest_log submit_form_def)
  have st3: "application_status p3 = ''submitted''" "prof_id p3 = pid" using st2 by (simp_all add: p3_def submit_form_def)
  show ?thesis using n3 st3 by (auto simp: d3 d2 d1 p0(2))
qed

lemma signup_path_completes:
  assumes "''detailer'' \<in> set roles" and "\<forall>q \<in> set (profiles d). prof_user q \<noteq> user_id u \<and> prof_id q \<noteq> pid"
    and "full_signup b" and "assert_city_active cities (the (pp_city b)) = Inr ()" and "name \<noteq> ''''"
  shows "\<exists>p. get_own_profile u (fold (provider_step roles cities) (signup_path pid u b now name dob sid admin) d) = Inr p \<and>
           prof_active p \<and> verification_status p = ''approved'' \<and> application_status p = ''approved''"
proof -
  let ?n = "newest (user_id u) (profiles d)"
  obtain p3 d3 where n3: "?n p3 d3" and st3: "application_status p3 = ''submitted''" "prof_id p3 = pid"
      and d3: "d3 = fold (provider_step roles cities)
             [Activate pid u 25, Patch_Own u b, Legacy_Submit now pid u name dob True (Some sid), Submit now u] d"
    using signup_submitted [OF assms] by blast
  let ?f = "\<lambda>p. p\<lparr>verification_status := ''approved'', verification_reviewed_at := Some now, rejection_reason := None\<rparr>"
  obtain d4 where d4: "d4 = provider_step roles cities (Approve_Identity now pid admin) d3" by blast
  have "rowcount (\<lambda>p. prof_id p = pid) (profiles d3) \<noteq> 0"
    using n3 st3(2) by (auto simp: newest_def rowcount_zero)
  then have "d4 = log_profile ''detailer_profile_updated'' admin (on_profiles (\<lambda>p. prof_id p = pid) ?f d3)"
    unfolding d4 by (intro step_to) (simp add: approve_verification_def review_provider_def)
  with newest_update [OF n3, of ?f] st3(2) have n4: "?n (?f p3) d4" by (simp add: newest_log)
  let ?g = "\<lambda>p. p\<lparr>application_status := ''approved'', verification_reviewed_at := Some now, rejection_reason := None\<rparr>"
  obtain d5 where d5: "d5 = provider_step roles cities (Approve_Application now pid admin) d4" by blast
  have "d5 = log_profile ''provider_status_changed'' admin (on_row (?f p3) ?g d4)"
    unfolding d5 using newest_find [OF n4] st3 by (intro step_to) (simp add: approve_detailer_def move_application_def APPROVABLE_FROM_def)
  with newest_row [OF n4, of ?g] have n5: "?n (?g (?f p3)) d5" by (simp add: newest_log)
  obtain d6 where d6: "d6 = provider_step roles cities (Toggle u True) d5" by blast
  have "d6 = (if prof_active p3 then d5 else log_profile ''provider_status_changed'' (user_id u)
      (on_row (?g (?f p3)) (\<lambda>p. p\<lparr>prof_active := True\<rparr>) d5))"
    unfolding d6 using newest_get [OF n5] by (intro step_to) (simp add: set_accepting_bookings_def)
  with newest_row [OF n5, of "\<lambda>p. p\<lparr>prof_active := True\<rparr>"] n5
  have "\<exists>p. ?n p d6 \<and> prof_active p \<and> verification_status p = ''approved'' \<and> application_status p = ''approved''"
    by (cases "prof_active p3", intro exI [of _ "?g (?f p3)"], simp, intro exI [of _ "(?g (?f p3))\<lparr>prof_active := True\<rparr>"])
      (simp add: newest_log)
  moreover have "fold (provider_step roles cities) (signup_path pid u b now name dob sid admin) d = d6"
    by (simp add: signup_path_def d6 d5 d4 d3)
  ultimately show ?thesis using newest_get by metis
qed

text \<open>
  C25. The way through is open: a user without a profile who activates, fills in every field, submits to
  identity verification and applies is an active, verified, approved provider once both have been
  approved and the status is switched on.
\<close>

theorem signup_completes:
  assumes "''detailer'' \<in> set roles" and "\<forall>q \<in> set (profiles d). prof_user q \<noteq> user_id u \<and> prof_id q \<noteq> pid"
    and "full_signup b" and "assert_city_active cities (the (pp_city b)) = Inr ()" and "name \<noteq> ''''"
  shows "\<exists>p. get_own_profile u (fold (provider_step roles cities) (signup_path pid u b now name dob sid admin) d) = Inr p \<and>
           prof_active p \<and> verification_status p = ''approved'' \<and> application_status p = ''approved''"
  using assms by (rule signup_path_completes)

section \<open>Dead ends\<close>

text \<open>Zero gallons stand for the customer's water, but a tank of size zero counts as a missing field.\<close>

lemma customer_water_never_submits:
  assumes "get_own_profile u d = Inr p" and "water_tank_gallons (prof_signup p) = Some 0"
  shows "\<exists>e. submit_application now u d = Inl e"
  using assms by (auto simp: submit_application_def missing_fields_def)

text \<open>A deleted profile keeps its slot: neither endpoint can bring the provider back.\<close>

lemma deleted_profile_keeps_slot:
  assumes "get_profile d (user_id u) DETAILER = Some p" and "distinct (map prof_id (profiles d))"
    and "delete_profile u (prof_id p) d = Inr ((), d')" and "''detailer'' \<in> set roles"
    and "\<forall>q \<in> set (profiles d). prof_user q = user_id u \<and> prof_type q = DETAILER \<longrightarrow> q = p"
  shows "create_profile roles k u DETAILER radius d' = Inl (HTTPException 409 ''already_exists'')"
    and "\<exists>c. activate roles k u radius d' = Inl (IntegrityError c)"
proof -
  let ?f = "\<lambda>q. q\<lparr>prof_deleted := True\<rparr>"
  have p: "p \<in> set (profiles d)" "prof_user p = user_id u" "prof_type p = DETAILER"
    using assms(1) by (auto simp: get_profile_def find_Some_iff)
  have same: "q = p" if "q \<in> set (profiles d)" "prof_id q = prof_id p" for q
    using p(1) that assms(2) by (auto simp: distinct_map dest: inj_onD)
  have "load_owned u (prof_id p) d = Inr q \<Longrightarrow> q = p" for q
    using same by (auto simp: load_owned_def profile_by_id_def find_Some_iff split: option.splits if_splits)
  with assms(3) have d': "profiles d' = update_where (\<lambda>q. prof_id q = prof_id p) ?f (profiles d)"
    by (auto simp: delete_profile_def on_row_def split: sum.splits)
  have gone: "?f p \<in> set (profiles d')" using p(1) unfolding d' set_update_where by force
  with p have taken: "slot_taken d' (user_id u) DETAILER" unfolding slot_taken_def by (intro bexI [of _ "?f p"]) simp_all
  have "prof_deleted q" if "q \<in> set (profiles d')" "prof_user q = user_id u" "prof_type q = DETAILER" for q
  proof -
    from that(1) obtain r where r: "r \<in> set (profiles d)" "q = (if prof_id r = prof_id p then ?f r else r)"
      unfolding d' set_update_where by blast
    have "prof_user r = user_id u \<and> prof_type r = DETAILER"
      using r(2) that(2,3) by (cases "prof_id r = prof_id p") simp_all
    with r(1) assms(5) have "r = p" by blast
    with r(2) show ?thesis by simp
  qed
  then have "get_profile d' (user_id u) DETAILER = None" by (auto simp: get_profile_def find_None_iff)
  with taken assms(4) show "\<exists>c. activate roles k u radius d' = Inl (IntegrityError c)"
    by (auto simp: activate_def add_profile_def slot_taken_def Let_def)
  from taken show "create_profile roles k u DETAILER radius d' = Inl (HTTPException 409 ''already_exists'')"
    by (simp add: create_profile_def)
qed

text \<open>A second profile makes every endpoint that asks for \<open>the\<close> profile of a user fail.\<close>

lemma two_profiles_break_guard:
  assumes "profiles d = xs @ p # ys @ q # zs" and "prof_user p = user_id u" and "prof_user q = user_id u"
  shows "require_provider u d = Inl MultipleResultsFound"
proof -
  have "\<exists>a b cs. filter (\<lambda>p. prof_user p = user_id u) (profiles d) = a # b # cs"
  proof (cases "filter (\<lambda>p. prof_user p = user_id u) xs")
    case Nil
    with assms show ?thesis by (cases "filter (\<lambda>p. prof_user p = user_id u) ys") auto
  next
    case (Cons a as)
    with assms show ?thesis by (cases as) auto
  qed
  then show ?thesis by (auto simp: require_provider_def)
qed

section \<open>Witnesses\<close>

definition provider_user :: user where
  "provider_user = \<lparr>user_id = 40, email = ''p@b.c'', password_hash = '''', role_names = [''detailer''], user_active = True,
     user_verified = True, failed_login_attempts = 0, locked_until = None, onboarding_completed = True,
     token_version = 1, stripe_customer_id = None, last_step_up_at = None, active_role = None, user_deleted = False\<rparr>"

definition signup_patch :: profile_patch where
  "signup_patch = \<lparr>pp_radius = Some 10, pp_hours = None, pp_city = Some ''fwa'', pp_tank = Some 40, pp_services = Some [''soap''],
                   pp_ssn = Some ''1234''\<rparr>"

definition demo_cities :: "city list" where
  "demo_cities = [(''fwa'', ''active'', False)]"

definition signup_start :: db where
  "signup_start = empty_db\<lparr>users := [provider_user]\<rparr>"

definition signup_run :: "provider_request list" where
  "signup_run = signup_path 41 provider_user signup_patch 5 ''Pat'' 700000 ''vs_1'' 1"

lemma signup_start_profiles: "profiles signup_start = []"
  by (simp add: signup_start_def empty_db_def)

theorem signup_completes_witness:
  "\<exists>p. get_own_profile provider_user (fold (provider_step [''detailer''] demo_cities) signup_run signup_start) = Inr p \<and>
     prof_active p \<and> verification_status p = ''approved''"
proof -
  have "full_signup signup_patch" "assert_city_active demo_cities (the (pp_city signup_patch)) = Inr ()"
    by (simp_all add: full_signup_def signup_patch_def assert_city_active_def demo_cities_def)
  from signup_completes [OF _ _ this, of "[''detailer'']" signup_start provider_user 41 "''Pat''" 5 700000 "''vs_1''" 1]
  show ?thesis by (auto simp: signup_start_profiles signup_run_def)
qed

theorem active_only_when_verified_witness:
  "\<exists>p \<in> set (profiles (fold (provider_step [''detailer''] demo_cities) signup_run signup_start)).
     prof_active p \<and> verification_status p = ''approved''"
proof -
  have "full_signup signup_patch" "assert_city_active demo_cities (the (pp_city signup_patch)) = Inr ()"
    by (simp_all add: full_signup_def signup_patch_def assert_city_active_def demo_cities_def)
  from signup_path_completes [OF _ _ this, of "[''detailer'']" signup_start provider_user 41 "''Pat''" 5 700000 "''vs_1''" 1]
  obtain p where "get_own_profile provider_user (fold (provider_step [''detailer''] demo_cities) signup_run signup_start) = Inr p"
    "prof_active p" by (auto simp: signup_start_profiles signup_run_def)
  then have p: "p \<in> set (profiles (fold (provider_step [''detailer''] demo_cities) signup_run signup_start))" "prof_active p"
    by (auto dest: get_own_profile_in)
  have n: "\<not> (\<exists>rq \<in> set signup_run. opens_freely rq (prof_user p))" "\<not> (\<exists>rq \<in> set signup_run. rejects rq (prof_id p))"
    by (simp_all add: signup_run_def signup_path_def)
  have "distinct (map prof_id (profiles signup_start))" by (simp add: signup_start_profiles)
  from active_only_when_verified [OF this p] n p show ?thesis by (auto simp: signup_start_profiles)
qed

theorem application_follows_machine_witness:
  "\<exists>s. application_of 70 (fold (provider_step [] []) [Suspend 5 70 ''x'' 1]
          (empty_db\<lparr>profiles := [(new_profile 70 40)\<lparr>application_status := ''approved''\<rparr>]\<rparr>)) = Some s \<and> app_edge\<^sup>*\<^sup>* ''approved'' s"
proof -
  let ?d = "empty_db\<lparr>profiles := [(new_profile 70 40)\<lparr>application_status := ''approved''\<rparr>]\<rparr>"
  have "distinct (map prof_id (profiles ?d))" "application_of 70 ?d = Some ''approved''"
    by (simp_all add: application_of_def)
  from application_follows_machine [OF this, of "[]" "[]" "[Suspend 5 70 ''x'' 1]"] show ?thesis by blast
qed

end
