(* ===== verification/Webhooks.thy ===== *)
theory Webhooks
  imports Saved_Items Payments Providers
begin

text \<open>
  The Stripe webhook (domains/payments/webhook_router.py): the signature, the table of processed events
  and the dispatcher over payments, identity checks and saved cards. \<open>verified\<close> is Stripe's
  verification of a signed payload, \<open>parse\<close> the reading of an unsigned one, \<open>fetch\<close> the adapter's
  look-up of a payment method; an event carries the fields its handler reads.
\<close>

section \<open>Events and state\<close>

datatype method_ref = By_Id string | Inline snapshot

datatype event_body =
    Payment_Succeeded string
  | Payment_Failed "string option option"
  | Identity_Verified string
  | Identity_Requires_Input string "(string option \<times> string option) option"
  | Identity_Canceled string
  | Method_Synced "string option" snapshot
  | Setup_Succeeded "string option" "method_ref option"
  | Method_Detached "string option"
  | Unhandled string

record stripe_event =
  ev_id :: string
  ev_body :: event_body

record hook_db =
  market :: db
  hook_wallet :: wallet
  processed :: "string list"

section \<open>Handlers\<close>

definition on_market :: "(unit \<times> db) result \<Rightarrow> hook_db \<Rightarrow> (unit \<times> hook_db) result" where
  "on_market r d = map_sum id (\<lambda>(_, m). ((), d\<lparr>market := m\<rparr>)) r"

definition handle_identity_verified :: "instant \<Rightarrow> string \<Rightarrow> hook_db \<Rightarrow> (unit \<times> hook_db) result" where
  "handle_identity_verified now sid d = on_market (identity_verified now sid (market d)) d"

text \<open>Python's \<open>strip\<close> with an argument.\<close>

definition strip_of :: "string \<Rightarrow> string \<Rightarrow> string" where
  "strip_of cs s = rev (dropWhile (\<lambda>c. c \<in> set cs) (rev (dropWhile (\<lambda>c. c \<in> set cs) s)))"

definition rejection_message :: "(string option \<times> string option) option \<Rightarrow> string" where
  "rejection_message err =
     (let (code, reason) = (case err of None \<Rightarrow> (''unknown'', '''')
                            | Some (c, r) \<Rightarrow> (case c of None \<Rightarrow> ''unknown'' | Some c \<Rightarrow> c, case r of None \<Rightarrow> '''' | Some r \<Rightarrow> r))
      in strip_of '': '' (code @ '': '' @ reason))"

definition handle_identity_requires_input ::
  "instant \<Rightarrow> string \<Rightarrow> (string option \<times> string option) option \<Rightarrow> hook_db \<Rightarrow> (unit \<times> hook_db) result" where
  "handle_identity_requires_input now sid err d =
     on_market (identity_requires_input now sid (rejection_message err) (market d)) d"

definition handle_payment_method_upsert ::
  "uuid \<Rightarrow> string option \<Rightarrow> snapshot \<Rightarrow> hook_db \<Rightarrow> (unit \<times> hook_db) result" where
  "handle_payment_method_upsert cid customer sn d =
     (if \<not> truthy customer then Inr ((), d)
      else (case scalar_one_or_none (filter (\<lambda>u. stripe_customer_id u = customer) (users (market d))) of
              Inl e \<Rightarrow> Inl e
            | Inr None \<Rightarrow> Inr ((), d)
            | Inr (Some u) \<Rightarrow>
                (case upsert_from_snapshot cid (user_id u) sn (hook_wallet d) of
                   Inl e \<Rightarrow> Inl e
                 | Inr (_, w) \<Rightarrow> Inr ((), d\<lparr>hook_wallet := w\<rparr>))))"

definition handle_setup_succeeded ::
  "(string \<Rightarrow> snapshot result) \<Rightarrow> uuid \<Rightarrow> string option \<Rightarrow> method_ref option \<Rightarrow> hook_db \<Rightarrow> (unit \<times> hook_db) result" where
  "handle_setup_succeeded fetch cid customer pm d =
     (case pm of
        None \<Rightarrow> Inr ((), d)
      | Some (Inline sn) \<Rightarrow> handle_payment_method_upsert cid customer sn d
      | Some (By_Id pid) \<Rightarrow>
          (case fetch pid of
             Inl _ \<Rightarrow> Inr ((), d)
           | Inr sn \<Rightarrow> handle_payment_method_upsert cid customer sn d))"

definition handle_payment_method_detached :: "instant \<Rightarrow> string option \<Rightarrow> hook_db \<Rightarrow> (unit \<times> hook_db) result" where
  "handle_payment_method_detached now pm d =
     (if \<not> truthy pm then Inr ((), d)
      else Inr ((), d\<lparr>hook_wallet := snd (mark_detached (the pm) now (hook_wallet d))\<rparr>))"

text \<open>A failed payment is only logged; a null \<open>last_payment_error\<close> has no \<open>get\<close>.\<close>

definition dispatch ::
  "(string \<Rightarrow> snapshot result) \<Rightarrow> instant \<Rightarrow> uuid \<Rightarrow> event_body \<Rightarrow> hook_db \<Rightarrow> (unit \<times> hook_db) result" where
  "dispatch fetch now cid b d =
     (case b of
        Payment_Succeeded pid \<Rightarrow> on_market (handle_payment_succeeded pid (market d)) d
      | Payment_Failed err \<Rightarrow> if err = Some None then Inl (AttributeError ''get'') else Inr ((), d)
      | Identity_Verified sid \<Rightarrow> handle_identity_verified now sid d
      | Identity_Requires_Input sid err \<Rightarrow> handle_identity_requires_input now sid err d
      | Identity_Canceled sid \<Rightarrow> Inr ((), d)
      | Method_Synced customer sn \<Rightarrow> handle_payment_method_upsert cid customer sn d
      | Setup_Succeeded customer pm \<Rightarrow> handle_setup_succeeded fetch cid customer pm d
      | Method_Detached pm \<Rightarrow> handle_payment_method_detached now pm d
      | Unhandled ty \<Rightarrow> Inr ((), d))"

definition is_placeholder :: "string \<Rightarrow> bool" where
  "is_placeholder s \<longleftrightarrow> s \<in> {''whsec_placeholder'', ''whsec_test_placeholder'', ''''}"

text \<open>
  The endpoint on an event: the insert that does nothing on a known identifier, then the dispatcher.
  What a handler raises rolls back the insert as well.
\<close>

definition handle_event ::
  "(string \<Rightarrow> snapshot result) \<Rightarrow> instant \<Rightarrow> uuid \<Rightarrow> stripe_event \<Rightarrow> hook_db \<Rightarrow> (unit \<times> hook_db) result" where
  "handle_event fetch now cid ev d =
     (if ev_id ev \<in> set (processed d) then Inr ((), d)
      else dispatch fetch now cid (ev_body ev) (d\<lparr>processed := processed d @ [ev_id ev]\<rparr>))"

definition stripe_webhook ::
  "settings \<Rightarrow> (string \<Rightarrow> string \<Rightarrow> string \<Rightarrow> stripe_event option) \<Rightarrow> (string \<Rightarrow> stripe_event option) \<Rightarrow>
   (string \<Rightarrow> snapshot result) \<Rightarrow> instant \<Rightarrow> uuid \<Rightarrow> string \<Rightarrow> string \<Rightarrow> hook_db \<Rightarrow> unit result \<times> hook_db" where
  "stripe_webhook st verified parse fetch now cid payload sig d =
     run_request (\<lambda>d.
       case (if is_placeholder (STRIPE_WEBHOOK_SECRET st) then parse payload
             else verified payload sig (STRIPE_WEBHOOK_SECRET st)) of
         None \<Rightarrow> Inl (HTTPException 400 ''Invalid payload.'')
       | Some ev \<Rightarrow> handle_event fetch now cid ev d) d"

section \<open>Exactly once\<close>

text \<open>
  Deliveries as Stripe makes them: at least once, with the moment and the fresh key of each. An event
  is processed when its identifier is in the table.
\<close>

type_synonym delivery = "instant \<times> uuid \<times> stripe_event"

definition deliver :: "(string \<Rightarrow> snapshot result) \<Rightarrow> delivery \<Rightarrow> hook_db \<Rightarrow> hook_db" where
  "deliver fetch dl d = (case dl of (now, cid, ev) \<Rightarrow> snd (run_request (handle_event fetch now cid ev) d))"

lemma on_market_processed: "on_market r d = Inr ((), d') \<Longrightarrow> processed d' = processed d"
  by (auto simp: on_market_def map_sum_def split: sum.splits)

lemma upsert_processed: "handle_payment_method_upsert cid customer sn d = Inr ((), d') \<Longrightarrow> processed d' = processed d"
  by (auto simp: handle_payment_method_upsert_def split: if_splits sum.splits option.splits)

lemma dispatch_processed: "dispatch fetch now cid b d = Inr ((), d') \<Longrightarrow> processed d' = processed d"
  by (auto simp: dispatch_def handle_identity_verified_def handle_identity_requires_input_def handle_setup_succeeded_def
      handle_payment_method_detached_def map_sum_def on_market_processed upsert_processed
      split: event_body.splits if_splits sum.splits option.splits method_ref.splits)

lemma handle_event_processed:
  "handle_event fetch now cid ev d = Inr ((), d') \<Longrightarrow> set (processed d') = insert (ev_id ev) (set (processed d))"
  by (auto simp: handle_event_def split: if_splits dest: dispatch_processed)

lemma deliver_keeps: "set (processed d) \<subseteq> set (processed (deliver fetch dl d))"
  by (auto simp: deliver_def run_request_def split: prod.split sum.split dest!: handle_event_processed)

lemma known_delivery: "ev_id (snd (snd dl)) \<in> set (processed d) \<Longrightarrow> deliver fetch dl d = d"
  by (cases dl) (simp add: deliver_def run_request_def handle_event_def)

interpretation events: guarded "deliver fetch" "\<lambda>_. True" "\<lambda>d :: hook_db. eid \<in> set (processed d)" for fetch eid
  using deliver_keeps by unfold_locales blast

text \<open>The handlers look neither at the table of processed events nor write to it.\<close>

lemma on_market_frame: "on_market r (d\<lparr>processed := ps\<rparr>) = map_sum id (\<lambda>(u, d'). (u, d'\<lparr>processed := ps\<rparr>)) (on_market r d)"
  by (cases r) (auto simp: on_market_def)

lemma upsert_frame:
  "handle_payment_method_upsert cid customer sn (d\<lparr>processed := ps\<rparr>) =
     map_sum id (\<lambda>(u, d'). (u, d'\<lparr>processed := ps\<rparr>)) (handle_payment_method_upsert cid customer sn d)"
  by (simp add: handle_payment_method_upsert_def split: sum.split option.split prod.split)

lemma dispatch_frame:
  "dispatch fetch now cid b (d\<lparr>processed := ps\<rparr>) = map_sum id (\<lambda>(u, d'). (u, d'\<lparr>processed := ps\<rparr>)) (dispatch fetch now cid b d)"
  by (cases b) (simp_all add: dispatch_def handle_identity_verified_def handle_identity_requires_input_def on_market_frame
      handle_setup_succeeded_def handle_payment_method_detached_def upsert_frame
      split: option.split method_ref.split sum.split)

text \<open>The effects of the handlers alone, one after the other; \<open>None\<close> if one of them raises.\<close>

fun dispatched :: "(string \<Rightarrow> snapshot result) \<Rightarrow> delivery list \<Rightarrow> hook_db \<Rightarrow> hook_db option" where
  "dispatched fetch [] d = Some d"
| "dispatched fetch ((now, cid, ev) # dls) d =
     (case dispatch fetch now cid (ev_body ev) d of Inl _ \<Rightarrow> None | Inr (_, d') \<Rightarrow> dispatched fetch dls d')"

lemma dispatched_frame: "dispatched fetch dls (d\<lparr>processed := ps\<rparr>) = map_option (\<lambda>d'. d'\<lparr>processed := ps\<rparr>) (dispatched fetch dls d)"
  by (induction fetch dls d rule: dispatched.induct) (simp_all add: dispatch_frame split: sum.split prod.split)

lemma deliver_cases:
  obtains (known) "ev_id ev \<in> set (processed d)" "deliver fetch (now, cid, ev) d = d"
  | (raised) e where "dispatch fetch now cid (ev_body ev) d = Inl e" "deliver fetch (now, cid, ev) d = d"
  | (fresh) d1 where "ev_id ev \<notin> set (processed d)" "dispatch fetch now cid (ev_body ev) d = Inr ((), d1)" "processed d1 = processed d"
      "deliver fetch (now, cid, ev) d = d1\<lparr>processed := processed d @ [ev_id ev]\<rparr>"
proof (cases "ev_id ev \<in> set (processed d)")
  case True
  then show thesis by (intro known) (simp_all add: known_delivery)
next
  case False
  show thesis
  proof (cases "dispatch fetch now cid (ev_body ev) d")
    case (Inl e)
    with False show thesis by (intro raised) (simp_all add: deliver_def run_request_def handle_event_def dispatch_frame)
  next
    case (Inr x)
    then obtain d1 where d1: "dispatch fetch now cid (ev_body ev) d = Inr ((), d1)" by (cases x) simp
    from False d1 show thesis
      by (intro fresh [OF False d1 dispatch_processed [OF d1]]) (simp add: deliver_def run_request_def handle_event_def dispatch_frame)
  qed
qed

text \<open>
  C19. At-least-once delivery is exactly-once processing, errors included. Whatever is delivered, in whatever
  order, how often, and whichever deliveries end in an error: some of the deliveries took effect, each event
  at most once and none that had been processed before; the final state is the effects of their handlers alone,
  in that order, and the table of processed events has grown by exactly their identifiers. No event is lost:
  a delivered event is processed in the end unless its handler raised at each of its deliveries.
\<close>

theorem webhook_exactly_once:
  "\<exists>eff. subseq eff dls \<and> distinct (map (\<lambda>(_, _, ev). ev_id ev) eff) \<and>
     set (map (\<lambda>(_, _, ev). ev_id ev) eff) \<inter> set (processed d) = {} \<and>
     dispatched fetch eff d = Some ((fold (deliver fetch) dls d)\<lparr>processed := processed d\<rparr>) \<and>
     processed (fold (deliver fetch) dls d) = processed d @ map (\<lambda>(_, _, ev). ev_id ev) eff \<and>
     (\<forall>before now cid ev after. dls = before @ (now, cid, ev) # after \<longrightarrow>
        ev_id ev \<in> set (processed (fold (deliver fetch) dls d)) \<or>
        (\<exists>e. dispatch fetch now cid (ev_body ev) (fold (deliver fetch) before d) = Inl e))"
proof (induction dls arbitrary: d)
  case Nil
  show ?case by (intro exI [of _ "[]"]) simp
next
  case (Cons dl dls)
  obtain now cid ev where dl: "dl = (now, cid, ev)" by (cases dl)
  let ?ids = "map (\<lambda>(_, _, ev). ev_id ev)"
  let ?d = "deliver fetch dl d" and ?r = "fold (deliver fetch) (dl # dls) d"
  from Cons.IH [of ?d] obtain eff where
      eff: "subseq eff dls" "distinct (?ids eff)" "set (?ids eff) \<inter> set (processed ?d) = {}"
        "dispatched fetch eff ?d = Some (?r\<lparr>processed := processed ?d\<rparr>)" "processed ?r = processed ?d @ ?ids eff"
      and all: "\<And>before now' cid' ev' after. dls = before @ (now', cid', ev') # after \<Longrightarrow> ev_id ev' \<in> set (processed ?r) \<or>
        (\<exists>e. dispatch fetch now' cid' (ev_body ev') (fold (deliver fetch) before ?d) = Inl e)"
    by auto
  have lost: "ev_id ev' \<in> set (processed ?r) \<or> (\<exists>e. dispatch fetch now' cid' (ev_body ev') (fold (deliver fetch) before d) = Inl e)"
    if "dl # dls = before @ (now', cid', ev') # after"
      and "ev_id ev \<in> set (processed ?r) \<or> (\<exists>e. dispatch fetch now cid (ev_body ev) d = Inl e)" for before now' cid' ev' after
    using that all by (cases before) (auto simp: dl)
  have kept: ?case if "?d = d" and "ev_id ev \<in> set (processed d) \<or> (\<exists>e. dispatch fetch now cid (ev_body ev) d = Inl e)"
  proof -
    from eff(5) that have "ev_id ev \<in> set (processed ?r) \<or> (\<exists>e. dispatch fetch now cid (ev_body ev) d = Inl e)" by auto
    with lost have "\<forall>before now cid ev after. dl # dls = before @ (now, cid, ev) # after \<longrightarrow> ev_id ev \<in> set (processed ?r) \<or>
        (\<exists>e. dispatch fetch now cid (ev_body ev) (fold (deliver fetch) before d) = Inl e)" by blast
    moreover have "subseq eff (dl # dls)" using eff(1) by (rule list_emb_Cons)
    ultimately show ?thesis using eff(2-5) unfolding that(1) by blast
  qed
  show ?case
  proof (cases rule: deliver_cases [of ev d fetch now cid])
    case known
    then show ?thesis by (intro kept) (simp_all add: dl)
  next
    case (raised e)
    then show ?thesis by (intro kept) (simp_all add: dl)
  next
    case (fresh d1)
    have d: "?d = d1\<lparr>processed := processed d @ [ev_id ev]\<rparr>" by (simp add: dl fresh)
    have pd: "processed ?d = processed d @ [ev_id ev]" by (simp add: d)
    have i: "?ids (dl # eff) = ev_id ev # ?ids eff" by (simp add: dl)
    have d1: "d1 = ?d\<lparr>processed := processed d\<rparr>" using fresh(3) by (simp add: d)
    have "dispatched fetch eff d1 = Some (?r\<lparr>processed := processed d\<rparr>)"
      unfolding d1 dispatched_frame eff(4) by simp
    then have "dispatched fetch (dl # eff) d = Some (?r\<lparr>processed := processed d\<rparr>)" by (simp add: dl fresh(2))
    moreover have "subseq (dl # eff) (dl # dls)" using eff(1) by simp
    moreover have "distinct (?ids (dl # eff))" "set (?ids (dl # eff)) \<inter> set (processed d) = {}" "processed ?r = processed d @ ?ids (dl # eff)"
      using eff(2,3,5) fresh(1) unfolding i pd by auto
    moreover have "ev_id ev \<in> set (processed ?r)" unfolding eff(5) d by simp
    with lost have "\<forall>before now cid ev after. dl # dls = before @ (now, cid, ev) # after \<longrightarrow> ev_id ev \<in> set (processed ?r) \<or>
        (\<exists>e. dispatch fetch now cid (ev_body ev) (fold (deliver fetch) before d) = Inl e)" by blast
    ultimately show ?thesis by blast
  qed
qed

text \<open>
  A delivery is all or nothing: one that is answered with an error has changed nothing, the mark of
  the event included, so that its redelivery is processed; one that is accepted is never processed
  again, whatever is delivered in between.
\<close>

lemma webhook_all_or_nothing:
  assumes "(if is_placeholder (STRIPE_WEBHOOK_SECRET st) then parse payload
            else verified payload sig (STRIPE_WEBHOOK_SECRET st)) = Some ev"
    and "stripe_webhook st verified parse fetch now cid payload sig d = (r, d1)"
  shows "case r of
           Inl _ \<Rightarrow> d1 = d
         | Inr _ \<Rightarrow> stripe_webhook st verified parse fetch now' cid' payload sig (fold (deliver fetch) dls d1)
                  = (Inr (), fold (deliver fetch) dls d1)"
proof (cases "handle_event fetch now cid ev d")
  case (Inl e)
  with assms show ?thesis by (auto simp: stripe_webhook_def run_request_def)
next
  case (Inr x)
  then obtain d' where h: "handle_event fetch now cid ev d = Inr ((), d')" by (cases x) simp
  with assms have r: "r = Inr ()" "d1 = d'" by (auto simp: stripe_webhook_def run_request_def)
  have "ev_id ev \<in> set (processed (fold (deliver fetch) dls d'))"
    using handle_event_processed [OF h] by (intro events.run_inv) simp_all
  with assms(1) r show ?thesis by (simp add: stripe_webhook_def run_request_def handle_event_def)
qed

text \<open>Approval clears neither an earlier rejection's reason nor waits for it: the last event wins.\<close>

lemma approval_keeps_rejection_reason:
  assumes "handle_identity_verified now sid d = Inr ((), d')" and "p \<in> set (profiles (market d))"
    and "verification_session p = Some sid"
  shows "\<exists>q \<in> set (profiles (market d')). prof_user q = prof_user p \<and> verification_status q = ''approved'' \<and>
           rejection_reason q = rejection_reason p"
proof -
  have "filter (\<lambda>p. verification_session p = Some sid) (profiles (market d)) \<noteq> []"
    using assms(2,3) by (auto simp: filter_empty_conv)
  with assms(1) have d': "profiles (market d') = update_where (\<lambda>p. verification_session p = Some sid)
      (\<lambda>p. p\<lparr>verification_status := ''approved'', verification_reviewed_at := Some now, prof_active := True\<rparr>) (profiles (market d))"
    by (cases "filter (\<lambda>p. verification_session p = Some sid) (profiles (market d))" rule: scalar_one_or_none.cases)
       (auto simp: handle_identity_verified_def on_market_def identity_verified_def on_session_def)
  show ?thesis
    unfolding d' by (rule bexI [of _ "p\<lparr>verification_status := ''approved'', verification_reviewed_at := Some now, prof_active := True\<rparr>"])
      (use assms(2,3) in \<open>auto simp: set_update_where intro!: bexI [of _ p]\<close>)
qed

section \<open>Witnesses\<close>

definition hook_demo :: hook_db where
  "hook_demo = \<lparr>market = empty_db, hook_wallet = empty_wallet, processed = []\<rparr>"

definition paid_event :: stripe_event where
  "paid_event = \<lparr>ev_id = ''evt_1'', ev_body = Payment_Succeeded ''pi_1''\<rparr>"

definition broken_event :: stripe_event where
  "broken_event = \<lparr>ev_id = ''evt_0'', ev_body = Payment_Failed (Some None)\<rparr>"

text \<open>A delivery that raises, one event twice: the run takes effect once.\<close>

definition demo_run :: "delivery list" where
  "demo_run = [(0, 1, broken_event), (1, 2, paid_event), (5, 3, paid_event)]"

theorem webhook_exactly_once_witness:
  "\<exists>eff. subseq eff demo_run \<and> map (\<lambda>(_, _, ev). ev_id ev) eff = [''evt_1''] \<and>
     dispatched (\<lambda>_. Inl KeyError) eff hook_demo = Some ((fold (deliver (\<lambda>_. Inl KeyError)) demo_run hook_demo)\<lparr>processed := []\<rparr>)"
proof -
  have "processed (fold (deliver (\<lambda>_. Inl KeyError)) demo_run hook_demo) = [''evt_1'']" "processed hook_demo = []"
    by (simp_all add: demo_run_def deliver_def run_request_def handle_event_def paid_event_def broken_event_def hook_demo_def dispatch_def
        on_market_def handle_payment_succeeded_def empty_db_def)
  with webhook_exactly_once [of demo_run hook_demo "\<lambda>_. Inl KeyError"] show ?thesis by (elim exE conjE) (rule exI, intro conjI, assumption, simp_all)
qed

end
