(* ===== verification/Provider_Files.thy ===== *)
theory Provider_Files
  imports Providers Ledger
begin

text \<open>
  A provider's documents (domains/users/provider_documents_service.py) and portfolio
  (domains/users/provider_portfolio_service.py), the reminders of expiring documents
  (workers/document_expiry_checker.py) and the badges (workers/achievement_evaluator.py). A bucket maps
  a key to the content type and size of its object; what a handler deletes there is not rolled back. A
  date is its ordinal. Signing a URL changes nothing and is left out.
\<close>

section \<open>State\<close>

type_synonym bucket = "string \<Rightarrow> (string option \<times> int) option"

record document =
  doc_id :: uuid
  doc_user :: uuid
  doc_type :: string
  doc_key :: string
  doc_mime :: "string option"
  doc_size :: int
  doc_expires :: "int option"
  doc_deleted :: bool

record portfolio_photo =
  ph_id :: uuid
  ph_user :: uuid
  ph_key :: string
  ph_sort :: int

record file_db =
  provider_side :: db
  documents :: "document list"
  photos :: "portfolio_photo list"
  private_docs :: bucket
  public_assets :: bucket
  reminders :: "(uuid \<times> int) list"
  badges :: "(uuid \<times> string) list"

section \<open>Documents\<close>

definition MAX_DOCUMENT_SIZE_BYTES :: int where "MAX_DOCUMENT_SIZE_BYTES = 20 * 1024 * 1024"

definition ALLOWED_DOCUMENT_MIME_TYPES :: "string set" where
  "ALLOWED_DOCUMENT_MIME_TYPES = {''image/jpeg'', ''image/png'', ''application/pdf''}"

definition VALID_DOCUMENT_TYPES :: "string set" where
  "VALID_DOCUMENT_TYPES = {''insurance'', ''business_license'', ''certification'', ''w9'', ''other''}"

definition invalid :: exn where "invalid = HTTPException 422 ''validation_failed''"
definition too_large :: exn where "too_large = HTTPException 413 ''payload_too_large''"
definition not_there :: exn where "not_there = HTTPException 404 ''resource_not_found''"
definition forbidden_key :: exn where "forbidden_key = HTTPException 403 ''permission_denied''"

definition document_ext :: "string \<Rightarrow> string" where
  "document_ext mime =
     (if mime = ''image/jpeg'' then ''jpg'' else if mime = ''image/png'' then ''png''
      else if mime = ''application/pdf'' then ''pdf'' else ''bin'')"

definition document_prefix :: "user \<Rightarrow> string" where
  "document_prefix u = ''documents/'' @ uuid_str (user_id u) @ ''/''"

text \<open>The key a client may upload to; \<open>token\<close> is drawn at random.\<close>

definition prepare_document :: "string \<Rightarrow> user \<Rightarrow> string \<Rightarrow> string \<Rightarrow> int \<Rightarrow> file_db \<Rightarrow> string result" where
  "prepare_document token u ty mime sz f =
     (case require_provider u (provider_side f) of
        Inl e \<Rightarrow> Inl e
      | Inr _ \<Rightarrow>
          if ty \<notin> VALID_DOCUMENT_TYPES then Inl invalid
          else if mime \<notin> ALLOWED_DOCUMENT_MIME_TYPES then Inl invalid
          else if sz \<le> 0 \<or> MAX_DOCUMENT_SIZE_BYTES < sz then Inl invalid
          else Inr (document_prefix u @ ty @ ''/'' @ token @ ''.'' @ document_ext mime))"

text \<open>An empty content type counts as none.\<close>

definition mime_refused :: "string option \<Rightarrow> string set \<Rightarrow> bool" where
  "mime_refused mime allowed = (case mime of None \<Rightarrow> False | Some m \<Rightarrow> m \<noteq> '''' \<and> m \<notin> allowed)"

definition log_document :: "string \<Rightarrow> user \<Rightarrow> file_db \<Rightarrow> file_db" where
  "log_document action u f = f\<lparr>provider_side := audit_log action ''document'' (Some (user_id u)) [] (provider_side f)\<rparr>"

definition confirm_document ::
  "uuid \<Rightarrow> user \<Rightarrow> string \<Rightarrow> string \<Rightarrow> int option \<Rightarrow> file_db \<Rightarrow> uuid result \<times> file_db" where
  "confirm_document did u key ty expires f =
     (case require_provider u (provider_side f) of
        Inl e \<Rightarrow> (Inl e, f)
      | Inr _ \<Rightarrow>
          if ty \<notin> VALID_DOCUMENT_TYPES then (Inl invalid, f)
          else if \<not> starts_with (document_prefix u) key then (Inl forbidden_key, f)
          else (case private_docs f key of
                  None \<Rightarrow> (Inl not_there, f)
                | Some (mime, sz) \<Rightarrow>
                    if mime_refused mime ALLOWED_DOCUMENT_MIME_TYPES
                    then (Inl invalid, f\<lparr>private_docs := (private_docs f)(key := None)\<rparr>)
                    else if MAX_DOCUMENT_SIZE_BYTES < sz
                    then (Inl too_large, f\<lparr>private_docs := (private_docs f)(key := None)\<rparr>)
                    else if did \<in> doc_id ` set (documents f) then (Inl (IntegrityError ''documents_pkey''), f)
                    else (Inr did, log_document ''document_uploaded'' u
                           (f\<lparr>documents := documents f @ [\<lparr>doc_id = did, doc_user = user_id u, doc_type = ty, doc_key = key,
                              doc_mime = mime, doc_size = sz, doc_expires = expires, doc_deleted = False\<rparr>]\<rparr>))))"

definition get_document :: "user \<Rightarrow> uuid \<Rightarrow> file_db \<Rightarrow> document option" where
  "get_document u did f = find (\<lambda>x. doc_id x = did \<and> doc_user x = user_id u \<and> \<not> doc_deleted x) (documents f)"

definition list_documents :: "user \<Rightarrow> file_db \<Rightarrow> document list result" where
  "list_documents u f =
     map_sum id (\<lambda>_. filter (\<lambda>x. doc_user x = user_id u \<and> \<not> doc_deleted x) (documents f)) (require_provider u (provider_side f))"

definition delete_document :: "user \<Rightarrow> uuid \<Rightarrow> file_db \<Rightarrow> unit result \<times> file_db" where
  "delete_document u did f =
     (case require_provider u (provider_side f) of
        Inl e \<Rightarrow> (Inl e, f)
      | Inr _ \<Rightarrow>
          (case get_document u did f of
             None \<Rightarrow> (Inl not_there, f)
           | Some x \<Rightarrow>
               (Inr (), log_document ''document_deleted'' u
                  (f\<lparr>documents := update_where (\<lambda>y. doc_id y = did) (\<lambda>y. y\<lparr>doc_deleted := True\<rparr>) (documents f),
                    private_docs := (private_docs f)(doc_key x := None)\<rparr>))))"

section \<open>Portfolio\<close>

definition MAX_PORTFOLIO_PHOTO_SIZE_BYTES :: int where "MAX_PORTFOLIO_PHOTO_SIZE_BYTES = 8 * 1024 * 1024"
definition MAX_PORTFOLIO_PHOTOS_PER_PROVIDER :: nat where "MAX_PORTFOLIO_PHOTOS_PER_PROVIDER = 30"

definition ALLOWED_PORTFOLIO_MIME_TYPES :: "string set" where
  "ALLOWED_PORTFOLIO_MIME_TYPES = {''image/jpeg'', ''image/png'', ''image/webp''}"

definition portfolio_full :: exn where "portfolio_full = HTTPException 409 ''conflict''"

definition photo_count :: "user \<Rightarrow> file_db \<Rightarrow> nat" where
  "photo_count u f = rowcount (\<lambda>p. ph_user p = user_id u) (photos f)"

definition portfolio_prefix :: "user \<Rightarrow> string" where
  "portfolio_prefix u = ''provider_portfolio/'' @ uuid_str (user_id u) @ ''/''"

definition photo_ext :: "string \<Rightarrow> string" where
  "photo_ext mime =
     (if mime = ''image/jpeg'' then ''jpg'' else if mime = ''image/png'' then ''png''
      else if mime = ''image/webp'' then ''webp'' else ''bin'')"

definition prepare_photo :: "string \<Rightarrow> user \<Rightarrow> string \<Rightarrow> int \<Rightarrow> file_db \<Rightarrow> string result" where
  "prepare_photo token u mime sz f =
     (case require_provider u (provider_side f) of
        Inl e \<Rightarrow> Inl e
      | Inr _ \<Rightarrow>
          if mime \<notin> ALLOWED_PORTFOLIO_MIME_TYPES then Inl invalid
          else if sz \<le> 0 \<or> MAX_PORTFOLIO_PHOTO_SIZE_BYTES < sz then Inl invalid
          else if MAX_PORTFOLIO_PHOTOS_PER_PROVIDER \<le> photo_count u f then Inl portfolio_full
          else Inr (portfolio_prefix u @ token @ ''.'' @ photo_ext mime))"

definition drop_object :: "string \<Rightarrow> file_db \<Rightarrow> file_db" where
  "drop_object key f = f\<lparr>public_assets := (public_assets f)(key := None)\<rparr>"

definition confirm_photo :: "uuid \<Rightarrow> user \<Rightarrow> string \<Rightarrow> file_db \<Rightarrow> uuid result \<times> file_db" where
  "confirm_photo pid u key f =
     (case require_provider u (provider_side f) of
        Inl e \<Rightarrow> (Inl e, f)
      | Inr _ \<Rightarrow>
          if \<not> starts_with (portfolio_prefix u) key then (Inl forbidden_key, f)
          else (case public_assets f key of
                  None \<Rightarrow> (Inl not_there, f)
                | Some (mime, sz) \<Rightarrow>
                    if mime_refused mime ALLOWED_PORTFOLIO_MIME_TYPES then (Inl invalid, drop_object key f)
                    else if MAX_PORTFOLIO_PHOTO_SIZE_BYTES < sz then (Inl too_large, drop_object key f)
                    else if MAX_PORTFOLIO_PHOTOS_PER_PROVIDER \<le> photo_count u f then (Inl portfolio_full, drop_object key f)
                    else if pid \<in> ph_id ` set (photos f) then (Inl (IntegrityError ''provider_portfolio_photos_pkey''), f)
                    else (Inr pid, f\<lparr>photos := photos f @ [\<lparr>ph_id = pid, ph_user = user_id u, ph_key = key,
                                                             ph_sort = int (photo_count u f)\<rparr>]\<rparr>)))"

text \<open>By \<open>sort_order\<close>, then by time: rows are in order of creation and the sort is stable.\<close>

definition list_photos :: "user \<Rightarrow> file_db \<Rightarrow> portfolio_photo list result" where
  "list_photos u f =
     map_sum id (\<lambda>_. sort_key ph_sort (filter (\<lambda>p. ph_user p = user_id u) (photos f))) (require_provider u (provider_side f))"

definition delete_photo :: "user \<Rightarrow> uuid \<Rightarrow> file_db \<Rightarrow> unit result \<times> file_db" where
  "delete_photo u pid f =
     (case require_provider u (provider_side f) of
        Inl e \<Rightarrow> (Inl e, f)
      | Inr _ \<Rightarrow>
          (case find (\<lambda>p. ph_id p = pid \<and> ph_user p = user_id u) (photos f) of
             None \<Rightarrow> (Inl not_there, f)
           | Some p \<Rightarrow> (Inr (), drop_object (ph_key p) (f\<lparr>photos := delete_where (\<lambda>q. ph_id q = ph_id p) (photos f)\<rparr>))))"

section \<open>Reminders of expiring documents\<close>

definition THRESHOLD_DAYS :: "int list" where
  "THRESHOLD_DAYS = [30, 14, 7, 1]"

definition bucket_for_days_remaining :: "int \<Rightarrow> int option" where
  "bucket_for_days_remaining n = (if n < 0 then Some 1 else find (\<lambda>t. n \<le> t) (sort THRESHOLD_DAYS))"

definition has_already_notified :: "uuid \<Rightarrow> int \<Rightarrow> file_db \<Rightarrow> bool" where
  "has_already_notified did b f \<longleftrightarrow> (did, b) \<in> set (reminders f)"

definition remind :: "int \<Rightarrow> document \<Rightarrow> file_db \<Rightarrow> file_db" where
  "remind today x f =
     (case bucket_for_days_remaining (the (doc_expires x) - today) of
        None \<Rightarrow> f
      | Some b \<Rightarrow> if has_already_notified (doc_id x) b f then f else f\<lparr>reminders := reminders f @ [(doc_id x, b)]\<rparr>)"

definition expiring :: "int \<Rightarrow> document \<Rightarrow> bool" where
  "expiring today x \<longleftrightarrow> \<not> doc_deleted x \<and> (case doc_expires x of None \<Rightarrow> False | Some e \<Rightarrow> e \<le> today + Max (set THRESHOLD_DAYS))"

definition check_documents :: "int \<Rightarrow> file_db \<Rightarrow> file_db" where
  "check_documents today f = fold (remind today) (filter (expiring today) (documents f)) f"

section \<open>Badges\<close>

text \<open>\<open>jobs\<close>: the counter \<open>total_services_completed\<close>, which a database trigger maintains.\<close>

definition criteria :: "nat \<Rightarrow> provider_profile \<Rightarrow> string list" where
  "criteria jobs p =
     (if verification_status p = ''approved'' then [''verified''] else []) @
     (if 1 \<le> jobs then [''first_job''] else []) @
     (if 10 \<le> jobs then [''ten_jobs''] else []) @
     (if 100 \<le> jobs then [''hundred_jobs''] else []) @
     (case average_rating p of None \<Rightarrow> [] | Some r \<Rightarrow> if 48 / 10 \<le> r \<and> 5 \<le> total_reviews p then [''five_star''] else [])"

text \<open>\<open>INSERT ... ON CONFLICT DO NOTHING\<close>.\<close>

definition insert_badge :: "uuid \<times> string \<Rightarrow> (uuid \<times> string) list \<Rightarrow> (uuid \<times> string) list" where
  "insert_badge b bs = (if b \<in> set bs then bs else bs @ [b])"

definition evaluate_badges :: "(uuid \<Rightarrow> nat) \<Rightarrow> file_db \<Rightarrow> file_db" where
  "evaluate_badges jobs f =
     f\<lparr>badges := fold insert_badge
        (concat (map (\<lambda>p. map (Pair (prof_user p)) (criteria (jobs (prof_id p)) p)) (profiles (provider_side f)))) (badges f)\<rparr>"

section \<open>What the files keep\<close>

text \<open>\<open>Put\<close> is a client's upload to storage; the daily worker is a request as well.\<close>

datatype file_request =
    Put string "string option" int
  | Put_Public string "string option" int
  | Confirm_Document uuid user string string "int option"
  | Delete_Document user uuid
  | Confirm_Photo uuid user string
  | Delete_Photo user uuid
  | Check_Documents int

fun file_step :: "file_request \<Rightarrow> file_db \<Rightarrow> file_db" where
  "file_step (Put key mime sz) f = f\<lparr>private_docs := (private_docs f)(key \<mapsto> (mime, sz))\<rparr>"
| "file_step (Put_Public key mime sz) f = f\<lparr>public_assets := (public_assets f)(key \<mapsto> (mime, sz))\<rparr>"
| "file_step (Confirm_Document did u key ty expires) f = snd (confirm_document did u key ty expires f)"
| "file_step (Delete_Document u did) f = snd (delete_document u did f)"
| "file_step (Confirm_Photo pid u key) f = snd (confirm_photo pid u key f)"
| "file_step (Delete_Photo u pid) f = snd (delete_photo u pid f)"
| "file_step (Check_Documents today) f = check_documents today f"

definition document_ok :: "document \<Rightarrow> bool" where
  "document_ok x \<longleftrightarrow> doc_type x \<in> VALID_DOCUMENT_TYPES \<and> starts_with (''documents/'' @ uuid_str (doc_user x) @ ''/'') (doc_key x) \<and>
     \<not> mime_refused (doc_mime x) ALLOWED_DOCUMENT_MIME_TYPES \<and> doc_size x \<le> MAX_DOCUMENT_SIZE_BYTES"

definition photos_ok :: "file_db \<Rightarrow> bool" where
  "photos_ok f \<longleftrightarrow> (\<forall>uid. rowcount (\<lambda>p. ph_user p = uid) (photos f) \<le> MAX_PORTFOLIO_PHOTOS_PER_PROVIDER)"

lemma log_document_simps [simp]:
  "documents (log_document ac u f) = documents f" "photos (log_document ac u f) = photos f"
  "reminders (log_document ac u f) = reminders f"
  by (simp_all add: log_document_def)

lemma drop_object_simps [simp]:
  "documents (drop_object key f) = documents f" "photos (drop_object key f) = photos f" "reminders (drop_object key f) = reminders f"
  by (simp_all add: drop_object_def)

lemma remind_simps [simp]: "documents (remind today x f) = documents f" "photos (remind today x f) = photos f"
  by (simp_all add: remind_def split: option.split)

lemma check_documents_simps [simp]:
  "documents (check_documents today f) = documents f" "photos (check_documents today f) = photos f"
proof -
  have "documents (fold (remind today) xs f) = documents f \<and> photos (fold (remind today) xs f) = photos f" for xs f
    by (induction xs arbitrary: f) simp_all
  then show "documents (check_documents today f) = documents f" "photos (check_documents today f) = photos f"
    by (simp_all add: check_documents_def)
qed

lemma file_step_documents:
  assumes "\<forall>x \<in> set (documents f). document_ok x"
  shows "\<forall>x \<in> set (documents (file_step rq f)). document_ok x"
proof (cases rq)
  case (Confirm_Document did u key ty expires)
  with assms show ?thesis
    by (auto simp: confirm_document_def document_ok_def document_prefix_def split: sum.split option.split)
next
  case (Delete_Document u did)
  have "document_ok x \<Longrightarrow> document_ok (x\<lparr>doc_deleted := b\<rparr>)" for x b by (simp add: document_ok_def)
  with assms Delete_Document show ?thesis
    by (auto simp: delete_document_def set_update_where split: sum.split option.split)
qed (use assms in \<open>auto simp: confirm_photo_def delete_photo_def split: sum.split option.split\<close>)

lemma file_step_photos:
  assumes "photos_ok f"
  shows "photos_ok (file_step rq f)"
proof (cases rq)
  case (Confirm_Photo pid u key)
  show ?thesis
  proof (cases "is_ok (fst (confirm_photo pid u key f))")
    case True
    then have c: "photo_count u f < MAX_PORTFOLIO_PHOTOS_PER_PROVIDER"
        and ph: "photos (snd (confirm_photo pid u key f))
          = photos f @ [\<lparr>ph_id = pid, ph_user = user_id u, ph_key = key, ph_sort = int (photo_count u f)\<rparr>]"
      by (auto simp: confirm_photo_def split: sum.splits option.splits if_splits)
    have "rowcount (\<lambda>p. ph_user p = uid) (photos (snd (confirm_photo pid u key f))) \<le> MAX_PORTFOLIO_PHOTOS_PER_PROVIDER" for uid
    proof (cases "uid = user_id u")
      case True
      with c show ?thesis by (simp add: ph rowcount_append) (simp add: photo_count_def rowcount_def)
    next
      case False
      with assms show ?thesis by (simp add: ph rowcount_append photos_ok_def) (simp add: rowcount_def)
    qed
    with Confirm_Photo show ?thesis by (simp add: photos_ok_def)
  next
    case False
    then have "photos (snd (confirm_photo pid u key f)) = photos f"
      by (auto simp: confirm_photo_def split: sum.splits option.splits if_splits)
    with assms Confirm_Photo show ?thesis by (simp add: photos_ok_def)
  qed
next
  case (Delete_Photo u pid)
  have "photos_ok (f\<lparr>photos := delete_where q (photos f)\<rparr>)" for q
    using assms le_trans [OF rowcount_delete] by (fastforce simp: photos_ok_def)
  with assms Delete_Photo show ?thesis
    by (auto simp: delete_photo_def photos_ok_def split: sum.split option.split)
qed (use assms in \<open>auto simp: photos_ok_def confirm_document_def delete_document_def split: sum.split option.split\<close>)

interpretation file_rows: guarded file_step "\<lambda>_. True" "\<lambda>f. (\<forall>x \<in> set (documents f). document_ok x) \<and> photos_ok f"
proof
  fix rq f
  assume "(\<forall>x \<in> set (documents f). document_ok x) \<and> photos_ok f"
  then show "(\<forall>x \<in> set (documents (file_step rq f)). document_ok x) \<and> photos_ok (file_step rq f)"
    using file_step_documents file_step_photos by blast
qed

text \<open>
  C26. Files stay well-formed: through any uploads, confirmations and deletions every document has a
  valid type, an allowed content type, at most 20 MB and a key under its owner's prefix, and nobody has
  more than 30 portfolio photos.
\<close>

theorem files_well_formed:
  assumes "documents f = []" and "photos f = []"
  shows "(\<forall>x \<in> set (documents (fold file_step rqs f)). document_ok x) \<and>
         rowcount (\<lambda>p. ph_user p = uid) (photos (fold file_step rqs f)) \<le> 30"
proof -
  have "(\<forall>x \<in> set (documents f). document_ok x) \<and> photos_ok f"
    using assms by (simp add: photos_ok_def rowcount_def)
  then have "(\<forall>x \<in> set (documents (fold file_step rqs f)). document_ok x) \<and> photos_ok (fold file_step rqs f)"
    by (intro file_rows.run_inv) simp_all
  then show ?thesis by (simp add: photos_ok_def MAX_PORTFOLIO_PHOTOS_PER_PROVIDER_def)
qed

text \<open>One upload can be confirmed twice; deleting either document takes the other's bytes with it.\<close>

lemma shared_key_loses_file:
  assumes "require_provider u (provider_side f) = Inr p" and "get_document u a f = Some x" and "get_document u b f = Some y"
    and "a \<noteq> b" and "doc_key x = doc_key y"
  shows "\<exists>f'. delete_document u a f = (Inr (), f') \<and> get_document u b f' = Some y \<and> private_docs f' (doc_key y) = None"
proof -
  have "find (\<lambda>x. doc_id x = b \<and> doc_user x = user_id u \<and> \<not> doc_deleted x)
          (update_where (\<lambda>y. doc_id y = a) (\<lambda>y. y\<lparr>doc_deleted := True\<rparr>) xs)
      = find (\<lambda>x. doc_id x = b \<and> doc_user x = user_id u \<and> \<not> doc_deleted x) xs" for xs :: "document list"
    using assms(4) by (intro find_update_where_disjoint) auto
  with assms show ?thesis by (simp add: delete_document_def get_document_def log_document_def)
qed

section \<open>Every threshold is announced once\<close>

definition sent :: "uuid \<Rightarrow> file_db \<Rightarrow> int list" where
  "sent did f = map snd (filter (\<lambda>r. fst r = did) (reminders f))"

definition announce :: "int option \<Rightarrow> int list \<Rightarrow> int list" where
  "announce b s = (case b of None \<Rightarrow> s | Some b \<Rightarrow> if b \<in> set s then s else s @ [b])"

lemma notified_sent: "has_already_notified did b f \<longleftrightarrow> b \<in> set (sent did f)"
  by (force simp: has_already_notified_def sent_def)

lemma sent_remind:
  "sent did (remind today y f) =
     (if doc_id y = did then announce (bucket_for_days_remaining (the (doc_expires y) - today)) (sent did f) else sent did f)"
  by (auto simp: remind_def announce_def notified_sent split: option.split) (simp_all add: sent_def)

lemma sent_fold:
  "distinct (map doc_id ys) \<Longrightarrow> sent did (fold (remind today) ys f) =
     (case find (\<lambda>y. doc_id y = did) ys of
        None \<Rightarrow> sent did f
      | Some y \<Rightarrow> announce (bucket_for_days_remaining (the (doc_expires y) - today)) (sent did f))"
proof (induction ys arbitrary: f)
  case (Cons y ys)
  have "find (\<lambda>y. doc_id y = did) ys = None" if "doc_id y = did"
    using Cons.prems that by (auto simp: find_None_iff image_iff)
  with Cons show ?case by (cases "doc_id y = did") (simp_all add: sent_remind split: option.split)
qed simp

lemma find_distinct:
  assumes "distinct (map k xs)" and "x \<in> set xs"
  shows "find (\<lambda>y. k y = k x) xs = Some x"
  using assms by (induction xs) force+

lemma sent_check:
  assumes "distinct (map doc_id (documents f))" and "x \<in> set (documents f)"
  shows "sent (doc_id x) (check_documents today f) =
     (if expiring today x then announce (bucket_for_days_remaining (the (doc_expires x) - today)) (sent (doc_id x) f)
      else sent (doc_id x) f)"
proof -
  let ?ys = "filter (expiring today) (documents f)"
  have d: "distinct (map doc_id ?ys)" using assms(1) by (rule distinct_map_filter)
  have "find (\<lambda>y. doc_id y = doc_id x) ?ys = (if expiring today x then Some x else None)"
  proof (cases "expiring today x")
    case True
    with assms(2) find_distinct [OF d, of x] show ?thesis by simp
  next
    case False
    have "y = x" if "y \<in> set (documents f)" "doc_id y = doc_id x" for y
      using assms that by (auto simp: distinct_map dest: inj_onD)
    with False show ?thesis by (auto simp: find_None_iff)
  qed
  then show ?thesis by (simp add: check_documents_def sent_fold [OF d])
qed

lemma sent_days:
  assumes "distinct (map doc_id (documents f))" and "x \<in> set (documents f)" and "\<not> doc_deleted x" and "doc_expires x = Some e"
  shows "sent (doc_id x) (fold check_documents ts f) =
     fold (\<lambda>t. if e \<le> t + 30 then announce (bucket_for_days_remaining (e - t)) else id) ts (sent (doc_id x) f)"
  using assms(1,2)
proof (induction ts arbitrary: f)
  case (Cons t ts)
  have "expiring t x \<longleftrightarrow> e \<le> t + 30"
    using assms(3,4) by (simp add: expiring_def THRESHOLD_DAYS_def)
  with Cons assms(4) show ?case by (simp add: sent_check)
qed simp

lemma bucket_cases:
  "0 \<le> n \<Longrightarrow> bucket_for_days_remaining n =
     (if n \<le> 1 then Some 1 else if n \<le> 7 then Some 7 else if n \<le> 14 then Some 14 else if n \<le> 30 then Some 30 else None)"
  by (simp add: bucket_for_days_remaining_def THRESHOLD_DAYS_def)

lemma countdown: "fold (\<lambda>n. announce (bucket_for_days_remaining n)) (rev [0..30]) [] = [30, 14, 7, 1]"
  by (simp add: upto.simps [of 0] upto.simps [of 1] bucket_cases announce_def)

lemma fold_quiet: "(\<And>t. t \<in> set ts \<Longrightarrow> \<not> e \<le> t + 30) \<Longrightarrow> fold (\<lambda>t. if e \<le> t + (30::int) then g t else id) ts s = s"
  by (induction ts) simp_all

lemma fold_loud: "(\<And>t. t \<in> set ts \<Longrightarrow> e \<le> t + 30) \<Longrightarrow> fold (\<lambda>t. if e \<le> t + (30::int) then g t else id) ts s = fold g ts s"
  by (induction ts arbitrary: s) simp_all

lemma days_left: "map (\<lambda>t. e - t) [e - 30..e] = rev [0..30::int]"
proof (rule nth_equalityI)
  fix i assume "i < length (map (\<lambda>t. e - t) [e - 30..e])"
  then show "map (\<lambda>t. e - t) [e - 30..e] ! i = rev [0..30] ! i" by (simp add: rev_nth)
qed simp

text \<open>
  C27. An expiring document is announced at every threshold, once: when the checker runs every day from
  thirty or more days before the expiry, it sends the reminders for 30, 14, 7 and 1 days in this order
  and no other.
\<close>

theorem every_threshold_announced_once:
  assumes "distinct (map doc_id (documents f))" and "x \<in> set (documents f)" and "\<not> doc_deleted x" and "doc_expires x = Some e"
    and "\<forall>b. (doc_id x, b) \<notin> set (reminders f)" and "start \<le> e - 30"
  shows "map snd (filter (\<lambda>r. fst r = doc_id x) (reminders (fold check_documents [start..e] f))) = [30, 14, 7, 1]"
proof -
  let ?g = "\<lambda>t. announce (bucket_for_days_remaining (e - t))"
  let ?day = "\<lambda>t. if e \<le> t + 30 then ?g t else id"
  have days: "[start..e] = [start..e - 31] @ [e - 30..e]"
    using assms(6) upto_split2 [of start "e - 31" e] by (cases "start = e - 30") simp_all
  have none: "sent (doc_id x) f = []" using assms(5) by (auto simp: sent_def filter_empty_conv)
  have "sent (doc_id x) (fold check_documents [start..e] f) = fold ?day ([start..e - 31] @ [e - 30..e]) []"
    unfolding sent_days [OF assms(1-4)] none days ..
  also have "\<dots> = fold ?day [e - 30..e] []"
    unfolding fold_append comp_def by (subst fold_quiet) auto
  also have "\<dots> = fold ?g [e - 30..e] []"
    by (rule fold_loud) simp
  also have "\<dots> = fold (\<lambda>n. announce (bucket_for_days_remaining n)) (map (\<lambda>t. e - t) [e - 30..e]) []"
    by (simp add: fold_map comp_def)
  finally show ?thesis by (simp add: days_left countdown sent_def)
qed

section \<open>Badges are granted once and kept\<close>

lemma set_fold_insert_badge: "set (fold insert_badge xs bs) = set bs \<union> set xs"
  by (induction xs arbitrary: bs) (auto simp: insert_badge_def)

lemma distinct_fold_insert_badge: "distinct bs \<Longrightarrow> distinct (fold insert_badge xs bs)"
  by (induction xs arbitrary: bs) (auto simp: insert_badge_def)

lemma badges_after_run:
  assumes "distinct (badges f)"
  shows "distinct (badges (evaluate_badges jobs f))"
    and "set (badges (evaluate_badges jobs f)) =
      set (badges f) \<union> {(prof_user p, b) |p b. p \<in> set (profiles (provider_side f)) \<and> b \<in> set (criteria (jobs (prof_id p)) p)}"
  using assms by (auto simp: evaluate_badges_def set_fold_insert_badge distinct_fold_insert_badge)

text \<open>Without an average there is no five-star badge, however many reviews.\<close>

lemma no_average_no_five_star: "average_rating p = None \<Longrightarrow> ''five_star'' \<notin> set (criteria jobs p)"
  by (simp add: criteria_def)

section \<open>Witnesses\<close>

definition demo_files :: file_db where
  "demo_files = \<lparr>provider_side = empty_db\<lparr>profiles := [new_profile 41 40]\<rparr>, documents = [], photos = [], private_docs = (\<lambda>_. None),
                 public_assets = (\<lambda>_. None), reminders = [], badges = []\<rparr>"

definition demo_key :: string where
  "demo_key = document_prefix provider_user @ ''w9/t.pdf''"

theorem files_well_formed_witness:
  "documents (fold file_step [Put demo_key (Some ''application/pdf'') 99, Confirm_Document 50 provider_user demo_key ''w9'' None] demo_files) \<noteq> [] \<and>
   document_ok (hd (documents (fold file_step [Put demo_key (Some ''application/pdf'') 99, Confirm_Document 50 provider_user demo_key ''w9'' None]
      demo_files)))"
proof -
  have d: "documents demo_files = []" "photos demo_files = []" by (simp_all add: demo_files_def)
  have g: "require_provider provider_user (provider_side (file_step (Put demo_key (Some ''application/pdf'') 99) demo_files)) = Inr (new_profile 41 40)"
    by (simp add: demo_files_def require_provider_def provider_user_def)
  have k: "starts_with (document_prefix provider_user) demo_key" by (simp add: demo_key_def starts_with_def)
  have m: "\<not> mime_refused (Some ''application/pdf'') ALLOWED_DOCUMENT_MIME_TYPES" by (simp add: mime_refused_def ALLOWED_DOCUMENT_MIME_TYPES_def)
  from g k m have "documents (fold file_step [Put demo_key (Some ''application/pdf'') 99, Confirm_Document 50 provider_user demo_key ''w9'' None] demo_files) \<noteq> []"
    by (simp add: confirm_document_def VALID_DOCUMENT_TYPES_def MAX_DOCUMENT_SIZE_BYTES_def d)
  with files_well_formed [OF d] show ?thesis by (meson hd_in_set)
qed

definition demo_document :: document where
  "demo_document = \<lparr>doc_id = 50, doc_user = 40, doc_type = ''insurance'', doc_key = '''', doc_mime = None, doc_size = 1,
                    doc_expires = Some 700100, doc_deleted = False\<rparr>"

theorem every_threshold_announced_once_witness:
  "map snd (filter (\<lambda>r. fst r = 50) (reminders (fold check_documents [700060..700100] (demo_files\<lparr>documents := [demo_document]\<rparr>)))) = [30, 14, 7, 1]"
proof -
  have "doc_id demo_document = 50" "\<not> doc_deleted demo_document" "doc_expires demo_document = Some 700100" by (simp_all add: demo_document_def)
  with every_threshold_announced_once [of "demo_files\<lparr>documents := [demo_document]\<rparr>" demo_document 700100 700060] show ?thesis
    by (simp add: demo_files_def)
qed

end
