(* ===== verification/Reviews.thy ===== *)
theory Reviews
  imports Appointment_Repo
begin

text \<open>
  Reviews, the running average they feed and their moderation (domains/reviews/service.py,
  domains/reviews/repository.py, the moderation part of domains/admin/repository.py), and the preview of
  promotional codes (domains/promos/service.py). Reviews are in order of creation. An average is
  PostgreSQL's \<open>NUMERIC(3, 2)\<close>: a rational that is rounded to hundredths, half away from zero, when it is
  stored.
\<close>

section \<open>Reviews\<close>

record review =
  rv_id :: uuid
  rv_appointment :: uuid
  rv_reviewer :: uuid
  rv_detailer :: uuid
  rv_rating :: int
  rv_comment :: "string option"
  rv_state :: string
  rv_actor :: "uuid option"
  rv_note :: "string option"
  rv_deleted :: bool

record review_db =
  shop :: db
  reviews :: "review list"

definition on_shop :: "(db \<Rightarrow> db) \<Rightarrow> review_db \<Rightarrow> review_db" where
  "on_shop f d = d\<lparr>shop := f (shop d)\<rparr>"

definition review_of :: "uuid \<Rightarrow> review_db \<Rightarrow> review option" where
  "review_of aid d = find (\<lambda>r. rv_appointment r = aid \<and> \<not> rv_deleted r) (reviews d)"

definition reviews_of_detailer :: "uuid \<Rightarrow> nat \<Rightarrow> nat \<Rightarrow> review_db \<Rightarrow> review list \<times> nat" where
  "reviews_of_detailer det offset limit d =
     (let rs = filter (\<lambda>r. rv_detailer r = det \<and> \<not> rv_deleted r) (reviews d)
      in (page_of offset limit (rev rs), length rs))"

text \<open>The unique and the NOT NULL constraint of the table.\<close>

definition insert_review :: "uuid \<Rightarrow> uuid \<Rightarrow> uuid \<Rightarrow> uuid option \<Rightarrow> int \<Rightarrow> string option \<Rightarrow> review_db \<Rightarrow> review_db result" where
  "insert_review rid aid reviewer det rating comment d =
     (case det of
        None \<Rightarrow> Inl (IntegrityError ''detailer_id'')
      | Some det \<Rightarrow>
          if \<exists>r \<in> set (reviews d). rv_id r = rid \<or> rv_appointment r = aid then Inl (IntegrityError ''uq_review_appointment'')
          else Inr (d\<lparr>reviews := reviews d @ [\<lparr>rv_id = rid, rv_appointment = aid, rv_reviewer = reviewer, rv_detailer = det,
                      rv_rating = rating, rv_comment = comment, rv_state = ''auto_pending'', rv_actor = None, rv_note = None,
                      rv_deleted = False\<rparr>]\<rparr>))"

definition numeric2 :: "rat \<Rightarrow> rat" where
  "numeric2 x = (if 0 \<le> x then of_int \<lfloor>100 * x + 1 / 2\<rfloor> / 100 else - (of_int \<lfloor>100 * (- x) + 1 / 2\<rfloor> / 100))"

text \<open>One UPDATE over all profiles of the detailer; a NULL average makes the expression NULL.\<close>

definition new_average :: "int \<Rightarrow> nat \<Rightarrow> rat option \<Rightarrow> rat option" where
  "new_average rating n avg = map_option (\<lambda>a. numeric2 ((a * of_nat n + of_int rating) / (of_nat n + 1))) avg"

definition rate :: "int \<Rightarrow> provider_profile \<Rightarrow> provider_profile" where
  "rate rating p = p\<lparr>average_rating := new_average rating (total_reviews p) (average_rating p), total_reviews := total_reviews p + 1\<rparr>"

definition update_detailer_aggregate :: "uuid \<Rightarrow> int \<Rightarrow> db \<Rightarrow> db" where
  "update_detailer_aggregate det rating d = d\<lparr>profiles := update_where (\<lambda>p. prof_user p = det) (rate rating) (profiles d)\<rparr>"

text \<open>The rating is between 1 and 5 by the schema (\<open>ReviewCreate\<close>).\<close>

definition create_review ::
  "uuid \<Rightarrow> uuid \<Rightarrow> int \<Rightarrow> string option \<Rightarrow> uuid \<Rightarrow> review_db \<Rightarrow> (uuid \<times> review_db) result" where
  "create_review rid aid rating comment reviewer d =
     (if rating < 1 \<or> 5 < rating then Inl (HTTPException 422 ''rating'')
      else case appointment_by_id (shop d) aid of
        None \<Rightarrow> Inl (HTTPException 404 ''Appointment not found.'')
      | Some a \<Rightarrow>
          if appt_status a \<noteq> COMPLETED then Inl (HTTPException 422 ''not completed'')
          else if client_id a \<noteq> reviewer then Inl (HTTPException 403 ''not the client'')
          else if review_of aid d \<noteq> None then Inl (HTTPException 409 ''A review for this appointment already exists.'')
          else (case insert_review rid aid reviewer (detailer_id a) rating comment d of
                  Inl e \<Rightarrow> Inl e
                | Inr d1 \<Rightarrow>
                    Inr (rid, on_shop (audit_log ''review_created'' ''review'' (Some reviewer) [(''rating'', rating)])
                           (on_shop (update_detailer_aggregate (the (detailer_id a)) rating) d1))))"

section \<open>Moderation\<close>

definition FLAG_KEYWORDS :: "string list" where
  "FLAG_KEYWORDS = [''scam'', ''fraud'', ''stole'', ''thief'', ''stolen'', ''racist'']"

definition LOW_RATING_THRESHOLD :: int where "LOW_RATING_THRESHOLD = 2"

definition compute_review_flags :: "int \<Rightarrow> string option \<Rightarrow> string list" where
  "compute_review_flags rating comment =
     (if rating \<le> LOW_RATING_THRESHOLD then [''low_rating''] else []) @
     (case comment of
        None \<Rightarrow> []
      | Some c \<Rightarrow> map (\<lambda>k. ''keyword:'' @ k) (filter (\<lambda>k. contains k (py_lower c)) FLAG_KEYWORDS))"

definition list_review_queue :: "review_db \<Rightarrow> (review \<times> string list) list" where
  "list_review_queue d =
     filter (\<lambda>(_, flags). flags \<noteq> [])
       (map (\<lambda>r. (r, compute_review_flags (rv_rating r) (rv_comment r))) (filter (\<lambda>r. rv_state r = ''auto_pending'') (reviews d)))"

definition moderate ::
  "string set \<Rightarrow> string \<Rightarrow> uuid \<Rightarrow> uuid \<Rightarrow> string option \<Rightarrow> review_db \<Rightarrow> (unit \<times> review_db) result" where
  "moderate from target rid actor note d =
     (case find (\<lambda>r. rv_id r = rid) (reviews d) of
        None \<Rightarrow> Inl (HTTPException 404 ''Review not found.'')
      | Some r \<Rightarrow>
          if rv_state r \<notin> from then Inl (HTTPException 409 ''moderation_state'')
          else Inr ((), on_shop (audit_log ''review_moderated'' ''review'' (Some actor) [])
                 (d\<lparr>reviews := update_where (\<lambda>q. rv_id q = rid)
                      (\<lambda>q. q\<lparr>rv_state := target, rv_actor := Some actor, rv_note := note\<rparr>) (reviews d)\<rparr>)))"

definition approve_review :: "uuid \<Rightarrow> uuid \<Rightarrow> string option \<Rightarrow> review_db \<Rightarrow> (unit \<times> review_db) result" where
  "approve_review rid actor note d = moderate {''auto_pending''} ''approved'' rid actor note d"

definition hide_review :: "uuid \<Rightarrow> uuid \<Rightarrow> string \<Rightarrow> review_db \<Rightarrow> (unit \<times> review_db) result" where
  "hide_review rid actor note d = moderate {''auto_pending'', ''approved''} ''hidden'' rid actor (Some note) d"

section \<open>Promotional codes\<close>

record promo =
  pr_id :: uuid
  pr_code :: string
  pr_percent :: bool
  pr_amount :: int
  pr_min_order :: "int option"
  pr_per_user :: int
  pr_from :: "instant option"
  pr_until :: "instant option"
  pr_active :: bool
  pr_deleted :: bool

text \<open>The table's CHECK constraints.\<close>

definition promo_row_ok :: "promo \<Rightarrow> bool" where
  "promo_row_ok p \<longleftrightarrow> 0 < pr_amount p \<and> (pr_percent p \<longrightarrow> pr_amount p \<le> 100) \<and> 1 \<le> pr_per_user p"

definition normalize_code :: "string \<Rightarrow> string" where
  "normalize_code code = py_upper (py_strip code)"

definition global_ineligible_reason :: "instant \<Rightarrow> promo \<Rightarrow> string option" where
  "global_ineligible_reason now p =
     (if \<not> pr_active p then Some ''inactive''
      else if (case pr_from p of None \<Rightarrow> False | Some t \<Rightarrow> now < t) then Some ''not_yet_valid''
      else if (case pr_until p of None \<Rightarrow> False | Some t \<Rightarrow> t < now) then Some ''expired''
      else None)"

text \<open>\<open>used p u\<close>: how often the user has redeemed the code.\<close>

definition promo_lookup ::
  "promo list \<Rightarrow> (uuid \<Rightarrow> uuid \<Rightarrow> nat) \<Rightarrow> instant \<Rightarrow> string \<Rightarrow> uuid option \<Rightarrow> promo option \<times> string option \<times> int option" where
  "promo_lookup promos used now code uid =
     (case find (\<lambda>p. pr_code p = normalize_code code \<and> \<not> pr_deleted p) promos of
        None \<Rightarrow> (None, Some ''not_found'', None)
      | Some p \<Rightarrow>
          (let reason = global_ineligible_reason now p in
           case uid of
             None \<Rightarrow> (Some p, reason, None)
           | Some u \<Rightarrow>
               (let remaining = max 0 (pr_per_user p - int (used (pr_id p) u))
                in (Some p, if reason = None \<and> remaining = 0 then Some ''max_redemptions_per_user_reached'' else reason,
                    Some remaining))))"

definition promo_preview ::
  "promo list \<Rightarrow> (uuid \<Rightarrow> uuid \<Rightarrow> nat) \<Rightarrow> instant \<Rightarrow> string \<Rightarrow> int \<Rightarrow> uuid option \<Rightarrow> bool \<times> int \<times> int \<times> string option" where
  "promo_preview promos used now code subtotal uid =
     (case promo_lookup promos used now code uid of
        (None, reason, _) \<Rightarrow> (False, 0, subtotal, reason)
      | (Some p, Some reason, _) \<Rightarrow> (False, 0, subtotal, Some reason)
      | (Some p, None, _) \<Rightarrow>
          if (case pr_min_order p of None \<Rightarrow> False | Some m \<Rightarrow> m \<noteq> 0 \<and> subtotal < m) then (False, 0, subtotal, Some ''below_min_order'')
          else (let discount = (if pr_percent p then subtotal * pr_amount p div 100 else min (pr_amount p) subtotal)
                in (True, discount, max 0 (subtotal - discount), None)))"

section \<open>Every review is genuine\<close>

datatype review_request =
    Write_Review uuid uuid int "string option" uuid
  | Approve_Review uuid uuid "string option"
  | Hide_Review uuid uuid string

fun review_handler :: "review_request \<Rightarrow> review_db \<Rightarrow> (unit \<times> review_db) result" where
  "review_handler (Write_Review rid aid rating comment reviewer) d = map_sum id (apfst (\<lambda>_. ())) (create_review rid aid rating comment reviewer d)"
| "review_handler (Approve_Review rid actor note) d = approve_review rid actor note d"
| "review_handler (Hide_Review rid actor note) d = hide_review rid actor note d"

definition review_step :: "review_request \<Rightarrow> review_db \<Rightarrow> review_db" where
  "review_step rq d = snd (run_request (review_handler rq) d)"

definition genuine :: "db \<Rightarrow> review \<Rightarrow> bool" where
  "genuine c r \<longleftrightarrow> rv_rating r \<in> {1..5} \<and>
     (\<exists>a. appointment_by_id c (rv_appointment r) = Some a \<and> appt_status a = COMPLETED \<and> client_id a = rv_reviewer r \<and>
          detailer_id a = Some (rv_detailer r))"

definition reviews_ok :: "review_db \<Rightarrow> bool" where
  "reviews_ok d \<longleftrightarrow> distinct (map rv_appointment (reviews d)) \<and> (\<forall>r \<in> set (reviews d). genuine (shop d) r)"

lemma on_shop_simps [simp]: "reviews (on_shop f d) = reviews d" "shop (on_shop f d) = f (shop d)"
  by (simp_all add: on_shop_def)

lemma appointment_by_id_same: "appointments c' = appointments c \<Longrightarrow> appointment_by_id c' = appointment_by_id c"
  by (simp add: appointment_by_id_def fun_eq_iff)

lemma genuine_same:
  assumes "appointments c' = appointments c"
  shows "genuine c' r = genuine c r"
  unfolding genuine_def appointment_by_id_same [OF assms] ..

lemma create_review_InrE:
  assumes "create_review rid aid rating comment reviewer d = Inr (x, d')"
  obtains a det where "1 \<le> rating" "rating \<le> 5" "appointment_by_id (shop d) aid = Some a" "appt_status a = COMPLETED"
    "client_id a = reviewer" "detailer_id a = Some det" "\<forall>r \<in> set (reviews d). rv_appointment r \<noteq> aid"
    "reviews d' = reviews d @ [\<lparr>rv_id = rid, rv_appointment = aid, rv_reviewer = reviewer, rv_detailer = det, rv_rating = rating,
        rv_comment = comment, rv_state = ''auto_pending'', rv_actor = None, rv_note = None, rv_deleted = False\<rparr>]"
    "profiles (shop d') = update_where (\<lambda>p. prof_user p = det) (rate rating) (profiles (shop d))"
    "appointments (shop d') = appointments (shop d)"
  using assms
  by (auto simp: create_review_def insert_review_def update_detailer_aggregate_def split: if_splits option.splits sum.splits)

lemma moderate_InrE:
  assumes "moderate from target rid actor note d = Inr ((), d')"
  obtains r where "find (\<lambda>r. rv_id r = rid) (reviews d) = Some r" "rv_state r \<in> from"
    "reviews d' = update_where (\<lambda>q. rv_id q = rid) (\<lambda>q. q\<lparr>rv_state := target, rv_actor := Some actor, rv_note := note\<rparr>) (reviews d)"
    "profiles (shop d') = profiles (shop d)" "appointments (shop d') = appointments (shop d)"
  using assms by (auto simp: moderate_def split: option.splits if_splits)

lemma genuine_moderated: "genuine c (r\<lparr>rv_state := s, rv_actor := a, rv_note := n\<rparr>) = genuine c r"
  by (simp add: genuine_def)

lemma moderate_keeps_ok:
  assumes "moderate from target rid actor note d = Inr ((), d')" and "reviews_ok d"
  shows "reviews_ok d'"
  using assms(1)
proof (rule moderate_InrE)
  fix r
  assume "reviews d' = update_where (\<lambda>q. rv_id q = rid) (\<lambda>q. q\<lparr>rv_state := target, rv_actor := Some actor, rv_note := note\<rparr>) (reviews d)"
    and "appointments (shop d') = appointments (shop d)"
  with assms(2) show ?thesis
    by (auto simp: reviews_ok_def set_update_where genuine_moderated genuine_same [of "shop d'" "shop d"] map_update_where)
qed

lemma review_step_ok:
  assumes "reviews_ok d"
  shows "reviews_ok (review_step rq d)"
proof (cases "review_handler rq d")
  case (Inr p)
  then obtain d' where p: "review_handler rq d = Inr ((), d')" by (cases p) auto
  have "reviews_ok d'"
  proof (cases rq)
    case (Write_Review rid aid rating comment reviewer)
    with p obtain x where "create_review rid aid rating comment reviewer d = Inr (x, d')"
      by (auto simp: map_sum_def split: sum.splits)
    then show ?thesis
    proof (rule create_review_InrE)
      fix a det
      let ?r = "\<lparr>rv_id = rid, rv_appointment = aid, rv_reviewer = reviewer, rv_detailer = det, rv_rating = rating,
        rv_comment = comment, rv_state = ''auto_pending'', rv_actor = None, rv_note = None, rv_deleted = False\<rparr>"
      assume "1 \<le> rating" "rating \<le> 5" "appointment_by_id (shop d) aid = Some a" "appt_status a = COMPLETED"
        "client_id a = reviewer" "detailer_id a = Some det"
      then have "genuine (shop d) ?r" by (simp add: genuine_def)
      moreover assume "\<forall>r \<in> set (reviews d). rv_appointment r \<noteq> aid" "reviews d' = reviews d @ [?r]"
        "appointments (shop d') = appointments (shop d)"
      ultimately show ?thesis
        using assms by (auto simp: reviews_ok_def genuine_same [of "shop d'" "shop d"])
    qed
  qed (use p assms in \<open>auto simp: approve_review_def hide_review_def dest: moderate_keeps_ok\<close>)
  with p show ?thesis by (simp add: review_step_def run_request_def)
qed (use assms in \<open>simp add: review_step_def run_request_def\<close>)

interpretation genuine_reviews: guarded review_step "\<lambda>_. True" reviews_ok
  by unfold_locales (rule review_step_ok)

text \<open>
  C28. Every review is genuine: through any sequence of review and moderation requests each review is the
  only one of its appointment, which is completed, was booked by the reviewer and was done by the
  detailer the review counts for, and rates between 1 and 5.
\<close>

theorem reviews_are_genuine:
  assumes "reviews d = []"
  shows "distinct (map rv_appointment (reviews (fold review_step rqs d))) \<and>
         (\<forall>r \<in> set (reviews (fold review_step rqs d)). genuine (shop (fold review_step rqs d)) r)"
proof -
  have "reviews_ok d" using assms by (simp add: reviews_ok_def)
  then have "reviews_ok (fold review_step rqs d)" by (intro genuine_reviews.run_inv) simp_all
  then show ?thesis by (simp add: reviews_ok_def)
qed

text \<open>Moderation does not reach the public list: it shows a hidden review as before.\<close>

lemma hidden_review_is_listed:
  assumes "hide_review rid actor note d = Inr ((), d')"
  shows "map rv_id (fst (reviews_of_detailer det offset limit d')) = map rv_id (fst (reviews_of_detailer det offset limit d))"
proof -
  let ?f = "\<lambda>q. q\<lparr>rv_state := ''hidden'', rv_actor := Some actor, rv_note := Some note\<rparr>"
  have "filter (\<lambda>r. rv_detailer r = det \<and> \<not> rv_deleted r) (update_where q ?f rs)
      = update_where q ?f (filter (\<lambda>r. rv_detailer r = det \<and> \<not> rv_deleted r) rs)" for q and rs :: "review list"
    by (induction rs) auto
  moreover have "map rv_id (rev (update_where q ?f rs)) = map rv_id (rev rs)" for q and rs :: "review list"
    by (simp add: rev_map [symmetric] map_update_where)
  ultimately show ?thesis
    using assms by (auto simp: hide_review_def reviews_of_detailer_def page_of_def Let_def take_map [symmetric] drop_map [symmetric]
        elim!: moderate_InrE)
qed

section \<open>The running average\<close>

text \<open>\<open>rate_all\<close>: what a sequence of ratings makes of a profile.\<close>

definition rate_all :: "int list \<Rightarrow> provider_profile \<Rightarrow> provider_profile" where
  "rate_all rs p = fold rate rs p"

lemma total_rate_all: "total_reviews (rate_all rs p) = total_reviews p + length rs"
  unfolding rate_all_def by (induction rs arbitrary: p) (simp_all add: rate_def)

lemma prof_id_rate_all [simp]: "prof_id (rate_all rs p) = prof_id p"
  unfolding rate_all_def by (induction rs arbitrary: p) (simp_all add: rate_def)

text \<open>A NULL average, which is what a profile starts with, stays NULL.\<close>

lemma null_average_stays: "average_rating p = None \<Longrightarrow> average_rating (rate_all rs p) = None"
  unfolding rate_all_def by (induction rs arbitrary: p) (simp_all add: rate_def new_average_def)

lemma numeric2_error: "\<bar>numeric2 x - x\<bar> \<le> 1 / 200"
proof -
  have e: "\<bar>of_int \<lfloor>100 * y + 1 / 2\<rfloor> / 100 - y\<bar> \<le> 1 / 200" for y :: rat
  proof -
    have "of_int \<lfloor>100 * y + 1 / 2\<rfloor> \<le> 100 * y + 1 / 2" "100 * y + 1 / 2 < of_int \<lfloor>100 * y + 1 / 2\<rfloor> + 1"
      by linarith+
    then show ?thesis unfolding abs_le_iff by linarith
  qed
  show ?thesis
  proof (cases "0 \<le> x")
    case False
    then have "numeric2 x - x = - (of_int \<lfloor>100 * (- x) + 1 / 2\<rfloor> / 100 - (- x))" by (simp add: numeric2_def)
    with e [of "- x"] show ?thesis by (simp only: abs_minus_cancel)
  qed (use e [of x] in \<open>simp add: numeric2_def\<close>)
qed

lemma numeric2_mono_range: "of_int k \<le> x \<Longrightarrow> x \<le> of_int m \<Longrightarrow> 0 \<le> k \<Longrightarrow> of_int k \<le> numeric2 x \<and> numeric2 x \<le> of_int m"
proof -
  assume a: "of_int k \<le> x" "x \<le> of_int m" "0 \<le> k"
  then have "0 \<le> x" by (meson of_int_0_le_iff order_trans)
  have "100 * k \<le> \<lfloor>100 * x + 1 / 2\<rfloor>" using a(1) by (simp add: le_floor_iff)
  moreover have "\<lfloor>100 * x + 1 / 2\<rfloor> \<le> 100 * m" using a(2) by (simp add: floor_le_iff)
  ultimately have "of_int (100 * k) \<le> (of_int \<lfloor>100 * x + 1 / 2\<rfloor> :: rat)" "(of_int \<lfloor>100 * x + 1 / 2\<rfloor> :: rat) \<le> of_int (100 * m)"
    by (simp_all only: of_int_le_iff)
  with \<open>0 \<le> x\<close> show ?thesis by (simp add: numeric2_def)
qed

text \<open>One step: the error of the sum grows by at most half a hundredth per review counted.\<close>

lemma rate_step:
  assumes "average_rating p = Some a"
  shows "\<exists>b. average_rating (rate r p) = Some b \<and>
           \<bar>b * of_nat (total_reviews p + 1) - (a * of_nat (total_reviews p) + of_int r)\<bar> \<le> of_nat (total_reviews p + 1) / 200"
proof -
  let ?n = "total_reviews p" and ?x = "(a * of_nat (total_reviews p) + of_int r) / (of_nat (total_reviews p) + 1)"
  have pos: "(0::rat) < of_nat (?n + 1)" by simp
  have x: "?x * of_nat (?n + 1) = a * of_nat ?n + of_int r" by (simp add: field_simps add_pos_nonneg)
  have "numeric2 ?x * of_nat (?n + 1) - (a * of_nat ?n + of_int r) = (numeric2 ?x - ?x) * of_nat (?n + 1)"
    by (simp only: left_diff_distrib x)
  then have "\<bar>numeric2 ?x * of_nat (?n + 1) - (a * of_nat ?n + of_int r)\<bar> = \<bar>numeric2 ?x - ?x\<bar> * of_nat (?n + 1)"
    by (simp only: abs_mult abs_of_nat)
  also have "\<dots> \<le> 1 / 200 * of_nat (?n + 1)" using numeric2_error [of ?x] pos by (intro mult_right_mono) simp_all
  finally show ?thesis using assms by (auto simp: rate_def new_average_def)
qed

lemma rate_range:
  assumes "average_rating p = Some a" and "1 \<le> a" "a \<le> 5" and "1 \<le> r" "r \<le> 5"
  shows "\<exists>b. average_rating (rate r p) = Some b \<and> 1 \<le> b \<and> b \<le> 5"
proof -
  let ?n = "of_nat (total_reviews p) :: rat" and ?x = "(a * of_nat (total_reviews p) + of_int r) / (of_nat (total_reviews p) + 1)"
  have n: "0 \<le> ?n" "0 < ?n + 1" by simp_all
  have r: "(1::rat) \<le> of_int r" "of_int r \<le> (5::rat)" using assms(4,5) by simp_all
  have "1 * ?n \<le> a * ?n" "a * ?n \<le> 5 * ?n" using assms(2,3) n by (simp_all only: mult_right_mono)
  then have "?n + 1 \<le> a * ?n + of_int r" "a * ?n + of_int r \<le> 5 * (?n + 1)" using r by simp_all
  then have "of_int 1 \<le> ?x" "?x \<le> of_int 5" using n by (simp_all add: pos_le_divide_eq pos_divide_le_eq)
  then have "of_int 1 \<le> numeric2 ?x \<and> numeric2 ?x \<le> of_int 5" by (rule numeric2_mono_range) simp
  then show ?thesis using assms(1) by (simp add: rate_def new_average_def)
qed

lemma triangle_shift:
  fixes x y s t e f g :: rat
  shows "\<bar>x - (y + s)\<bar> \<le> e \<Longrightarrow> \<bar>y - t\<bar> \<le> f \<Longrightarrow> f \<le> g \<Longrightarrow> \<bar>x - (t + s)\<bar> \<le> e + g"
  by linarith

lemma rate_all_error:
  assumes "average_rating p = Some a"
  shows "\<exists>b. average_rating (rate_all rs p) = Some b \<and>
           \<bar>b * of_nat (total_reviews p + length rs) - (a * of_nat (total_reviews p) + of_int (sum_list rs))\<bar>
             \<le> of_nat (length rs) * of_nat (total_reviews p + length rs) / 200"
  using assms
proof (induction rs arbitrary: p a)
  case (Cons r rs)
  let ?n = "total_reviews p" and ?m = "length rs"
  from rate_step [OF Cons.prems, of r] obtain b where b: "average_rating (rate r p) = Some b"
      "\<bar>b * of_nat (?n + 1) - (a * of_nat ?n + of_int r)\<bar> \<le> of_nat (?n + 1) / 200" by blast
  have n: "total_reviews (rate r p) = ?n + 1" by (simp add: rate_def)
  from Cons.IH [OF b(1)] obtain c where c: "average_rating (rate_all rs (rate r p)) = Some c"
      "\<bar>c * of_nat (?n + 1 + ?m) - (b * of_nat (?n + 1) + of_int (sum_list rs))\<bar> \<le> of_nat ?m * of_nat (?n + 1 + ?m) / 200"
    unfolding n by blast
  have "(of_nat (?n + 1) / 200 :: rat) \<le> of_nat (?n + 1 + ?m) / 200" by simp
  from triangle_shift [OF c(2) b(2) this]
  have "\<bar>c * of_nat (?n + 1 + ?m) - (a * of_nat ?n + of_int r + of_int (sum_list rs))\<bar>
      \<le> of_nat ?m * of_nat (?n + 1 + ?m) / 200 + of_nat (?n + 1 + ?m) / 200" .
  also have "\<dots> = (of_nat ?m + 1) * of_nat (?n + 1 + ?m) / 200" by (simp add: distrib_right add_divide_distrib)
  finally show ?case using c(1) by (simp add: rate_all_def add.commute add.left_commute)
qed (simp add: rate_all_def)

lemma rate_all_range:
  assumes "average_rating p = Some a" and "1 \<le> a" "a \<le> 5" and "\<forall>r \<in> set rs. 1 \<le> r \<and> r \<le> 5"
  shows "\<exists>b. average_rating (rate_all rs p) = Some b \<and> 1 \<le> b \<and> b \<le> 5"
  using assms
proof (induction rs arbitrary: p a)
  case (Cons r rs)
  from rate_range [OF Cons.prems(1-3), of r] Cons.prems(4) obtain b where "average_rating (rate r p) = Some b" "1 \<le> b" "b \<le> 5" by auto
  with Cons.IH [of "rate r p" b] Cons.prems(4) show ?case by (simp add: rate_all_def)
qed (simp add: rate_all_def)

lemma rate_all_mean:
  assumes "average_rating p = Some a" and "0 < total_reviews p + length rs"
  shows "\<exists>b. average_rating (rate_all rs p) = Some b \<and>
           \<bar>b - (a * of_nat (total_reviews p) + of_int (sum_list rs)) / of_nat (total_reviews p + length rs)\<bar> \<le> of_nat (length rs) / 200"
proof -
  let ?N = "of_nat (total_reviews p + length rs) :: rat" and ?S = "a * of_nat (total_reviews p) + of_int (sum_list rs)"
  from rate_all_error [OF assms(1), of rs] obtain b where b: "average_rating (rate_all rs p) = Some b"
      "\<bar>b * ?N - ?S\<bar> \<le> of_nat (length rs) * ?N / 200" by blast
  have N: "0 < ?N" using assms(2) by (simp only: of_nat_0_less_iff)
  then have "b * ?N - ?S = (b - ?S / ?N) * ?N" by (simp add: left_diff_distrib)
  then have "\<bar>b * ?N - ?S\<bar> = \<bar>b - ?S / ?N\<bar> * ?N" using N by (simp only: abs_mult abs_of_pos)
  with b(2) have "\<bar>b - ?S / ?N\<bar> * ?N \<le> of_nat (length rs) / 200 * ?N" by simp
  then have "\<bar>b - ?S / ?N\<bar> \<le> of_nat (length rs) / 200" using N by (rule mult_right_le_imp_le)
  with b(1) show ?thesis by blast
qed

text \<open>After enough reviews the average is stuck: a rating moves it by less than half a hundredth.\<close>

lemma average_freezes:
  assumes "average_rating p = Some (of_int k / 100)" and "0 \<le> k" and "2 * \<bar>100 * r - k\<bar> < int (total_reviews p) + 1"
  shows "average_rating (rate r p) = average_rating p"
proof -
  define n :: rat where "n = of_nat (total_reviews p) + 1"
  define x where "x = (of_int k / 100 * of_nat (total_reviews p) + of_int r) / n"
  have n: "0 < n" by (simp add: n_def add_pos_nonneg)
  have m: "of_nat (total_reviews p) = n - 1" by (simp add: n_def)
  have x: "100 * x = of_int k + of_int (100 * r - k) / n" unfolding x_def m using n by (simp add: field_simps)
  have "of_int (2 * \<bar>100 * r - k\<bar>) < (of_int (int (total_reviews p) + 1) :: rat)" using assms(3) by (simp only: of_int_less_iff)
  then have "\<bar>of_int (100 * r - k) / n\<bar> < 1 / 2"
    using n by (simp add: abs_divide pos_divide_less_eq n_def)
  with x have d: "\<bar>100 * x - of_int k\<bar> < 1 / 2" by simp
  then have f: "\<lfloor>100 * x + 1 / 2\<rfloor> = k" by (intro floor_unique) linarith+
  have "numeric2 x = of_int k / 100"
  proof (cases "0 \<le> x")
    case True
    with f show ?thesis by (simp add: numeric2_def)
  next
    case False
    with d have "of_int k < (1 / 2 :: rat)" by linarith
    then have "k < 1" by linarith
    with assms(2) have k: "k = 0" by simp
    have "\<bar>100 * x\<bar> < 1 / 2" using d by (simp add: k)
    then have "0 \<le> 100 * (- x) + 1 / 2" "100 * (- x) + 1 / 2 < 1" by linarith+
    then have "\<lfloor>100 * (- x) + 1 / 2\<rfloor> = 0" by (intro floor_unique) simp_all
    with False k show ?thesis by (simp add: numeric2_def)
  qed
  then show ?thesis by (simp add: rate_def new_average_def assms(1) x_def n_def)
qed

section \<open>Reviews and averages together\<close>

definition ratings_of :: "uuid \<Rightarrow> review_db \<Rightarrow> int list" where
  "ratings_of det d = map rv_rating (filter (\<lambda>r. rv_detailer r = det) (reviews d))"

definition averages_follow :: "provider_profile list \<Rightarrow> review_db \<Rightarrow> bool" where
  "averages_follow ps d \<longleftrightarrow> profiles (shop d) = map (\<lambda>p. rate_all (ratings_of (prof_user p) d) p) ps \<and>
     (\<forall>r \<in> set (reviews d). rv_rating r \<in> {1..5})"

lemma rate_all_user [simp]: "prof_user (rate_all rs p) = prof_user p"
  unfolding rate_all_def by (induction rs arbitrary: p) (simp_all add: rate_def)

lemma averages_follow_moderate:
  assumes "moderate from target rid actor note d = Inr ((), d')" and "averages_follow ps d"
  shows "averages_follow ps d'"
  using assms(1)
proof (rule moderate_InrE)
  let ?f = "\<lambda>q. q\<lparr>rv_state := target, rv_actor := Some actor, rv_note := note\<rparr>"
  assume r: "reviews d' = update_where (\<lambda>q. rv_id q = rid) ?f (reviews d)" and p: "profiles (shop d') = profiles (shop d)"
  have "map rv_rating (filter (\<lambda>r. rv_detailer r = det) (update_where q ?f rs)) = map rv_rating (filter (\<lambda>r. rv_detailer r = det) rs)"
    for det q and rs :: "review list" by (induction rs) auto
  then have "ratings_of det d' = ratings_of det d" for det by (simp add: ratings_of_def r)
  with assms(2) p show ?thesis by (auto simp: averages_follow_def r set_update_where)
qed

lemma averages_follow_step:
  assumes "averages_follow ps d"
  shows "averages_follow ps (review_step rq d)"
proof (cases "review_handler rq d")
  case (Inr p)
  then obtain d' where p: "review_handler rq d = Inr ((), d')" by (cases p) auto
  have "averages_follow ps d'"
  proof (cases rq)
    case (Write_Review rid aid rating comment reviewer)
    with p obtain x where "create_review rid aid rating comment reviewer d = Inr (x, d')"
      by (auto simp: map_sum_def split: sum.splits)
    then show ?thesis
    proof (rule create_review_InrE)
      fix a det
      let ?r = "\<lparr>rv_id = rid, rv_appointment = aid, rv_reviewer = reviewer, rv_detailer = det, rv_rating = rating,
        rv_comment = comment, rv_state = ''auto_pending'', rv_actor = None, rv_note = None, rv_deleted = False\<rparr>"
      assume b: "1 \<le> rating" "rating \<le> 5" and r: "reviews d' = reviews d @ [?r]"
        and pr: "profiles (shop d') = update_where (\<lambda>p. prof_user p = det) (rate rating) (profiles (shop d))"
      have "ratings_of k d' = (if k = det then ratings_of k d @ [rating] else ratings_of k d)" for k
        by (simp add: ratings_of_def r)
      then have "rate_all (ratings_of (prof_user p) d') p
          = (if prof_user p = det then rate rating (rate_all (ratings_of (prof_user p) d) p) else rate_all (ratings_of (prof_user p) d) p)" for p
        by (simp add: rate_all_def)
      with assms b r pr show ?thesis by (auto simp: averages_follow_def update_where_def)
    qed
  qed (use p assms in \<open>auto simp: approve_review_def hide_review_def dest: averages_follow_moderate\<close>)
  with p show ?thesis by (simp add: review_step_def run_request_def)
qed (use assms in \<open>simp add: review_step_def run_request_def\<close>)

interpretation running_averages: guarded review_step "\<lambda>_. True" "averages_follow ps" for ps
  by unfold_locales (rule averages_follow_step)

text \<open>
  C29. A detailer's figures follow the reviews: through any sequence of requests each profile has counted
  exactly the reviews of its detailer. A profile without an average, which is how the program creates every
  profile, never gets one, whatever its reviews; one that has an average (only a script has set it) keeps it
  within 1 and 5 and, after m reviews, within m half-hundredths of the true mean.
\<close>

theorem average_follows_reviews:
  assumes "reviews d = []" and "p \<in> set (profiles (shop d))" and "rs = ratings_of (prof_user p) (fold review_step rqs d)"
  shows "\<exists>q. q \<in> set (profiles (shop (fold review_step rqs d))) \<and> prof_user q = prof_user p \<and> prof_id q = prof_id p \<and>
           total_reviews q = total_reviews p + length rs \<and>
           (average_rating p = None \<longrightarrow> average_rating q = None) \<and>
           (\<forall>a. average_rating p = Some a \<and> 0 < total_reviews p + length rs \<longrightarrow>
              (\<exists>b. average_rating q = Some b \<and> (1 \<le> a \<and> a \<le> 5 \<longrightarrow> 1 \<le> b \<and> b \<le> 5) \<and>
                   \<bar>b - (a * of_nat (total_reviews p) + of_int (sum_list rs)) / of_nat (total_reviews p + length rs)\<bar> \<le> of_nat (length rs) / 200))"
proof -
  let ?d = "fold review_step rqs d"
  have "averages_follow (profiles (shop d)) d"
    using assms(1) by (simp add: averages_follow_def ratings_of_def rate_all_def)
  then have f: "averages_follow (profiles (shop d)) ?d" by (intro running_averages.run_inv) simp_all
  then have q: "rate_all rs p \<in> set (profiles (shop ?d))" using assms(2,3) by (auto simp: averages_follow_def)
  have rs: "\<forall>r \<in> set rs. 1 \<le> r \<and> r \<le> 5" using f assms(3) by (auto simp: averages_follow_def ratings_of_def)
  have mean: "\<exists>b. average_rating (rate_all rs p) = Some b \<and> (1 \<le> a \<and> a \<le> 5 \<longrightarrow> 1 \<le> b \<and> b \<le> 5) \<and>
       \<bar>b - (a * of_nat (total_reviews p) + of_int (sum_list rs)) / of_nat (total_reviews p + length rs)\<bar> \<le> of_nat (length rs) / 200"
    if "average_rating p = Some a" "0 < total_reviews p + length rs" for a
    using rate_all_mean [OF that] rate_all_range [OF that(1) _ _ rs] by force
  show ?thesis
    using q total_rate_all [of rs p] mean null_average_stays [of p rs] by (intro exI [of _ "rate_all rs p"]) auto
qed

section \<open>What a promotional code is worth\<close>

text \<open>
  A preview never invents money: whatever the code, discount and final price are not negative and
  add up to the subtotal, nothing is taken off without eligibility, and a code is eligible only for an
  active row within its dates, its minimum and its per-user limit.
\<close>

lemma promo_preview_bounds:
  assumes "\<forall>p \<in> set promos. promo_row_ok p" and "0 \<le> subtotal"
    and "promo_preview promos used now code subtotal uid = (ok, discount, final, reason)"
  shows "0 \<le> discount \<and> 0 \<le> final \<and> discount + final = subtotal \<and> (\<not> ok \<longrightarrow> discount = 0) \<and>
         (ok \<longleftrightarrow> reason = None) \<and>
         (ok \<longrightarrow> (\<exists>p \<in> set promos. pr_code p = normalize_code code \<and> pr_active p \<and> \<not> pr_deleted p \<and>
            (\<forall>t. pr_from p = Some t \<longrightarrow> t \<le> now) \<and> (\<forall>t. pr_until p = Some t \<longrightarrow> now \<le> t) \<and>
            (\<forall>m. pr_min_order p = Some m \<longrightarrow> m = 0 \<or> m \<le> subtotal) \<and>
            (\<forall>u. uid = Some u \<longrightarrow> int (used (pr_id p) u) < pr_per_user p)))"
proof (cases "find (\<lambda>p. pr_code p = normalize_code code \<and> \<not> pr_deleted p) promos")
  case None
  with assms(2,3) show ?thesis by (auto simp: promo_preview_def promo_lookup_def)
next
  case (Some p)
  then have p: "p \<in> set promos" "pr_code p = normalize_code code" "\<not> pr_deleted p" by (auto simp: find_Some_iff)
  with assms(1) have row: "0 < pr_amount p" "pr_percent p \<Longrightarrow> pr_amount p \<le> 100" by (auto simp: promo_row_ok_def)
  define off where "off = (if pr_percent p then subtotal * pr_amount p div 100 else min (pr_amount p) subtotal)"
  have "subtotal * pr_amount p div 100 \<le> subtotal" if "pr_percent p"
    using mult_left_mono [OF row(2) [OF that] assms(2)] zdiv_mono1 [of "subtotal * pr_amount p" "subtotal * 100" 100] by simp
  moreover have "0 \<le> subtotal * pr_amount p div 100" using row(1) assms(2) by (simp add: pos_imp_zdiv_nonneg_iff)
  ultimately have off: "0 \<le> off" "off \<le> subtotal" using row(1) assms(2) by (auto simp: off_def)
  show ?thesis
  proof (cases "snd (promo_lookup promos used now code uid) = (None, snd (snd (promo_lookup promos used now code uid)))")
    case True
    then obtain rem where l: "promo_lookup promos used now code uid = (Some p, None, rem)"
      using Some by (auto simp: promo_lookup_def Let_def split: option.splits)
    then have g: "global_ineligible_reason now p = None" "\<forall>u. uid = Some u \<longrightarrow> int (used (pr_id p) u) < pr_per_user p"
      using Some by (auto simp: promo_lookup_def Let_def split: option.splits if_splits)
    from g(1) have "pr_active p" "\<forall>t. pr_from p = Some t \<longrightarrow> t \<le> now" "\<forall>t. pr_until p = Some t \<longrightarrow> now \<le> t"
      by (auto simp: global_ineligible_reason_def split: if_splits option.splits)
    with l assms(3) off p g(2) show ?thesis
      by (auto simp: promo_preview_def Let_def off_def [symmetric] split: option.splits if_splits)
  next
    case False
    then obtain rs rem where "promo_lookup promos used now code uid = (Some p, Some rs, rem)"
      using Some by (auto simp: promo_lookup_def Let_def split: option.splits if_splits)
    with assms(2,3) show ?thesis by (auto simp: promo_preview_def)
  qed
qed

section \<open>Witnesses\<close>

definition rated_appointment :: appointment where
  "rated_appointment = \<lparr>appt_id = 60, client_id = 1, detailer_id = Some 40, appt_vehicle = None, appt_service = 3, scheduled_time = 0,
     estimated_end_time = None, travel_buffer_end_time = None, arrived_at = None, started_at = None, completed_at = None,
     appt_status = COMPLETED, estimated_price = 1000, actual_price = None, payment_intent = None, detailer_notes = None,
     appt_deleted = False\<rparr>"

definition rated_profile :: provider_profile where
  "rated_profile = (new_profile 70 40)\<lparr>average_rating := Some 4, total_reviews := 1\<rparr>"

definition review_start :: review_db where
  "review_start = \<lparr>shop = empty_db\<lparr>appointments := [rated_appointment], profiles := [rated_profile]\<rparr>, reviews = []\<rparr>"

lemma review_written: "rv_id ` set (reviews (fold review_step [Write_Review 61 60 5 None 1] review_start)) = {61}"
  by (simp add: review_step_def run_request_def create_review_def appointment_by_id_def review_start_def rated_appointment_def
      review_of_def insert_review_def map_sum_def)

theorem reviews_are_genuine_witness:
  "reviews (fold review_step [Write_Review 61 60 5 None 1] review_start) \<noteq> [] \<and>
   genuine (shop (fold review_step [Write_Review 61 60 5 None 1] review_start))
     (hd (reviews (fold review_step [Write_Review 61 60 5 None 1] review_start)))"
proof -
  have "reviews review_start = []" by (simp add: review_start_def)
  from reviews_are_genuine [OF this] review_written show ?thesis by (metis hd_in_set image_empty insert_not_empty list.set(1))
qed

definition unrated_start :: review_db where
  "unrated_start = review_start\<lparr>shop := (shop review_start)\<lparr>profiles := [rated_profile\<lparr>average_rating := None\<rparr>]\<rparr>\<rparr>"

text \<open>A profile that has an average, and the same profile as the program would have left it.\<close>

theorem average_follows_reviews_witness:
  "(\<exists>q b. q \<in> set (profiles (shop (fold review_step [Write_Review 61 60 5 None 1] review_start))) \<and> total_reviews q = 2 \<and>
     average_rating q = Some b \<and> \<bar>b - 9 / 2\<bar> \<le> 1 / 200) \<and>
   (\<exists>q. q \<in> set (profiles (shop (fold review_step [Write_Review 61 60 5 None 1] unrated_start))) \<and> total_reviews q = 2 \<and>
     average_rating q = None)"
proof
  have r: "[5] = ratings_of (prof_user rated_profile) (fold review_step [Write_Review 61 60 5 None 1] review_start)"
    by (simp add: ratings_of_def review_step_def run_request_def create_review_def appointment_by_id_def review_start_def
        rated_appointment_def rated_profile_def new_profile_def review_of_def insert_review_def map_sum_def)
  have s: "reviews review_start = []" "rated_profile \<in> set (profiles (shop review_start))" "average_rating rated_profile = Some 4"
    "total_reviews rated_profile = 1"
    by (simp_all add: review_start_def rated_profile_def)
  from average_follows_reviews [OF s(1,2) r] s(3,4)
  show "\<exists>q b. q \<in> set (profiles (shop (fold review_step [Write_Review 61 60 5 None 1] review_start))) \<and> total_reviews q = 2 \<and>
     average_rating q = Some b \<and> \<bar>b - 9 / 2\<bar> \<le> 1 / 200" by auto
  let ?p = "rated_profile\<lparr>average_rating := None\<rparr>"
  have u: "[5] = ratings_of (prof_user ?p) (fold review_step [Write_Review 61 60 5 None 1] unrated_start)"
    by (simp add: ratings_of_def review_step_def run_request_def create_review_def appointment_by_id_def review_start_def unrated_start_def
        rated_appointment_def rated_profile_def new_profile_def review_of_def insert_review_def map_sum_def)
  have "reviews unrated_start = []" "?p \<in> set (profiles (shop unrated_start))" by (simp_all add: unrated_start_def review_start_def)
  from average_follows_reviews [OF this u] s(4)
  show "\<exists>q. q \<in> set (profiles (shop (fold review_step [Write_Review 61 60 5 None 1] unrated_start))) \<and> total_reviews q = 2 \<and>
     average_rating q = None" by auto
qed

definition demo_promo :: promo where
  "demo_promo = \<lparr>pr_id = 80, pr_code = ''NEW10'', pr_percent = True, pr_amount = 10, pr_min_order = Some 1000, pr_per_user = 1,
     pr_from = None, pr_until = Some 100, pr_active = True, pr_deleted = False\<rparr>"

end
