(* ===== verification/Access.thy ===== *)
theory Access
  imports Schema
begin

text \<open>
  Roles and permissions: the tables of domains/auth/models.py, their endpoints in
  domains/admin/router.py over domains/admin/repository.py, and the permission check of
  domains/auth/service.py with its copy of a user's permissions in Redis. The roles of \<open>User\<close> in
  the other theories are the names this one computes from the tables.
\<close>

section \<open>Tables\<close>

record role =
  role_id :: uuid
  role_name :: string
  role_description :: "string option"
  is_system :: bool
  role_deleted :: bool

record permission =
  perm_id :: uuid
  perm_name :: string
  perm_resource :: string
  perm_action :: string

text \<open>\<open>account_ids\<close>: the keys of the users table, which \<open>user_roles\<close> refers to.\<close>

record rbac =
  account_ids :: "uuid list"
  roles :: "role list"
  permissions :: "permission list"
  role_permissions :: "(uuid \<times> uuid) list"
  user_roles :: "(uuid \<times> uuid) list"

text \<open>Redis, where there is one: the permissions of a user and when the entry expires.\<close>

record access_state =
  tables :: rbac
  perm_cache :: "(uuid \<Rightarrow> (string list \<times> instant) option) option"

definition on_tables :: "(rbac \<Rightarrow> rbac) \<Rightarrow> access_state \<Rightarrow> access_state" where
  "on_tables f s = s\<lparr>tables := f (tables s)\<rparr>"

definition get_role_by_id :: "uuid \<Rightarrow> rbac \<Rightarrow> role option" where
  "get_role_by_id rid d = find (\<lambda>r. role_id r = rid \<and> \<not> role_deleted r) (roles d)"

definition get_role_by_name :: "string \<Rightarrow> rbac \<Rightarrow> role option" where
  "get_role_by_name n d = find (\<lambda>r. role_name r = n \<and> \<not> role_deleted r) (roles d)"

definition get_permission_by_id :: "uuid \<Rightarrow> rbac \<Rightarrow> permission option" where
  "get_permission_by_id pid d = find (\<lambda>p. perm_id p = pid) (permissions d)"

text \<open>The property \<open>roles\<close> of \<open>User\<close>: a deleted role is not left out.\<close>

definition role_names_of :: "uuid \<Rightarrow> rbac \<Rightarrow> string list" where
  "role_names_of uid d = [role_name r. (u, rid) \<leftarrow> user_roles d, u = uid, r \<leftarrow> roles d, role_id r = rid]"

section \<open>The endpoints\<close>

definition role_not_found :: exn where "role_not_found = HTTPException 404 ''Role not found.''"

definition name_length_ok :: "string \<Rightarrow> bool" where
  "name_length_ok n \<longleftrightarrow> 2 \<le> length n \<and> length n \<le> 50"

definition create_role :: "uuid \<Rightarrow> string \<Rightarrow> string option \<Rightarrow> access_state \<Rightarrow> (unit \<times> access_state) result" where
  "create_role rid n desc s =
     (if \<not> name_length_ok n then Inl (HTTPException 422 ''name'')
      else if get_role_by_name n (tables s) \<noteq> None then Inl (HTTPException 409 ''Role already exists.'')
      else if \<exists>r \<in> set (roles (tables s)). role_id r = rid \<or> role_name r = n then Inl (IntegrityError ''uq_role_name'')
      else Inr ((), on_tables (\<lambda>d. d\<lparr>roles := roles d @ [\<lparr>role_id = rid, role_name = n, role_description = desc,
                     is_system = False, role_deleted = False\<rparr>]\<rparr>) s))"

text \<open>The fields that are given and not null; an unchanged or free name passes the unique constraint.\<close>

definition update_role :: "uuid \<Rightarrow> string option \<Rightarrow> string option \<Rightarrow> access_state \<Rightarrow> (unit \<times> access_state) result" where
  "update_role rid n desc s =
     (if (case n of None \<Rightarrow> False | Some m \<Rightarrow> \<not> name_length_ok m) then Inl (HTTPException 422 ''name'')
      else case get_role_by_id rid (tables s) of
        None \<Rightarrow> Inl role_not_found
      | Some r \<Rightarrow>
          if is_system r then Inl role_not_found
          else if \<exists>q \<in> set (roles (tables s)). role_id q \<noteq> rid \<and> Some (role_name q) = n then Inl (IntegrityError ''uq_role_name'')
          else Inr ((), on_tables (\<lambda>d. d\<lparr>roles := update_where (\<lambda>q. role_id q = rid)
                 (\<lambda>q. q\<lparr>role_name := case_option (role_name q) id n,
                        role_description := (if desc = None then role_description q else desc)\<rparr>) (roles d)\<rparr>) s))"

definition delete_role :: "uuid \<Rightarrow> access_state \<Rightarrow> (unit \<times> access_state) result" where
  "delete_role rid s =
     (case get_role_by_id rid (tables s) of
        None \<Rightarrow> Inl role_not_found
      | Some r \<Rightarrow>
          if is_system r then Inl (HTTPException 409 ''System role cannot be deleted.'')
          else Inr ((), on_tables (\<lambda>d. d\<lparr>roles := update_where (\<lambda>q. role_id q = rid) (\<lambda>q. q\<lparr>role_deleted := True\<rparr>) (roles d)\<rparr>) s))"

definition assign_permission_to_role :: "uuid \<Rightarrow> uuid \<Rightarrow> access_state \<Rightarrow> (unit \<times> access_state) result" where
  "assign_permission_to_role rid pid s =
     (if get_permission_by_id pid (tables s) = None then Inl (HTTPException 404 ''Permission not found.'')
      else if (rid, pid) \<in> set (role_permissions (tables s)) then Inr ((), s)
      else if rid \<notin> role_id ` set (roles (tables s)) then Inl (IntegrityError ''role_permissions_role_id_fkey'')
      else Inr ((), on_tables (\<lambda>d. d\<lparr>role_permissions := role_permissions d @ [(rid, pid)]\<rparr>) s))"

definition revoke_permission_from_role :: "uuid \<Rightarrow> uuid \<Rightarrow> access_state \<Rightarrow> (unit \<times> access_state) result" where
  "revoke_permission_from_role rid pid s =
     (if rowcount ((=) (rid, pid)) (role_permissions (tables s)) = 0 then Inl (HTTPException 404 ''Permission assignment not found.'')
      else Inr ((), on_tables (\<lambda>d. d\<lparr>role_permissions := delete_where ((=) (rid, pid)) (role_permissions d)\<rparr>) s))"

text \<open>\<open>PermissionCreate\<close> checks the form of the name, \<open>action:resource\<close> in lower-case letters and underscores.\<close>

definition word_char :: "char \<Rightarrow> bool" where
  "word_char c \<longleftrightarrow> c = CHR ''_'' \<or> (let n = (of_char c :: nat) in 97 \<le> n \<and> n \<le> 122)"

definition permission_name_ok :: "string \<Rightarrow> bool" where
  "permission_name_ok n \<longleftrightarrow>
     (let a = takeWhile word_char n; b = dropWhile word_char n
      in a \<noteq> [] \<and> b \<noteq> [] \<and> hd b = CHR '':'' \<and> tl b \<noteq> [] \<and> list_all word_char (tl b))"

definition create_permission :: "uuid \<Rightarrow> string \<Rightarrow> string \<Rightarrow> string \<Rightarrow> access_state \<Rightarrow> (unit \<times> access_state) result" where
  "create_permission pid n res act s =
     (if \<not> (permission_name_ok n \<and> name_length_ok res \<and> name_length_ok act) then Inl (HTTPException 422 ''permission'')
      else if \<exists>p \<in> set (permissions (tables s)). perm_id p = pid \<or> perm_name p = n then Inl (IntegrityError ''uq_permission_name'')
      else Inr ((), on_tables (\<lambda>d. d\<lparr>permissions := permissions d @ [\<lparr>perm_id = pid, perm_name = n, perm_resource = res,
                     perm_action = act\<rparr>]\<rparr>) s))"

definition delete_permission :: "uuid \<Rightarrow> access_state \<Rightarrow> (unit \<times> access_state) result" where
  "delete_permission pid s =
     (if get_permission_by_id pid (tables s) = None then Inl (HTTPException 404 ''Permission not found.'')
      else Inr ((), on_tables (\<lambda>d. d\<lparr>role_permissions := delete_where (\<lambda>rp. snd rp = pid) (role_permissions d),
                                   permissions := delete_where (\<lambda>p. perm_id p = pid) (permissions d)\<rparr>) s))"

definition invalidate_permission_cache :: "uuid \<Rightarrow> access_state \<Rightarrow> access_state" where
  "invalidate_permission_cache uid s = s\<lparr>perm_cache := map_option (\<lambda>c. c(uid := None)) (perm_cache s)\<rparr>"

definition assign_role_to_user :: "uuid \<Rightarrow> uuid \<Rightarrow> access_state \<Rightarrow> (unit \<times> access_state) result" where
  "assign_role_to_user uid rid s =
     (if get_role_by_id rid (tables s) = None then Inl role_not_found
      else if (uid, rid) \<in> set (user_roles (tables s)) then Inr ((), invalidate_permission_cache uid s)
      else if uid \<notin> set (account_ids (tables s)) then Inl (IntegrityError ''user_roles_user_id_fkey'')
      else Inr ((), invalidate_permission_cache uid (on_tables (\<lambda>d. d\<lparr>user_roles := user_roles d @ [(uid, rid)]\<rparr>) s)))"

definition revoke_role_from_user :: "uuid \<Rightarrow> uuid \<Rightarrow> access_state \<Rightarrow> (unit \<times> access_state) result" where
  "revoke_role_from_user uid rid s =
     (if rowcount ((=) (uid, rid)) (user_roles (tables s)) = 0 then Inl (HTTPException 404 ''Role assignment not found.'')
      else Inr ((), invalidate_permission_cache uid
             (on_tables (\<lambda>d. d\<lparr>user_roles := delete_where ((=) (uid, rid)) (user_roles d)\<rparr>) s)))"

text \<open>
  The same table is written when a user becomes a provider and when a registration is completed: the role is
  looked up by name, deleted or not, and the cache is left alone. Answer: whether the user is new to the role.
\<close>

definition grant_role_if_missing :: "string \<Rightarrow> uuid \<Rightarrow> access_state \<Rightarrow> (bool \<times> access_state) result" where
  "grant_role_if_missing n uid s =
     (case find (\<lambda>r. role_name r = n) (roles (tables s)) of
        None \<Rightarrow> Inl (HTTPException 500 ''RBAC misconfiguration.'')
      | Some r \<Rightarrow>
          if (uid, role_id r) \<in> set (user_roles (tables s)) then Inr (False, s)
          else if uid \<notin> set (account_ids (tables s)) then Inl (IntegrityError ''user_roles_user_id_fkey'')
          else Inr (True, on_tables (\<lambda>d. d\<lparr>user_roles := user_roles d @ [(uid, role_id r)]\<rparr>) s))"

definition grant_role_at_registration :: "string \<Rightarrow> uuid \<Rightarrow> access_state \<Rightarrow> (bool \<times> access_state) result" where
  "grant_role_at_registration n uid s =
     (if find (\<lambda>r. role_name r = n) (roles (tables s)) = None then Inr (False, s) else grant_role_if_missing n uid s)"

section \<open>The permission check\<close>

definition PERM_CACHE_TTL :: int where "PERM_CACHE_TTL = seconds 600"

text \<open>The SQL query: a deleted role still joins.\<close>

definition permissions_of :: "uuid \<Rightarrow> rbac \<Rightarrow> string list" where
  "permissions_of uid d =
     [perm_name p. (u, rid) \<leftarrow> user_roles d, u = uid, r \<leftarrow> roles d, role_id r = rid,
                   (r', pid) \<leftarrow> role_permissions d, r' = rid, p \<leftarrow> permissions d, perm_id p = pid]"

definition grants :: "string \<Rightarrow> string list \<Rightarrow> bool" where
  "grants n ps \<longleftrightarrow> n \<in> set ps \<or> ''*:*'' \<in> set ps"

definition cached_permissions :: "instant \<Rightarrow> uuid \<Rightarrow> access_state \<Rightarrow> string list option" where
  "cached_permissions now uid s =
     (case perm_cache s of
        None \<Rightarrow> None
      | Some c \<Rightarrow> (case c uid of None \<Rightarrow> None | Some (ps, e) \<Rightarrow> if now < e then Some ps else None))"

definition has_permission_cached :: "instant \<Rightarrow> uuid \<Rightarrow> string \<Rightarrow> access_state \<Rightarrow> bool \<times> access_state" where
  "has_permission_cached now uid n s =
     (case cached_permissions now uid s of
        Some ps \<Rightarrow> (grants n ps, s)
      | None \<Rightarrow>
          (let ps = permissions_of uid (tables s)
           in (grants n ps, s\<lparr>perm_cache := map_option (\<lambda>c. c(uid \<mapsto> (ps, now + PERM_CACHE_TTL))) (perm_cache s)\<rparr>)))"

definition require_permission :: "instant \<Rightarrow> uuid \<Rightarrow> string \<Rightarrow> string \<Rightarrow> access_state \<Rightarrow> unit result \<times> access_state" where
  "require_permission now uid act res s =
     (if ''admin'' \<in> set (role_names_of uid (tables s)) then (Inr (), s)
      else (case has_permission_cached now uid (act @ '':'' @ res) s of
              (ok, s') \<Rightarrow> (if ok then Inr () else Inl (HTTPException 403 ''Missing permission''), s')))"

section \<open>Runs\<close>

datatype access_request =
    Create_Role uuid string "string option"
  | Update_Role uuid "string option" "string option"
  | Delete_Role uuid
  | Grant_Permission uuid uuid
  | Withdraw_Permission uuid uuid
  | Create_Permission uuid string string string
  | Delete_Permission uuid
  | Assign_Role uuid uuid
  | Revoke_Role uuid uuid

fun access_handler :: "access_request \<Rightarrow> access_state \<Rightarrow> (unit \<times> access_state) result" where
  "access_handler (Create_Role rid n desc) s = create_role rid n desc s"
| "access_handler (Update_Role rid n desc) s = update_role rid n desc s"
| "access_handler (Delete_Role rid) s = delete_role rid s"
| "access_handler (Grant_Permission rid pid) s = assign_permission_to_role rid pid s"
| "access_handler (Withdraw_Permission rid pid) s = revoke_permission_from_role rid pid s"
| "access_handler (Create_Permission pid n res act) s = create_permission pid n res act s"
| "access_handler (Delete_Permission pid) s = delete_permission pid s"
| "access_handler (Assign_Role uid rid) s = assign_role_to_user uid rid s"
| "access_handler (Revoke_Role uid rid) s = revoke_role_from_user uid rid s"

text \<open>
  An event of a run, at some time: an administrator's request, a user who becomes a provider or completes a
  registration (\<open>registering\<close>) and takes a role by it, a permission check of some user.
\<close>

datatype access_event = Request user access_request | Take_Role bool string uuid | Check uuid string string

fun access_step :: "instant \<times> access_event \<Rightarrow> access_state \<Rightarrow> access_state" where
  "access_step (_, Request actor r) s =
     (case require_role [''admin''] actor of Inl _ \<Rightarrow> s | Inr _ \<Rightarrow> snd (run_request (access_handler r) s))"
| "access_step (_, Take_Role registering n uid) s =
     snd (run_request (if registering then grant_role_at_registration n uid else grant_role_if_missing n uid) s)"
| "access_step (now, Check uid act res) s = snd (require_permission now uid act res s)"

section \<open>The tables stay consistent\<close>

definition rbac_ok :: "rbac \<Rightarrow> bool" where
  "rbac_ok d \<longleftrightarrow>
     distinct (map role_id (roles d)) \<and> distinct (map role_name (roles d)) \<and>
     distinct (map perm_id (permissions d)) \<and> distinct (map perm_name (permissions d)) \<and>
     distinct (role_permissions d) \<and> distinct (user_roles d) \<and>
     (\<forall>(r, p) \<in> set (role_permissions d). r \<in> role_id ` set (roles d) \<and> p \<in> perm_id ` set (permissions d)) \<and>
     (\<forall>(u, r) \<in> set (user_roles d). u \<in> set (account_ids d) \<and> r \<in> role_id ` set (roles d))"

lemma tables_on_tables [simp]:
  "tables (on_tables f s) = f (tables s)" "tables (invalidate_permission_cache uid s) = tables s"
  "perm_cache (on_tables f s) = perm_cache s"
  by (simp_all add: on_tables_def invalidate_permission_cache_def)

lemma delete_where_simps [simp]:
  "set (delete_where q xs) = {x \<in> set xs. \<not> q x}"
  "distinct (map f xs) \<Longrightarrow> distinct (map f (delete_where q xs))"
  "distinct xs \<Longrightarrow> distinct (delete_where q xs)"
  by (auto simp: delete_where_def distinct_map_filter)

lemma role_ids_update:
  assumes "\<And>r. role_id (f r) = role_id r"
  shows "map role_id (update_where q f rs) = map role_id rs" and "role_id ` set (update_where q f rs) = role_id ` set rs"
proof -
  show m: "map role_id (update_where q f rs) = map role_id rs" using assms by (intro map_update_where)
  show "role_id ` set (update_where q f rs) = role_id ` set rs" using arg_cong [OF m, of set] by simp
qed

lemma distinct_renamed:
  assumes "distinct (map role_name rs)" and "distinct (map role_id rs)"
    and "\<And>q. q \<in> set rs \<Longrightarrow> role_id q \<noteq> rid \<Longrightarrow> role_name q \<noteq> m" and "\<And>q. role_name (f q) = m"
  shows "distinct (map role_name (update_where (\<lambda>q. role_id q = rid) f rs))"
  using assms(1-3)
proof (induction rs)
  case (Cons r rs)
  show ?case
  proof (cases "role_id r = rid")
    case True
    with Cons.prems(2) have "\<forall>q \<in> set rs. role_id q \<noteq> rid" by (metis distinct.simps(2) image_eqI list.simps(9) set_map)
    then have "update_where (\<lambda>q. role_id q = rid) f rs = rs" by (simp add: update_where_none)
    moreover have "m \<notin> role_name ` set rs" using Cons.prems(3) \<open>\<forall>q \<in> set rs. role_id q \<noteq> rid\<close> by auto
    ultimately show ?thesis using True Cons.prems(1) assms(4) by simp
  next
    case False
    have "role_name r \<notin> role_name ` set (update_where (\<lambda>q. role_id q = rid) f rs)"
      using Cons.prems(1) Cons.prems(3) [of r] False assms(4) by (auto simp: set_update_where split: if_splits)
    with False Cons show ?thesis by auto
  qed
qed simp

lemma update_role_ok:
  assumes "update_role rid n desc s = Inr ((), s')" and "rbac_ok (tables s)"
  shows "rbac_ok (tables s')"
proof -
  let ?f = "\<lambda>q. q\<lparr>role_name := case_option (role_name q) id n, role_description := (if desc = None then role_description q else desc)\<rparr>"
  let ?rs = "update_where (\<lambda>q. role_id q = rid) ?f (roles (tables s))"
  from assms(1) have s': "tables s' = (tables s)\<lparr>roles := ?rs\<rparr>"
    and free: "\<And>q. q \<in> set (roles (tables s)) \<Longrightarrow> role_id q \<noteq> rid \<Longrightarrow> Some (role_name q) \<noteq> n"
    by (auto simp: update_role_def split: option.splits if_splits)
  have names: "distinct (map role_name ?rs)"
  proof (cases n)
    case None
    then have "map role_name ?rs = map role_name (roles (tables s))" by (intro map_update_where) simp
    with assms(2) show ?thesis by (simp add: rbac_ok_def)
  next
    case (Some m)
    with assms(2) free show ?thesis unfolding rbac_ok_def by (intro distinct_renamed [where m = m]) auto
  qed
  have ids: "map role_id ?rs = map role_id (roles (tables s))" "role_id ` set ?rs = role_id ` set (roles (tables s))"
    by (rule role_ids_update; simp)+
  from assms(2) names ids show ?thesis by (simp add: s' rbac_ok_def)
qed

lemma delete_role_ok:
  assumes "delete_role rid s = Inr ((), s')" and "rbac_ok (tables s)"
  shows "rbac_ok (tables s')"
proof -
  let ?rs = "update_where (\<lambda>q. role_id q = rid) (\<lambda>q. q\<lparr>role_deleted := True\<rparr>) (roles (tables s))"
  from assms(1) have s': "tables s' = (tables s)\<lparr>roles := ?rs\<rparr>"
    by (auto simp: delete_role_def split: option.splits if_splits)
  have "map role_name ?rs = map role_name (roles (tables s))" by (intro map_update_where) simp
  moreover have "map role_id ?rs = map role_id (roles (tables s))" "role_id ` set ?rs = role_id ` set (roles (tables s))"
    by (rule role_ids_update; simp)+
  ultimately show ?thesis using assms(2) by (simp add: s' rbac_ok_def)
qed

lemma get_role_SomeD: "get_role_by_id rid d = Some r \<Longrightarrow> r \<in> set (roles d) \<and> role_id r = rid \<and> \<not> role_deleted r"
  by (auto simp: get_role_by_id_def find_Some_iff)

lemma find_SomeD: "find P xs = Some x \<Longrightarrow> x \<in> set xs \<and> P x"
  by (auto simp: find_Some_iff)

lemma get_role_mem: "get_role_by_id rid d \<noteq> None \<Longrightarrow> rid \<in> role_id ` set (roles d)"
  by (auto dest: get_role_SomeD)

lemma get_permission_mem: "get_permission_by_id pid d \<noteq> None \<Longrightarrow> pid \<in> perm_id ` set (permissions d)"
  by (auto simp: get_permission_by_id_def find_Some_iff)

lemma access_handler_ok:
  assumes "access_handler r s = Inr ((), s')" and "rbac_ok (tables s)"
  shows "rbac_ok (tables s')"
proof (cases r)
  case (Create_Role rid n desc)
  with assms show ?thesis by (fastforce simp: create_role_def rbac_ok_def split: if_splits)
next
  case (Update_Role rid n desc)
  with assms show ?thesis by (auto intro: update_role_ok)
next
  case (Delete_Role rid)
  with assms show ?thesis by (auto intro: delete_role_ok)
next
  case (Grant_Permission rid pid)
  show ?thesis
  proof (cases "(rid, pid) \<in> set (role_permissions (tables s))")
    case True
    with Grant_Permission assms show ?thesis by (simp add: assign_permission_to_role_def split: if_splits)
  next
    case False
    with Grant_Permission assms(1) have "get_permission_by_id pid (tables s) \<noteq> None" "rid \<in> role_id ` set (roles (tables s))"
      "tables s' = (tables s)\<lparr>role_permissions := role_permissions (tables s) @ [(rid, pid)]\<rparr>"
      by (auto simp: assign_permission_to_role_def split: if_splits)
    with False get_permission_mem [of pid "tables s"] assms(2) show ?thesis by (simp add: rbac_ok_def)
  qed
next
  case (Withdraw_Permission rid pid)
  with assms show ?thesis by (auto simp: revoke_permission_from_role_def rbac_ok_def split: if_splits)
next
  case (Create_Permission pid n res act)
  with assms show ?thesis by (fastforce simp: create_permission_def rbac_ok_def split: if_splits)
next
  case (Delete_Permission pid)
  with assms(1) have t: "tables s' = (tables s)\<lparr>role_permissions := delete_where (\<lambda>rp. snd rp = pid) (role_permissions (tables s)),
      permissions := delete_where (\<lambda>p. perm_id p = pid) (permissions (tables s))\<rparr>"
    by (auto simp: delete_permission_def split: if_splits)
  from assms(2) show ?thesis unfolding rbac_ok_def t by simp fast
next
  case (Assign_Role uid rid)
  show ?thesis
  proof (cases "(uid, rid) \<in> set (user_roles (tables s))")
    case True
    with Assign_Role assms(1) have "tables s' = tables s" by (auto simp: assign_role_to_user_def split: if_splits)
    with assms(2) show ?thesis by simp
  next
    case False
    with Assign_Role assms(1) have "get_role_by_id rid (tables s) \<noteq> None" "uid \<in> set (account_ids (tables s))"
      "tables s' = (tables s)\<lparr>user_roles := user_roles (tables s) @ [(uid, rid)]\<rparr>"
      by (auto simp: assign_role_to_user_def split: if_splits)
    with False get_role_mem [of rid "tables s"] assms(2) show ?thesis by (simp add: rbac_ok_def)
  qed
next
  case (Revoke_Role uid rid)
  with assms show ?thesis by (auto simp: revoke_role_from_user_def rbac_ok_def split: if_splits)
qed

lemma require_permission_tables [simp]: "tables (snd (require_permission now uid act res s)) = tables s"
  by (simp add: require_permission_def has_permission_cached_def Let_def split: option.split prod.split)

lemma access_step_cases:
  assumes "e = (now, Request actor r)"
  obtains (refused) "access_step e s = s" | (served) s' where "access_handler r s = Inr ((), s')" "access_step e s = s'"
  using assms by (cases "access_handler r s"; cases "require_role [''admin''] actor") (auto simp: run_request_def)

text \<open>Taking a role changes nothing or adds a row for the user.\<close>

lemma take_role_cases:
  obtains (same) "access_step (now, Take_Role registering n uid) s = s"
  | (taken) r where "r \<in> set (roles (tables s))" "role_name r = n" "(uid, role_id r) \<notin> set (user_roles (tables s))" "uid \<in> set (account_ids (tables s))"
      "access_step (now, Take_Role registering n uid) s = on_tables (\<lambda>d. d\<lparr>user_roles := user_roles d @ [(uid, role_id r)]\<rparr>) s"
proof (cases "find (\<lambda>r. role_name r = n) (roles (tables s))")
  case None
  then show thesis by (intro same) (simp add: grant_role_at_registration_def grant_role_if_missing_def run_request_def)
next
  case (Some r)
  then have r: "r \<in> set (roles (tables s))" "role_name r = n" by (auto simp: find_Some_iff)
  show thesis
  proof (cases "(uid, role_id r) \<notin> set (user_roles (tables s)) \<and> uid \<in> set (account_ids (tables s))")
    case True
    with Some show thesis
      by (intro taken [OF r]) (simp_all add: grant_role_at_registration_def grant_role_if_missing_def run_request_def)
  next
    case False
    with Some show thesis
      by (intro same) (auto simp: grant_role_at_registration_def grant_role_if_missing_def run_request_def)
  qed
qed

lemma take_role_ok: "rbac_ok (tables s) \<Longrightarrow> rbac_ok (tables (access_step (now, Take_Role registering n uid) s))"
  by (cases rule: take_role_cases [of now registering n uid s]) (auto simp: rbac_ok_def)

lemma access_step_ok: "rbac_ok (tables s) \<Longrightarrow> rbac_ok (tables (access_step e s))"
proof (cases e)
  case (Pair now ev)
  assume ok: "rbac_ok (tables s)"
  show ?thesis
  proof (cases ev)
    case (Request actor r)
    with Pair have "e = (now, Request actor r)" by simp
    then show ?thesis using ok by (cases rule: access_step_cases [where s = s]) (auto intro: access_handler_ok)
  next
    case (Take_Role registering n uid)
    with ok Pair show ?thesis by (simp only: take_role_ok)
  next
    case (Check uid act res)
    with ok Pair show ?thesis by simp
  qed
qed

interpretation rbac_tables: guarded access_step "\<lambda>_. True" "\<lambda>s. rbac_ok (tables s)"
  by unfold_locales (rule access_step_ok)

section \<open>System roles\<close>

lemma same_id: "rbac_ok d \<Longrightarrow> q \<in> set (roles d) \<Longrightarrow> r \<in> set (roles d) \<Longrightarrow> role_id q = role_id r \<Longrightarrow> q = r"
  by (auto simp: rbac_ok_def distinct_map inj_on_def)

lemma filter_single: "distinct xs \<Longrightarrow> x \<in> set xs \<Longrightarrow> filter (\<lambda>y. y = x) xs = [x]"
  by (induction xs) (auto simp: filter_empty_conv)

lemma update_keeps_system:
  assumes "rbac_ok d" and "get_role_by_id rid d = Some q" and "\<not> is_system q" and "r \<in> set (roles d)" and "is_system r"
  shows "r \<in> set (update_where (\<lambda>q. role_id q = rid) f (roles d))"
proof -
  from get_role_SomeD [OF assms(2)] have q: "q \<in> set (roles d)" "role_id q = rid" by auto
  have "role_id r \<noteq> rid"
  proof
    assume "role_id r = rid"
    with same_id [OF assms(1) q(1) assms(4)] q(2) have "q = r" by simp
    with assms(3,5) show False by simp
  qed
  with assms(4) show ?thesis by (auto simp: set_update_where intro!: bexI [of _ r])
qed

lemma access_handler_keeps_system:
  assumes "access_handler h s = Inr ((), s')" and "rbac_ok (tables s)" and "r \<in> set (roles (tables s))" and "is_system r"
  shows "r \<in> set (roles (tables s'))"
proof (cases h)
  case (Update_Role rid n desc)
  with assms(1) obtain q where "get_role_by_id rid (tables s) = Some q" "\<not> is_system q"
    by (auto simp: update_role_def split: option.splits if_splits)
  note kept = update_keeps_system [OF assms(2) this assms(3,4)]
  from Update_Role assms(1) obtain f where "tables s' = (tables s)\<lparr>roles := update_where (\<lambda>q. role_id q = rid) f (roles (tables s))\<rparr>"
    by (fastforce simp: update_role_def split: option.splits if_splits)
  with kept [of f] show ?thesis by simp
next
  case (Delete_Role rid)
  with assms(1) obtain q where "get_role_by_id rid (tables s) = Some q" "\<not> is_system q"
    by (auto simp: delete_role_def split: option.splits if_splits)
  note kept = update_keeps_system [OF assms(2) this assms(3,4)]
  from Delete_Role assms(1) obtain f where "tables s' = (tables s)\<lparr>roles := update_where (\<lambda>q. role_id q = rid) f (roles (tables s))\<rparr>"
    by (fastforce simp: delete_role_def split: option.splits if_splits)
  with kept [of f] show ?thesis by simp
qed (use assms in \<open>auto simp: create_role_def assign_permission_to_role_def revoke_permission_from_role_def create_permission_def
       delete_permission_def assign_role_to_user_def revoke_role_from_user_def split: if_splits\<close>)

definition system_role_kept :: "role \<Rightarrow> access_state \<Rightarrow> bool" where
  "system_role_kept r s \<longleftrightarrow> rbac_ok (tables s) \<and> is_system r \<and> r \<in> set (roles (tables s))"

interpretation system_roles: guarded access_step "\<lambda>_. True" "system_role_kept r"
proof
  fix e s
  assume s: "system_role_kept r s"
  show "system_role_kept r (access_step e s)"
  proof (cases e)
    case (Pair now ev)
    show ?thesis
    proof (cases ev)
      case (Request actor h)
      with Pair have "e = (now, Request actor h)" by simp
      then show ?thesis using s unfolding system_role_kept_def
        by (cases rule: access_step_cases [where s = s]) (auto intro: access_handler_ok access_handler_keeps_system)
    next
      case (Take_Role registering n uid)
      have "roles (tables (access_step (now, Take_Role registering n uid) s)) = roles (tables s)"
        by (cases rule: take_role_cases [of now registering n uid s]) simp_all
      with s Pair Take_Role show ?thesis unfolding system_role_kept_def by (simp only: take_role_ok)
    next
      case (Check uid act res)
      with s Pair show ?thesis by (simp add: system_role_kept_def)
    qed
  qed
qed

text \<open>
  System roles are protected. Through any requests of administrators and any permission checks, a
  role marked \<open>is_system\<close> keeps its row as it is: neither renamed, nor deleted, nor doubled by a role of
  the same name.
\<close>

lemma system_roles_protected:
  assumes "rbac_ok (tables s)" and "r \<in> set (roles (tables s))" and "is_system r"
  shows "filter (\<lambda>q. role_id q = role_id r \<or> role_name q = role_name r) (roles (tables (fold access_step es s))) = [r]"
proof -
  let ?d = "tables (fold access_step es s)"
  from assms have "system_role_kept r s" by (simp add: system_role_kept_def)
  from system_roles.run_inv [OF _ this, of es] have k: "rbac_ok ?d" "r \<in> set (roles ?d)" by (simp_all add: system_role_kept_def)
  have same: "q = r" if "q \<in> set (roles ?d)" "role_id q = role_id r \<or> role_name q = role_name r" for q
    using that k by (auto simp: rbac_ok_def distinct_map inj_on_def)
  have "distinct (roles ?d)" using k(1) by (simp add: rbac_ok_def distinct_map)
  then have "filter (\<lambda>q. q = r) (roles ?d) = [r]" using k(2) by (rule filter_single)
  moreover have "filter (\<lambda>q. role_id q = role_id r \<or> role_name q = role_name r) (roles ?d) = filter (\<lambda>q. q = r) (roles ?d)"
    using same by (intro filter_cong) auto
  ultimately show ?thesis by simp
qed

section \<open>How long a change of permissions takes\<close>

text \<open>What the tables allow, as a direct question.\<close>

definition permitted :: "uuid \<Rightarrow> string \<Rightarrow> rbac \<Rightarrow> bool" where
  "permitted uid n d \<longleftrightarrow> ''admin'' \<in> set (role_names_of uid d) \<or> grants n (permissions_of uid d)"

fun changes_permissions :: "uuid \<Rightarrow> instant \<times> access_event \<Rightarrow> bool" where
  "changes_permissions uid (_, Request _ (Grant_Permission _ _)) = True"
| "changes_permissions uid (_, Request _ (Withdraw_Permission _ _)) = True"
| "changes_permissions uid (_, Request _ (Delete_Permission _)) = True"
| "changes_permissions uid (_, Take_Role _ _ u) = (u = uid)"
| "changes_permissions uid _ = False"

lemma mem_permissions_of:
  "n \<in> set (permissions_of uid d) \<longleftrightarrow>
     (\<exists>rid p. (uid, rid) \<in> set (user_roles d) \<and> rid \<in> role_id ` set (roles d) \<and> (rid, perm_id p) \<in> set (role_permissions d) \<and>
        p \<in> set (permissions d) \<and> perm_name p = n)"
  by (auto simp: permissions_of_def split: prod.splits if_splits) blast+

text \<open>With the foreign keys intact the join over the roles drops out.\<close>

lemma mem_permissions_ok:
  assumes "rbac_ok d"
  shows "n \<in> set (permissions_of uid d) \<longleftrightarrow>
     (\<exists>rid p. (uid, rid) \<in> set (user_roles d) \<and> (rid, perm_id p) \<in> set (role_permissions d) \<and> p \<in> set (permissions d) \<and> perm_name p = n)"
proof -
  have "rid \<in> role_id ` set (roles d)" if "(uid, rid) \<in> set (user_roles d)" for rid using assms that by (fastforce simp: rbac_ok_def)
  then show ?thesis unfolding mem_permissions_of by blast
qed

text \<open>An entry of the cache, and the two ways it can be trusted.\<close>

definition entry :: "uuid \<Rightarrow> access_state \<Rightarrow> (string list \<times> instant) option" where
  "entry uid s = (case perm_cache s of None \<Rightarrow> None | Some c \<Rightarrow> c uid)"

definition expiring_by :: "instant \<Rightarrow> access_state \<Rightarrow> bool" where
  "expiring_by T s \<longleftrightarrow> rbac_ok (tables s) \<and> (\<forall>uid ps e. entry uid s = Some (ps, e) \<longrightarrow> e \<le> T + PERM_CACHE_TTL)"

definition fresh_after :: "uuid \<Rightarrow> instant \<Rightarrow> access_state \<Rightarrow> bool" where
  "fresh_after uid T s \<longleftrightarrow> rbac_ok (tables s) \<and>
     (\<forall>ps e. entry uid s = Some (ps, e) \<and> T + PERM_CACHE_TTL < e \<longrightarrow> set ps = set (permissions_of uid (tables s)))"

lemma expiring_is_fresh: "expiring_by T s \<Longrightarrow> fresh_after uid T s"
  by (fastforce simp: expiring_by_def fresh_after_def)

lemma entry_simps [simp]:
  "entry uid (on_tables f s) = entry uid s"
  "entry uid (invalidate_permission_cache u s) = (if uid = u then None else entry uid s)"
  by (auto simp: entry_def invalidate_permission_cache_def split: option.split)

lemma access_handler_entry:
  assumes "access_handler h s = Inr ((), s')"
  shows "entry uid s' = entry uid s \<or> entry uid s' = None"
  using assms by (cases h)
    (auto simp: create_role_def update_role_def delete_role_def assign_permission_to_role_def revoke_permission_from_role_def
      create_permission_def delete_permission_def assign_role_to_user_def revoke_role_from_user_def split: if_splits option.splits)

lemma require_permission_entry:
  "entry u (snd (require_permission now uid act res s)) = Some x \<Longrightarrow>
     entry u s = Some x \<or> u = uid \<and> x = (permissions_of uid (tables s), now + PERM_CACHE_TTL)"
  by (cases "u = uid") (auto simp: require_permission_def has_permission_cached_def Let_def entry_def split: option.splits if_splits)

text \<open>Only the three requests above, or a change of the user's own roles, which empties the entry, touch the permissions.\<close>

lemma permissions_of_same:
  assumes "rbac_ok d" and "rbac_ok d'" and "role_permissions d' = role_permissions d" and "permissions d' = permissions d"
    and "\<And>r. (uid, r) \<in> set (user_roles d') \<longleftrightarrow> (uid, r) \<in> set (user_roles d)"
  shows "set (permissions_of uid d') = set (permissions_of uid d)"
  using mem_permissions_ok [OF assms(1)] mem_permissions_ok [OF assms(2)] by (simp only: set_eq_iff assms(3-5)) simp

lemma access_handler_permissions:
  assumes "access_handler h s = Inr ((), s')" and "rbac_ok (tables s)" and "\<not> changes_permissions uid (now, Request actor h)"
    and "entry uid s' \<noteq> None"
  shows "set (permissions_of uid (tables s')) = set (permissions_of uid (tables s))"
proof (cases "\<exists>pid m res act. h = Create_Permission pid m res act")
  case True
  then obtain pid m res act where h: "h = Create_Permission pid m res act" by blast
  define q where "q = \<lparr>perm_id = pid, perm_name = m, perm_resource = res, perm_action = act\<rparr>"
  from h assms(1) have q: "perm_id q = pid" "pid \<notin> perm_id ` set (permissions (tables s))"
      "tables s' = (tables s)\<lparr>permissions := permissions (tables s) @ [q]\<rparr>"
    by (auto simp: create_permission_def q_def split: if_splits)
  with assms(2) have new: "(rid, perm_id q) \<notin> set (role_permissions (tables s))" for rid by (auto simp: rbac_ok_def)
  have "n \<in> set (permissions_of uid (tables s')) \<longleftrightarrow> n \<in> set (permissions_of uid (tables s))" for n
    unfolding mem_permissions_ok [OF assms(2)] mem_permissions_ok [OF access_handler_ok [OF assms(1,2)]]
    using new by (simp add: q(3)) blast
  then show ?thesis by blast
next
  case False
  have kept: "role_permissions (tables s') = role_permissions (tables s)" "permissions (tables s') = permissions (tables s)"
      "\<And>r. (uid, r) \<in> set (user_roles (tables s')) \<longleftrightarrow> (uid, r) \<in> set (user_roles (tables s))"
    using False assms by (cases h; auto simp: create_role_def update_role_def delete_role_def assign_role_to_user_def
        revoke_role_from_user_def split: if_splits option.splits)+
  show ?thesis by (rule permissions_of_same [OF assms(2) access_handler_ok [OF assms(1,2)] kept])
qed

lemma access_step_expiring:
  assumes "expiring_by T s" and "fst e \<le> T"
  shows "expiring_by T (access_step e s)"
proof (cases e)
  case (Pair now ev)
  show ?thesis
  proof (cases ev)
    case (Request actor h)
    with Pair have "e = (now, Request actor h)" by simp
    then show ?thesis
    proof (cases rule: access_step_cases [where s = s])
      case (served s')
      from assms(1) access_handler_ok [OF served(1)] access_handler_entry [OF served(1)] show ?thesis
        unfolding expiring_by_def served(2) by (metis option.distinct(1))
    qed (use assms(1) in simp)
  next
    case (Take_Role registering n uid)
    have "entry u (access_step (now, Take_Role registering n uid) s) = entry u s" for u
      by (cases rule: take_role_cases [of now registering n uid s]) simp_all
    with assms(1) show ?thesis unfolding expiring_by_def Pair Take_Role by (simp only: take_role_ok) blast
  next
    case (Check uid act res)
    have "e' \<le> T + PERM_CACHE_TTL" if "entry u (snd (require_permission now uid act res s)) = Some (ps, e')" for u ps e'
      using require_permission_entry [OF that] assms by (auto simp: expiring_by_def Pair)
    with assms(1) show ?thesis by (auto simp: expiring_by_def Pair Check)
  qed
qed

lemma access_step_fresh:
  assumes "fresh_after uid T s" and "\<not> changes_permissions uid e"
  shows "fresh_after uid T (access_step e s)"
proof (cases e)
  case (Pair now ev)
  from assms(1) have ok: "rbac_ok (tables s)" by (simp add: fresh_after_def)
  show ?thesis
  proof (cases ev)
    case (Request actor h)
    with Pair have "e = (now, Request actor h)" by simp
    then show ?thesis
    proof (cases rule: access_step_cases [where s = s])
      case (served s')
      have "set ps = set (permissions_of uid (tables s'))" if en: "entry uid s' = Some (ps, t)" "T + PERM_CACHE_TTL < t" for ps t
      proof -
        have "entry uid s = Some (ps, t)" using access_handler_entry [OF served(1), of uid] en(1) by auto
        with assms(1) en(2) have "set ps = set (permissions_of uid (tables s))" by (auto simp: fresh_after_def)
        moreover have "\<not> changes_permissions uid (now, Request actor h)" using assms(2) unfolding Pair Request .
        ultimately show ?thesis using access_handler_permissions [OF served(1) ok, of uid now actor] en(1) by simp
      qed
      with access_handler_ok [OF served(1) ok] show ?thesis unfolding served(2) fresh_after_def by blast
    qed (use assms(1) in simp)
  next
    case (Take_Role registering n u)
    let ?s = "access_step (now, Take_Role registering n u) s"
    have "u \<noteq> uid" using assms(2) by (simp add: Pair Take_Role)
    then have roles: "(uid, r) \<in> set (user_roles (tables ?s)) \<longleftrightarrow> (uid, r) \<in> set (user_roles (tables s))" for r
      by (cases rule: take_role_cases [of now registering n u s]) auto
    have rest: "role_permissions (tables ?s) = role_permissions (tables s)" "permissions (tables ?s) = permissions (tables s)"
        "entry uid ?s = entry uid s"
      by (cases rule: take_role_cases [of now registering n u s]; simp)+
    have "set (permissions_of uid (tables ?s)) = set (permissions_of uid (tables s))"
      by (rule permissions_of_same [OF ok take_role_ok [OF ok] rest(1,2) roles])
    with assms(1) take_role_ok [OF ok] rest(3) show ?thesis unfolding fresh_after_def Pair Take_Role by simp
  next
    case (Check u act res)
    have "set ps = set (permissions_of uid (tables s))"
      if "entry uid (snd (require_permission now u act res s)) = Some (ps, t)" "T + PERM_CACHE_TTL < t" for ps t
      using require_permission_entry [OF that(1)] that(2) assms(1) by (auto simp: fresh_after_def)
    with ok show ?thesis by (auto simp: fresh_after_def Pair Check)
  qed
qed

interpretation before_change: guarded access_step "\<lambda>e. fst e \<le> T" "expiring_by T"
  by unfold_locales (rule access_step_expiring)

interpretation after_change: guarded access_step "\<lambda>e. \<not> changes_permissions uid e" "fresh_after uid T" for uid T
  by unfold_locales (rule access_step_fresh)

lemma fresh_answer:
  assumes "fresh_after uid T s" and "T + PERM_CACHE_TTL \<le> now"
  shows "fst (require_permission now uid act res s) =
           (if permitted uid (act @ '':'' @ res) (tables s) then Inr () else Inl (HTTPException 403 ''Missing permission''))"
proof (cases "cached_permissions now uid s")
  case None
  then show ?thesis by (simp add: require_permission_def has_permission_cached_def permitted_def Let_def)
next
  case (Some ps)
  then obtain e where "entry uid s = Some (ps, e)" "now < e"
    by (auto simp: cached_permissions_def entry_def split: option.splits if_splits)
  with assms have "set ps = set (permissions_of uid (tables s))" by (auto simp: fresh_after_def)
  with Some show ?thesis by (simp add: require_permission_def has_permission_cached_def permitted_def grants_def)
qed

text \<open>
  C30. Changes of permissions take effect. Take any run, in the order of time and from an empty cache, of
  administrators' requests, of users who take a role by becoming a provider or completing a registration, and
  of permission checks; and a user for whom, after time \<open>T\<close>, no permission of a role was given, withdrawn or
  deleted and who did not take a role that way. From ten minutes after \<open>T\<close> on a check of the user answers
  exactly as the tables say. Roles an administrator gives the user or takes away are not among these changes:
  they are in force at the next check.
\<close>

theorem permission_changes_within_ttl:
  assumes "rbac_ok (tables s)" and "\<forall>uid. entry uid s = None" and "sorted (map fst es)"
    and "\<forall>e \<in> set es. changes_permissions uid e \<longrightarrow> fst e \<le> T" and "T + PERM_CACHE_TTL \<le> now"
  shows "fst (require_permission now uid act res (fold access_step es s)) =
           (if permitted uid (act @ '':'' @ res) (tables (fold access_step es s)) then Inr ()
            else Inl (HTTPException 403 ''Missing permission''))"
proof -
  let ?early = "takeWhile (\<lambda>e. fst e \<le> T) es" and ?late = "dropWhile (\<lambda>e. fst e \<le> T) es"
  have late: "\<not> fst e \<le> T" if "e \<in> set ?late" for e
  proof -
    from that obtain x xs where x: "?late = x # xs" by (cases ?late) auto
    have "\<not> fst x \<le> T" using hd_dropWhile [of "\<lambda>e. fst e \<le> T" es] x by simp
    moreover have "sorted (map fst (?early @ ?late))" using assms(3) by simp
    then have "sorted (map fst ?late)" by (simp only: map_append sorted_append)
    then have "fst x \<le> fst e" using that unfolding x by auto
    ultimately show ?thesis by simp
  qed
  have "expiring_by T s" using assms(1,2) by (simp add: expiring_by_def)
  moreover have "\<forall>e \<in> set ?early. fst e \<le> T" using set_takeWhileD by fastforce
  ultimately have "fresh_after uid T (fold access_step ?early s)" by (intro expiring_is_fresh before_change.run_inv)
  moreover have "\<forall>e \<in> set ?late. \<not> changes_permissions uid e" using late assms(4) set_dropWhileD by metis
  ultimately have "fresh_after uid T (fold access_step ?late (fold access_step ?early s))" by (rule after_change.run_inv [rotated])
  then have "fresh_after uid T (fold access_step es s)" by (metis fold_append comp_apply takeWhile_dropWhile_id)
  from fresh_answer [OF this assms(5)] show ?thesis .
qed

section \<open>What lingers\<close>

text \<open>No request but those on a user's own roles drops the copy: a withdrawn permission is granted until it expires.\<close>

lemma withdrawn_permission_lingers:
  assumes "revoke_permission_from_role rid pid s = Inr ((), s')" and "entry uid s = Some (ps, e)" and "now < e"
    and "grants (act @ '':'' @ res) ps"
  shows "fst (require_permission now uid act res s') = Inr ()"
proof -
  from assms(1) have "entry uid s' = entry uid s" by (auto simp: revoke_permission_from_role_def split: if_splits)
  with assms(2,3) have "cached_permissions now uid s' = Some ps"
    by (auto simp: cached_permissions_def entry_def split: option.splits)
  with assms(4) show ?thesis by (simp add: require_permission_def has_permission_cached_def)
qed

lemma mem_role_names_of:
  "n \<in> set (role_names_of uid d) \<longleftrightarrow> (\<exists>r \<in> set (roles d). (uid, role_id r) \<in> set (user_roles d) \<and> role_name r = n)"
  by (auto simp: role_names_of_def split: if_splits)

text \<open>Who has just become a provider is refused with the permissions read before, until the copy expires.\<close>

lemma new_provider_waits:
  assumes "grant_role_if_missing n uid s = Inr (True, s')" and "n \<noteq> ''admin''" and "rbac_ok (tables s)"
    and "entry uid s = Some (ps, e)" and "now < e" and "\<not> grants (act @ '':'' @ res) ps" and "''admin'' \<notin> set (role_names_of uid (tables s))"
  shows "fst (require_permission now uid act res s') = Inl (HTTPException 403 ''Missing permission'')"
proof -
  from assms(1) obtain r where r: "r \<in> set (roles (tables s))" "role_name r = n"
      and s': "s' = on_tables (\<lambda>d. d\<lparr>user_roles := user_roles d @ [(uid, role_id r)]\<rparr>) s"
    unfolding grant_role_if_missing_def
    by (cases "find (\<lambda>r. role_name r = n) (roles (tables s))") (auto split: if_splits dest: find_SomeD)
  have "entry uid s' = entry uid s" by (simp add: s')
  with assms(4,5) have "cached_permissions now uid s' = Some ps"
    by (auto simp: cached_permissions_def entry_def split: option.splits)
  moreover have "''admin'' \<notin> set (role_names_of uid (tables s'))"
  proof
    assume "''admin'' \<in> set (role_names_of uid (tables s'))"
    then obtain q where q: "q \<in> set (roles (tables s))" "role_name q = ''admin''"
        "(uid, role_id q) \<in> set (user_roles (tables s)) \<or> role_id q = role_id r"
      by (auto simp: mem_role_names_of s')
    moreover have "role_id q \<noteq> role_id r" using same_id [OF assms(3) q(1) r(1)] q(2) r(2) assms(2) by auto
    ultimately show False using assms(7) by (auto simp: mem_role_names_of)
  qed
  ultimately show ?thesis using assms(6) by (simp add: require_permission_def has_permission_cached_def)
qed

text \<open>Deleting a role takes it from nobody.\<close>

lemma deleted_role_still_counts:
  assumes "delete_role rid s = Inr ((), s')"
  shows "set (role_names_of uid (tables s')) = set (role_names_of uid (tables s)) \<and>
         set (permissions_of uid (tables s')) = set (permissions_of uid (tables s))"
proof -
  let ?f = "\<lambda>q :: role. q\<lparr>role_deleted := True\<rparr>" and ?p = "\<lambda>q :: role. role_id q = rid"
  from assms have t: "tables s' = (tables s)\<lparr>roles := update_where ?p ?f (roles (tables s))\<rparr>"
    by (auto simp: delete_role_def split: option.splits if_splits)
  have "(\<exists>r \<in> set (update_where ?p ?f rs). (uid, role_id r) \<in> R \<and> role_name r = n) \<longleftrightarrow> (\<exists>r \<in> set rs. (uid, role_id r) \<in> R \<and> role_name r = n)"
    for n R rs by (induction rs) auto
  then have "set (role_names_of uid (tables s')) = set (role_names_of uid (tables s))" by (simp add: set_eq_iff mem_role_names_of t)
  moreover have "role_id ` set (update_where ?p ?f (roles (tables s))) = role_id ` set (roles (tables s))" by (rule role_ids_update) simp
  then have "set (permissions_of uid (tables s')) = set (permissions_of uid (tables s))"
    by (simp add: t set_eq_iff mem_permissions_of)
  ultimately show ?thesis ..
qed

text \<open>\<open>create_role\<close> looks for live roles only, the unique constraint covers the deleted ones.\<close>

lemma deleted_name_is_taken:
  assumes "r \<in> set (roles (tables s))" and "\<forall>q \<in> set (roles (tables s)). role_name q = role_name r \<longrightarrow> role_deleted q"
    and "name_length_ok (role_name r)"
  shows "create_role rid (role_name r) desc s = Inl (IntegrityError ''uq_role_name'')"
proof -
  have "get_role_by_name (role_name r) (tables s) = None" using assms(2) by (auto simp: get_role_by_name_def find_None_iff)
  with assms(1,3) show ?thesis by (auto simp: create_role_def)
qed

section \<open>Witnesses\<close>

definition chief :: user where
  "chief = \<lparr>user_id = 9, email = ''chief@x.io'', password_hash = '''', role_names = [''admin''], user_active = True, user_verified = True,
     failed_login_attempts = 0, locked_until = None, onboarding_completed = True, token_version = 1, stripe_customer_id = None,
     last_step_up_at = None, active_role = None, user_deleted = False\<rparr>"

definition staff_tables :: rbac where
  "staff_tables = \<lparr>account_ids = [1],
     roles = [\<lparr>role_id = 10, role_name = ''client'', role_description = None, is_system = True, role_deleted = False\<rparr>],
     permissions = [\<lparr>perm_id = 20, perm_name = ''read:logs'', perm_resource = ''logs'', perm_action = ''read''\<rparr>],
     role_permissions = [(10, 20)], user_roles = [(1, 10)]\<rparr>"

definition staff :: access_state where
  "staff = \<lparr>tables = staff_tables, perm_cache = Some (\<lambda>_. None)\<rparr>"

lemma staff_ok: "rbac_ok (tables staff)" "entry uid staff = None"
  by (simp_all add: rbac_ok_def staff_def staff_tables_def entry_def)

theorem permission_changes_within_ttl_witness:
  "fst (require_permission 700000000 1 ''read'' ''logs''
     (fold access_step [(0, Check 1 ''read'' ''logs''), (5, Request chief (Withdraw_Permission 10 20))] staff)) \<noteq> Inr ()"
proof -
  let ?es = "[(0, Check 1 ''read'' ''logs''), (5, Request chief (Withdraw_Permission 10 20))]"
  have t: "5 + PERM_CACHE_TTL \<le> 700000000" by (simp add: PERM_CACHE_TTL_def seconds_def)
  have "tables (fold access_step ?es staff) = staff_tables\<lparr>role_permissions := []\<rparr>"
    by (simp add: staff_def staff_tables_def require_permission_def has_permission_cached_def cached_permissions_def role_names_of_def Let_def
        require_role_def has_role_def chief_def run_request_def revoke_permission_from_role_def rowcount_def on_tables_def delete_where_def)
  then have "\<not> permitted 1 (''read'' @ '':'' @ ''logs'') (tables (fold access_step ?es staff))"
    by (simp add: permitted_def grants_def role_names_of_def permissions_of_def staff_tables_def)
  with permission_changes_within_ttl [OF staff_ok(1) _ _ _ t, of ?es 1 "''read''" "''logs''"] staff_ok(2) show ?thesis by simp
qed

end
