(* ===== verification/Lifecycle.thy ===== *)
theory Lifecycle
  imports Payments
begin

text \<open>
  \<open>AppointmentService.transition_status\<close> (domains/appointments/service.py) and the endpoints
  over it (domains/appointments/router.py): the status change with its capture, void and refund,
  the customer's cancellation with the refund preview, and who may read an appointment. Hours until
  the appointment are compared as exact durations; the percentage refund is the whole-cent floor.
\<close>

section \<open>The status update\<close>

record status_update =
  su_status :: appointment_status
  su_notes :: "string option"
  su_actual_price :: "int option"

text \<open>The schema's bounds: \<open>detailer_notes\<close> at most 2000 characters, \<open>actual_price\<close> positive.\<close>

definition validate_status_update :: "status_update \<Rightarrow> bool" where
  "validate_status_update p \<longleftrightarrow>
     opt_len_ok 0 2000 (su_notes p) \<and> (case su_actual_price p of None \<Rightarrow> True | Some n \<Rightarrow> 0 < n)"

definition is_participant :: "appointment \<Rightarrow> user \<Rightarrow> bool" where
  "is_participant a actor \<longleftrightarrow> client_id a = user_id actor \<or> detailer_id a = Some (user_id actor)"

text \<open>An intent worth calling the gateway for.\<close>

definition chargeable :: "appointment \<Rightarrow> bool" where
  "chargeable a \<longleftrightarrow> truthy (payment_intent a) \<and> \<not> starts_with ''pi_stub_NOPAY'' (the (payment_intent a))"

definition stamp :: "instant \<Rightarrow> status_update \<Rightarrow> appointment \<Rightarrow> appointment" where
  "stamp now p a =
     (let a1 = (if su_status p = COMPLETED
                then a\<lparr>actual_price := Some (case su_actual_price p of Some n \<Rightarrow> n | None \<Rightarrow> int (estimated_price a)),
                       completed_at := Some now\<rparr> else a);
          a2 = (if su_status p = ARRIVED then a1\<lparr>arrived_at := Some now\<rparr> else a1)
      in if su_status p = IN_PROGRESS then a2\<lparr>started_at := Some now\<rparr> else a2)"

text \<open>Capture on completion; whatever it raises is logged and dropped.\<close>

definition capture_on_complete ::
  "'g gateway \<Rightarrow> settings \<Rightarrow> appointment_status \<Rightarrow> appointment \<Rightarrow> 'g \<Rightarrow> 'g" where
  "capture_on_complete gw st new a g =
     (if new = COMPLETED \<and> chargeable a
      then snd (capture_payment_intent gw st (the (payment_intent a)) (actual_price a) g) else g)"

text \<open>Void the authorisation on cancellation; a failure falls through to the refund.\<close>

definition void_on_cancel ::
  "'g gateway \<Rightarrow> settings \<Rightarrow> appointment_status \<Rightarrow> appointment_status \<Rightarrow> appointment \<Rightarrow> 'g \<Rightarrow> bool \<times> 'g" where
  "void_on_cancel gw st current new a g =
     (if is_cancellation new \<and> chargeable a \<and> current \<noteq> COMPLETED
      then (case cancel_payment_intent gw st (the (payment_intent a))
                   (if new = CANCELLED_BY_CLIENT then ''requested_by_customer'' else ''abandoned'') g of
              (Inl e, g') \<Rightarrow> (False, g')
            | (Inr _, g') \<Rightarrow> (True, g'))
      else (False, g))"

datatype refund_policy = NoPolicy | AuthVoided | FullRefund | PartialRefund

fun policy_name :: "refund_policy \<Rightarrow> string" where
  "policy_name NoPolicy = ''none''"
| "policy_name AuthVoided = ''auth_voided''"
| "policy_name FullRefund = ''full''"
| "policy_name PartialRefund = ''partial''"

text \<open>The refund table: price, hours left.\<close>

definition refund_due :: "settings \<Rightarrow> instant \<Rightarrow> appointment \<Rightarrow> nat \<times> refund_policy" where
  "refund_due st now a =
     (let left = scheduled_time a - now
      in if left \<ge> hours (CANCELLATION_FULL_REFUND_HOURS st) then (estimated_price a, FullRefund)
         else if left \<ge> hours (CANCELLATION_PARTIAL_REFUND_HOURS st)
         then (estimated_price a * CANCELLATION_PARTIAL_REFUND_PERCENT st div 100, PartialRefund)
         else (0, NoPolicy))"

definition refund_on_cancel ::
  "'g gateway \<Rightarrow> settings \<Rightarrow> instant \<Rightarrow> uuid \<Rightarrow> appointment_status \<Rightarrow> appointment_status \<Rightarrow> bool \<Rightarrow> appointment \<Rightarrow>
   (nat \<times> refund_policy \<times> string option, 'g) paid" where
  "refund_on_cancel gw st now rnd current new voided a d g =
     (if is_cancellation new \<and> \<not> voided \<and> current = CONFIRMED \<and> chargeable a
      then (let (amount, policy) = refund_due st now a
            in if amount > 0
               then (case create_refund gw st rnd (the (payment_intent a)) amount ''requested_by_customer'' d g of
                       (Inl e, g') \<Rightarrow> (Inl e, g')
                     | (Inr (rid, d'), g') \<Rightarrow> (Inr ((amount, policy, rid), d'), g'))
               else (Inr ((0, policy, None), d), g))
      else (Inr ((0, if voided then AuthVoided else NoPolicy, None), d), g))"

text \<open>The cancellation row; \<open>policy_code\<close> is NULL for ``none''.\<close>

definition cancellation_row :: "appointment \<Rightarrow> status_update \<Rightarrow> user \<Rightarrow> nat \<Rightarrow> refund_policy \<Rightarrow> cancellation" where
  "cancellation_row a p actor amount policy =
     \<lparr>canc_appointment = appt_id a, cancelled_by = Some (user_id actor),
      cancelled_by_role = primary_role actor, canc_reason = su_notes p,
      refund_amount = (if amount = 0 then None else Some amount),
      refund_percent = (if amount = 0 \<or> estimated_price a = 0 then None
                        else Some (of_nat amount / of_nat (estimated_price a) * 100)),
      policy_code = (if policy = NoPolicy then None else Some (policy_name policy))\<rparr>"

definition put_appointment :: "appointment \<Rightarrow> db \<Rightarrow> db" where
  "put_appointment a d =
     d\<lparr>appointments := update_where (\<lambda>b. appt_id b = appt_id a \<and> \<not> appt_deleted b) (\<lambda>_. a) (appointments d)\<rparr>"

record transition_outcome =
  to_appointment :: appointment
  to_policy :: refund_policy
  to_refund :: nat
  to_events :: "event list"

text \<open>The checks, in the order of the code. \<open>Inr None\<close>: the status is already the wanted one.\<close>

definition check_transition :: "db \<Rightarrow> uuid \<Rightarrow> status_update \<Rightarrow> user \<Rightarrow> (appointment \<times> bool) result" where
  "check_transition d aid p actor =
     (case appointment_by_id d aid of
        None \<Rightarrow> Inl (HTTPException 404 ''Appointment not found.'')
      | Some a \<Rightarrow>
          if \<not> is_participant a actor \<and> \<not> is_admin actor
          then Inl (HTTPException 403 ''You are not authorised to update this appointment.'')
          else if appt_status a = su_status p then Inr (a, False)
          else (case roles_for (appt_status a) (su_status p) of
                  None \<Rightarrow> Inl (HTTPException 422 ''Cannot transition.'')
                | Some roles \<Rightarrow>
                    if list_ex (has_role actor) roles then Inr (a, True)
                    else Inl (HTTPException 403 ''Roles cannot trigger this transition.'')))"

definition updated_appointment :: "appointment \<Rightarrow> status_update \<Rightarrow> appointment" where
  "updated_appointment a p =
     a\<lparr>appt_status := su_status p,
       detailer_notes := (case su_notes p of None \<Rightarrow> detailer_notes a | Some n \<Rightarrow> Some n)\<rparr>"

definition record_transition ::
  "appointment \<Rightarrow> status_update \<Rightarrow> user \<Rightarrow> nat \<Rightarrow> refund_policy \<Rightarrow> db \<Rightarrow> db result" where
  "record_transition a p actor amount policy d =
     (let d1 = add_status_history (appt_id a) (Some (appt_status a)) (su_status p) (Some (user_id actor))
                 (su_notes p) (put_appointment (updated_appointment a p) d);
          log = audit_log ''appointment_status_changed'' ''appointment'' (Some (user_id actor))
                  [(''refund_amount_cents'', int amount)]
      in if is_cancellation (su_status p)
         then (case add_cancellation (cancellation_row a p actor amount policy) d1 of
                 Inl e \<Rightarrow> Inl e | Inr d2 \<Rightarrow> Inr (log d2))
         else Inr (log d1))"

text \<open>What follows the checks when the status changes: money first, then the row and its records.\<close>

definition apply_transition ::
  "'g gateway \<Rightarrow> settings \<Rightarrow> instant \<Rightarrow> uuid \<Rightarrow> appointment \<Rightarrow> status_update \<Rightarrow> user \<Rightarrow> (transition_outcome, 'g) paid"
where
  "apply_transition gw st now rnd a0 p actor d g =
     (let a = stamp now p a0;
          g1 = capture_on_complete gw st (su_status p) a g;
          (voided, g2) = void_on_cancel gw st (appt_status a0) (su_status p) a g1
      in case refund_on_cancel gw st now rnd (appt_status a0) (su_status p) voided a d g2 of
           (Inl e, g3) \<Rightarrow> (Inl e, g3)
         | (Inr ((amount, policy, rid), d3), g3) \<Rightarrow>
             (case record_transition a p actor amount policy d3 of
                Inl e \<Rightarrow> (Inl e, g3)
              | Inr d4 \<Rightarrow>
                  (Inr (\<lparr>to_appointment = updated_appointment a p, to_policy = policy, to_refund = amount,
                         to_events = [(''appointment.status_changed'', appt_id a)]\<rparr>, d4), g3)))"

definition transition_status ::
  "'g gateway \<Rightarrow> settings \<Rightarrow> instant \<Rightarrow> uuid \<Rightarrow> uuid \<Rightarrow> status_update \<Rightarrow> user \<Rightarrow> (transition_outcome, 'g) paid" where
  "transition_status gw st now rnd aid p actor d g =
     (case check_transition d aid p actor of
        Inl e \<Rightarrow> (Inl e, g)
      | Inr (a, False) \<Rightarrow>
          (Inr (\<lparr>to_appointment = a, to_policy = NoPolicy, to_refund = 0, to_events = []\<rparr>, d), g)
      | Inr (a, True) \<Rightarrow> apply_transition gw st now rnd a p actor d g)"

definition patch_status ::
  "'g gateway \<Rightarrow> settings \<Rightarrow> instant \<Rightarrow> uuid \<Rightarrow> uuid \<Rightarrow> status_update \<Rightarrow> user \<Rightarrow> db \<Rightarrow> 'g \<Rightarrow>
   transition_outcome result \<times> db \<times> 'g" where
  "patch_status gw st now rnd aid p actor d g =
     (if validate_status_update p then run_paid (transition_status gw st now rnd aid p actor) d g
      else (Inl (unprocessable ''field''), d, g))"

section \<open>What a status update does to the data\<close>

lemma check_transition_Inr:
  "check_transition d aid p actor = Inr (a, b) \<Longrightarrow>
     appointment_by_id d aid = Some a \<and> (is_participant a actor \<or> is_admin actor) \<and>
     (if b then appt_status a \<noteq> su_status p \<and>
                (\<exists>roles. roles_for (appt_status a) (su_status p) = Some roles \<and> list_ex (has_role actor) roles)
      else appt_status a = su_status p)"
  by (auto simp: check_transition_def split: option.splits if_splits)

lemma stamp_simps [simp]:
  "appt_id (stamp now p a) = appt_id a" "client_id (stamp now p a) = client_id a"
  "detailer_id (stamp now p a) = detailer_id a" "appt_status (stamp now p a) = appt_status a"
  "estimated_price (stamp now p a) = estimated_price a" "payment_intent (stamp now p a) = payment_intent a"
  "scheduled_time (stamp now p a) = scheduled_time a" "appt_deleted (stamp now p a) = appt_deleted a"
  "travel_buffer_end_time (stamp now p a) = travel_buffer_end_time a"
  by (simp_all add: stamp_def Let_def)

lemma chargeable_stamp [simp]: "chargeable (stamp now p a) = chargeable a"
  by (simp add: chargeable_def)

lemma updated_appointment_simps [simp]:
  "appt_id (updated_appointment a p) = appt_id a" "client_id (updated_appointment a p) = client_id a"
  "detailer_id (updated_appointment a p) = detailer_id a"
  "appt_status (updated_appointment a p) = su_status p"
  "estimated_price (updated_appointment a p) = estimated_price a"
  "payment_intent (updated_appointment a p) = payment_intent a"
  "scheduled_time (updated_appointment a p) = scheduled_time a"
  "appt_deleted (updated_appointment a p) = appt_deleted a"
  "travel_buffer_end_time (updated_appointment a p) = travel_buffer_end_time a"
  by (simp_all add: updated_appointment_def)

lemma create_refund_db:
  "create_refund gw st rnd pid amount reason d g = (Inr (rid, d'), g') \<Longrightarrow>
     d' = d \<or> d' = audit_log ''payment_refunded'' ''payment_intent'' None [(''amount_cents'', int amount)] d"
  by (auto simp: create_refund_def Let_def split: if_splits prod.splits sum.splits)

lemma refund_on_cancel_Inr:
  assumes "refund_on_cancel gw st now rnd current new voided a d g = (Inr ((amount, policy, rid), d'), g')"
  shows "appointments d' = appointments d \<and> histories d' = histories d \<and> cancellations d' = cancellations d"
    and "amount > 0 \<Longrightarrow> is_cancellation new \<and> \<not> voided \<and> current = CONFIRMED \<and> chargeable a \<and>
                       (amount, policy) = refund_due st now a"
    and "voided \<Longrightarrow> amount = 0 \<and> policy = AuthVoided"
  using assms
  by (auto simp: refund_on_cancel_def Let_def split: if_splits prod.splits sum.splits dest!: create_refund_db)

lemma record_transition_Inr:
  assumes "record_transition a p actor amount policy d = Inr d'"
  shows "appointments d' = update_where (\<lambda>b. appt_id b = appt_id a \<and> \<not> appt_deleted b)
           (\<lambda>_. updated_appointment a p) (appointments d)"
    and "histories d' = histories d @ [\<lparr>hist_appointment = appt_id a, old_status = Some (appt_status a),
           new_status = su_status p, hist_actor = Some (user_id actor), hist_reason = su_notes p\<rparr>]"
    and "cancellations d' = (if is_cancellation (su_status p)
           then cancellations d @ [cancellation_row a p actor amount policy] else cancellations d)"
  using assms
  by (auto simp: record_transition_def put_appointment_def add_status_history_def add_cancellation_def Let_def
      split: if_splits sum.splits)

lemma apply_transition_InrE:
  assumes "apply_transition gw st now rnd a0 p actor d g = (Inr (out, d'), g')"
  obtains a voided g2 amount policy rid d3
  where "a = stamp now p a0" "to_appointment out = updated_appointment a p"
    "to_refund out = amount" "to_policy out = policy"
    "void_on_cancel gw st (appt_status a0) (su_status p) a
       (capture_on_complete gw st (su_status p) a g) = (voided, g2)"
    "refund_on_cancel gw st now rnd (appt_status a0) (su_status p) voided a d g2 = (Inr ((amount, policy, rid), d3), g')"
    "record_transition a p actor amount policy d3 = Inr d'"
  using assms unfolding apply_transition_def Let_def
  by (auto split: prod.splits sum.splits)

lemma apply_transition_Inr:
  assumes t: "apply_transition gw st now rnd a0 p actor d g = (Inr (out, d'), g')"
    and a0: "appointment_by_id d aid = Some a0"
  shows "appointment_by_id d' aid = Some (updated_appointment (stamp now p a0) p)"
    and "aid' \<noteq> aid \<Longrightarrow> appointment_by_id d' aid' = appointment_by_id d aid'"
    and "histories d' = histories d @ [\<lparr>hist_appointment = aid, old_status = Some (appt_status a0),
           new_status = su_status p, hist_actor = Some (user_id actor), hist_reason = su_notes p\<rparr>]"
proof -
  from t obtain a voided g2 amount policy rid d3
    where a: "a = stamp now p a0"
    and ref: "refund_on_cancel gw st now rnd (appt_status a0) (su_status p) voided a d g2 = (Inr ((amount, policy, rid), d3), g')"
    and rec: "record_transition a p actor amount policy d3 = Inr d'"
    by (rule apply_transition_InrE)
  note r = record_transition_Inr [OF rec]
  from refund_on_cancel_Inr(1) [OF ref]
  have d3: "appointments d3 = appointments d" "histories d3 = histories d" by simp_all
  have id: "appt_id a = aid" and del: "\<not> appt_deleted a"
    using appointment_by_id_SomeD [OF a0] a by simp_all
  have rows: "appointments d' = update_where (\<lambda>b. appt_id b = aid \<and> \<not> appt_deleted b)
           (\<lambda>_. updated_appointment a p) (appointments d)"
    using r(1) d3 id by simp
  have found: "find (\<lambda>b. appt_id b = aid \<and> \<not> appt_deleted b) (update_where (\<lambda>b. appt_id b = aid \<and> \<not> appt_deleted b)
      (\<lambda>_. u) rows) = map_option (\<lambda>_. u) (find (\<lambda>b. appt_id b = aid \<and> \<not> appt_deleted b) rows)"
    if "appt_id u = aid" "\<not> appt_deleted u" for u and rows :: "appointment list"
    using that by (induction rows) auto
  show "appointment_by_id d' aid = Some (updated_appointment (stamp now p a0) p)"
    using a0 found [of "updated_appointment a p"] id del a by (simp add: appointment_by_id_def rows)
  show "appointment_by_id d' aid' = appointment_by_id d aid'" if "aid' \<noteq> aid"
    unfolding appointment_by_id_def rows using that id
    by (intro find_update_where_disjoint) auto
  show "histories d' = histories d @ [\<lparr>hist_appointment = aid, old_status = Some (appt_status a0),
           new_status = su_status p, hist_actor = Some (user_id actor), hist_reason = su_notes p\<rparr>]"
    using r(2) d3 id a by simp
qed

lemma patch_status_cases:
  assumes "patch_status gw st now rnd aid p actor d g = (r, d', g')"
  obtains (idle) "d' = d" "g' = g" "\<And>a. validate_status_update p \<Longrightarrow> check_transition d aid p actor \<noteq> Inr (a, True)"
  | (failed) a e where "d' = d" "r = Inl e" "check_transition d aid p actor = Inr (a, True)"
  | (moved) a out where "r = Inr out" "check_transition d aid p actor = Inr (a, True)"
      "apply_transition gw st now rnd a p actor d g = (Inr (out, d'), g')"
proof (cases "validate_status_update p")
  case False
  with assms show ?thesis by (intro idle) (auto simp: patch_status_def)
next
  case valid: True
  show ?thesis
  proof (cases "\<exists>a. check_transition d aid p actor = Inr (a, True)")
    case True
    then obtain a where a: "check_transition d aid p actor = Inr (a, True)" by blast
    show ?thesis
    proof (cases "apply_transition gw st now rnd a p actor d g")
      case (Pair res g1)
      with assms valid a show ?thesis
        by (cases res) (auto simp: patch_status_def run_paid_def transition_status_def intro: failed [OF _ _ a] moved [OF _ a])
    qed
  next
    case False
    with assms valid show ?thesis
      by (intro idle) (auto simp: patch_status_def run_paid_def transition_status_def split: sum.splits bool.splits prod.splits)
  qed
qed

text \<open>
  C7. Authorisation and the state machine: when a status update succeeds, the appointment existed,
  the caller was its client, its detailer or an admin, and its status either stayed or moved along
  one edge of the transition table that a role of the caller may take. Client, detailer and price
  did not change.
\<close>

theorem status_update_follows_table:
  assumes "patch_status gw st now rnd aid p actor d g = (Inr out, d', g')"
  shows "\<exists>a a'. appointment_by_id d aid = Some a \<and> appointment_by_id d' aid = Some a' \<and>
           (is_participant a actor \<or> is_admin actor) \<and> appt_status a' = su_status p \<and>
           (appt_status a' = appt_status a \<or>
            (\<exists>roles. roles_for (appt_status a) (appt_status a') = Some roles \<and> list_ex (has_role actor) roles)) \<and>
           client_id a' = client_id a \<and> detailer_id a' = detailer_id a \<and> estimated_price a' = estimated_price a"
  using assms
proof (cases rule: patch_status_cases)
  case idle
  with assms show ?thesis
    by (auto simp: patch_status_def run_paid_def transition_status_def
        split: if_splits sum.splits bool.splits prod.splits dest!: check_transition_Inr)
next
  case (failed a e)
  then show ?thesis by simp
next
  case (moved a out')
  note c = check_transition_Inr [OF moved(2), simplified]
  have "appointment_by_id d' aid = Some (updated_appointment (stamp now p a) p)"
    using apply_transition_Inr(1) [OF moved(3)] c by blast
  with c show ?thesis by auto
qed

section \<open>Sequences of updates\<close>

definition status_at :: "db \<Rightarrow> uuid \<Rightarrow> appointment_status option" where
  "status_at d aid = map_option appt_status (appointment_by_id d aid)"

record update_request =
  rq_now :: instant
  rq_rnd :: uuid
  rq_appointment :: uuid
  rq_update :: status_update
  rq_actor :: user

fun patch_all :: "'g gateway \<Rightarrow> settings \<Rightarrow> update_request list \<Rightarrow> db \<Rightarrow> 'g \<Rightarrow> db \<times> 'g" where
  "patch_all gw st [] d g = (d, g)"
| "patch_all gw st (q # qs) d g =
     (case patch_status gw st (rq_now q) (rq_rnd q) (rq_appointment q) (rq_update q) (rq_actor q) d g of
        (_, d', g') \<Rightarrow> patch_all gw st qs d' g')"

lemma patch_status_step:
  assumes "patch_status gw st now rnd aid' p actor d g = (r, d', g')" and "status_at d aid = Some s"
  shows "\<exists>t. status_at d' aid = Some t \<and> (t = s \<or> fsm_step s t)"
  using assms(1)
proof (cases rule: patch_status_cases)
  case (moved a out)
  note c = check_transition_Inr [OF moved(2), simplified]
  show ?thesis
  proof (cases "aid' = aid")
    case True
    with c assms(2) have "s = appt_status a" by (simp add: status_at_def)
    with c True apply_transition_Inr(1) [OF moved(3)] show ?thesis
      by (auto simp: status_at_def fsm_step_iff may_transition_def)
  next
    case False
    with c apply_transition_Inr(2) [OF moved(3), of aid'] assms(2) show ?thesis by (auto simp: status_at_def)
  qed
qed (use assms(2) in auto)

lemma patch_all_run:
  "status_at d aid = Some s \<Longrightarrow>
     \<exists>ts. fsm_run s ts \<and> status_at (fst (patch_all gw st qs d g)) aid = Some (last (s # ts))"
proof (induction qs arbitrary: d g s)
  case Nil
  then show ?case by (auto intro: fsm_run.stop)
next
  case (Cons q qs)
  obtain r d' g' where q: "patch_status gw st (rq_now q) (rq_rnd q) (rq_appointment q) (rq_update q) (rq_actor q) d g
      = (r, d', g')" by (cases "patch_status gw st (rq_now q) (rq_rnd q) (rq_appointment q) (rq_update q) (rq_actor q) d g")
  from patch_status_step [OF q Cons.prems] obtain t where t: "status_at d' aid = Some t" "t = s \<or> fsm_step s t" by blast
  from Cons.IH [OF t(1), of g'] obtain ts where ts: "fsm_run t ts"
    "status_at (fst (patch_all gw st qs d' g')) aid = Some (last (t # ts))" by blast
  from t(2) show ?case
  proof
    assume "t = s"
    with ts q show ?thesis by auto
  next
    assume "fsm_step s t"
    with ts q show ?thesis by (intro exI [of _ "t # ts"]) (auto intro: fsm_run.move)
  qed
qed

text \<open>
  C6. Whatever status updates arrive, in whatever order and from whomever, the status an appointment
  ends in is reached from where it was by a run of the state machine of at most four steps; and an
  appointment that is completed, cancelled, a no-show or unmatched stays so.
\<close>

theorem updates_follow_the_machine:
  assumes "status_at d aid = Some s"
  shows "\<exists>ts. fsm_run s ts \<and> length ts \<le> 4 \<and> status_at (fst (patch_all gw st qs d g)) aid = Some (last (s # ts)) \<and>
           (s \<in> insert COMPLETED (set TERMINAL_STATUSES) \<longrightarrow> ts = [])"
proof -
  obtain ts where ts: "fsm_run s ts" "status_at (fst (patch_all gw st qs d g)) aid = Some (last (s # ts))"
    using patch_all_run [OF assms, of gw st qs g] by blast
  have "steps_left s \<le> 4" by (cases s) simp_all
  with fsm_run_length [OF ts(1)] have "length ts \<le> 4" by linarith
  moreover have "ts = []" if "s \<in> insert COMPLETED (set TERMINAL_STATUSES)"
    using that fsm_run_from_stuck [OF _ ts(1)] fsm_terminal_stuck fsm_completed_stuck by blast
  ultimately show ?thesis using ts by blast
qed

text \<open>
  Nothing is charged, voided or refunded for an appointment that is over: a status update on a
  completed, cancelled, no-show or unmatched appointment makes no gateway call and writes nothing.
\<close>

lemma finished_appointment_is_left_alone:
  assumes "status_at d aid = Some s" and "s \<in> insert COMPLETED (set TERMINAL_STATUSES)"
    and "patch_status gw st now rnd aid p actor d g = (r, d', g')"
  shows "d' = d \<and> g' = g"
  using assms(3)
proof (cases rule: patch_status_cases)
  case (failed a e)
  note c = check_transition_Inr [OF failed(3), simplified]
  with assms(1) have "fsm_step s (su_status p)" by (auto simp: status_at_def fsm_step_iff may_transition_def)
  with assms(2) fsm_terminal_stuck fsm_completed_stuck show ?thesis by blast
next
  case (moved a out)
  note c = check_transition_Inr [OF moved(2), simplified]
  with assms(1) have "fsm_step s (su_status p)" by (auto simp: status_at_def fsm_step_iff may_transition_def)
  with assms(2) fsm_terminal_stuck fsm_completed_stuck show ?thesis by blast
qed simp

section \<open>Refunds\<close>

lemma partial_le_price:
  "CANCELLATION_PARTIAL_REFUND_PERCENT st \<le> 100 \<Longrightarrow>
     estimated_price a * CANCELLATION_PARTIAL_REFUND_PERCENT st div 100 \<le> estimated_price a"
proof -
  assume "CANCELLATION_PARTIAL_REFUND_PERCENT st \<le> 100"
  then have "estimated_price a * CANCELLATION_PARTIAL_REFUND_PERCENT st \<le> estimated_price a * 100"
    by (rule mult_le_mono2)
  then have "estimated_price a * CANCELLATION_PARTIAL_REFUND_PERCENT st div 100 \<le> estimated_price a * 100 div 100"
    by (rule div_le_mono)
  then show ?thesis by simp
qed

lemma refund_due_table:
  "fst (refund_due st now a) =
     (if hours (CANCELLATION_FULL_REFUND_HOURS st) \<le> scheduled_time a - now then estimated_price a
      else if hours (CANCELLATION_PARTIAL_REFUND_HOURS st) \<le> scheduled_time a - now
      then estimated_price a * CANCELLATION_PARTIAL_REFUND_PERCENT st div 100 else 0)"
  "snd (refund_due st now a) \<noteq> AuthVoided"
  by (simp_all add: refund_due_def Let_def)

text \<open>
  C9. The refund of a cancellation follows the policy table: nothing but for a confirmed appointment
  with a payment whose hold was not voided, then the whole price in the full window, the percentage
  in the partial window and nothing after it, and never more than the price. The percentage
  setting is at most 100 (the settings schema bounds it).
\<close>

theorem refund_within_policy:
  assumes "CANCELLATION_PARTIAL_REFUND_PERCENT st \<le> 100"
    and "patch_status gw st now rnd aid p actor d g = (Inr out, d', g')"
  shows "let price = estimated_price (to_appointment out); left = scheduled_time (to_appointment out) - now in
         to_refund out \<le> price \<and>
         (if to_refund out = 0 then True
          else to_policy out \<noteq> AuthVoided \<and> status_at d aid = Some CONFIRMED \<and> is_cancellation (su_status p) \<and>
               chargeable (to_appointment out) \<and>
               to_refund out = (if hours (CANCELLATION_FULL_REFUND_HOURS st) \<le> left then price
                                else if hours (CANCELLATION_PARTIAL_REFUND_HOURS st) \<le> left
                                then price * CANCELLATION_PARTIAL_REFUND_PERCENT st div 100 else 0))"
  using assms(2)
proof (cases rule: patch_status_cases)
  case idle
  with assms(2) show ?thesis
    by (auto simp: patch_status_def run_paid_def transition_status_def Let_def
        split: if_splits sum.splits bool.splits prod.splits)
next
  case (failed a e)
  then show ?thesis by simp
next
  case (moved a out')
  then have t: "apply_transition gw st now rnd a p actor d g = (Inr (out, d'), g')" by simp
  from t obtain b voided g2 amount policy rid d3 where b: "b = stamp now p a"
    and out: "to_appointment out = updated_appointment b p" "to_refund out = amount" "to_policy out = policy"
    and ref: "refund_on_cancel gw st now rnd (appt_status a) (su_status p) voided b d g2 = (Inr ((amount, policy, rid), d3), g')"
    by (rule apply_transition_InrE)
  note r = refund_on_cancel_Inr(2) [OF ref]
  show ?thesis
  proof (cases "amount = 0")
    case False
    with r have "is_cancellation (su_status p)" "appt_status a = CONFIRMED" "chargeable b"
      and eq: "(amount, policy) = refund_due st now b" by simp_all
    moreover from eq have due: "amount = fst (refund_due st now b)" "policy = snd (refund_due st now b)"
      by (metis fst_conv, metis snd_conv)
    moreover have "chargeable (updated_appointment b p) = chargeable b" by (simp add: chargeable_def)
    moreover have "policy \<noteq> AuthVoided" using due(2) refund_due_table(2) by simp
    moreover have "amount \<le> estimated_price b"
      using partial_le_price [OF assms(1), of b] by (simp add: due(1) refund_due_table(1))
    ultimately show ?thesis
      using out check_transition_Inr [OF moved(2), simplified] False
      by (simp add: status_at_def Let_def) (simp add: refund_due_table(1) split: if_splits)
  qed (simp add: out Let_def)
qed

text \<open>
  Cancelling later never pays more: with the thresholds ordered and the percentage at most
  100, the refund due does not increase as the appointment comes closer.
\<close>

lemma refund_due_antimono:
  assumes "CANCELLATION_PARTIAL_REFUND_HOURS st \<le> CANCELLATION_FULL_REFUND_HOURS st"
    and "CANCELLATION_PARTIAL_REFUND_PERCENT st \<le> 100" and "now \<le> later"
  shows "fst (refund_due st later a) \<le> fst (refund_due st now a)"
proof -
  note partial_le_price [OF assms(2), of a]
  moreover have "hours (CANCELLATION_PARTIAL_REFUND_HOURS st) \<le> hours (CANCELLATION_FULL_REFUND_HOURS st)"
    using assms(1) by (simp add: hours_def)
  ultimately show ?thesis using assms(3) by (simp add: refund_due_def Let_def)
qed

section \<open>The audit trail of statuses\<close>

text \<open>The history of one appointment replays to its status: each row starts where the last ended.\<close>

fun chained :: "appointment_status option \<Rightarrow> status_history list \<Rightarrow> appointment_status \<Rightarrow> bool" where
  "chained s [] t \<longleftrightarrow> s = Some t"
| "chained s (h # hs) t \<longleftrightarrow> old_status h = s \<and> chained (Some (new_status h)) hs t"

definition history_of :: "db \<Rightarrow> uuid \<Rightarrow> status_history list" where
  "history_of d aid = filter (\<lambda>h. hist_appointment h = aid) (histories d)"

definition history_replays :: "db \<Rightarrow> uuid \<Rightarrow> bool" where
  "history_replays d aid \<longleftrightarrow> (\<forall>s. status_at d aid = Some s \<longrightarrow> chained None (history_of d aid) s)"

lemma chained_append:
  "chained s (hs @ [h]) t \<longleftrightarrow> (\<exists>m. chained s hs m \<and> old_status h = Some m \<and> new_status h = t) \<or>
     (hs = [] \<and> s = None \<and> old_status h = None \<and> new_status h = t)"
proof (induction hs arbitrary: s)
  case (Cons a hs)
  then show ?case by auto
qed auto

text \<open>
  C8. The status history is a faithful log: if the history of an appointment replays to its status,
  it still does after any status update on any appointment.
\<close>

theorem history_replays_after_update:
  assumes "history_replays d aid" and "status_at d aid \<noteq> None"
    and "patch_status gw st now rnd aid' p actor d g = (r, d', g')"
  shows "history_replays d' aid"
  using assms(3)
proof (cases rule: patch_status_cases)
  case (moved a out)
  note c = check_transition_Inr [OF moved(2), simplified]
  note t = apply_transition_Inr [OF moved(3)]
  show ?thesis
  proof (cases "aid' = aid")
    case True
    with c have a: "appointment_by_id d aid = Some a" by simp
    from t(1,3) [OF a] True have "status_at d' aid = Some (su_status p)"
      and "history_of d' aid = history_of d aid @ [\<lparr>hist_appointment = aid, old_status = Some (appt_status a),
           new_status = su_status p, hist_actor = Some (user_id actor), hist_reason = su_notes p\<rparr>]"
      by (simp_all add: status_at_def history_of_def)
    moreover have "chained None (history_of d aid) (appt_status a)"
      using assms(1) a by (simp add: history_replays_def status_at_def)
    ultimately show ?thesis by (auto simp: history_replays_def chained_append)
  next
    case False
    with c t(2,3) [of aid'] assms(1) show ?thesis
      by (auto simp: history_replays_def status_at_def history_of_def)
  qed
qed (use assms(1) in auto)

section \<open>The calendar under status updates\<close>

definition ids_distinct :: "db \<Rightarrow> bool" where
  "ids_distinct d \<longleftrightarrow> distinct (map appt_id (appointments d))"

lemma by_id_unique:
  "ids_distinct d \<Longrightarrow> appointment_by_id d aid = Some a \<Longrightarrow> b \<in> set (appointments d) \<Longrightarrow> appt_id b = aid \<Longrightarrow> b = a"
  by (metis appointment_by_id_SomeD distinct_map ids_distinct_def inj_onD)

lemma sorted_wrt_concat_shrink:
  "sorted_wrt R (concat (map h xs)) \<Longrightarrow> (\<And>x. x \<in> set xs \<Longrightarrow> f x = [] \<or> f x = h x) \<Longrightarrow>
     sorted_wrt R (concat (map f xs))"
proof (induction xs)
  case (Cons x xs)
  have sub: "set (concat (map f xs)) \<subseteq> set (concat (map h xs))"
    using Cons.prems(2) by fastforce
  have ih: "sorted_wrt R (concat (map f xs))"
    using Cons.prems by (intro Cons.IH) (simp_all add: sorted_wrt_append)
  from Cons.prems(2) [of x] consider "f x = []" | "f x = h x" by auto
  then show ?case
    using ih sub Cons.prems(1) by cases (auto simp: sorted_wrt_append subset_iff)
qed simp

lemma busy_interval_updated:
  assumes "may_transition (appt_status a) (su_status p)"
  shows "busy_interval det (updated_appointment (stamp now p a) p) = [] \<or>
         busy_interval det (updated_appointment (stamp now p a) p) = busy_interval det a"
proof (cases "appt_status a \<in> set TERMINAL_STATUSES")
  case True
  with assms fsm_terminal_stuck show ?thesis by (auto simp: fsm_step_iff)
next
  case False
  then show ?thesis
    by (cases "su_status p \<in> set TERMINAL_STATUSES"; cases "travel_buffer_end_time a") (auto simp: busy_interval_def is_active_booking_def)
qed

lemma update_keeps_calendar:
  assumes "patch_status gw st now rnd aid p actor d g = (r, d', g')" and "ids_distinct d"
  shows "ids_distinct d'" and "no_double_booking d det \<Longrightarrow> no_double_booking d' det"
proof -
  have both: "ids_distinct d' \<and> (no_double_booking d det \<longrightarrow> no_double_booking d' det)"
    using assms(1)
  proof (cases rule: patch_status_cases)
    case (moved a out)
    note c = check_transition_Inr [OF moved(2), simplified]
    let ?u = "updated_appointment (stamp now p a) p"
    let ?f = "\<lambda>b. if appt_id b = aid \<and> \<not> appt_deleted b then ?u else b"
    from moved(3) obtain b voided g2 amount policy rid d3 where b: "b = stamp now p a"
      and ref: "refund_on_cancel gw st now rnd (appt_status a) (su_status p) voided b d g2 = (Inr ((amount, policy, rid), d3), g')"
      and rec: "record_transition b p actor amount policy d3 = Inr d'"
      by (rule apply_transition_InrE)
    have id: "appt_id a = aid" using c appointment_by_id_SomeD by blast
    have rows: "appointments d' = map ?f (appointments d)"
      using record_transition_Inr(1) [OF rec] refund_on_cancel_Inr(1) [OF ref] b id by (simp add: update_where_def)
    have "map appt_id (appointments d') = map appt_id (appointments d)" using id by (auto simp: rows)
    then have "ids_distinct d'" using assms(2) by (simp add: ids_distinct_def)
    moreover have "no_double_booking d' det" if "no_double_booking d det"
      unfolding no_double_booking_def busy_intervals_def rows map_map o_def
    proof (rule sorted_wrt_concat_shrink)
      show "sorted_wrt apart (concat (map (busy_interval det) (appointments d)))"
        using that by (simp add: no_double_booking_def busy_intervals_def)
      fix x assume x: "x \<in> set (appointments d)"
      have "may_transition (appt_status a) (su_status p)" using c by (auto simp: may_transition_def)
      from busy_interval_updated [OF this] show "busy_interval det (?f x) = [] \<or> busy_interval det (?f x) = busy_interval det x"
        using by_id_unique [OF assms(2) _ x] c by auto
    qed
    ultimately show ?thesis by blast
  qed (use assms(2) in auto)
  then show "ids_distinct d'" and "no_double_booking d det \<Longrightarrow> no_double_booking d' det" by auto
qed

section \<open>The customer's cancellation\<close>

text \<open>\<open>_refund_preview\<close>: cents and percentage; the note is fixed text.\<close>

definition refund_preview :: "settings \<Rightarrow> instant \<Rightarrow> appointment \<Rightarrow> nat \<times> nat" where
  "refund_preview st now a =
     (if appt_status a \<in> set TERMINAL_STATUSES then (0, 0)
      else if appt_status a = COMPLETED then (0, 0)
      else (let left = scheduled_time a - now
            in if appt_status a = PENDING then (estimated_price a, 100)
               else if left \<ge> hours (CANCELLATION_FULL_REFUND_HOURS st) then (estimated_price a, 100)
               else if left \<ge> hours (CANCELLATION_PARTIAL_REFUND_HOURS st)
               then (estimated_price a * CANCELLATION_PARTIAL_REFUND_PERCENT st div 100,
                     CANCELLATION_PARTIAL_REFUND_PERCENT st)
               else (0, 0)))"

record cancel_response =
  cr_appointment :: uuid
  cr_refund_cents :: nat
  cr_refund_pct :: nat

definition cancel_handler ::
  "'g gateway \<Rightarrow> settings \<Rightarrow> instant \<Rightarrow> instant \<Rightarrow> uuid \<Rightarrow> uuid \<Rightarrow> string option \<Rightarrow> user \<Rightarrow> (cancel_response, 'g) paid" where
  "cancel_handler gw st now1 now2 rnd aid reason actor d g =
     (case appointment_by_id d aid of
        None \<Rightarrow> (Inl (HTTPException 404 ''Appointment not found.''), g)
      | Some a \<Rightarrow>
          if client_id a \<noteq> user_id actor
          then (Inl (HTTPException 403 ''Only the booking customer may cancel here.''), g)
          else if appt_status a \<in> set TERMINAL_STATUSES
          then (Inl (HTTPException 409 ''Appointment is already in a terminal state.''), g)
          else (let (cents, pct) = refund_preview st now1 a;
                    p = \<lparr>su_status = CANCELLED_BY_CLIENT, su_notes = reason, su_actual_price = None\<rparr>
                in case transition_status gw st now2 rnd aid p actor d g of
                     (Inl e, g') \<Rightarrow> (Inl e, g')
                   | (Inr (out, d'), g') \<Rightarrow>
                       (Inr (\<lparr>cr_appointment = appt_id (to_appointment out), cr_refund_cents = cents,
                              cr_refund_pct = pct\<rparr>, d'), g')))"

definition cancel_appointment ::
  "'g gateway \<Rightarrow> settings \<Rightarrow> instant \<Rightarrow> instant \<Rightarrow> uuid \<Rightarrow> uuid \<Rightarrow> string option \<Rightarrow> user \<Rightarrow> db \<Rightarrow> 'g \<Rightarrow>
   cancel_response result \<times> db \<times> 'g" where
  "cancel_appointment gw st now1 now2 rnd aid reason actor d g =
     (if opt_len_ok 0 500 reason then run_paid (cancel_handler gw st now1 now2 rnd aid reason actor) d g
      else (Inl (unprocessable ''reason''), d, g))"

lemma cancel_appointment_InrE:
  assumes "cancel_appointment gw st now1 now2 rnd aid reason actor d g = (Inr resp, d', g')"
  obtains a out where "appointment_by_id d aid = Some a" "client_id a = user_id actor"
    "appt_status a \<notin> set TERMINAL_STATUSES"
    "cr_refund_cents resp = fst (refund_preview st now1 a)"
    "apply_transition gw st now2 rnd a
       \<lparr>su_status = CANCELLED_BY_CLIENT, su_notes = reason, su_actual_price = None\<rparr> actor d g = (Inr (out, d'), g')"
    "may_transition (appt_status a) CANCELLED_BY_CLIENT"
proof -
  let ?p = "\<lparr>su_status = CANCELLED_BY_CLIENT, su_notes = reason, su_actual_price = None\<rparr>"
  from assms obtain a out where a: "appointment_by_id d aid = Some a" "client_id a = user_id actor"
    "appt_status a \<notin> set TERMINAL_STATUSES" "cr_refund_cents resp = fst (refund_preview st now1 a)"
    and t: "transition_status gw st now2 rnd aid ?p actor d g = (Inr (out, d'), g')"
    unfolding cancel_appointment_def run_paid_def cancel_handler_def Let_def
    by (auto split: if_splits option.splits prod.splits sum.splits)
  from a(3) have ne: "appt_status a \<noteq> CANCELLED_BY_CLIENT" by (auto simp: TERMINAL_STATUSES_def)
  from t obtain b where b: "check_transition d aid ?p actor = Inr (a, b)"
    using a(1) by (auto simp: transition_status_def check_transition_def split: sum.splits prod.splits if_splits option.splits)
  from check_transition_Inr [OF b] ne have b': "b" by (auto split: if_splits)
  with b t have "apply_transition gw st now2 rnd a ?p actor d g = (Inr (out, d'), g')"
    by (simp add: transition_status_def)
  moreover from check_transition_Inr [OF b] b' have "may_transition (appt_status a) CANCELLED_BY_CLIENT"
    by (auto simp: may_transition_def)
  ultimately show ?thesis using that a by blast
qed

text \<open>
  What the customer is told and what is recorded part ways: when a confirmed appointment with a
  payment is cancelled and the hold can be voided, the response still announces the refund of the
  policy table (for instance half the price), while the cancellation is recorded as
  ``auth_voided'' with no refund amount.
\<close>

lemma cancel_reports_preview_not_outcome:
  assumes "cancel_appointment gw st now1 now2 rnd aid reason actor d g = (Inr resp, d', g')"
    and "appointment_by_id d aid = Some a" and "appt_status a = CONFIRMED" and "chargeable a"
    and "fst (cancel_payment_intent gw st (the (payment_intent a)) ''requested_by_customer'' g) = Inr s"
  shows "cr_refund_cents resp = fst (refund_due st now1 a) \<and>
         refund_amount (last (cancellations d')) = None \<and>
         policy_code (last (cancellations d')) = Some ''auth_voided''"
proof -
  let ?p = "\<lparr>su_status = CANCELLED_BY_CLIENT, su_notes = reason, su_actual_price = None\<rparr>"
  from assms(1,2) obtain out where resp: "cr_refund_cents resp = fst (refund_preview st now1 a)"
    and t: "apply_transition gw st now2 rnd a ?p actor d g = (Inr (out, d'), g')"
    by (auto elim: cancel_appointment_InrE)
  from t obtain b voided g2 amount policy rid d3 where b: "b = stamp now2 ?p a"
    and void: "void_on_cancel gw st (appt_status a) (su_status ?p) b (capture_on_complete gw st (su_status ?p) b g) = (voided, g2)"
    and ref: "refund_on_cancel gw st now2 rnd (appt_status a) (su_status ?p) voided b d g2 = (Inr ((amount, policy, rid), d3), g')"
    and rec: "record_transition b ?p actor amount policy d3 = Inr d'"
    by (rule apply_transition_InrE)
  have voided
    using void assms(3-5) b
    by (auto simp: void_on_cancel_def capture_on_complete_def is_cancellation_def split: prod.splits sum.splits)
  with refund_on_cancel_Inr(3) [OF ref] have "amount = 0" "policy = AuthVoided" by simp_all
  with record_transition_Inr(3) [OF rec] have "last (cancellations d') = cancellation_row b ?p actor 0 AuthVoided"
    by (simp add: is_cancellation_def)
  moreover have "fst (refund_preview st now1 a) = fst (refund_due st now1 a)"
    using assms(3) by (simp add: refund_preview_def refund_due_def Let_def TERMINAL_STATUSES_def)
  ultimately show ?thesis using resp by (simp add: cancellation_row_def)
qed

section \<open>Reading appointments\<close>

definition get_appointment :: "db \<Rightarrow> uuid \<Rightarrow> user \<Rightarrow> appointment result" where
  "get_appointment d aid actor =
     (case appointment_by_id d aid of
        None \<Rightarrow> Inl (HTTPException 404 ''Appointment not found.'')
      | Some a \<Rightarrow>
          if \<not> is_participant a actor \<and> \<not> is_admin actor
          then Inl (HTTPException 403 ''You are not authorised to view this appointment.'')
          else Inr a)"

record 'a paginated =
  pg_items :: "'a list"
  pg_total :: nat
  pg_page :: nat
  pg_size :: nat
  pg_pages :: nat

text \<open>\<open>PaginatedResponse.build\<close>: \<open>max(1, -(-total // page_size))\<close>, in Python's floor division.\<close>

definition paginated_build :: "'a list \<Rightarrow> nat \<Rightarrow> nat \<Rightarrow> nat \<Rightarrow> 'a paginated" where
  "paginated_build items cnt page sz =
     \<lparr>pg_items = items, pg_total = cnt, pg_page = page, pg_size = sz,
      pg_pages = max 1 (nat (- (- int cnt div int sz)))\<rparr>"

definition list_my_appointments ::
  "db \<Rightarrow> user \<Rightarrow> string option \<Rightarrow> nat \<Rightarrow> nat \<Rightarrow> appointment paginated result" where
  "list_my_appointments d actor as_role page sz =
     (if \<not> (1 \<le> page \<and> 1 \<le> sz \<and> sz \<le> 100) \<or> as_role \<notin> {None, Some ''client'', Some ''detailer''}
      then Inl (unprocessable ''query'')
      else (let offset = (page - 1) * sz;
                respond = (\<lambda>(items, cnt). Inr (paginated_build items cnt page sz))
            in if as_role = Some ''client''
               then (if \<not> is_client actor then Inl (HTTPException 403 ''You don't have the client role on this account.'')
                     else respond (get_by_client d (user_id actor) None offset sz))
               else if as_role = Some ''detailer''
               then (if \<not> is_detailer actor then Inl (HTTPException 403 ''You don't have the detailer role on this account.'')
                     else respond (get_by_detailer d (user_id actor) None offset sz))
               else if is_detailer actor then respond (get_by_detailer d (user_id actor) None offset sz)
               else respond (get_by_client d (user_id actor) None offset sz)))"

text \<open>Which rows the listing is over.\<close>

definition my_rows :: "db \<Rightarrow> user \<Rightarrow> string option \<Rightarrow> appointment list" where
  "my_rows d actor as_role =
     (if as_role = Some ''detailer'' \<or> (as_role = None \<and> is_detailer actor)
      then filter (\<lambda>a. detailer_id a = Some (user_id actor) \<and> \<not> appt_deleted a) (appointments d)
      else filter (\<lambda>a. client_id a = user_id actor \<and> \<not> appt_deleted a) (appointments d))"

lemma list_my_appointments_Inr:
  "list_my_appointments d actor as_role page sz = Inr pg \<Longrightarrow>
     1 \<le> page \<and> 1 \<le> sz \<and>
     pg = paginated_build (page_of ((page - 1) * sz) sz (sort_key scheduled_time (my_rows d actor as_role)))
            (length (my_rows d actor as_role)) page sz"
  by (auto simp: list_my_appointments_def my_rows_def get_by_client_def get_by_detailer_def Let_def split: if_splits)

lemma pages_concat: "concat (map (\<lambda>i. page_of (i * n) n xs) [0..<k]) = take (k * n) xs"
  by (induction k) (simp_all add: page_of_def take_add [symmetric] add.commute)

lemma ceil_pages: "0 < n \<Longrightarrow> cnt \<le> max 1 (nat (- (- int cnt div int n))) * n"
proof -
  assume n: "0 < n"
  have "- int cnt = int n * (- int cnt div int n) + (- int cnt mod int n)" by simp
  moreover have "0 \<le> - int cnt mod int n" using n by simp
  ultimately have "int cnt \<le> - (int n * (- int cnt div int n))" by linarith
  also have "\<dots> = (- (- int cnt div int n)) * int n" by simp
  also have "\<dots> \<le> int (max 1 (nat (- (- int cnt div int n)))) * int n"
    by (intro mult_right_mono) simp_all
  finally show ?thesis by (metis of_nat_le_iff of_nat_mult)
qed

text \<open>
  A user's list is complete and private: reading the pages one to \<open>pages\<close> in order gives every
  appointment of the user in the asked role exactly once, by scheduled time, and nobody else's; a
  single appointment is shown to its client, its detailer and admins only.
\<close>

lemma listing_complete_and_private:
  assumes "list_my_appointments d actor as_role page sz = Inr pg"
  shows "concat (map (\<lambda>i. page_of (i * sz) sz (sort_key scheduled_time (my_rows d actor as_role))) [0..<pg_pages pg])
           = sort_key scheduled_time (my_rows d actor as_role) \<and>
         pg_items pg = page_of ((page - 1) * sz) sz (sort_key scheduled_time (my_rows d actor as_role)) \<and>
         length (pg_items pg) \<le> sz \<and>
         (\<forall>a \<in> set (pg_items pg). is_participant a actor \<and> \<not> appt_deleted a \<and>
            get_appointment d (appt_id a) actor \<noteq> Inl (HTTPException 404 ''Appointment not found.''))"
proof -
  let ?rows = "sort_key scheduled_time (my_rows d actor as_role)"
  note pg = list_my_appointments_Inr [OF assms]
  have "take (pg_pages pg * sz) ?rows = ?rows"
    using ceil_pages [of sz "length (my_rows d actor as_role)"] pg by (simp add: paginated_build_def)
  then have "concat (map (\<lambda>i. page_of (i * sz) sz ?rows) [0..<pg_pages pg]) = ?rows"
    by (simp add: pages_concat)
  moreover have items: "pg_items pg = page_of ((page - 1) * sz) sz ?rows"
    using pg by (simp add: paginated_build_def)
  moreover have "is_participant a actor \<and> \<not> appt_deleted a \<and>
      get_appointment d (appt_id a) actor \<noteq> Inl (HTTPException 404 ''Appointment not found.'')"
    if "a \<in> set (pg_items pg)" for a
  proof -
    from that items have "a \<in> set (my_rows d actor as_role)"
      by (auto simp: page_of_def dest!: in_set_takeD in_set_dropD)
    then have a: "a \<in> set (appointments d)" "is_participant a actor" "\<not> appt_deleted a"
      by (auto simp: my_rows_def is_participant_def split: if_splits)
    from a(1,3) have "appointment_by_id d (appt_id a) \<noteq> None"
      by (auto simp: appointment_by_id_def find_None_iff)
    with a show ?thesis by (auto simp: get_appointment_def split: if_splits)
  qed
  ultimately show ?thesis by (auto simp: length_page_of)
qed

section \<open>The properties on a concrete appointment\<close>

text \<open>
  A confirmed appointment with a captured payment: the gateway refuses to void it and accepts a
  refund. The history holds its creation and confirmation.
\<close>

definition captured_gateway :: "unit gateway" where
  "captured_gateway = offline_gateway\<lparr>refund_create := \<lambda>_ _ _ g. (Inr ''re_1'', g)\<rparr>"

definition live_settings :: settings where
  "live_settings = default_settings\<lparr>STRIPE_SECRET_KEY := ''sk_live_1''\<rparr>"

definition paid_appointment :: appointment where
  "paid_appointment = (demo_appointment (hours 3) None)\<lparr>payment_intent := Some ''pi_1''\<rparr>"

definition paid_db :: db where
  "paid_db = (demo_db [paid_appointment])\<lparr>histories :=
     [\<lparr>hist_appointment = 100, old_status = None, new_status = PENDING, hist_actor = Some 1, hist_reason = None\<rparr>,
      \<lparr>hist_appointment = 100, old_status = Some PENDING, new_status = CONFIRMED, hist_actor = Some 7, hist_reason = None\<rparr>]\<rparr>"

definition cancel_update :: status_update where
  "cancel_update = \<lparr>su_status = CANCELLED_BY_CLIENT, su_notes = None, su_actual_price = None\<rparr>"

lemmas paid_defs = paid_db_def paid_appointment_def demo_appointment_def demo_db_def empty_db_def
  demo_client_def demo_detailer_def captured_gateway_def live_settings_def default_settings_def
  offline_gateway_def cancel_update_def

lemma paid_by_id: "appointment_by_id paid_db 100 = Some paid_appointment"
  by (simp add: appointment_by_id_def paid_defs)

lemma paid_status: "status_at paid_db 100 = Some CONFIRMED"
  by (simp add: status_at_def paid_by_id) (simp add: paid_defs)

lemma paid_check: "check_transition paid_db 100 cancel_update demo_client = Inr (paid_appointment, True)"
  by (simp add: check_transition_def paid_by_id)
     (simp add: paid_defs is_participant_def fsm_defs role_defs)

lemma paid_chargeable: "chargeable paid_appointment"
  by (simp add: chargeable_def truthy_def starts_with_def paid_defs)

lemma paid_valid: "validate_status_update cancel_update"
  by (simp add: validate_status_update_def opt_len_ok_def cancel_update_def)

lemma paid_intent: "payment_intent paid_appointment = Some ''pi_1''"
  by (simp add: paid_defs)

lemma paid_due: "refund_due live_settings 0 (stamp 0 cancel_update paid_appointment) = (5000, PartialRefund)"
  by (simp add: refund_due_def Let_def) (simp add: paid_defs hours_def stamp_def)

lemma paid_refund:
  "create_refund captured_gateway live_settings rnd ''pi_1'' 5000 reason d g
     = (Inr (Some ''re_1'', audit_log ''payment_refunded'' ''payment_intent'' None [(''amount_cents'', 5000)] d), g)"
proof -
  have "\<not> is_stub_intent live_settings ''pi_1''"
    by (simp add: is_stub_intent_def is_stub_key_def starts_with_def live_settings_def)
  then show ?thesis by (simp add: create_refund_def captured_gateway_def)
qed

lemma paid_cancel:
  "\<exists>out d'. patch_status captured_gateway live_settings 0 1 100 cancel_update demo_client paid_db () = (Inr out, d', ())
     \<and> to_refund out = 5000 \<and> to_policy out = PartialRefund"
proof -
  have "capture_on_complete captured_gateway live_settings CANCELLED_BY_CLIENT a () = ()" for a
    by (simp add: capture_on_complete_def)
  moreover have "void_on_cancel captured_gateway live_settings CONFIRMED CANCELLED_BY_CLIENT
      (stamp 0 cancel_update paid_appointment) () = (False, ())"
    by (simp add: void_on_cancel_def cancel_payment_intent_def is_stub_intent_def is_stub_key_def starts_with_def
        is_cancellation_def split: prod.split) (simp add: paid_defs)
  moreover have "refund_on_cancel captured_gateway live_settings 0 1 CONFIRMED CANCELLED_BY_CLIENT False
      (stamp 0 cancel_update paid_appointment) paid_db ()
      = (Inr ((5000, PartialRefund, Some ''re_1''), audit_log ''payment_refunded'' ''payment_intent'' None
          [(''amount_cents'', 5000)] paid_db), ())"
    by (simp add: refund_on_cancel_def is_cancellation_def paid_chargeable paid_due paid_refund paid_intent)
  moreover have "appt_status paid_appointment = CONFIRMED" "su_status cancel_update = CANCELLED_BY_CLIENT"
    by (simp_all add: paid_defs)
  moreover have "\<exists>d'. record_transition (stamp 0 cancel_update paid_appointment) cancel_update demo_client 5000 PartialRefund
      (audit_log ''payment_refunded'' ''payment_intent'' None [(''amount_cents'', 5000)] paid_db) = Inr d'"
    by (simp add: record_transition_def add_cancellation_def is_cancellation_def add_status_history_def
        put_appointment_def paid_defs Let_def)
  ultimately show ?thesis
    by (auto simp: patch_status_def paid_valid run_paid_def transition_status_def paid_check apply_transition_def Let_def)
qed

theorem status_update_follows_table_witness:
  "\<exists>d' a'. appointment_by_id d' 100 = Some a' \<and> appt_status a' = CANCELLED_BY_CLIENT"
proof -
  obtain out d' where "patch_status captured_gateway live_settings 0 1 100 cancel_update demo_client paid_db () = (Inr out, d', ())"
    using paid_cancel by blast
  from status_update_follows_table [OF this] have "\<exists>a'. appointment_by_id d' 100 = Some a' \<and>
      appt_status a' = su_status cancel_update" by blast
  then show ?thesis by (auto simp: cancel_update_def)
qed

definition demo_requests :: "update_request list" where
  "demo_requests = [\<lparr>rq_now = 0, rq_rnd = 1, rq_appointment = 100, rq_update = cancel_update, rq_actor = demo_client\<rparr>]"

theorem updates_follow_the_machine_witness:
  "\<exists>ts. fsm_run CONFIRMED ts \<and> length ts \<le> 4 \<and>
     status_at (fst (patch_all captured_gateway live_settings demo_requests paid_db ())) 100 = Some (last (CONFIRMED # ts))"
proof -
  from updates_follow_the_machine [OF paid_status, of captured_gateway live_settings demo_requests "()"]
  show ?thesis by (elim exE conjE) (intro exI conjI)
qed

theorem refund_within_policy_witness:
  "\<exists>out d'. patch_status captured_gateway live_settings 0 1 100 cancel_update demo_client paid_db () = (Inr out, d', ()) \<and>
     to_refund out = 5000 \<and> to_refund out \<le> estimated_price (to_appointment out)"
proof -
  obtain out d' where p: "patch_status captured_gateway live_settings 0 1 100 cancel_update demo_client paid_db () = (Inr out, d', ())"
    "to_refund out = 5000" using paid_cancel by blast
  have "CANCELLATION_PARTIAL_REFUND_PERCENT live_settings \<le> 100" by (simp add: paid_defs)
  from refund_within_policy [OF this p(1)] p show ?thesis by (auto simp: Let_def)
qed

theorem history_replays_after_update_witness:
  "history_replays (fst (snd (patch_status captured_gateway live_settings 0 1 100 cancel_update demo_client paid_db ()))) 100"
proof -
  have "history_replays paid_db 100"
    by (simp add: history_replays_def paid_status) (simp add: history_of_def paid_defs)
  moreover obtain out d' where "patch_status captured_gateway live_settings 0 1 100 cancel_update demo_client paid_db () = (Inr out, d', ())"
    using paid_cancel by blast
  ultimately show ?thesis using history_replays_after_update [of paid_db 100] paid_status by fastforce
qed

end
