(* ===== verification/Admin.thy ===== *)
theory Admin
  imports Providers Lifecycle Ledger
begin

text \<open>
  The back office on appointments, customers and figures (domains/admin/repository.py and its
  endpoints in domains/admin/router.py): refunds under a cap, reassignment, the forced status, the
  switch of an account, comp credits, the segments of customers, and the operations dashboard with its
  demand heatmap.
\<close>

section \<open>State\<close>

text \<open>\<open>Refund\<close> (domains/payments/models.py) and \<open>CustomerCredit\<close> (domains/credits/models.py).\<close>

record refund_row =
  rf_id :: uuid
  rf_appointment :: uuid
  rf_stripe :: "string option"
  rf_amount :: int
  rf_status :: string
  rf_by :: uuid

record credit_row =
  cr_id :: uuid
  cr_user :: uuid
  cr_amount :: int
  cr_source :: string
  cr_status :: string
  cr_expires :: "instant option"
  cr_appointment :: "uuid option"

record office =
  books :: db
  refunds :: "refund_row list"
  credits :: "credit_row list"

definition on_books :: "(db \<Rightarrow> db) \<Rightarrow> office \<Rightarrow> office" where
  "on_books f k = k\<lparr>books := f (books k)\<rparr>"

definition appointment_missing :: exn where "appointment_missing = HTTPException 404 ''Appointment not found.''"
definition office_conflict :: "string \<Rightarrow> exn" where "office_conflict msg = HTTPException 409 msg"

section \<open>Refunds\<close>

text \<open>\<open>actual_price or estimated_price\<close>: a price of zero counts as none.\<close>

definition max_refundable :: "appointment \<Rightarrow> int" where
  "max_refundable a = (case actual_price a of None \<Rightarrow> int (estimated_price a) | Some n \<Rightarrow> if n = 0 then int (estimated_price a) else n)"

definition prior_refunded :: "uuid \<Rightarrow> office \<Rightarrow> int" where
  "prior_refunded aid k = (\<Sum>r \<leftarrow> filter (\<lambda>r. rf_appointment r = aid \<and> rf_status r \<noteq> ''failed'') (refunds k). rf_amount r)"

definition stripe_reason :: "string \<Rightarrow> string" where
  "stripe_reason r = (if r \<in> {''duplicate'', ''fraudulent'', ''requested_by_customer''} then r else ''requested_by_customer'')"

definition add_refund :: "refund_row \<Rightarrow> office \<Rightarrow> office result" where
  "add_refund r k =
     (if rf_id r \<in> rf_id ` set (refunds k) then Inl (IntegrityError ''refunds_pkey'')
      else if rf_stripe r \<noteq> None \<and> rf_stripe r \<in> rf_stripe ` set (refunds k) then Inl (IntegrityError ''uq_refunds_stripe_refund_id'')
      else Inr (k\<lparr>refunds := refunds k @ [r]\<rparr>))"

text \<open>\<open>rnd\<close> and \<open>rid\<close>: the random ids of a placeholder refund and of the new row.\<close>

definition refund_appointment ::
  "'g gateway \<Rightarrow> settings \<Rightarrow> uuid \<Rightarrow> uuid \<Rightarrow> uuid \<Rightarrow> user \<Rightarrow> int \<Rightarrow> string \<Rightarrow> office \<Rightarrow> 'g \<Rightarrow> (string option \<times> office) result \<times> 'g" where
  "refund_appointment gw st rnd rid aid actor amount reason k g =
     (if amount \<le> 0 then (Inl (HTTPException 422 ''amount_cents''), g)
      else case appointment_by_id (books k) aid of
        None \<Rightarrow> (Inl appointment_missing, g)
      | Some a \<Rightarrow>
          if \<not> truthy (payment_intent a) then (Inl (office_conflict ''no PaymentIntent''), g)
          else if max_refundable a < prior_refunded aid k + amount then (Inl (office_conflict ''Refund cap exceeded''), g)
          else (case create_refund gw st rnd (the (payment_intent a)) (nat amount) (stripe_reason reason) (books k) g of
                  (Inl e, g') \<Rightarrow> (Inl e, g')
                | (Inr (ref, d), g') \<Rightarrow>
                    (case add_refund \<lparr>rf_id = rid, rf_appointment = aid, rf_stripe = ref, rf_amount = amount,
                            rf_status = (if truthy ref then ''succeeded'' else ''pending''), rf_by = user_id actor\<rparr> (k\<lparr>books := d\<rparr>) of
                       Inl e \<Rightarrow> (Inl e, g')
                     | Inr k' \<Rightarrow> (Inr (ref, on_books (audit_log ''payment_refunded'' ''appointment'' (Some (user_id actor))
                                         [(''amount_cents'', amount)]) k'), g'))))"

section \<open>Reassignment and the forced status\<close>

definition REASSIGNABLE_STATUSES :: "appointment_status set" where
  "REASSIGNABLE_STATUSES = {PENDING, SEARCHING, NO_DETAILER_FOUND, CONFIRMED}"

definition reassigned :: "uuid \<Rightarrow> appointment \<Rightarrow> appointment" where
  "reassigned det a =
     a\<lparr>detailer_id := Some det,
       appt_status := (if appt_status a \<in> {NO_DETAILER_FOUND, SEARCHING} then PENDING else appt_status a)\<rparr>"

definition reassign_appointment :: "uuid \<Rightarrow> uuid \<Rightarrow> user \<Rightarrow> office \<Rightarrow> (appointment_status \<times> office) result" where
  "reassign_appointment aid det actor k =
     (case appointment_by_id (books k) aid of
        None \<Rightarrow> Inl appointment_missing
      | Some a \<Rightarrow>
          if appt_status a \<notin> REASSIGNABLE_STATUSES then Inl (office_conflict ''Cannot reassign'')
          else if detailer_id a = Some det then Inl (office_conflict ''New detailer is already assigned to this appointment.'')
          else (case scalar_one_or_none (filter (\<lambda>p. prof_user p = det \<and> \<not> prof_deleted p) (profiles (books k))) of
                  Inl e \<Rightarrow> Inl e
                | Inr None \<Rightarrow> Inl (office_conflict ''Target user is not a detailer.'')
                | Inr (Some p) \<Rightarrow>
                    if application_status p \<noteq> ''approved'' then Inl (office_conflict ''Target detailer is not approved'')
                    else Inr (appt_status (reassigned det a),
                           on_books (audit_log ''appointment_status_changed'' ''appointment'' (Some (user_id actor)) []
                                     \<circ> put_appointment (reassigned det a)) k)))"

text \<open>The column takes the value or the name of an \<open>AppointmentStatus\<close>; any other string ends in an error.\<close>

definition all_statuses :: "appointment_status list" where
  "all_statuses = [PENDING, CONFIRMED, ARRIVED, IN_PROGRESS, COMPLETED, CANCELLED_BY_CLIENT, CANCELLED_BY_DETAILER, NO_SHOW,
     SEARCHING, NO_DETAILER_FOUND]"

definition bind_status :: "string \<Rightarrow> appointment_status option" where
  "bind_status s = find (\<lambda>t. s = status_value t \<or> s = py_upper (status_value t)) all_statuses"

definition force_appointment_status :: "uuid \<Rightarrow> string \<Rightarrow> user \<Rightarrow> office \<Rightarrow> (unit \<times> office) result" where
  "force_appointment_status aid s actor k =
     (case bind_status s of
        None \<Rightarrow> Inl (ValueError ''LookupError'')
      | Some t \<Rightarrow>
          if appointment_by_id (books k) aid = None then Inl appointment_missing
          else Inr ((), on_books (audit_log ''appointment_status_changed'' ''appointment'' (Some (user_id actor)) []
                   \<circ> (\<lambda>d. d\<lparr>appointments := update_where (\<lambda>a. appt_id a = aid \<and> \<not> appt_deleted a) (\<lambda>a. a\<lparr>appt_status := t\<rparr>)
                             (appointments d)\<rparr>)) k))"

section \<open>Accounts, credits and segments\<close>

text \<open>
  \<open>PATCH /admin/users/{id}\<close>: the handler commits before it looks the account up again, so the switch of a
  deleted account is kept although the answer is 404.
\<close>

definition set_user_active :: "uuid \<Rightarrow> bool \<Rightarrow> office \<Rightarrow> bool \<times> office" where
  "set_user_active uid active k =
     (0 < rowcount (\<lambda>u. user_id u = uid) (users (books k)),
      on_books (\<lambda>d. d\<lparr>users := update_where (\<lambda>u. user_id u = uid) (\<lambda>u. u\<lparr>user_active := active\<rparr>) (users d)\<rparr>) k)"

definition update_user_handler :: "uuid \<Rightarrow> bool option \<Rightarrow> office session \<Rightarrow> user result \<times> office session" where
  "update_user_handler uid active s =
     (let (found, s1) = (case active of
            None \<Rightarrow> (True, s)
          | Some b \<Rightarrow> (case set_user_active uid b (working s) of (ok, k) \<Rightarrow> (ok, s\<lparr>working := k\<rparr>)))
      in if \<not> found then (Inl (HTTPException 404 ''User not found.''), s1)
         else (case user_by_id (books (working (commit s1))) uid of
                 None \<Rightarrow> (Inl (HTTPException 404 ''User not found.''), commit s1)
               | Some u \<Rightarrow> (Inr u, commit s1)))"

definition update_user :: "uuid \<Rightarrow> bool option \<Rightarrow> office \<Rightarrow> user result \<times> office" where
  "update_user uid active k = get_db k (update_user_handler uid active)"

definition issue_customer_credit ::
  "uuid \<Rightarrow> uuid \<Rightarrow> user \<Rightarrow> int \<Rightarrow> string \<Rightarrow> string \<Rightarrow> instant option \<Rightarrow> uuid option \<Rightarrow> office \<Rightarrow> (unit \<times> office) result" where
  "issue_customer_credit cid uid actor amount reason source expires related k =
     (if \<not> (0 < amount \<and> amount \<le> 1000000 \<and> 5 \<le> length reason \<and> length reason \<le> 500 \<and>
             source \<in> {''admin_comp'', ''promo'', ''referral'', ''refund'', ''adjustment''}) then Inl (HTTPException 422 ''credit'')
      else if user_by_id (books k) uid = None then Inl (HTTPException 404 ''User not found.'')
      else if cid \<in> cr_id ` set (credits k) then Inl (IntegrityError ''customer_credits_pkey'')
      else if (case related of None \<Rightarrow> False | Some aid \<Rightarrow> aid \<notin> appt_id ` set (appointments (books k)))
      then Inl (IntegrityError ''customer_credits_related_appointment_id_fkey'')
      else Inr ((), on_books (audit_log ''customer_credit_issued'' ''customer_credit'' (Some (user_id actor)) [(''amount_cents'', amount)])
             (k\<lparr>credits := credits k @ [\<lparr>cr_id = cid, cr_user = uid, cr_amount = amount, cr_source = source, cr_status = ''active'',
                                        cr_expires = expires, cr_appointment = related\<rparr>]\<rparr>)))"

definition credit_balance :: "uuid \<Rightarrow> office \<Rightarrow> int" where
  "credit_balance uid k = (\<Sum>c \<leftarrow> filter (\<lambda>c. cr_user c = uid \<and> cr_status c = ''active'') (credits k). cr_amount c)"

definition VIP_LIFETIME_APPTS :: nat where "VIP_LIFETIME_APPTS = 10"
definition VIP_LIFETIME_SPEND_CENTS :: int where "VIP_LIFETIME_SPEND_CENTS = 100000"
definition ACTIVE_WINDOW_DAYS :: int where "ACTIVE_WINDOW_DAYS = 30"

definition classify_segment :: "nat \<Rightarrow> instant option \<Rightarrow> int \<Rightarrow> instant \<Rightarrow> string" where
  "classify_segment n last_at spend now =
     (if n = 0 then ''new''
      else if VIP_LIFETIME_APPTS \<le> n \<or> VIP_LIFETIME_SPEND_CENTS \<le> spend then ''vip''
      else if (case last_at of None \<Rightarrow> False | Some t \<Rightarrow> (now - t) div days 1 \<le> ACTIVE_WINDOW_DAYS) then ''active''
      else ''dormant'')"

text \<open>The aggregate of a customer's completed appointments, deleted ones included, and the segment it gives.\<close>

definition completed_of :: "uuid \<Rightarrow> db \<Rightarrow> appointment list" where
  "completed_of uid d = filter (\<lambda>a. client_id a = uid \<and> appt_status a = COMPLETED) (appointments d)"

definition lifetime_cents :: "uuid \<Rightarrow> db \<Rightarrow> int" where
  "lifetime_cents uid d = (\<Sum>a \<leftarrow> completed_of uid d. case actual_price a of None \<Rightarrow> int (estimated_price a) | Some n \<Rightarrow> n)"

definition last_appointment :: "uuid \<Rightarrow> db \<Rightarrow> instant option" where
  "last_appointment uid d = (case map scheduled_time (completed_of uid d) of [] \<Rightarrow> None | t # ts \<Rightarrow> Some (fold max ts t))"

definition segment_of :: "instant \<Rightarrow> db \<Rightarrow> uuid \<Rightarrow> string" where
  "segment_of now d uid = classify_segment (length (completed_of uid d)) (last_appointment uid d) (lifetime_cents uid d) now"

text \<open>Newest first: rows are in order of creation. The segment filters the page, not the list.\<close>

definition list_customers :: "instant \<Rightarrow> string \<Rightarrow> nat \<Rightarrow> nat \<Rightarrow> office \<Rightarrow> (uuid \<times> string \<times> int) list \<times> nat" where
  "list_customers now segment page per_page k =
     (let us = filter (\<lambda>u. has_role u ''client'' \<and> \<not> user_deleted u) (users (books k));
          ps = page_of ((page - 1) * per_page) per_page (rev us);
          rows = map (\<lambda>u. (user_id u, segment_of now (books k) (user_id u), credit_balance (user_id u) k)) ps
      in (filter (\<lambda>(_, s, _). segment = ''all'' \<or> s = segment) rows, length us))"

section \<open>The operations dashboard\<close>

text \<open>
  The figures are queries over the appointments joined from the left with the profiles of their
  detailers, so an appointment appears once for each profile row of its detailer.
\<close>

definition join_row :: "db \<Rightarrow> appointment \<Rightarrow> (appointment \<times> provider_profile option) list" where
  "join_row d a =
     (let ps = filter (\<lambda>p. detailer_id a = Some (prof_user p)) (profiles d)
      in if ps = [] then [(a, None)] else map (\<lambda>p. (a, Some p)) ps)"

definition joined :: "db \<Rightarrow> (appointment \<times> provider_profile option) list" where
  "joined d = concat (map (join_row d) (appointments d))"

definition in_city :: "string \<Rightarrow> provider_profile option \<Rightarrow> bool" where
  "in_city city p \<longleftrightarrow> city = ''all'' \<or> (\<exists>q. p = Some q \<and> home_city_code (prof_signup q) = Some city)"

definition in_window :: "instant \<Rightarrow> instant \<Rightarrow> string \<Rightarrow> appointment \<times> provider_profile option \<Rightarrow> bool" where
  "in_window t0 t1 city ap \<longleftrightarrow>
     \<not> appt_deleted (fst ap) \<and> t0 \<le> scheduled_time (fst ap) \<and> scheduled_time (fst ap) \<le> t1 \<and> in_city city (snd ap)"

definition gmv_cents :: "instant \<Rightarrow> instant \<Rightarrow> string \<Rightarrow> db \<Rightarrow> int" where
  "gmv_cents t0 t1 city d =
     (\<Sum>ap \<leftarrow> filter (\<lambda>ap. in_window t0 t1 city ap \<and> appt_status (fst ap) = COMPLETED) (joined d).
        case actual_price (fst ap) of None \<Rightarrow> 0 | Some n \<Rightarrow> n)"

definition bookings_count :: "instant \<Rightarrow> instant \<Rightarrow> string \<Rightarrow> db \<Rightarrow> nat" where
  "bookings_count t0 t1 city d = rowcount (in_window t0 t1 city) (joined d)"

definition ACTIVE_STATUSES :: "appointment_status set" where "ACTIVE_STATUSES = {CONFIRMED, ARRIVED, IN_PROGRESS}"
definition CANCELLED_STATUSES :: "appointment_status set" where "CANCELLED_STATUSES = {CANCELLED_BY_CLIENT, CANCELLED_BY_DETAILER}"

definition active_jobs :: "string \<Rightarrow> db \<Rightarrow> nat" where
  "active_jobs city d =
     rowcount (\<lambda>ap. \<not> appt_deleted (fst ap) \<and> appt_status (fst ap) \<in> ACTIVE_STATUSES \<and> in_city city (snd ap)) (joined d)"

definition cancelled_count :: "instant \<Rightarrow> instant \<Rightarrow> string \<Rightarrow> db \<Rightarrow> nat" where
  "cancelled_count t0 t1 city d = rowcount (\<lambda>ap. in_window t0 t1 city ap \<and> appt_status (fst ap) \<in> CANCELLED_STATUSES) (joined d)"

text \<open>Day of the week in UTC, Sunday first (the epoch was a Thursday), and hour; one row per pair that occurs.\<close>

definition dow_of :: "instant \<Rightarrow> nat" where "dow_of t = nat ((t div days 1 + 4) mod 7)"
definition hour_of :: "instant \<Rightarrow> nat" where "hour_of t = nat (t mod days 1 div hours 1)"

definition heat_rows :: "instant \<Rightarrow> instant \<Rightarrow> string \<Rightarrow> db \<Rightarrow> ((nat \<times> nat) \<times> nat) list" where
  "heat_rows t0 t1 city d =
     (let keys = map (\<lambda>ap. (dow_of (scheduled_time (fst ap)), hour_of (scheduled_time (fst ap)))) (filter (in_window t0 t1 city) (joined d))
      in map (\<lambda>k. (k, length (filter ((=) k) keys))) (remdups keys))"

definition HEATMAP_HOURS :: "nat list" where "HEATMAP_HOURS = [7..<23]"

text \<open>
  The cells as a grid of counts, a row per day from Monday on. \<open>v / peak\<close> is the quotient rounded to 53
  bits: for \<open>v \<le> peak\<close> a significand below \<open>2 ^ 53\<close> over a power of two. \<open>round\<close> goes to even.
\<close>

definition grid_row :: "(nat \<times> nat) \<times> nat \<Rightarrow> nat list list \<Rightarrow> nat list list" where
  "grid_row r g =
     (case r of ((dow, hour), n) \<Rightarrow>
        if hour \<notin> set HEATMAP_HOURS then g
        else (let i = (dow + 6) mod 7 in g[i := (g ! i)[hour - 7 := n]]))"

definition grid_of :: "((nat \<times> nat) \<times> nat) list \<Rightarrow> nat list list" where
  "grid_of rows = fold grid_row rows (replicate 7 (replicate 16 0))"

definition peak_of :: "((nat \<times> nat) \<times> nat) list \<Rightarrow> int" where
  "peak_of rows = fold (\<lambda>((dow, hour), n) peak. if hour \<in> set HEATMAP_HOURS \<and> peak < int n then int n else peak) rows (-1)"

definition half_even :: "nat \<Rightarrow> nat \<Rightarrow> nat" where
  "half_even a b = (let q = a div b; r = a mod b in if 2 * r > b \<or> (2 * r = b \<and> odd q) then Suc q else q)"

function quotient_scale :: "nat \<Rightarrow> nat \<Rightarrow> nat" where
  "quotient_scale v n = (if v = 0 \<or> n * 2 ^ 52 \<le> v then 0 else Suc (quotient_scale (2 * v) n))"
  by pat_completeness auto
termination
proof (relation "measure (\<lambda>(v, n). n * 2 ^ 52 - v)")
  fix v n :: nat
  assume "\<not> (v = 0 \<or> n * 2 ^ 52 \<le> v)"
  then show "((2 * v, n), v, n) \<in> measure (\<lambda>(v, n). n * 2 ^ 52 - v)" by (auto intro: diff_less_mono2)
qed simp

declare quotient_scale.simps [simp del]

definition flt_div :: "nat \<Rightarrow> nat \<Rightarrow> float64" where
  "flt_div v n = (let k = quotient_scale v n in Flt (half_even (v * 2 ^ k) n) k)"

fun flt_round :: "float64 \<Rightarrow> nat" where
  "flt_round (Flt m k) = half_even m (2 ^ k)"

definition level_of :: "int \<Rightarrow> nat \<Rightarrow> nat" where
  "level_of peak v =
     (if peak \<le> 0 \<or> v = 0 then 0 else max 1 (min 5 (flt_round (flt_mul_int 5 (flt_div v (nat peak))))))"

definition build_heatmap :: "((nat \<times> nat) \<times> nat) list \<Rightarrow> nat list list" where
  "build_heatmap rows = map (map (level_of (peak_of rows))) (grid_of rows)"

text \<open>The ledger's totals of a period.\<close>

definition sum_of :: "entry_type \<Rightarrow> instant option \<Rightarrow> instant option \<Rightarrow> ledger \<Rightarrow> int" where
  "sum_of ty t0 t1 l =
     (\<Sum>e \<leftarrow> filter (\<lambda>e. le_type e = ty \<and> (case t0 of None \<Rightarrow> True | Some t \<Rightarrow> t \<le> le_created e) \<and>
                             (case t1 of None \<Rightarrow> True | Some t \<Rightarrow> le_created e \<le> t)) (entries l). le_amount e)"

record payment_summary =
  total_captured :: int
  total_refunded :: int
  total_commissions :: int
  total_payouts :: int
  net_revenue :: int

definition get_payment_summary :: "instant option \<Rightarrow> instant option \<Rightarrow> ledger \<Rightarrow> payment_summary" where
  "get_payment_summary t0 t1 l =
     \<lparr>total_captured = sum_of CAPTURE t0 t1 l, total_refunded = sum_of REFUND t0 t1 l,
      total_commissions = sum_of CHARGE_COMMISSION t0 t1 l, total_payouts = sum_of PAYOUT t0 t1 l,
      net_revenue = sum_of CAPTURE t0 t1 l - sum_of REFUND t0 t1 l - sum_of PAYOUT t0 t1 l\<rparr>"

fun resolve_window :: "string \<Rightarrow> instant \<Rightarrow> (instant \<times> instant) result" where
  "resolve_window w now =
     (if w = ''1h'' then Inr (now - hours 1, now)
      else if w = ''today'' then Inr (now div days 1 * days 1, now)
      else if w = ''7d'' then Inr (now - days 7, now)
      else if w = ''30d'' then Inr (now - days 30, now)
      else if w = ''90d'' then Inr (now - days 90, now)
      else Inl (ValueError ''Unsupported window''))"

section \<open>Runs of the back office\<close>

datatype office_request =
    Refund_Appointment uuid uuid uuid int string
  | Reassign_Appointment uuid uuid
  | Force_Status uuid string
  | Switch_Account uuid "bool option"
  | Issue_Credit uuid uuid int string string "instant option" "uuid option"

text \<open>A request by \<open>actor\<close>, the endpoint's role check first; an exception rolls the data back, not the gateway.\<close>

definition plain :: "(office \<Rightarrow> ('a \<times> office) result) \<Rightarrow> office \<times> 'g \<Rightarrow> office \<times> 'g" where
  "plain h s = (snd (run_request h (fst s)), snd s)"

fun office_handler :: "'g gateway \<Rightarrow> settings \<Rightarrow> user \<Rightarrow> office_request \<Rightarrow> office \<times> 'g \<Rightarrow> office \<times> 'g" where
  "office_handler gw st actor (Refund_Appointment rnd rid aid amount reason) s =
     (case refund_appointment gw st rnd rid aid actor amount reason (fst s) (snd s) of
        (Inl _, g) \<Rightarrow> (fst s, g) | (Inr (_, k), g) \<Rightarrow> (k, g))"
| "office_handler gw st actor (Reassign_Appointment aid det) s = plain (reassign_appointment aid det actor) s"
| "office_handler gw st actor (Force_Status aid t) s = plain (force_appointment_status aid t actor) s"
| "office_handler gw st actor (Switch_Account uid active) s = (snd (update_user uid active (fst s)), snd s)"
| "office_handler gw st actor (Issue_Credit cid uid amount reason source expires related) s =
     plain (issue_customer_credit cid uid actor amount reason source expires related) s"

definition office_step :: "'g gateway \<Rightarrow> settings \<Rightarrow> user \<times> office_request \<Rightarrow> office \<times> 'g \<Rightarrow> office \<times> 'g" where
  "office_step gw st q s = (case require_role [''admin''] (fst q) of Inl _ \<Rightarrow> s | Inr _ \<Rightarrow> office_handler gw st (fst q) (snd q) s)"

section \<open>Refunds stay under the cap\<close>

text \<open>The price columns of each appointment, which no request of the back office writes.\<close>

definition price_tag :: "appointment \<Rightarrow> uuid \<times> nat \<times> int option \<times> string option" where
  "price_tag a = (appt_id a, estimated_price a, actual_price a, payment_intent a)"

definition price_tags :: "office \<Rightarrow> (uuid \<times> nat \<times> int option \<times> string option) list" where
  "price_tags k = map price_tag (appointments (books k))"

text \<open>Everything refunded on an appointment is covered by its price.\<close>

definition refunds_ok :: "office \<Rightarrow> bool" where
  "refunds_ok k \<longleftrightarrow> distinct (map fst (price_tags k)) \<and> (\<forall>r \<in> set (refunds k). 0 \<le> rf_amount r \<and> rf_status r \<noteq> ''failed'') \<and>
     (\<forall>a \<in> set (appointments (books k)). prior_refunded (appt_id a) k \<le> max 0 (max_refundable a))"

lemma refunds_ok_same:
  assumes "refunds_ok k" and "price_tags k' = price_tags k" and "refunds k' = refunds k"
  shows "refunds_ok k'"
proof -
  have "prior_refunded (appt_id b) k' \<le> max 0 (max_refundable b)" if "b \<in> set (appointments (books k'))" for b
  proof -
    have "price_tag b \<in> set (price_tags k')" using that by (simp add: price_tags_def)
    then obtain a where a: "a \<in> set (appointments (books k))" "price_tag a = price_tag b"
      unfolding assms(2) by (auto simp: price_tags_def)
    then have "max_refundable b = max_refundable a" "appt_id b = appt_id a" by (auto simp: price_tag_def max_refundable_def split: option.split)
    with assms(1,3) a show ?thesis by (simp add: refunds_ok_def prior_refunded_def)
  qed
  with assms show ?thesis by (simp add: refunds_ok_def)
qed

lemma books_simps [simp]:
  "books (on_books f k) = f (books k)" "refunds (on_books f k) = refunds k" "credits (on_books f k) = credits k"
  by (simp_all add: on_books_def)

lemma price_tags_update:
  assumes "appointments (books k') = update_where p f (appointments (books k))" and "\<And>a. p a \<Longrightarrow> price_tag (f a) = price_tag a"
  shows "price_tags k' = price_tags k"
  unfolding price_tags_def assms(1) by (rule map_update_where) (rule assms(2))

lemma reassign_price_tags:
  assumes "reassign_appointment aid det actor k = Inr (t, k')" and "distinct (map fst (price_tags k))"
  shows "price_tags k' = price_tags k \<and> refunds k' = refunds k"
proof -
  from assms(1) obtain a where a: "appointment_by_id (books k) aid = Some a"
      and k': "appointments (books k') = appointments (put_appointment (reassigned det a) (books k))" "refunds k' = refunds k"
    by (auto simp: reassign_appointment_def split: option.splits if_splits sum.splits)
  from a have mem: "a \<in> set (appointments (books k))" by (auto simp: appointment_by_id_def find_Some_iff)
  have same: "b = a" if "b \<in> set (appointments (books k))" "appt_id b = appt_id a" for b
    using assms(2) mem that by (auto simp: price_tags_def price_tag_def distinct_map inj_on_def comp_def)
  have "map price_tag (update_where (\<lambda>b. appt_id b = appt_id (reassigned det a) \<and> \<not> appt_deleted b) (\<lambda>_. reassigned det a) (appointments (books k)))
        = map price_tag (appointments (books k))"
    unfolding update_where_def map_map
  proof (rule map_cong [OF refl])
    fix b assume "b \<in> set (appointments (books k))"
    with same [of b] show "(price_tag \<circ> (\<lambda>b. if appt_id b = appt_id (reassigned det a) \<and> \<not> appt_deleted b then reassigned det a else b)) b = price_tag b"
      by (auto simp: reassigned_def price_tag_def)
  qed
  with k' show ?thesis by (simp add: price_tags_def put_appointment_def)
qed

lemma force_price_tags:
  assumes "force_appointment_status aid s actor k = Inr ((), k')"
  shows "price_tags k' = price_tags k \<and> refunds k' = refunds k"
proof -
  from assms obtain t where u: "appointments (books k') = update_where (\<lambda>a. appt_id a = aid \<and> \<not> appt_deleted a) (\<lambda>a. a\<lparr>appt_status := t\<rparr>) (appointments (books k))"
      and r: "refunds k' = refunds k"
    by (auto simp: force_appointment_status_def split: option.splits if_splits)
  from u have "price_tags k' = price_tags k" by (rule price_tags_update) (simp add: price_tag_def)
  with r show ?thesis by simp
qed

lemma update_user_rest: "appointments (books (snd (update_user uid active k))) = appointments (books k) \<and> refunds (snd (update_user uid active k)) = refunds k"
  by (auto simp: update_user_def get_db_def begin_session_def update_user_handler_def commit_def set_user_active_def Let_def
      split: option.split)

lemma create_refund_rows:
  assumes "create_refund gw st rnd pid n reason d g = (Inr (ref, d'), g')"
  shows "appointments d' = appointments d"
  using assms by (auto simp: create_refund_def Let_def split: if_splits prod.splits sum.splits)

lemma refund_appointment_ok:
  assumes "refund_appointment gw st rnd rid aid actor amount reason k g = (Inr (ref, k'), g')" and "refunds_ok k"
  shows "refunds_ok k'"
proof -
  from assms(1) obtain a d where a: "appointment_by_id (books k) aid = Some a" "0 < amount"
      "prior_refunded aid k + amount \<le> max_refundable a"
      and d: "create_refund gw st rnd (the (payment_intent a)) (nat amount) (stripe_reason reason) (books k) g = (Inr (ref, d), g')"
    by (auto simp: refund_appointment_def not_less split: if_splits option.splits prod.splits sum.splits)
  define row where "row = \<lparr>rf_id = rid, rf_appointment = aid, rf_stripe = ref, rf_amount = amount,
      rf_status = (if truthy ref then ''succeeded'' else ''pending''), rf_by = user_id actor\<rparr>"
  from assms(1) a d have "add_refund row (k\<lparr>books := d\<rparr>) \<noteq> Inl e" for e
    by (auto simp: refund_appointment_def row_def [symmetric] split: if_splits)
  with assms(1) a d have "k' = on_books (audit_log ''payment_refunded'' ''appointment'' (Some (user_id actor)) [(''amount_cents'', amount)])
      (k\<lparr>books := d, refunds := refunds k @ [row]\<rparr>)"
    by (auto simp: refund_appointment_def add_refund_def row_def [symmetric] split: if_splits)
  with create_refund_rows [OF d] have row: "rf_appointment row = aid" "rf_amount row = amount" "refunds k' = refunds k @ [row]"
      and k': "appointments (books k') = appointments (books k)"
    by (simp_all add: row_def)
  from a(1) have mem: "a \<in> set (appointments (books k))" "appt_id a = aid" by (auto simp: appointment_by_id_def find_Some_iff)
  have ok: "prior_refunded (appt_id b) k' \<le> max 0 (max_refundable b)" if b: "b \<in> set (appointments (books k))" for b
  proof (cases "appt_id b = aid")
    case True
    with assms(2) mem b have "b = a" by (auto simp: refunds_ok_def price_tags_def price_tag_def distinct_map inj_on_def comp_def)
    moreover have "prior_refunded aid k' \<le> prior_refunded aid k + amount" using a(2) row by (simp add: prior_refunded_def)
    ultimately show ?thesis using a(3) mem(2) by auto
  next
    case False
    with row have "prior_refunded (appt_id b) k' = prior_refunded (appt_id b) k" by (simp add: prior_refunded_def)
    with assms(2) b show ?thesis by (simp add: refunds_ok_def)
  qed
  have "price_tags k' = price_tags k" using k' by (simp add: price_tags_def)
  moreover have "rf_status row \<noteq> ''failed''" by (simp add: row_def)
  ultimately show ?thesis using ok assms(2) row a(2) k' by (auto simp: refunds_ok_def)
qed

lemma office_step_ok: "refunds_ok (fst s) \<Longrightarrow> refunds_ok (fst (office_step gw st q s))"
proof (cases "require_role [''admin''] (fst q)")
  case (Inr u)
  assume ok: "refunds_ok (fst s)"
  then have dist: "distinct (map fst (price_tags (fst s)))" by (simp add: refunds_ok_def)
  show ?thesis
  proof (cases "snd q")
    case (Refund_Appointment rnd rid aid amount reason)
    with Inr ok show ?thesis
      by (auto simp: office_step_def dest: refund_appointment_ok split: prod.split sum.split)
  next
    case (Reassign_Appointment aid det)
    with Inr ok dist show ?thesis
      by (auto simp: office_step_def plain_def run_request_def dest: reassign_price_tags intro: refunds_ok_same split: prod.split sum.split)
  next
    case (Force_Status aid t)
    with Inr ok show ?thesis
      by (auto simp: office_step_def plain_def run_request_def dest: force_price_tags intro: refunds_ok_same split: prod.split sum.split)
  next
    case (Switch_Account uid active)
    with Inr ok update_user_rest [of uid active "fst s"] show ?thesis
      by (auto simp: office_step_def price_tags_def intro: refunds_ok_same)
  next
    case (Issue_Credit cid uid amount reason source expires related)
    with Inr ok show ?thesis
      by (auto simp: office_step_def plain_def run_request_def issue_customer_credit_def price_tags_def intro: refunds_ok_same split: if_splits)
  qed
qed (simp add: office_step_def)

interpretation back_office: guarded "office_step gw st" "\<lambda>_. True" "\<lambda>s. refunds_ok (fst s)"
  by unfold_locales (rule office_step_ok)

text \<open>
  C31. Refunds stay under the price. Through any run of back-office requests, which leave prices as they are,
  whatever the gateway answers and whoever asks, the amounts of all rows an appointment has in the table of refunds, whatever their status, add
  up to no more than its price: the actual one, if it is set and not zero, else the estimate. What the
  cancellation policy pays back leaves no such row and is not in the sum.
\<close>

theorem refunds_within_cap:
  assumes "distinct (map appt_id (appointments (books k)))" and "refunds k = []"
    and "fold (office_step gw st) qs (k, g) = (k', g')" and "a \<in> set (appointments (books k'))"
  shows "(\<Sum>r \<leftarrow> refunds k'. if rf_appointment r = appt_id a then rf_amount r else 0) \<le>
           (if actual_price a \<in> {None, Some 0} then int (estimated_price a) else max 0 (the (actual_price a)))"
proof -
  have "map fst (price_tags k) = map appt_id (appointments (books k))" by (simp add: price_tags_def price_tag_def)
  with assms(1,2) have "refunds_ok (fst (k, g))" by (simp add: refunds_ok_def prior_refunded_def)
  then have "refunds_ok (fst (fold (office_step gw st) qs (k, g)))" by (intro back_office.run_inv) simp_all
  with assms(3,4) have ok: "prior_refunded (appt_id a) k' \<le> max 0 (max_refundable a)" "\<forall>r \<in> set (refunds k'). rf_status r \<noteq> ''failed''"
    by (auto simp: refunds_ok_def)
  have "(\<Sum>r \<leftarrow> rs. if rf_appointment r = aid then rf_amount r else 0) =
      (\<Sum>r \<leftarrow> filter (\<lambda>r. rf_appointment r = aid \<and> rf_status r \<noteq> ''failed'') rs. rf_amount r)"
    if "\<forall>r \<in> set rs. rf_status r \<noteq> ''failed''" for rs aid using that by (induction rs) auto
  from this [OF ok(2)] ok(1) show ?thesis by (auto simp: prior_refunded_def max_refundable_def split: option.splits if_splits)
qed

section \<open>Reassignment\<close>

text \<open>The exact condition under which a reassignment goes through, and what it leaves.\<close>

lemma reassign_succeeds_iff:
  "(\<exists>t k'. reassign_appointment aid det actor k = Inr (t, k')) \<longleftrightarrow>
     (\<exists>a p. appointment_by_id (books k) aid = Some a \<and> appt_status a \<in> REASSIGNABLE_STATUSES \<and> detailer_id a \<noteq> Some det \<and>
        filter (\<lambda>p. prof_user p = det \<and> \<not> prof_deleted p) (profiles (books k)) = [p] \<and> application_status p = ''approved'')"
  (is "?L \<longleftrightarrow> ?R")
proof
  assume ?L
  then show ?R by (fastforce simp: reassign_appointment_def split: option.splits if_splits sum.splits dest: scalar_one_or_none_Some)
next
  assume ?R
  then show ?L by (auto simp: reassign_appointment_def)
qed

lemma appointment_by_id_put:
  assumes "appointment_by_id d aid = Some a" and "appt_id b = aid" and "\<not> appt_deleted b"
  shows "appointment_by_id (put_appointment b d) aid = Some b"
proof -
  have "find (\<lambda>x. appt_id x = aid \<and> \<not> appt_deleted x) (update_where (\<lambda>x. appt_id x = aid \<and> \<not> appt_deleted x) (\<lambda>_. b) xs)
        = map_option (\<lambda>_. b) (find (\<lambda>x. appt_id x = aid \<and> \<not> appt_deleted x) xs)" for xs
    using assms(2,3) by (induction xs) auto
  with assms show ?thesis by (simp add: appointment_by_id_def put_appointment_def)
qed

text \<open>
  The appointment was not in service yet, its new detailer is somebody else with exactly one live profile,
  whose application is approved; everything but the detailer is kept, and an appointment that had found no
  detailer is pending again.
\<close>

lemma reassign_outcome:
  assumes "reassign_appointment aid det actor k = Inr (t, k')"
  shows "\<exists>a p. appointment_by_id (books k) aid = Some a \<and> appt_status a \<in> {PENDING, SEARCHING, NO_DETAILER_FOUND, CONFIRMED} \<and>
           detailer_id a \<noteq> Some det \<and> p \<in> set (profiles (books k)) \<and> prof_user p = det \<and> \<not> prof_deleted p \<and>
           application_status p = ''approved'' \<and>
           appointment_by_id (books k') aid =
             Some (a\<lparr>detailer_id := Some det, appt_status := t\<rparr>) \<and> t = (if appt_status a = CONFIRMED then CONFIRMED else PENDING)"
proof -
  from assms obtain a p where a: "appointment_by_id (books k) aid = Some a" "appt_status a \<in> REASSIGNABLE_STATUSES" "detailer_id a \<noteq> Some det"
      and p: "filter (\<lambda>p. prof_user p = det \<and> \<not> prof_deleted p) (profiles (books k)) = [p]" "application_status p = ''approved''"
    using reassign_succeeds_iff [of aid det actor k] by blast
  with assms have k': "appointment_by_id (books k') aid = appointment_by_id (put_appointment (reassigned det a) (books k)) aid"
      and t: "t = appt_status (reassigned det a)"
    by (auto simp: reassign_appointment_def)
  from a(1) have "appt_id a = aid" "\<not> appt_deleted a" by (auto simp: appointment_by_id_def find_Some_iff)
  then have "appointment_by_id (put_appointment (reassigned det a) (books k)) aid = Some (reassigned det a)"
    using a(1) by (intro appointment_by_id_put) (simp_all add: reassigned_def)
  moreover have "reassigned det a = a\<lparr>detailer_id := Some det, appt_status := t\<rparr>" by (simp add: reassigned_def t)
  moreover have "t = (if appt_status a = CONFIRMED then CONFIRMED else PENDING)"
    using a(2) by (auto simp: t reassigned_def REASSIGNABLE_STATUSES_def)
  moreover have "p \<in> set (profiles (books k))" "prof_user p = det" "\<not> prof_deleted p"
    using filter_eq_ConsD [OF p(1)] by auto
  ultimately show ?thesis using a p(2) k' by (auto simp: REASSIGNABLE_STATUSES_def)
qed

text \<open>A status that is set without a row in the history: the history no longer ends in it.\<close>

lemma chained_functional: "chained s hs t \<Longrightarrow> chained s hs t' \<Longrightarrow> t = t'"
  by (induction hs arbitrary: s) auto

lemma unrecorded_status:
  assumes "history_replays d aid" and "status_at d aid = Some s" and "histories d' = histories d" and "status_at d' aid = Some t" and "t \<noteq> s"
  shows "\<not> history_replays d' aid"
  using assms chained_functional by (fastforce simp: history_replays_def history_of_def)

text \<open>
  The back office does not write the status history. A forced status, whatever the transition table
  says, takes effect without a row in the history, so the history of the appointment no longer replays to
  its status.
\<close>

lemma forced_status_unrecorded:
  assumes "history_replays (books k) aid" and "status_at (books k) aid = Some s" and "bind_status w = Some t" and "t \<noteq> s"
  shows "\<exists>k'. force_appointment_status aid w actor k = Inr ((), k') \<and> status_at (books k') aid = Some t \<and> \<not> history_replays (books k') aid"
proof -
  let ?u = "\<lambda>d. d\<lparr>appointments := update_where (\<lambda>a. appt_id a = aid \<and> \<not> appt_deleted a) (\<lambda>a. a\<lparr>appt_status := t\<rparr>) (appointments d)\<rparr>"
  from assms(2) obtain a where a: "appointment_by_id (books k) aid = Some a" by (auto simp: status_at_def)
  then have b: "appointment_by_id (?u (books k)) aid = Some (a\<lparr>appt_status := t\<rparr>)" by (simp add: appointment_by_id_def find_update_where)
  from assms(3) a obtain k' where k': "force_appointment_status aid w actor k = Inr ((), k')"
      "books k' = audit_log ''appointment_status_changed'' ''appointment'' (Some (user_id actor)) [] (?u (books k))"
    by (auto simp: force_appointment_status_def)
  from b k'(2) have s': "status_at (books k') aid = Some t" by (simp add: status_at_def)
  moreover have "\<not> history_replays (books k') aid"
    by (rule unrecorded_status [OF assms(1,2) _ s' assms(4)]) (simp add: k'(2))
  ultimately show ?thesis using k'(1) by blast
qed

text \<open>The same for a reassignment of an appointment that was still searching.\<close>

lemma reassign_leaves_history:
  assumes "reassign_appointment aid det actor k = Inr (t, k')" and "status_at (books k) aid = Some SEARCHING"
    and "history_replays (books k) aid"
  shows "\<not> history_replays (books k') aid"
proof -
  from assms(2) obtain a where a: "appointment_by_id (books k) aid = Some a" "appt_status a = SEARCHING" by (auto simp: status_at_def)
  with reassign_outcome [OF assms(1)] have "status_at (books k') aid = Some PENDING" by (auto simp: status_at_def)
  moreover have "histories (books k') = histories (books k)"
    using assms(1) by (auto simp: reassign_appointment_def put_appointment_def split: option.splits if_splits sum.splits)
  ultimately show ?thesis using unrecorded_status [OF assms(3,2)] by simp
qed

text \<open>No calendar is consulted: a reassignment can put a detailer in two places at once.\<close>

lemma reassign_double_books:
  assumes "reassign_appointment aid det actor k = Inr (t, k')" and "appointments (books k) = [a, b]" and "appt_id a = aid" and "appt_id b \<noteq> aid"
    and "is_active_booking (reassigned det a)" and "is_active_booking b" and "detailer_id b = Some det"
    and "travel_buffer_end_time a = Some ea" and "travel_buffer_end_time b = Some eb"
    and "scheduled_time a < eb" and "scheduled_time b < ea"
  shows "\<not> no_double_booking (books k') det"
proof -
  from assms(1) obtain c where c: "appointment_by_id (books k) aid = Some c"
      and k': "appointments (books k') = appointments (put_appointment (reassigned det c) (books k))"
    by (auto simp: reassign_appointment_def split: option.splits if_splits sum.splits)
  from c assms(2-4) have ca: "c = a" "\<not> appt_deleted a" by (auto simp: appointment_by_id_def split: if_splits)
  have k2: "appointments (books k') = [reassigned det a, b]"
    using k' assms(2-4) ca by (simp add: put_appointment_def reassigned_def)
  have "busy_intervals (books k') det = [(scheduled_time a, ea), (scheduled_time b, eb)]"
    using assms(5-9) by (simp add: busy_intervals_def k2 busy_interval_def) (simp add: reassigned_def)
  with assms(10,11) show ?thesis by (simp add: no_double_booking_def apart_def)
qed

section \<open>The dashboard's figures\<close>

text \<open>With at most one profile row per detailer the join is the table itself.\<close>

definition one_profile_each :: "db \<Rightarrow> bool" where
  "one_profile_each d \<longleftrightarrow> distinct (map prof_user (profiles d))"

lemma filter_unique_key:
  assumes "distinct (map f xs)"
  shows "filter (\<lambda>x. k = f x) xs = [] \<or> (\<exists>x. filter (\<lambda>x. k = f x) xs = [x])"
  using assms by (induction xs) (auto simp: filter_empty_conv)

lemma joined_fst:
  assumes "one_profile_each d"
  shows "map fst (joined d) = appointments d"
proof -
  have "map fst (join_row d a) = [a]" for a
  proof (cases "detailer_id a")
    case (Some u)
    then show ?thesis using assms filter_unique_key [of prof_user "profiles d" u] by (auto simp: one_profile_each_def join_row_def)
  qed (simp add: join_row_def)
  then have "map fst (concat (map (join_row d) as)) = as" for as by (induction as) simp_all
  then show ?thesis by (simp add: joined_def)
qed

text \<open>
  Gross merchandise value. If no detailer has two profile rows, the dashboard's figure for all cities
  is the sum of the actual prices of the live completed appointments of the window, each counted once, and
  the number of bookings is their number.
\<close>

lemma gmv_counts_each_once:
  assumes "one_profile_each d"
  shows "gmv_cents t0 t1 ''all'' d =
           (\<Sum>a \<leftarrow> filter (\<lambda>a. \<not> appt_deleted a \<and> t0 \<le> scheduled_time a \<and> scheduled_time a \<le> t1 \<and> appt_status a = COMPLETED) (appointments d).
              case actual_price a of None \<Rightarrow> 0 | Some n \<Rightarrow> n)
       \<and> bookings_count t0 t1 ''all'' d = rowcount (\<lambda>a. \<not> appt_deleted a \<and> t0 \<le> scheduled_time a \<and> scheduled_time a \<le> t1) (appointments d)"
proof -
  have f: "map (g \<circ> fst) (filter (q \<circ> fst) xs) = map g (filter q (map fst xs))" for g :: "appointment \<Rightarrow> int" and q and xs :: "(appointment \<times> provider_profile option) list"
    by (simp add: filter_map)
  have w: "in_window t0 t1 ''all'' = (\<lambda>a. \<not> appt_deleted a \<and> t0 \<le> scheduled_time a \<and> scheduled_time a \<le> t1) \<circ> fst"
    by (auto simp: in_window_def in_city_def fun_eq_iff)
  have r: "rowcount (q \<circ> fst) xs = rowcount q (map fst xs)" for q and xs :: "(appointment \<times> provider_profile option) list"
    by (simp add: rowcount_def filter_map)
  have "gmv_cents t0 t1 ''all'' d = sum_list (map ((\<lambda>a. case actual_price a of None \<Rightarrow> 0 | Some n \<Rightarrow> n) \<circ> fst)
      (filter ((\<lambda>a. \<not> appt_deleted a \<and> t0 \<le> scheduled_time a \<and> scheduled_time a \<le> t1 \<and> appt_status a = COMPLETED) \<circ> fst) (joined d)))"
    by (simp add: gmv_cents_def in_window_def in_city_def comp_def conj_assoc)
  then show ?thesis unfolding f joined_fst [OF assms] bookings_count_def w r by simp
qed

text \<open>With a mechanic's profile beside the detailer's one, the appointment counts twice.\<close>

lemma two_profiles_double_gmv:
  assumes "appointments d = [a]" and "detailer_id a = Some u" and "profiles d = [p, q]" and "prof_user p = u" and "prof_user q = u"
    and "\<not> appt_deleted a" and "t0 \<le> scheduled_time a" and "scheduled_time a \<le> t1" and "appt_status a = COMPLETED" and "actual_price a = Some n"
  shows "gmv_cents t0 t1 ''all'' d = 2 * n" and "bookings_count t0 t1 ''all'' d = 2"
  using assms by (simp_all add: gmv_cents_def bookings_count_def joined_def join_row_def in_window_def in_city_def rowcount_def)

section \<open>The heatmap\<close>

definition rows_ok :: "((nat \<times> nat) \<times> nat) list \<Rightarrow> bool" where
  "rows_ok rows \<longleftrightarrow> distinct (map fst rows) \<and> (\<forall>((dow, hour), n) \<in> set rows. dow < 7)"

definition grid_shape :: "nat list list \<Rightarrow> bool" where
  "grid_shape g \<longleftrightarrow> length g = 7 \<and> (\<forall>i < 7. length (g ! i) = 16)"

lemma grid_row_shape: "grid_shape g \<Longrightarrow> grid_shape (grid_row r g)"
  by (auto simp: grid_row_def grid_shape_def Let_def nth_list_update split: prod.splits)

lemma mem_hours: "h \<in> set HEATMAP_HOURS \<longleftrightarrow> 7 \<le> h \<and> h < 23"
  unfolding HEATMAP_HOURS_def set_upt by simp

lemma grid_row_cell:
  assumes "grid_shape g" and "dow < 7" and "i < 7" and "j < 16"
  shows "grid_row ((dow, hour), n) g ! i ! j = (if dow = (i + 1) mod 7 \<and> hour = j + 7 then n else g ! i ! j)"
proof -
  have len: "length g = 7" "length (g ! i) = 16" using assms(1,3) by (auto simp: grid_shape_def)
  have "(dow + 6) mod 7 = (if dow = 0 then 6 else dow - 1)"
  proof (cases dow)
    case (Suc k)
    then have "dow + 6 = k + 7" by simp
    with Suc assms(2) show ?thesis by (simp only: mod_add_self2) simp
  qed simp
  moreover have "(i + 1) mod 7 = (if i = 6 then 0 else i + 1)" using assms(3) by auto
  ultimately have day: "(dow + 6) mod 7 = i \<longleftrightarrow> dow = (i + 1) mod 7" using assms(2,3) by auto
  show ?thesis
  proof (cases "hour \<in> set HEATMAP_HOURS")
    case False
    then have "hour \<noteq> j + 7" using assms(4) by (auto simp: mem_hours)
    with False show ?thesis by (simp add: grid_row_def)
  next
    case True
    then have h: "7 \<le> hour" "hour < 23" by (auto simp: mem_hours)
    show ?thesis
    proof (cases "(dow + 6) mod 7 = i")
      case True
      with day have "dow = (i + 1) mod 7" by simp
      moreover have "hour - 7 = j \<longleftrightarrow> hour = j + 7" using h by auto
      ultimately show ?thesis using True \<open>hour \<in> set HEATMAP_HOURS\<close> len assms(3,4) by (simp add: grid_row_def Let_def nth_list_update)
    next
      case False
      with day have "dow \<noteq> (i + 1) mod 7" by simp
      with False \<open>hour \<in> set HEATMAP_HOURS\<close> show ?thesis by (simp add: grid_row_def Let_def)
    qed
  qed
qed

lemma grid_cell:
  assumes "grid_shape g" and "rows_ok rows" and "i < 7" and "j < 16"
  shows "grid_shape (fold grid_row rows g) \<and>
         fold grid_row rows g ! i ! j = (case map_of rows ((i + 1) mod 7, j + 7) of None \<Rightarrow> g ! i ! j | Some n \<Rightarrow> n)"
  using assms(1,2)
proof (induction rows arbitrary: g)
  case (Cons r rows)
  obtain dow hour n where r: "r = ((dow, hour), n)" by (metis prod.exhaust)
  with Cons.prems(2) have rows: "rows_ok rows" "dow < 7" "(dow, hour) \<notin> fst ` set rows" by (auto simp: rows_ok_def)
  note IH = Cons.IH [OF grid_row_shape [OF Cons.prems(1), of r] rows(1)]
  show ?case
  proof (cases "map_of rows ((i + 1) mod 7, j + 7)")
    case None
    with IH show ?thesis using grid_row_cell [OF Cons.prems(1) rows(2) assms(3,4), of hour n] by (simp add: r)
  next
    case (Some m)
    then have "((i + 1) mod 7, j + 7) \<in> fst ` set rows" by (metis map_of_SomeD fst_conv image_eqI)
    with rows(3) Some IH show ?thesis by (auto simp: r)
  qed
qed simp

lemma peak_fold:
  "fold (\<lambda>((dow, hour), n) peak. if hour \<in> set HEATMAP_HOURS \<and> peak < int n then int n else peak) rows p0 \<ge> p0 \<and>
   (\<forall>((dow, hour), n) \<in> set rows. hour \<in> set HEATMAP_HOURS \<longrightarrow>
      int n \<le> fold (\<lambda>((dow, hour), n) peak. if hour \<in> set HEATMAP_HOURS \<and> peak < int n then int n else peak) rows p0)"
proof (induction rows arbitrary: p0)
  case (Cons r rows)
  obtain dow hour n where r: "r = ((dow, hour), n)" by (metis prod.exhaust)
  from Cons [of "if hour \<in> set HEATMAP_HOURS \<and> p0 < int n then int n else p0"] show ?case by (auto simp: r split: if_splits)
qed simp

lemma peak_upper: "((dow, hour), n) \<in> set rows \<Longrightarrow> hour \<in> set HEATMAP_HOURS \<Longrightarrow> int n \<le> peak_of rows"
  using peak_fold [of "-1" rows] unfolding peak_of_def by fastforce

lemma quotient_scale_self: "0 < n \<Longrightarrow> quotient_scale (n * 2 ^ i) n = 52 - i"
proof (induction "52 - i" arbitrary: i)
  case 0
  then have "n * 2 ^ 52 \<le> n * 2 ^ i" by (intro mult_le_mono2 power_increasing) simp_all
  with 0 show ?case by (simp add: quotient_scale.simps [of "n * 2 ^ i"])
next
  case (Suc k)
  then have "(2 :: nat) ^ i < 2 ^ 52" by (intro power_strict_increasing) simp_all
  with Suc.prems have lt: "n * 2 ^ i < n * 2 ^ 52" by (simp only: mult_less_cancel1)
  have "quotient_scale (2 * (n * 2 ^ i)) n = 52 - Suc i" using Suc.hyps(1) [of "Suc i"] Suc.hyps(2) Suc.prems by (simp add: mult.left_commute)
  with lt Suc show ?case by (simp add: quotient_scale.simps [of "n * 2 ^ i"])
qed

lemma half_even_exact: "0 < b \<Longrightarrow> half_even (a * b) b = a"
  by (simp add: half_even_def)

text \<open>A full cell: the quotient is exactly one, and five times it is five.\<close>

lemma level_peak: "0 < n \<Longrightarrow> level_of (int n) n = 5"
proof -
  assume n: "0 < n"
  have "quotient_scale n n = 52" using quotient_scale_self [OF n, of 0] by simp
  then have "flt_div n n = Flt (2 ^ 52) 52" using half_even_exact [OF n, of "2 ^ 52"] by (simp add: flt_div_def mult.commute)
  moreover have "round53 (5 * 2 ^ 52) = 5 * 2 ^ 52" by (simp add: round53_def round_at_def excess_bits.simps)
  then have "flt_round (flt_mul_int 5 (Flt (2 ^ 52) 52)) = 5"
    unfolding flt_mul_int.simps flt_round.simps by (simp only: half_even_exact [OF zero_less_power [OF zero_less_numeral]])
  ultimately show ?thesis using n by (simp add: level_of_def)
qed

lemma level_range: "level_of peak v \<le> 5" "0 < peak \<Longrightarrow> level_of peak v = 0 \<longleftrightarrow> v = 0"
  by (simp_all add: level_of_def)

text \<open>The rows of the query: one per weekday and hour that occurs, with its number of bookings.\<close>

lemma dow_less: "dow_of t < 7"
  by (simp add: dow_of_def nat_less_iff)

lemma heat_rows_ok: "rows_ok (heat_rows t0 t1 city d)"
  by (auto simp: rows_ok_def heat_rows_def Let_def comp_def dow_less)

lemma heat_rows_cell:
  "map_of (heat_rows t0 t1 city d) (w, h) =
     (let n = rowcount (\<lambda>ap. in_window t0 t1 city ap \<and> dow_of (scheduled_time (fst ap)) = w \<and> hour_of (scheduled_time (fst ap)) = h) (joined d)
      in if n = 0 then None else Some n)"
proof -
  let ?key = "\<lambda>ap. (dow_of (scheduled_time (fst ap)), hour_of (scheduled_time (fst ap)))"
  define keys where "keys = map ?key (filter (in_window t0 t1 city) (joined d))"
  have n: "rowcount (\<lambda>ap. in_window t0 t1 city ap \<and> dow_of (scheduled_time (fst ap)) = w \<and> hour_of (scheduled_time (fst ap)) = h) (joined d)
      = length (filter ((=) (w, h)) keys)"
    by (simp add: rowcount_def keys_def filter_map comp_def) (metis (mono_tags, lifting) filter_filter filter_cong)
  have "map_of (map (\<lambda>k. (k, length (filter ((=) k) keys))) ks) (w, h) = (if (w, h) \<in> set ks then Some (length (filter ((=) (w, h)) keys)) else None)" for ks
    by (induction ks) auto
  moreover have "(w, h) \<in> set (remdups keys) \<longleftrightarrow> length (filter ((=) (w, h)) keys) \<noteq> 0" by (auto simp: filter_empty_conv)
  ultimately show ?thesis unfolding heat_rows_def n keys_def [symmetric] Let_def by simp
qed

text \<open>
  The demand heatmap. In the grid of seven days from Monday and the hours 7 to 22, a cell's level lies
  between 0 and 5, is 0 exactly where the window has no booking on that weekday and hour, and is 5 where the
  number of bookings is the largest of the grid.
\<close>

lemma heatmap_faithful:
  assumes "i < 7" and "j < 16"
    and "n = rowcount (\<lambda>ap. in_window t0 t1 city ap \<and> dow_of (scheduled_time (fst ap)) = (i + 1) mod 7 \<and>
                             hour_of (scheduled_time (fst ap)) = j + 7) (joined d)"
  defines "level \<equiv> build_heatmap (heat_rows t0 t1 city d) ! i ! j"
  shows "level \<le> 5 \<and> (level = 0 \<longleftrightarrow> n = 0) \<and> (0 < n \<and> int n = peak_of (heat_rows t0 t1 city d) \<longrightarrow> level = 5)"
proof -
  let ?rows = "heat_rows t0 t1 city d"
  have g: "grid_shape (replicate 7 (replicate 16 0))" by (auto simp: grid_shape_def)
  from grid_cell [OF g heat_rows_ok assms(1,2)] have shape: "grid_shape (grid_of ?rows)" and cell: "grid_of ?rows ! i ! j = n"
    using assms(1-3) heat_rows_cell [of t0 t1 city d "(i + 1) mod 7" "j + 7"] by (simp_all add: grid_of_def Let_def split: if_splits)
  have "length (grid_of ?rows) = 7" "length (grid_of ?rows ! i) = 16" using shape assms(1) by (auto simp: grid_shape_def)
  with cell assms(1,2) have level: "level = level_of (peak_of ?rows) n" by (simp add: level_def build_heatmap_def)
  have pos: "0 < peak_of ?rows" if "0 < n"
  proof -
    have "map_of ?rows ((i + 1) mod 7, j + 7) = Some n" using heat_rows_cell [of t0 t1 city d "(i + 1) mod 7" "j + 7"] that assms(3) by simp
    moreover have "j + 7 \<in> set HEATMAP_HOURS" using assms(2) by (simp add: mem_hours)
    ultimately have "int n \<le> peak_of ?rows" by (intro peak_upper [OF map_of_SomeD])
    with that show ?thesis by simp
  qed
  have "level = 0 \<longleftrightarrow> n = 0" using pos level_range(2) [of "peak_of ?rows" n] unfolding level by (cases "n = 0") (auto simp: level_of_def)
  moreover have "level = 5" if "0 < n" "int n = peak_of ?rows" using level_peak [OF that(1)] that(2) by (simp add: level)
  ultimately show ?thesis using level_range(1) by (auto simp: level)
qed

section \<open>Accounts, credits, revenue\<close>

text \<open>The 404 for a deleted account comes after the commit: the account is switched all the same.\<close>

lemma deleted_account_is_switched:
  assumes "u \<in> set (users (books k))" and "user_by_id (books k) (user_id u) = None"
  shows "update_user (user_id u) (Some b) k = (Inl (HTTPException 404 ''User not found.''), snd (set_user_active (user_id u) b k))"
proof -
  let ?f = "\<lambda>v :: user. v\<lparr>user_active := b\<rparr>" and ?p = "\<lambda>v :: user. user_id v = user_id u"
  have "find (\<lambda>v. user_id v = user_id u \<and> \<not> user_deleted v) (update_where ?p ?f vs) = None"
    if "find (\<lambda>v. user_id v = user_id u \<and> \<not> user_deleted v) vs = None" for vs
    using that by (auto simp: find_None_iff set_update_where split: if_splits)
  with assms(2) have "user_by_id (books (snd (set_user_active (user_id u) b k))) (user_id u) = None"
    by (simp add: user_by_id_def set_user_active_def)
  moreover have "fst (set_user_active (user_id u) b k)" using assms(1) by (auto simp: set_user_active_def rowcount_pos)
  ultimately show ?thesis
    by (cases "set_user_active (user_id u) b k") (simp add: update_user_def get_db_def begin_session_def update_user_handler_def commit_def)
qed

lemma credit_raises_balance:
  assumes "issue_customer_credit cid uid actor amount reason source expires related k = Inr ((), k')"
  shows "credit_balance v k' = credit_balance v k + (if v = uid then amount else 0)" and "0 < amount"
  using assms by (auto simp: issue_customer_credit_def credit_balance_def split: if_splits option.splits)

text \<open>A customer without completed appointments is new, whatever the thresholds; the others have one of three segments.\<close>

lemma segment_cases: "segment_of now d uid = ''new'' \<longleftrightarrow> completed_of uid d = []"
  by (auto simp: segment_of_def classify_segment_def)

lemma sum_of_append:
  "sum_of ty None None (l\<lparr>entries := entries l @ es\<rparr>) = sum_of ty None None l + (\<Sum>e \<leftarrow> filter (\<lambda>e. le_type e = ty) es. le_amount e)"
  by (simp add: sum_of_def)

text \<open>A capture that is paid out leaves the commission, 15 percent rounded down, as net revenue.\<close>

lemma net_revenue_is_commission:
  assumes "coord_capture pr now1 e1 aid (int t) l g = (Inr (c, l1), g1)"
    and "payout_and_commission pr now2 e2 e3 aid det t l1 g1 = (Inr (pc, l2), g2)" and "t < 2 ^ 31"
  shows "net_revenue (get_payment_summary None None l2) = net_revenue (get_payment_summary None None l) + int (15 * t div 100)"
proof -
  from assms(1) obtain x where x: "l1 = l\<lparr>entries := entries l @ [x]\<rparr>" "le_type x = CAPTURE" "le_amount x = int t"
    by (auto simp: coord_capture_def ledger_create_def Let_def split: prod.splits sum.splits if_splits)
  from assms(2) obtain y z where y: "l2 = l1\<lparr>entries := entries l1 @ [y, z]\<rparr>" "le_type y = PAYOUT" "le_type z = CHARGE_COMMISSION"
      "le_amount y = int t - int (commission_of t)"
    by (auto simp: payout_and_commission_def ledger_create_def Let_def split: prod.splits sum.splits if_splits)
  show ?thesis unfolding y(1) get_payment_summary_def payment_summary.select_convs sum_of_append x(1)
    using x(2,3) y(2-4) commission_exact [OF assms(3)] by simp
qed

section \<open>Witnesses\<close>

definition boss :: user where
  "boss = \<lparr>user_id = 9, email = ''boss@x.io'', password_hash = '''', role_names = [''admin''], user_active = True, user_verified = True,
     failed_login_attempts = 0, locked_until = None, onboarding_completed = True, token_version = 1, stripe_customer_id = None,
     last_step_up_at = None, active_role = None, user_deleted = False\<rparr>"

definition done_appointment :: appointment where
  "done_appointment = \<lparr>appt_id = 60, client_id = 1, detailer_id = Some 40, appt_vehicle = None, appt_service = 3, scheduled_time = 36000000000,
     estimated_end_time = None, travel_buffer_end_time = None, arrived_at = None, started_at = None, completed_at = None,
     appt_status = COMPLETED, estimated_price = 1000, actual_price = Some 1000, payment_intent = Some ''pi_1'', detailer_notes = None,
     appt_deleted = False\<rparr>"

definition demo_office :: office where
  "demo_office = \<lparr>books = empty_db\<lparr>appointments := [done_appointment]\<rparr>, refunds = [], credits = []\<rparr>"

definition demo_refunds :: "(user \<times> office_request) list" where
  "demo_refunds = [(boss, Refund_Appointment 1 70 60 600 ''duplicate''), (boss, Refund_Appointment 2 71 60 600 ''other'')]"

lemma not_stub: "\<not> is_stub_intent live_settings ''pi_1''"
  by (simp add: is_stub_intent_def is_stub_key_def starts_with_def live_settings_def)

lemma demo_refund_once:
  "\<exists>k'. fold (office_step captured_gateway live_settings) demo_refunds (demo_office, ()) = (k', ()) \<and>
        appointments (books k') = [done_appointment] \<and> prior_refunded 60 k' = 600"
  by (simp add: demo_refunds_def office_step_def require_role_def has_role_def boss_def demo_office_def refund_appointment_def
      appointment_by_id_def done_appointment_def truthy_def max_refundable_def prior_refunded_def create_refund_def not_stub
      captured_gateway_def add_refund_def on_books_def)

theorem refunds_within_cap_witness:
  "(\<Sum>r \<leftarrow> refunds (fst (fold (office_step captured_gateway live_settings) demo_refunds (demo_office, ()))).
      if rf_appointment r = 60 then rf_amount r else 0) \<le> 1000 \<and>
   prior_refunded 60 (fst (fold (office_step captured_gateway live_settings) demo_refunds (demo_office, ()))) = 600"
proof -
  from demo_refund_once obtain k' where k': "fold (office_step captured_gateway live_settings) demo_refunds (demo_office, ()) = (k', ())"
      "appointments (books k') = [done_appointment]" "prior_refunded 60 k' = 600" by blast
  have "distinct (map appt_id (appointments (books demo_office)))" "refunds demo_office = []" by (simp_all add: demo_office_def)
  from refunds_within_cap [OF this k'(1), of done_appointment] k' show ?thesis by (simp add: done_appointment_def)
qed

text \<open>The epoch was a Thursday: the demo appointment stands at ten o'clock in the row of the fourth day.\<close>

end
