(* ===== verification/Garage.thy ===== *)
theory Garage
  imports Provider_Files Saved_Items
begin

text \<open>
  What a client keeps: vehicles (domains/vehicles/router.py, domains/vehicles/repository.py), their
  photos (domains/users/vehicle_photo_service.py), favourite providers (domains/users/favorites_router.py,
  favorites_repository.py) and the preferences that point at a vehicle and an address
  (domains/users/client_preferences_router.py), with the anonymous price estimate. \<open>vehicles\<close> of the
  marketplace is the same table with the columns the booking reads; rows are in order of creation.
\<close>

section \<open>State\<close>

record garage_vehicle = vehicle +
  veh_make :: string
  veh_model :: string
  veh_year :: int
  vin :: "string option"
  series :: "string option"
  color :: string
  license_plate :: string

record vehicle_photo =
  vp_id :: uuid
  vp_vehicle :: uuid
  vp_key :: string
  vp_sort :: int

record favorite =
  fav_user :: uuid
  fav_provider :: uuid
  fav_created :: instant

record client_profile =
  cp_user :: uuid
  default_vehicle :: "uuid option"
  default_address :: "uuid option"
  marketing_opt_in :: bool
  frequency_preference :: "string option"

record garage =
  market :: db
  garage_rows :: "garage_vehicle list"
  vehicle_photos :: "vehicle_photo list"
  vehicle_assets :: bucket
  favorites :: "favorite list"
  preferences :: "client_profile list"
  book :: wallet

definition put_vehicles :: "garage_vehicle list \<Rightarrow> garage \<Rightarrow> garage" where
  "put_vehicles rows g = g\<lparr>garage_rows := rows, market := (market g)\<lparr>vehicles := map vehicle.truncate rows\<rparr>\<rparr>"

definition log_market :: "string \<Rightarrow> string \<Rightarrow> user \<Rightarrow> garage \<Rightarrow> garage" where
  "log_market action entity u g = g\<lparr>market := audit_log action entity (Some (user_id u)) [] (market g)\<rparr>"

section \<open>Vehicles\<close>

text \<open>The request schema: the plate is put in upper case before every string is stripped and measured.\<close>

record vehicle_create =
  vc_make :: string
  vc_model :: string
  vc_year :: int
  vc_vin :: "string option"
  vc_series :: "string option"
  vc_body :: string
  vc_color :: "string option"
  vc_plate :: "string option"

definition length_in :: "nat \<Rightarrow> nat \<Rightarrow> string \<Rightarrow> bool" where
  "length_in lo hi s \<longleftrightarrow> lo \<le> length s \<and> length s \<le> hi"

definition strip_vehicle :: "vehicle_create \<Rightarrow> vehicle_create" where
  "strip_vehicle b =
     \<lparr>vc_make = py_strip (vc_make b), vc_model = py_strip (vc_model b), vc_year = vc_year b,
      vc_vin = map_option py_strip (vc_vin b), vc_series = map_option py_strip (vc_series b),
      vc_body = py_strip (vc_body b), vc_color = map_option py_strip (vc_color b),
      vc_plate = map_option (py_strip \<circ> py_upper) (vc_plate b)\<rparr>"

definition vehicle_fields_ok :: "vehicle_create \<Rightarrow> bool" where
  "vehicle_fields_ok b \<longleftrightarrow>
     length_in 1 60 (vc_make b) \<and> length_in 1 60 (vc_model b) \<and> 1970 \<le> vc_year b \<and> vc_year b \<le> 2030
     \<and> pred_option (length_in 17 17) (vc_vin b) \<and> pred_option (length_in 0 60) (vc_series b)
     \<and> length_in 1 60 (vc_body b) \<and> pred_option (length_in 0 40) (vc_color b) \<and> pred_option (length_in 0 20) (vc_plate b)"

definition parse_vehicle :: "vehicle_create \<Rightarrow> vehicle_create result" where
  "parse_vehicle b =
     (let b' = strip_vehicle b in if vehicle_fields_ok b' then Inr b' else Inl (HTTPException 422 ''Unprocessable.''))"

text \<open>
  The columns of a row. \<open>color\<close> and \<open>license_plate\<close> are \<open>NOT NULL\<close> where the schema allows \<open>None\<close>; the
  pair of owner and plate is unique, deleted rows included.
\<close>

definition vehicle_columns :: "uuid \<Rightarrow> uuid \<Rightarrow> vehicle_create \<Rightarrow> garage_vehicle result" where
  "vehicle_columns vid uid b =
     (case vc_color b of
        None \<Rightarrow> Inl (IntegrityError ''color'')
      | Some c \<Rightarrow>
          (case vc_plate b of
             None \<Rightarrow> Inl (IntegrityError ''license_plate'')
           | Some p \<Rightarrow>
               Inr \<lparr>veh_id = vid, veh_owner = uid, body_class = Some (vc_body b), veh_deleted = False, veh_make = vc_make b,
                    veh_model = vc_model b, veh_year = vc_year b, vin = vc_vin b, series = vc_series b, color = c, license_plate = p\<rparr>))"

definition owner_plate :: "garage_vehicle \<Rightarrow> uuid \<times> string" where
  "owner_plate v = (veh_owner v, license_plate v)"

definition checked_vehicles :: "garage_vehicle list \<Rightarrow> garage_vehicle list result" where
  "checked_vehicles rows =
     (if \<not> distinct (map veh_id rows) then Inl (IntegrityError ''vehicles_pkey'')
      else if \<not> distinct (map owner_plate rows) then Inl (IntegrityError ''uq_vehicle_owner_plate'')
      else Inr rows)"

definition owned_vehicle :: "uuid \<Rightarrow> uuid \<Rightarrow> garage_vehicle \<Rightarrow> bool" where
  "owned_vehicle uid vid v \<longleftrightarrow> veh_id v = vid \<and> veh_owner v = uid \<and> \<not> veh_deleted v"

definition plate_taken :: exn where
  "plate_taken = HTTPException 409 ''License plate is already registered.''"

text \<open>\<open>create_vehicle\<close> turns every \<open>IntegrityError\<close> of the insert into a 409.\<close>

definition insert_vehicle :: "uuid \<Rightarrow> uuid \<Rightarrow> vehicle_create \<Rightarrow> garage \<Rightarrow> garage_vehicle list result" where
  "insert_vehicle vid uid b g =
     (case vehicle_columns vid uid b of Inl e \<Rightarrow> Inl e | Inr v \<Rightarrow> checked_vehicles (garage_rows g @ [v]))"

definition create_vehicle :: "uuid \<Rightarrow> user \<Rightarrow> vehicle_create \<Rightarrow> garage \<Rightarrow> (uuid \<times> garage) result" where
  "create_vehicle vid u body g =
     (case parse_vehicle body of
        Inl e \<Rightarrow> Inl e
      | Inr b \<Rightarrow>
          if \<not> is_client u then Inl (HTTPException 403 ''Only clients can register vehicles.'')
          else (case insert_vehicle vid (user_id u) b g of
                  Inl _ \<Rightarrow> Inl plate_taken
                | Inr rows \<Rightarrow> Inr (vid, put_vehicles rows g)))"

definition get_by_owner :: "uuid \<Rightarrow> garage \<Rightarrow> garage_vehicle list" where
  "get_by_owner uid g = rev (filter (\<lambda>v. veh_owner v = uid \<and> \<not> veh_deleted v) (garage_rows g))"

definition not_yours :: exn where
  "not_yours = HTTPException 404 ''Vehicle not found or you do not have permission.''"

text \<open>\<open>UPDATE ... VALUES(**payload)\<close>; here the constraints answer with the bare \<open>IntegrityError\<close>.\<close>

definition update_vehicle :: "user \<Rightarrow> uuid \<Rightarrow> vehicle_create \<Rightarrow> garage \<Rightarrow> (garage_vehicle option \<times> garage) result" where
  "update_vehicle u vid body g =
     (case parse_vehicle body of
        Inl e \<Rightarrow> Inl e
      | Inr b \<Rightarrow>
          if rowcount (owned_vehicle (user_id u) vid) (garage_rows g) = 0 then Inl not_yours
          else (case vehicle_columns vid (user_id u) b of
                  Inl e \<Rightarrow> Inl e
                | Inr v \<Rightarrow>
                    (case checked_vehicles (update_where (owned_vehicle (user_id u) vid) (\<lambda>_. v) (garage_rows g)) of
                       Inl e \<Rightarrow> Inl e
                     | Inr rows \<Rightarrow> Inr (find (\<lambda>v. veh_id v = vid \<and> \<not> veh_deleted v) rows, put_vehicles rows g))))"

definition delete_vehicle :: "user \<Rightarrow> uuid \<Rightarrow> garage \<Rightarrow> (unit \<times> garage) result" where
  "delete_vehicle u vid g =
     (if rowcount (owned_vehicle (user_id u) vid) (garage_rows g) = 0 then Inl not_yours
      else Inr ((), put_vehicles (update_where (owned_vehicle (user_id u) vid) (\<lambda>v. v\<lparr>veh_deleted := True\<rparr>) (garage_rows g)) g))"

section \<open>The anonymous price estimate\<close>

record catalogue_service = service +
  svc_category :: string
  duration_small :: nat
  duration_medium :: nat
  duration_large :: nat
  duration_xl :: nat

fun price_column :: "vehicle_size \<Rightarrow> 'a service_scheme \<Rightarrow> nat" where
  "price_column SMALL s = price_small s"
| "price_column MEDIUM s = price_medium s"
| "price_column LARGE s = price_large s"
| "price_column XL s = price_xl s"

fun duration_column :: "vehicle_size \<Rightarrow> 'a catalogue_service_scheme \<Rightarrow> nat" where
  "duration_column SMALL s = duration_small s"
| "duration_column MEDIUM s = duration_medium s"
| "duration_column LARGE s = duration_large s"
| "duration_column XL s = duration_xl s"

record tier =
  tier_service :: catalogue_service
  tier_price :: nat
  tier_duration :: nat

text \<open>The cheapest service of a category; of several the first the database meets. Soft-deleted and inactive ones count.\<close>

definition cheapest :: "string \<Rightarrow> catalogue_service list \<Rightarrow> catalogue_service option" where
  "cheapest cat svcs =
     (case sort_key base_price_cents (filter (\<lambda>s. svc_category s = cat) svcs) of [] \<Rightarrow> None | s # _ \<Rightarrow> Some s)"

definition estimate_tier :: "vehicle_size \<Rightarrow> catalogue_service list \<Rightarrow> string \<Rightarrow> tier option" where
  "estimate_tier sz svcs cat =
     map_option (\<lambda>s. \<lparr>tier_service = s, tier_price = price_column sz s, tier_duration = duration_column sz s\<rparr>) (cheapest cat svcs)"

definition price_estimate ::
  "int \<Rightarrow> string \<Rightarrow> string \<Rightarrow> catalogue_service list \<Rightarrow> (vehicle_size \<times> tier list) result" where
  "price_estimate yr mk mdl svcs =
     (if yr < 1970 \<or> 2030 < yr \<or> \<not> length_in 1 60 mk \<or> \<not> length_in 1 60 mdl then Inl (HTTPException 422 ''Unprocessable.'')
      else (let sz = estimate_size_from_make_model (Some mk) (Some mdl)
            in Inr (sz, List.map_filter (estimate_tier sz svcs) [''basic_wash'', ''full_detail''])))"

section \<open>Photos of a vehicle\<close>

definition MAX_PHOTOS_PER_VEHICLE :: nat where "MAX_PHOTOS_PER_VEHICLE = 4"
definition MAX_VEHICLE_PHOTO_SIZE_BYTES :: int where "MAX_VEHICLE_PHOTO_SIZE_BYTES = 8 * 1024 * 1024"

definition ALLOWED_PHOTO_MIME_TYPES :: "string set" where
  "ALLOWED_PHOTO_MIME_TYPES = {''image/jpeg'', ''image/png'', ''image/webp''}"

definition get_owned_vehicle :: "user \<Rightarrow> uuid \<Rightarrow> garage \<Rightarrow> garage_vehicle result" where
  "get_owned_vehicle u vid g =
     (case find (owned_vehicle (user_id u) vid) (garage_rows g) of None \<Rightarrow> Inl not_there | Some v \<Rightarrow> Inr v)"

definition vehicle_photo_prefix :: "uuid \<Rightarrow> string" where
  "vehicle_photo_prefix vid = ''vehicle_photos/'' @ uuid_str vid @ ''/''"

definition photos_of :: "uuid \<Rightarrow> garage \<Rightarrow> nat" where
  "photos_of vid g = rowcount (\<lambda>p. vp_vehicle p = vid) (vehicle_photos g)"

definition photos_full :: exn where "photos_full = HTTPException 409 ''conflict''"

definition prepare_upload :: "string \<Rightarrow> user \<Rightarrow> uuid \<Rightarrow> string \<Rightarrow> int \<Rightarrow> garage \<Rightarrow> string result" where
  "prepare_upload token u vid mime sz g =
     (if sz \<le> 0 \<or> MAX_VEHICLE_PHOTO_SIZE_BYTES < sz then Inl invalid
      else (case get_owned_vehicle u vid g of
              Inl e \<Rightarrow> Inl e
            | Inr v \<Rightarrow>
                if mime \<notin> ALLOWED_PHOTO_MIME_TYPES then Inl invalid
                else if MAX_PHOTOS_PER_VEHICLE \<le> photos_of vid g then Inl photos_full
                else Inr (vehicle_photo_prefix (veh_id v) @ token @ ''.'' @ photo_ext mime)))"

definition drop_asset :: "string \<Rightarrow> garage \<Rightarrow> garage" where
  "drop_asset key g = g\<lparr>vehicle_assets := (vehicle_assets g)(key := None)\<rparr>"

text \<open>The schema bounds the key; objects the handler deletes stay deleted when it fails.\<close>

definition confirm_upload :: "uuid \<Rightarrow> user \<Rightarrow> uuid \<Rightarrow> string \<Rightarrow> garage \<Rightarrow> uuid result \<times> garage" where
  "confirm_upload pid u vid raw_key g =
     (let key = py_strip raw_key in
      if \<not> length_in 1 255 key then (Inl invalid, g)
      else (case get_owned_vehicle u vid g of
        Inl e \<Rightarrow> (Inl e, g)
      | Inr v \<Rightarrow>
          if \<not> starts_with (vehicle_photo_prefix (veh_id v)) key then (Inl forbidden_key, g)
          else (case vehicle_assets g key of
                  None \<Rightarrow> (Inl not_there, g)
                | Some (mime, sz) \<Rightarrow>
                    if mime_refused mime ALLOWED_PHOTO_MIME_TYPES then (Inl invalid, drop_asset key g)
                    else if MAX_VEHICLE_PHOTO_SIZE_BYTES < sz then (Inl too_large, drop_asset key g)
                    else if MAX_PHOTOS_PER_VEHICLE \<le> photos_of vid g then (Inl photos_full, drop_asset key g)
                    else if pid \<in> vp_id ` set (vehicle_photos g) then (Inl (IntegrityError ''vehicle_photos_pkey''), g)
                    else (Inr pid, g\<lparr>vehicle_photos := vehicle_photos g @
                           [\<lparr>vp_id = pid, vp_vehicle = veh_id v, vp_key = key, vp_sort = int (photos_of vid g)\<rparr>]\<rparr>))))"

definition list_for_vehicle :: "user \<Rightarrow> uuid \<Rightarrow> garage \<Rightarrow> vehicle_photo list result" where
  "list_for_vehicle u vid g =
     map_sum id (\<lambda>_. sort_key vp_sort (filter (\<lambda>p. vp_vehicle p = vid) (vehicle_photos g))) (get_owned_vehicle u vid g)"

definition delete_upload :: "user \<Rightarrow> uuid \<Rightarrow> uuid \<Rightarrow> garage \<Rightarrow> unit result \<times> garage" where
  "delete_upload u vid pid g =
     (case get_owned_vehicle u vid g of
        Inl e \<Rightarrow> (Inl e, g)
      | Inr v \<Rightarrow>
          (case find (\<lambda>p. vp_id p = pid \<and> vp_vehicle p = veh_id v) (vehicle_photos g) of
             None \<Rightarrow> (Inl not_there, g)
           | Some p \<Rightarrow>
               (Inr (), drop_asset (vp_key p) (g\<lparr>vehicle_photos := delete_where (\<lambda>q. vp_id q = pid) (vehicle_photos g)\<rparr>))))"

section \<open>Favourites\<close>

text \<open>The list joins each favourite with every profile of the provider, or with none.\<close>

definition list_favorites :: "uuid \<Rightarrow> garage \<Rightarrow> (favorite \<times> provider_profile option) list" where
  "list_favorites uid g =
     concat (map (\<lambda>f. case filter (\<lambda>p. prof_user p = fav_provider f) (profiles (market g)) of
                          [] \<Rightarrow> [(f, None)]
                        | ps \<Rightarrow> map (\<lambda>p. (f, Some p)) ps)
                 (rev (filter (\<lambda>f. fav_user f = uid) (favorites g))))"

definition pair_row :: "uuid \<Rightarrow> uuid \<Rightarrow> favorite \<Rightarrow> bool" where
  "pair_row uid pid f \<longleftrightarrow> fav_user f = uid \<and> fav_provider f = pid"

text \<open>\<open>INSERT ... ON CONFLICT DO NOTHING\<close>, with whether a row was written.\<close>

definition insert_favorite :: "instant \<Rightarrow> uuid \<Rightarrow> uuid \<Rightarrow> garage \<Rightarrow> bool \<times> garage" where
  "insert_favorite now uid pid g =
     (if list_ex (pair_row uid pid) (favorites g) then (False, g)
      else (True, g\<lparr>favorites := favorites g @ [\<lparr>fav_user = uid, fav_provider = pid, fav_created = now\<rparr>]\<rparr>))"

text \<open>The answer is the first row of the list that shows the provider; \<open>None\<close> stands for \<open>StopIteration\<close>.\<close>

definition add_favorite ::
  "instant \<Rightarrow> user \<Rightarrow> uuid \<Rightarrow> garage \<Rightarrow> ((favorite \<times> provider_profile option) option \<times> garage) result" where
  "add_favorite now u pid g =
     (case user_by_id (market g) pid of
        None \<Rightarrow> Inl not_there
      | Some _ \<Rightarrow>
          (case scalar_one_or_none (filter (\<lambda>p. prof_user p = pid) (profiles (market g))) of
             Inl e \<Rightarrow> Inl e
           | Inr None \<Rightarrow> Inl not_there
           | Inr (Some _) \<Rightarrow>
               (let (created, g1) = insert_favorite now (user_id u) pid g;
                    g2 = (if created then log_market ''favorite_added'' ''client_favorite'' u g1 else g1)
                in Inr (find (\<lambda>r. fav_provider (fst r) = pid) (list_favorites (user_id u) g2), g2))))"

definition remove_favorite :: "user \<Rightarrow> uuid \<Rightarrow> garage \<Rightarrow> (unit \<times> garage) result" where
  "remove_favorite u pid g =
     (let g1 = g\<lparr>favorites := delete_where (pair_row (user_id u) pid) (favorites g)\<rparr>
      in Inr ((), if 0 < rowcount (pair_row (user_id u) pid) (favorites g)
                  then log_market ''favorite_removed'' ''client_favorite'' u g1 else g1))"

section \<open>Preferences\<close>

definition blank_preferences :: "uuid \<Rightarrow> client_profile" where
  "blank_preferences uid =
     \<lparr>cp_user = uid, default_vehicle = None, default_address = None, marketing_opt_in = False, frequency_preference = None\<rparr>"

definition get_or_create_client_profile :: "user \<Rightarrow> garage \<Rightarrow> client_profile \<times> garage" where
  "get_or_create_client_profile u g =
     (case find (\<lambda>c. cp_user c = user_id u) (preferences g) of
        Some c \<Rightarrow> (c, g)
      | None \<Rightarrow> (blank_preferences (user_id u), g\<lparr>preferences := preferences g @ [blank_preferences (user_id u)]\<rparr>))"

definition get_preferences :: "user \<Rightarrow> garage \<Rightarrow> (client_profile \<times> garage) result" where
  "get_preferences u g = Inr (get_or_create_client_profile u g)"

definition not_your :: "string \<Rightarrow> exn" where
  "not_your what = HTTPException 404 (what @ '' does not refer to one of yours.'')"

definition put_preferences ::
  "user \<Rightarrow> uuid option \<Rightarrow> uuid option \<Rightarrow> bool \<Rightarrow> string option \<Rightarrow> garage \<Rightarrow> (client_profile \<times> garage) result" where
  "put_preferences u vid aid optin freq g =
     (let freq' = map_option py_strip freq; (cp, g1) = get_or_create_client_profile u g in
      if \<not> pred_option (length_in 0 20) freq' then Inl (HTTPException 422 ''Unprocessable.'')
      else if \<not> pred_option (\<lambda>v. list_ex (owned_vehicle (user_id u) v) (garage_rows g)) vid then Inl (not_your ''default_vehicle_id'')
      else if \<not> pred_option (\<lambda>a. get_owned (user_id u) a (addresses (book g)) \<noteq> None) aid then Inl (not_your ''default_address_id'')
      else (let cp' = cp\<lparr>default_vehicle := vid, default_address := aid, marketing_opt_in := optin, frequency_preference := freq'\<rparr>
            in Inr (cp', log_market ''profile_updated'' ''client_profile'' u
                 (g1\<lparr>preferences := update_where (\<lambda>c. cp_user c = user_id u) (\<lambda>_. cp') (preferences g1)\<rparr>))))"

section \<open>Runs\<close>

datatype garage_request =
    Register_Vehicle uuid user vehicle_create
  | Edit_Vehicle user uuid vehicle_create
  | Drop_Vehicle user uuid
  | Confirm_Upload uuid user uuid string
  | Delete_Upload user uuid uuid
  | Add_Favorite instant user uuid
  | Remove_Favorite user uuid
  | Read_Preferences user
  | Put_Preferences user "uuid option" "uuid option" bool "string option"
  | Address_Request address_request

fun garage_step ::
  "geocoder \<Rightarrow> (real \<Rightarrow> real \<Rightarrow> string) \<Rightarrow> (uuid list \<Rightarrow> uuid list) \<Rightarrow> garage_request \<Rightarrow> garage \<Rightarrow> garage" where
  "garage_step geo cell scan (Register_Vehicle vid u b) g = snd (run_request (create_vehicle vid u b) g)"
| "garage_step geo cell scan (Edit_Vehicle u vid b) g = snd (run_request (update_vehicle u vid b) g)"
| "garage_step geo cell scan (Drop_Vehicle u vid) g = snd (run_request (delete_vehicle u vid) g)"
| "garage_step geo cell scan (Confirm_Upload pid u vid key) g = snd (confirm_upload pid u vid key g)"
| "garage_step geo cell scan (Delete_Upload u vid pid) g = snd (delete_upload u vid pid g)"
| "garage_step geo cell scan (Add_Favorite now u pid) g = snd (run_request (add_favorite now u pid) g)"
| "garage_step geo cell scan (Remove_Favorite u pid) g = snd (run_request (remove_favorite u pid) g)"
| "garage_step geo cell scan (Read_Preferences u) g = snd (run_request (get_preferences u) g)"
| "garage_step geo cell scan (Put_Preferences u vid aid optin freq) g = snd (run_request (put_preferences u vid aid optin freq) g)"
| "garage_step geo cell scan (Address_Request rq) g = g\<lparr>book := address_step geo cell scan rq (book g)\<rparr>"

section \<open>What the garage keeps\<close>

definition vehicle_photo_ok :: "garage \<Rightarrow> vehicle_photo \<Rightarrow> bool" where
  "vehicle_photo_ok g p \<longleftrightarrow>
     vp_vehicle p \<in> veh_id ` set (garage_rows g) \<and> starts_with (vehicle_photo_prefix (vp_vehicle p)) (vp_key p)"

definition preference_ok :: "garage \<Rightarrow> client_profile \<Rightarrow> bool" where
  "preference_ok g c \<longleftrightarrow>
     pred_option (\<lambda>v. (v, cp_user c) \<in> (\<lambda>r. (veh_id r, veh_owner r)) ` set (garage_rows g)) (default_vehicle c)
     \<and> pred_option (\<lambda>a. (a, cp_user c) \<in> (\<lambda>r. (row_id r, row_user r)) ` set (addresses (book g))) (default_address c)"

definition garage_ok :: "garage \<Rightarrow> bool" where
  "garage_ok g \<longleftrightarrow>
     distinct (map veh_id (garage_rows g)) \<and> distinct (map owner_plate (garage_rows g))
     \<and> vehicles (market g) = map vehicle.truncate (garage_rows g)
     \<and> (\<forall>p \<in> set (vehicle_photos g). vehicle_photo_ok g p)
     \<and> (\<forall>vid. photos_of vid g \<le> MAX_PHOTOS_PER_VEHICLE)
     \<and> distinct (map (\<lambda>f. (fav_user f, fav_provider f)) (favorites g))
     \<and> distinct (map row_id (addresses (book g)))
     \<and> distinct (map cp_user (preferences g)) \<and> (\<forall>c \<in> set (preferences g). preference_ok g c)"

text \<open>Addresses are edited and soft-deleted, never moved to another owner or removed.\<close>

definition address_keys :: "address list \<Rightarrow> (uuid \<times> uuid) list" where
  "address_keys rows = map (\<lambda>r. (row_id r, row_user r)) rows"

lemma row_ids_of_keys: "map row_id rows = map fst (address_keys rows)"
  by (simp add: address_keys_def)

lemma address_keys_update:
  "(\<And>r. p r \<Longrightarrow> row_id (f r) = row_id r \<and> row_user (f r) = row_user r) \<Longrightarrow> address_keys (update_where p f rows) = address_keys rows"
  by (auto simp: address_keys_def intro: map_update_where)

lemma pivot_keys: "pivot_rows uid target vs rows = Inr rows' \<Longrightarrow> address_keys rows' = address_keys rows"
  by (induction vs arbitrary: rows) (auto simp: checked_eq address_keys_update split: sum.splits)

lemma set_default_keys: "set_default_atomic scan uid target rows = Inr (ok, rows') \<Longrightarrow> address_keys rows' = address_keys rows"
  by (auto simp: set_default_atomic_def pivot_keys split: option.splits sum.splits)

lemma promote_keys: "promote uid rid dflt rows = Inr rows' \<Longrightarrow> address_keys rows' = address_keys rows"
  by (auto simp: promote_def checked_eq address_keys_update split: if_splits option.splits)

lemma edit_keys:
  assumes "get_owned uid aid rows = Some r" and "distinct (map row_id rows)"
  shows "address_keys (update_where (\<lambda>q. row_id q = aid) (\<lambda>_. edit_row geo cell b r) rows) = address_keys rows"
proof -
  have r: "r \<in> set rows" "row_id r = aid" using get_owned_SomeD [OF assms(1)] by auto
  have "row_user q = row_user r" if "q \<in> set rows" "row_id q = aid" for q
    using that r assms(2) by (metis distinct_map inj_onD)
  then show ?thesis unfolding address_keys_def update_where_def map_map comp_def
    using r(2) by (intro map_cong refl) simp
qed

lemma address_handler_keys:
  assumes "address_handler geo cell scan rq w = Inr ((), w')" and "distinct (map row_id (addresses w))"
  shows "distinct (map row_id (addresses w')) \<and> set (address_keys (addresses w)) \<subseteq> set (address_keys (addresses w'))"
proof (cases rq)
  case (Add_Address aid uid b)
  from assms(1) Add_Address obtain a where c: "create_address geo cell aid uid b w = Inr (a, w')"
    by (auto simp: no_answer_Inr)
  have k: "address_keys (clear_default uid rows) = address_keys rows" for rows
    by (auto simp: clear_default_def intro: address_keys_update)
  let ?rows = "if ac_default (validate_address b) then clear_default uid (addresses w) else addresses w"
  from c have "checked (?rows @ [a]) = Inr (addresses w')"
    by (auto simp: create_address_def Let_def address_row_def log_trail_def split: sum.splits bool.splits if_splits)
  then have w': "addresses w' = ?rows @ [a]" "distinct (map row_id (?rows @ [a]))" by (simp_all only: checked_eq)
  have "address_keys (addresses w') = address_keys (addresses w) @ [(row_id a, row_user a)]"
    unfolding w' using k [of "addresses w"] by (simp add: address_keys_def)
  with w'(2) show ?thesis unfolding w'(1) by (simp add: subset_insertI)
next
  case (Edit_Address uid aid b)
  with assms have "address_keys (addresses w') = address_keys (addresses w)"
    by (auto simp: no_answer_Inr update_address_def Let_def log_trail_def edit_keys split: option.splits)
  with assms(2) show ?thesis by (simp add: row_ids_of_keys)
next
  case (Choose_Address uid aid)
  with assms(1) obtain rows where "set_default_atomic scan uid aid (addresses w) = Inr (True, rows)" "addresses w' = rows"
    by (auto simp: set_default_address_def log_trail_def split: sum.splits bool.splits)
  then have "address_keys (addresses w') = address_keys (addresses w)" using set_default_keys by metis
  with assms(2) show ?thesis by (simp add: row_ids_of_keys)
next
  case (Remove_Address now uid aid)
  with assms have "address_keys (addresses w') = address_keys (addresses w)"
    by (auto simp: delete_address_def log_trail_def soft_delete_def address_keys_update dest!: promote_keys split: option.splits sum.splits)
  with assms(2) show ?thesis by (simp add: row_ids_of_keys)
qed

lemma address_step_keys:
  assumes "distinct (map row_id (addresses w))"
  shows "distinct (map row_id (addresses (address_step geo cell scan rq w)))"
    and "set (address_keys (addresses w)) \<subseteq> set (address_keys (addresses (address_step geo cell scan rq w)))"
  using assms address_handler_keys [OF _ assms]
  by (auto simp: address_step_def run_request_def split: sum.splits prod.splits)

text \<open>What each group of operations keeps.\<close>

definition vehicle_keys :: "garage_vehicle list \<Rightarrow> (uuid \<times> uuid) list" where
  "vehicle_keys rows = map (\<lambda>r. (veh_id r, veh_owner r)) rows"


lemma photo_and_preference_grow:
  assumes "set (vehicle_keys (garage_rows g)) \<subseteq> set (vehicle_keys (garage_rows h))"
    and "set (address_keys (addresses (book g))) \<subseteq> set (address_keys (addresses (book h)))"
  shows "vehicle_photo_ok g p \<Longrightarrow> vehicle_photo_ok h p" and "preference_ok g c \<Longrightarrow> preference_ok h c"
proof -
  have "veh_id ` set (garage_rows g) \<subseteq> veh_id ` set (garage_rows h)"
    using image_mono [OF assms(1), of fst] by (simp add: image_image vehicle_keys_def)
  then show "vehicle_photo_ok g p \<Longrightarrow> vehicle_photo_ok h p" by (auto simp: vehicle_photo_ok_def)
  show "preference_ok g c \<Longrightarrow> preference_ok h c"
    using assms by (cases "default_vehicle c"; cases "default_address c")
      (auto simp: preference_ok_def address_keys_def vehicle_keys_def)
qed

lemma put_vehicles_ok:
  assumes g: "garage_ok g" and "checked_vehicles rows = Inr rows'"
    and grow: "set (vehicle_keys (garage_rows g)) \<subseteq> set (vehicle_keys rows)"
  shows "garage_ok (put_vehicles rows' g)"
proof -
  have r: "rows' = rows" "distinct (map veh_id rows)" "distinct (map owner_plate rows)"
    using assms(2) by (auto simp: checked_vehicles_def split: if_splits)
  show ?thesis
    using g r photo_and_preference_grow [of g "put_vehicles rows' g"] grow
    by (auto simp: garage_ok_def put_vehicles_def photos_of_def)
qed

lemma checked_vehicles_of: "garage_ok g \<Longrightarrow> checked_vehicles (garage_rows g) = Inr (garage_rows g)"
  by (simp add: garage_ok_def checked_vehicles_def)

lemma create_vehicle_ok:
  assumes "create_vehicle vid u b g = Inr (x, g')" and "garage_ok g"
  shows "garage_ok g'"
proof -
  from assms(1) obtain v rows where "checked_vehicles (garage_rows g @ [v]) = Inr rows" "g' = put_vehicles rows g"
    by (auto simp: create_vehicle_def insert_vehicle_def split: sum.splits if_splits)
  with assms(2) show ?thesis by (auto intro!: put_vehicles_ok simp: vehicle_keys_def)
qed

lemma vehicle_columns_SomeD:
  "vehicle_columns vid uid b = Inr v \<Longrightarrow> veh_id v = vid \<and> veh_owner v = uid \<and> \<not> veh_deleted v"
  by (auto simp: vehicle_columns_def split: option.splits)

lemma update_keeps_owner:
  "(\<And>r. p r \<Longrightarrow> veh_id (f r) = veh_id r \<and> veh_owner (f r) = veh_owner r) \<Longrightarrow>
     vehicle_keys (update_where p f rows) = vehicle_keys rows"
  unfolding vehicle_keys_def by (rule map_update_where) auto

lemma update_vehicle_ok:
  assumes "update_vehicle u vid b g = Inr (x, g')" and "garage_ok g"
  shows "garage_ok g'"
proof -
  from assms(1) obtain v c rows where v: "vehicle_columns vid (user_id u) c = Inr v"
    and rows: "checked_vehicles (update_where (owned_vehicle (user_id u) vid) (\<lambda>_. v) (garage_rows g)) = Inr rows" "g' = put_vehicles rows g"
    by (auto simp: update_vehicle_def split: sum.splits if_splits)
  have "vehicle_keys (update_where (owned_vehicle (user_id u) vid) (\<lambda>_. v) (garage_rows g))
      = vehicle_keys (garage_rows g)"
    using vehicle_columns_SomeD [OF v] by (intro update_keeps_owner) (simp add: owned_vehicle_def)
  then show ?thesis unfolding rows(2) by (intro put_vehicles_ok [OF assms(2) rows(1)]) simp
qed

lemma delete_vehicle_ok:
  assumes "delete_vehicle u vid g = Inr (x, g')" and "garage_ok g"
  shows "garage_ok g'"
proof -
  let ?f = "\<lambda>v. v\<lparr>veh_deleted := True\<rparr> :: garage_vehicle"
  let ?rows = "update_where (owned_vehicle (user_id u) vid) ?f (garage_rows g)"
  from assms(1) have g': "g' = put_vehicles ?rows g" by (auto simp: delete_vehicle_def split: if_splits)
  have "map veh_id ?rows = map veh_id (garage_rows g)" "map owner_plate ?rows = map owner_plate (garage_rows g)"
    by (rule map_update_where, simp add: owner_plate_def)+
  then have "checked_vehicles ?rows = Inr ?rows" using assms(2) by (simp add: checked_vehicles_def garage_ok_def)
  moreover have "vehicle_keys ?rows = vehicle_keys (garage_rows g)"
    by (rule update_keeps_owner) simp
  ultimately show ?thesis unfolding g' by (metis put_vehicles_ok [OF assms(2)] order_refl)
qed

lemma drop_asset_ok: "garage_ok (drop_asset key g) = garage_ok g"
  by (simp add: garage_ok_def drop_asset_def vehicle_photo_ok_def preference_ok_def photos_of_def)

lemma get_owned_vehicle_InrD:
  "get_owned_vehicle u vid g = Inr v \<Longrightarrow> v \<in> set (garage_rows g) \<and> veh_id v = vid \<and> veh_owner v = user_id u \<and> \<not> veh_deleted v"
  by (auto simp: get_owned_vehicle_def find_Some_iff owned_vehicle_def split: option.splits)

lemma photos_list_ok:
  assumes "garage_ok g" and "\<forall>p \<in> set ps. vehicle_photo_ok g p" and "\<And>vid. rowcount (\<lambda>p. vp_vehicle p = vid) ps \<le> MAX_PHOTOS_PER_VEHICLE"
  shows "garage_ok (g\<lparr>vehicle_photos := ps\<rparr>)"
  using assms by (simp add: garage_ok_def vehicle_photo_ok_def preference_ok_def photos_of_def)

lemma confirm_upload_ok:
  assumes g: "garage_ok g"
  shows "garage_ok (snd (confirm_upload pid u vid key g))"
proof (cases "is_ok (fst (confirm_upload pid u vid key g))")
  case True
  let ?p = "\<lparr>vp_id = pid, vp_vehicle = vid, vp_key = py_strip key, vp_sort = int (photos_of vid g)\<rparr>"
  from True obtain v where v: "get_owned_vehicle u vid g = Inr v" and pre: "starts_with (vehicle_photo_prefix (veh_id v)) (py_strip key)"
    and room: "photos_of vid g < MAX_PHOTOS_PER_VEHICLE"
    and res: "snd (confirm_upload pid u vid key g) = g\<lparr>vehicle_photos := vehicle_photos g @ [?p]\<rparr>"
    by (auto simp: confirm_upload_def Let_def dest: get_owned_vehicle_InrD split: sum.splits option.splits if_splits)
  have "rowcount (\<lambda>p. vp_vehicle p = w) (vehicle_photos g @ [?p]) \<le> MAX_PHOTOS_PER_VEHICLE" for w
    using g room by (cases "w = vid") (simp_all add: garage_ok_def photos_of_def rowcount_def)
  moreover have "vehicle_photo_ok g ?p"
    using get_owned_vehicle_InrD [OF v] pre by (auto simp: vehicle_photo_ok_def)
  ultimately show ?thesis unfolding res using g by (intro photos_list_ok) (auto simp: garage_ok_def)
next
  case False
  then have "snd (confirm_upload pid u vid key g) = g \<or> snd (confirm_upload pid u vid key g) = drop_asset (py_strip key) g"
    by (auto simp: confirm_upload_def Let_def split: sum.splits option.splits if_splits)
  with g show ?thesis using drop_asset_ok by metis
qed

lemma delete_upload_ok:
  assumes g: "garage_ok g"
  shows "garage_ok (snd (delete_upload u vid pid g))"
proof -
  have "garage_ok (g\<lparr>vehicle_photos := delete_where q (vehicle_photos g)\<rparr>)" for q
  proof (rule photos_list_ok [OF g])
    show "\<forall>p \<in> set (delete_where q (vehicle_photos g)). vehicle_photo_ok g p"
      using g by (simp add: garage_ok_def delete_where_def)
    show "rowcount (\<lambda>p. vp_vehicle p = vid) (delete_where q (vehicle_photos g)) \<le> MAX_PHOTOS_PER_VEHICLE" for vid
      by (rule le_trans [OF rowcount_delete]) (use g in \<open>simp add: garage_ok_def photos_of_def\<close>)
  qed
  with g show ?thesis by (auto simp: delete_upload_def drop_asset_ok split: sum.split option.split)
qed

lemma log_market_ok: "garage_ok (log_market action entity u g) = garage_ok g"
  by (simp add: garage_ok_def log_market_def vehicle_photo_ok_def preference_ok_def photos_of_def)

lemma favorites_ok:
  assumes "garage_ok g" and "distinct (map (\<lambda>f. (fav_user f, fav_provider f)) fs)"
  shows "garage_ok (g\<lparr>favorites := fs\<rparr>)"
  using assms by (simp add: garage_ok_def vehicle_photo_ok_def preference_ok_def photos_of_def)

lemma insert_favorite_ok: "garage_ok g \<Longrightarrow> garage_ok (snd (insert_favorite now uid pid g))"
  by (auto simp: insert_favorite_def list_ex_iff pair_row_def intro!: favorites_ok) (auto simp: garage_ok_def)

lemma add_favorite_ok:
  assumes "add_favorite now u pid g = Inr (x, g')" and "garage_ok g"
  shows "garage_ok g'"
  using assms insert_favorite_ok [of g now "user_id u" pid]
  by (auto simp: add_favorite_def Let_def log_market_ok split: option.splits sum.splits prod.splits if_splits)

lemma remove_favorite_ok:
  assumes "remove_favorite u pid g = Inr (x, g')" and "garage_ok g"
  shows "garage_ok g'"
proof -
  have "distinct (map (\<lambda>f. (fav_user f, fav_provider f)) (delete_where p (favorites g)))" for p
    using assms(2) by (auto simp: garage_ok_def delete_where_def intro: distinct_map_filter)
  with assms show ?thesis by (auto simp: remove_favorite_def Let_def log_market_ok favorites_ok split: if_splits)
qed

lemma preferences_ok:
  assumes "garage_ok g" and "distinct (map cp_user ps)" and "\<forall>c \<in> set ps. preference_ok g c"
  shows "garage_ok (g\<lparr>preferences := ps\<rparr>)"
  using assms by (simp add: garage_ok_def vehicle_photo_ok_def preference_ok_def photos_of_def)

lemma get_or_create_ok:
  assumes "get_or_create_client_profile u g = (c, g')" and g: "garage_ok g"
  shows "garage_ok g'" and "cp_user c = user_id u" and "garage_rows g' = garage_rows g" and "book g' = book g"
proof -
  have "user_id u \<notin> cp_user ` set (preferences g)" if "find (\<lambda>c. cp_user c = user_id u) (preferences g) = None"
    using that by (auto simp: find_None_iff)
  with g have "garage_ok (g\<lparr>preferences := preferences g @ [blank_preferences (user_id u)]\<rparr>)"
    if "find (\<lambda>c. cp_user c = user_id u) (preferences g) = None"
    using that by (intro preferences_ok) (auto simp: garage_ok_def preference_ok_def blank_preferences_def)
  with assms show "garage_ok g'" by (auto simp: get_or_create_client_profile_def split: option.splits)
  show "cp_user c = user_id u" "garage_rows g' = garage_rows g" "book g' = book g"
    using assms by (auto simp: get_or_create_client_profile_def blank_preferences_def find_Some_iff split: option.splits)
qed

lemma put_preferences_ok:
  assumes "put_preferences u vid aid optin freq g = Inr (x, g')" and g: "garage_ok g"
  shows "garage_ok g'"
proof -
  obtain c h where h: "get_or_create_client_profile u g = (c, h)" by fastforce
  note keep = get_or_create_ok [OF h g]
  let ?c = "c\<lparr>default_vehicle := vid, default_address := aid, marketing_opt_in := optin, frequency_preference := map_option py_strip freq\<rparr>"
  let ?ps = "update_where (\<lambda>c. cp_user c = user_id u) (\<lambda>_. ?c) (preferences h)"
  from assms(1) h have g': "g' = log_market ''profile_updated'' ''client_profile'' u (h\<lparr>preferences := ?ps\<rparr>)"
    and v: "pred_option (\<lambda>v. list_ex (owned_vehicle (user_id u) v) (garage_rows g)) vid"
    and a: "pred_option (\<lambda>a. get_owned (user_id u) a (addresses (book g)) \<noteq> None) aid"
    by (auto simp: put_preferences_def Let_def split: if_splits)
  have c: "preference_ok h ?c"
    unfolding preference_ok_def using keep(2-4) v a
    by (cases vid; cases aid) (force simp: list_ex_iff owned_vehicle_def live_of_def dest!: get_owned_SomeD)+
  have "map cp_user ?ps = map cp_user (preferences h)" using keep(2) by (intro map_update_where) simp
  moreover have "\<forall>q \<in> set ?ps. preference_ok h q"
    using keep(1) c by (auto simp: set_update_where garage_ok_def)
  ultimately show ?thesis unfolding g' log_market_ok using keep(1) by (intro preferences_ok) (simp_all add: garage_ok_def)
qed

lemma book_ok:
  assumes "garage_ok g" and "distinct (map row_id (addresses w))"
    and "set (address_keys (addresses (book g))) \<subseteq> set (address_keys (addresses w))"
  shows "garage_ok (g\<lparr>book := w\<rparr>)"
  using assms photo_and_preference_grow [of g "g\<lparr>book := w\<rparr>"] by (auto simp: garage_ok_def photos_of_def)

lemma run_request_ok:
  "(\<And>x g'. h g = Inr (x, g') \<Longrightarrow> P g') \<Longrightarrow> P g \<Longrightarrow> P (snd (run_request h g))"
  by (auto simp: run_request_def split: sum.split prod.split)

lemma book_step_ok:
  assumes "garage_ok g"
  shows "garage_ok (g\<lparr>book := address_step geo cell scan a (book g)\<rparr>)"
proof -
  have "distinct (map row_id (addresses (book g)))" using assms by (simp add: garage_ok_def)
  with assms show ?thesis by (intro book_ok address_step_keys)
qed

lemma garage_step_ok: "garage_ok g \<Longrightarrow> garage_ok (garage_step geo cell scan rq g)"
proof (cases rq)
  case (Read_Preferences u)
  then show "garage_ok g \<Longrightarrow> ?thesis"
    using get_or_create_ok(1) [of u g] by (auto simp: run_request_def get_preferences_def split: prod.split)
next
  case (Address_Request a)
  then show "garage_ok g \<Longrightarrow> ?thesis"
    by (simp add: book_step_ok)
qed (auto intro: run_request_ok create_vehicle_ok update_vehicle_ok delete_vehicle_ok confirm_upload_ok delete_upload_ok
       add_favorite_ok remove_favorite_ok put_preferences_ok)

interpretation garage_tables: guarded "garage_step geo cell scan" "\<lambda>_. True" garage_ok for geo cell scan
  by unfold_locales (rule garage_step_ok)

definition empty_garage :: "db \<Rightarrow> wallet \<Rightarrow> garage" where
  "empty_garage d w =
     \<lparr>market = d\<lparr>vehicles := []\<rparr>, garage_rows = [], vehicle_photos = [], vehicle_assets = (\<lambda>_. None), favorites = [],
      preferences = [], book = w\<rparr>"

lemma empty_garage_ok: "distinct (map row_id (addresses w)) \<Longrightarrow> garage_ok (empty_garage d w)"
  by (simp add: empty_garage_def garage_ok_def photos_of_def rowcount_def)

section \<open>Properties\<close>

text \<open>
  C32. The garage stays well-formed: through any requests an owner has a plate once, a vehicle at most
  four photos, each under the vehicle's own prefix, a client each favourite once, and preferences point
  only at vehicles and addresses of the same account.
\<close>

theorem garage_well_formed:
  assumes "distinct (map row_id (addresses w))"
    and "g = fold (garage_step geo cell scan) rqs (empty_garage d w)"
  shows "distinct (map owner_plate (garage_rows g)) \<and> rowcount (\<lambda>p. vp_vehicle p = vid) (vehicle_photos g) \<le> 4 \<and>
    list_all (vehicle_photo_ok g) (vehicle_photos g) \<and>
    distinct (map (\<lambda>f. (fav_user f, fav_provider f)) (favorites g)) \<and> list_all (preference_ok g) (preferences g)"
proof -
  have "garage_ok g" unfolding assms(2) by (intro garage_tables.run_inv empty_garage_ok assms(1)) simp
  then show ?thesis by (simp add: garage_ok_def list_all_iff photos_of_def MAX_PHOTOS_PER_VEHICLE_def)
qed

lemma find_mapped: "find p (map f xs) = map_option f (find (\<lambda>x. p (f x)) xs)"
  by (induction xs) auto

lemma find_by_unique_id:
  assumes "distinct (map key rows)" and "v \<in> set rows" and "p v"
  shows "find (\<lambda>r. key r = key v \<and> p r) rows = Some v"
  using assms by (induction rows) auto

lemma get_vehicle_of_garage:
  assumes "garage_ok g"
  shows "(\<exists>v. get_vehicle (market g) vid = Some v \<and> veh_owner v = uid) \<longleftrightarrow> (\<exists>v \<in> set (get_by_owner uid g). veh_id v = vid)"
    (is "?L = ?R")
proof -
  let ?find = "find (\<lambda>v. veh_id v = vid \<and> \<not> veh_deleted v) (garage_rows g)"
  have "get_vehicle (market g) vid = map_option vehicle.truncate ?find"
    using assms by (simp add: garage_ok_def get_vehicle_def find_mapped vehicle.truncate_def)
  then have L: "?L \<longleftrightarrow> (\<exists>v. ?find = Some v \<and> veh_owner v = uid)" by (auto simp: vehicle.truncate_def)
  have "?find = Some v \<longleftrightarrow> v \<in> set (garage_rows g) \<and> veh_id v = vid \<and> \<not> veh_deleted v" for v
  proof
    assume "?find = Some v"
    then show "v \<in> set (garage_rows g) \<and> veh_id v = vid \<and> \<not> veh_deleted v" by (auto simp: find_Some_iff)
  next
    assume "v \<in> set (garage_rows g) \<and> veh_id v = vid \<and> \<not> veh_deleted v"
    then show "?find = Some v"
      using assms find_by_unique_id [of veh_id "garage_rows g" v "\<lambda>v. \<not> veh_deleted v"] by (auto simp: garage_ok_def)
  qed
  with L show ?thesis by (auto simp: get_by_owner_def)
qed

lemma collect_vehicles_passes_iff:
  "is_ok (collect_vehicles d uid es m) \<longleftrightarrow>
     (\<forall>e \<in> set es. map_of m (ve_vehicle e) \<noteq> None \<or> (\<exists>v. get_vehicle d (ve_vehicle e) = Some v \<and> veh_owner v = uid))"
proof (induction d uid es m rule: collect_vehicles.induct)
  case (2 d uid e es m)
  then show ?case by (cases "map_of m (ve_vehicle e)"; cases "get_vehicle d (ve_vehicle e)") auto
qed simp

text \<open>
  C33. What a client's garage lists is what a booking accepts: after any requests the booking's vehicle
  check passes exactly for the vehicles on the client's list.
\<close>

theorem listed_vehicles_are_bookable:
  assumes "distinct (map row_id (addresses w))"
    and "g = fold (garage_step geo cell scan) rqs (empty_garage d w)"
  shows "is_ok (collect_vehicles (market g) uid es []) = (set (map ve_vehicle es) \<subseteq> veh_id ` set (get_by_owner uid g))"
proof -
  have "garage_ok g" unfolding assms(2) by (intro garage_tables.run_inv empty_garage_ok assms(1)) simp
  moreover have "(\<exists>v \<in> set (get_by_owner uid g). veh_id v = x) = (x \<in> veh_id ` set (get_by_owner uid g))" for x by auto
  ultimately show ?thesis by (simp add: collect_vehicles_passes_iff get_vehicle_of_garage image_subset_iff)
qed

text \<open>Favourites: a provider with one profile shows up once for each time it is pinned.\<close>

lemma find_append_cases: "find p (xs @ ys) = (case find p xs of None \<Rightarrow> find p ys | Some x \<Rightarrow> Some x)"
  by (induction xs) auto

lemma find_joined:
  assumes "filter (\<lambda>p. prof_user p = pid) ps = [pp]"
  shows "find (\<lambda>r. fav_provider (fst r) = pid)
      (concat (map (\<lambda>f. case filter (\<lambda>p. prof_user p = fav_provider f) ps of
                          [] \<Rightarrow> [(f, None)] | qs \<Rightarrow> map (\<lambda>p. (f, Some p)) qs) fs))
    = map_option (\<lambda>f. (f, Some pp)) (find (\<lambda>f. fav_provider f = pid) fs)"
proof (induction fs)
  case (Cons f fs)
  show ?case
  proof (cases "fav_provider f = pid")
    case False
    then have "find (\<lambda>r. fav_provider (fst r) = pid) (case filter (\<lambda>p. prof_user p = fav_provider f) ps of
                 [] \<Rightarrow> [(f, None)] | qs \<Rightarrow> map (\<lambda>p. (f, Some p)) qs) = None"
      by (auto simp: find_None_iff split: list.split)
    with False Cons show ?thesis by (simp add: find_append_cases)
  qed (simp add: assms)
qed simp

definition pin :: "instant \<Rightarrow> user \<Rightarrow> uuid \<Rightarrow> favorite" where
  "pin now u pid = \<lparr>fav_user = user_id u, fav_provider = pid, fav_created = now\<rparr>"

text \<open>The two outcomes of pinning: a new row at the front of the list, or the row that was there.\<close>

lemma add_favorite_new:
  assumes "user_by_id (market g) pid = Some q" and pp: "filter (\<lambda>p. prof_user p = pid) (profiles (market g)) = [pp]"
    and "\<not> list_ex (pair_row (user_id u) pid) (favorites g)"
  shows "add_favorite now u pid g = Inr (Some (pin now u pid, Some pp),
           log_market ''favorite_added'' ''client_favorite'' u (g\<lparr>favorites := favorites g @ [pin now u pid]\<rparr>))"
  using assms by (simp add: add_favorite_def insert_favorite_def list_favorites_def find_joined [OF pp] log_market_def pin_def)

lemma add_favorite_again:
  assumes "user_by_id (market g) pid = Some q" and pp: "filter (\<lambda>p. prof_user p = pid) (profiles (market g)) = [pp]"
    and "favorites g = fs @ [f]" and "pair_row (user_id u) pid f"
  shows "add_favorite now u pid g = Inr (Some (f, Some pp), g)"
  using assms by (simp add: add_favorite_def insert_favorite_def list_favorites_def find_joined [OF pp] pair_row_def)

text \<open>
  Pinning a provider is a round trip: the answer is the new favourite, pinning again changes nothing
  and gives the same answer, and unpinning leaves the favourites as they were.
\<close>

lemma favorite_round_trip:
  assumes "user_by_id (market g) pid = Some q" and "filter (\<lambda>p. prof_user p = pid) (profiles (market g)) = [pp]"
    and "\<not> list_ex (pair_row (user_id u) pid) (favorites g)"
  shows "\<exists>f g1 g2. add_favorite now u pid g = Inr (Some (f, Some pp), g1) \<and> pair_row (user_id u) pid f \<and> fav_created f = now
    \<and> add_favorite now' u pid g1 = Inr (Some (f, Some pp), g1)
    \<and> remove_favorite u pid g1 = Inr ((), g2) \<and> favorites g2 = favorites g"
proof -
  let ?g1 = "log_market ''favorite_added'' ''client_favorite'' u (g\<lparr>favorites := favorites g @ [pin now u pid]\<rparr>)"
  have p: "pair_row (user_id u) pid (pin now u pid)" "fav_created (pin now u pid) = now" by (simp_all add: pair_row_def pin_def)
  have "add_favorite now' u pid ?g1 = Inr (Some (pin now u pid, Some pp), ?g1)"
    using assms(1,2) p(1) by (intro add_favorite_again [of _ _ q _ "favorites g"]) (simp_all add: log_market_def user_by_id_def)
  moreover have "delete_where (pair_row (user_id u) pid) (favorites ?g1) = favorites g"
    using assms(3) p(1) by (simp add: log_market_def delete_where_def list_ex_iff filter_id_conv)
  then have "\<exists>g2. remove_favorite u pid ?g1 = Inr ((), g2) \<and> favorites g2 = favorites g"
    by (simp add: remove_favorite_def Let_def log_market_def)
  ultimately show ?thesis using add_favorite_new [OF assms] p by blast
qed

section \<open>The estimate\<close>

lemma cheapest_SomeD:
  assumes "cheapest cat svcs = Some s"
  shows "s \<in> set svcs \<and> svc_category s = cat \<and> (\<forall>t \<in> set svcs. svc_category t = cat \<longrightarrow> base_price_cents s \<le> base_price_cents t)"
proof -
  let ?ys = "sort_key base_price_cents (filter (\<lambda>s. svc_category s = cat) svcs)"
  from assms obtain rest where ys: "?ys = s # rest" by (auto simp: cheapest_def split: list.splits)
  have "sorted (map base_price_cents (s # rest))" unfolding ys [symmetric] by (rule sorted_sort_key)
  moreover have "set (s # rest) = {t \<in> set svcs. svc_category t = cat}" unfolding ys [symmetric] by simp
  ultimately show ?thesis by auto
qed

text \<open>
  The estimate reads the columns of the sizes, the booking scales the base price: they agree where the
  columns are kept in step, as the seed computes them.
\<close>

definition columns_agree :: "'a service_scheme \<Rightarrow> bool" where
  "columns_agree s \<longleftrightarrow> (\<forall>sz. price_column sz s = ceil_scaled (base_price_cents s) sz)"

lemma estimate_is_booking_price:
  assumes "estimate_tier sz svcs cat = Some t" and "columns_agree (tier_service t)"
  shows "tier_price t = price_cents (calculate_appointment_data st (service.truncate (tier_service t)) sz t0)"
  using assms by (auto simp: estimate_tier_def columns_agree_def calculate_appointment_data_def Let_def service.truncate_def)

lemma edited_column_misquotes:
  assumes "estimate_tier sz svcs cat = Some t" and "price_column sz (tier_service t) \<noteq> ceil_scaled (base_price_cents (tier_service t)) sz"
  shows "tier_price t \<noteq> price_cents (calculate_appointment_data st (service.truncate (tier_service t)) sz t0)"
  using assms by (auto simp: estimate_tier_def calculate_appointment_data_def Let_def service.truncate_def)

text \<open>An unknown model falls back to the cheapest size: what is quoted can be too low, never too high.\<close>

lemma unknown_model_never_overquotes:
  assumes "first_keyword_match MODEL_KEYWORD_TO_SIZE (py_strip (py_lower mdl)) = None" and "base < 2 ^ 31"
  shows "ceil_scaled base (estimate_size_from_make_model mk (Some mdl)) \<le> ceil_scaled base sz"
proof -
  have "estimate_size_from_make_model mk (Some mdl) = SMALL"
    using assms(1) by (simp add: estimate_size_from_make_model_def Let_def)
  moreover have "ceil_scaled base SMALL = base" using assms(2) by (simp add: ceil_scaled_exact exact_scaled_def)
  ultimately show ?thesis using ceil_scaled_ge [OF assms(2)] by simp
qed

lemma unknown_model_underquoted:
  "estimate_size_from_make_model (Some ''Hummer'') (Some ''H2'') < map_body_to_size (Some ''Pickup'')"
  by code_simp

section \<open>Refusals and what they leave\<close>

text \<open>Every failed insert of a vehicle blames the plate, also a missing colour; an edit lets the error through.\<close>

lemma missing_color_blames_plate:
  assumes "parse_vehicle body = Inr b" and "vc_color b = None" and "is_client u"
  shows "create_vehicle vid u body g = Inl plate_taken"
  using assms by (simp add: create_vehicle_def insert_vehicle_def vehicle_columns_def)

lemma deleted_plate_is_taken:
  assumes "parse_vehicle body = Inr b" and "vc_plate b = Some p" and "is_client u"
    and "v \<in> set (garage_rows g)" and "veh_deleted v" and "owner_plate v = (user_id u, p)"
  shows "create_vehicle vid u body g = Inl plate_taken"
proof -
  have "(user_id u, p) \<in> owner_plate ` set (garage_rows g)" using assms(4,6) by (metis image_eqI)
  then have "\<not> is_ok (insert_vehicle vid (user_id u) b g)"
    using assms(2) by (auto simp: insert_vehicle_def vehicle_columns_def checked_vehicles_def owner_plate_def image_iff split: option.split)
  then show ?thesis using assms(1,3) by (cases "insert_vehicle vid (user_id u) b g") (simp_all add: create_vehicle_def)
qed

lemma edited_plate_conflict_escapes:
  assumes "parse_vehicle body = Inr b" and "vc_plate b = Some p" and "vc_color b = Some c" and "garage_ok g"
    and "find (owned_vehicle (user_id u) vid) (garage_rows g) = Some r"
    and "v \<in> set (garage_rows g)" and "veh_id v \<noteq> vid" and "owner_plate v = (user_id u, p)"
  shows "update_vehicle u vid body g = Inl (IntegrityError ''uq_vehicle_owner_plate'')"
proof -
  obtain q where q: "vehicle_columns vid (user_id u) b = Inr q" "owner_plate q = (user_id u, p)" "veh_id q = vid"
    using assms(2,3) by (simp add: vehicle_columns_def owner_plate_def)
  let ?rows = "update_where (owned_vehicle (user_id u) vid) (\<lambda>_. q) (garage_rows g)"
  have r: "r \<in> set (garage_rows g)" "owned_vehicle (user_id u) vid r" using assms(5) by (auto simp: find_Some_iff)
  have "q \<in> set ?rows" "v \<in> set ?rows" "v \<noteq> q"
    using r assms(6,7) q(3) by (auto simp: set_update_where owned_vehicle_def)
  then have "\<not> distinct (map owner_plate ?rows)" using q(2) assms(8) by (metis distinct_map inj_onD)
  moreover have "map veh_id ?rows = map veh_id (garage_rows g)"
    using q(3) by (intro map_update_where) (simp add: owned_vehicle_def)
  moreover have "rowcount (owned_vehicle (user_id u) vid) (garage_rows g) \<noteq> 0"
    using r by (auto simp: rowcount_zero)
  ultimately show ?thesis
    using assms(1,4) q(1) by (simp add: update_vehicle_def checked_vehicles_def garage_ok_def)
qed

lemma two_profiles_block_pin:
  assumes "user_by_id (market g) pid = Some q" and "filter (\<lambda>p. prof_user p = pid) (profiles (market g)) = p1 # p2 # ps"
  shows "add_favorite now u pid g = Inl MultipleResultsFound"
  using assms by (simp add: add_favorite_def)

text \<open>
  Deleting a vehicle leaves the preference that points at it; sending the preferences back as they were
  read is then refused.
\<close>

lemma deleted_default_lingers:
  assumes "delete_vehicle u vid g = Inr ((), g')" and "garage_ok g"
    and "get_preferences u g = Inr (c, g)" and "default_vehicle c = Some vid" and "pred_option (length_in 0 20) (map_option py_strip freq)"
  shows "get_preferences u g' = Inr (c, g') \<and> put_preferences u (default_vehicle c) aid optin freq g' = Inl (not_your ''default_vehicle_id'')"
proof -
  let ?rows = "update_where (owned_vehicle (user_id u) vid) (\<lambda>v. v\<lparr>veh_deleted := True\<rparr>) (garage_rows g)"
  from assms(1) have g': "g' = put_vehicles ?rows g" by (auto simp: delete_vehicle_def split: if_splits)
  have c: "get_or_create_client_profile u g = (c, g)" using assms(3) by (simp add: get_preferences_def)
  then have p: "get_or_create_client_profile u g' = (c, g')"
    by (auto simp: get_or_create_client_profile_def g' put_vehicles_def blank_preferences_def split: option.splits)
      (metis append_self_conv garage.select_convs(6) garage.surjective garage.update_convs(6) not_Cons_self2)
  moreover have "\<not> list_ex (owned_vehicle (user_id u) vid) (garage_rows g')"
  proof -
    have "\<not> list_ex (owned_vehicle (user_id u) vid)
            (update_where (owned_vehicle (user_id u) vid) (\<lambda>v. v\<lparr>veh_deleted := True\<rparr>) rows)" for rows :: "garage_vehicle list"
      by (induction rows) (auto simp: owned_vehicle_def)
    then show ?thesis by (simp add: g' put_vehicles_def)
  qed
  ultimately show ?thesis using assms(4,5) by (simp add: get_preferences_def put_preferences_def Let_def)
qed

section \<open>Witnesses\<close>

definition truck :: "string \<Rightarrow> vehicle_create" where
  "truck plate = \<lparr>vc_make = ''Ford'', vc_model = ''F-150'', vc_year = 2020, vc_vin = None, vc_series = None,
     vc_body = ''Pickup'', vc_color = Some ''red'', vc_plate = Some plate\<rparr>"

text \<open>The second registration is the same plate in lower case and is refused.\<close>

definition demo_garage :: garage where
  "demo_garage = fold (garage_step (\<lambda>_. Inr None) (\<lambda>_ _. '''') id)
     [Register_Vehicle 3 demo_client (truck ''AB 1''), Register_Vehicle 4 demo_client (truck ''ab 1''),
      Put_Preferences demo_client (Some 3) None True None] (empty_garage demo_market empty_wallet)"

lemma strip_truck: "strip_vehicle (truck ''AB 1'') = truck ''AB 1''" "strip_vehicle (truck ''ab 1'') = truck ''AB 1''"
  by code_simp+

lemma parse_truck: "parse_vehicle (truck ''AB 1'') = Inr (truck ''AB 1'')" "parse_vehicle (truck ''ab 1'') = Inr (truck ''AB 1'')"
proof -
  have "vehicle_fields_ok (truck ''AB 1'')" by (simp add: vehicle_fields_ok_def length_in_def truck_def)
  then show "parse_vehicle (truck ''AB 1'') = Inr (truck ''AB 1'')" "parse_vehicle (truck ''ab 1'') = Inr (truck ''AB 1'')"
    by (simp_all add: parse_vehicle_def strip_truck)
qed

definition truck_row :: garage_vehicle where
  "truck_row = \<lparr>veh_id = 3, veh_owner = 1, body_class = Some ''Pickup'', veh_deleted = False, veh_make = ''Ford'',
     veh_model = ''F-150'', veh_year = 2020, vin = None, series = None, color = ''red'', license_plate = ''AB 1''\<rparr>"

definition parked :: garage where
  "parked = put_vehicles [truck_row] (empty_garage demo_market empty_wallet)"

lemma demo_client_facts: "user_id demo_client = 1" "is_client demo_client"
  by (simp_all add: demo_client_def role_defs)

lemma demo_registrations:
  "create_vehicle 3 demo_client (truck ''AB 1'') (empty_garage demo_market empty_wallet) = Inr (3, parked)"
  "create_vehicle 4 demo_client (truck ''ab 1'') parked = Inl plate_taken"
proof -
  have c: "vehicle_columns vid 1 (truck ''AB 1'') = Inr (truck_row\<lparr>veh_id := vid\<rparr>)" for vid
    by (simp add: vehicle_columns_def truck_def truck_row_def)
  have "truck_row\<lparr>veh_id := 3\<rparr> = truck_row" by (simp add: truck_row_def)
  moreover have "garage_rows (empty_garage demo_market empty_wallet) = []" "garage_rows parked = [truck_row]"
    by (simp_all add: empty_garage_def parked_def put_vehicles_def)
  moreover have "owner_plate (truck_row\<lparr>veh_id := vid\<rparr>) = owner_plate truck_row" for vid by (simp add: owner_plate_def)
  ultimately show "create_vehicle 3 demo_client (truck ''AB 1'') (empty_garage demo_market empty_wallet) = Inr (3, parked)"
    "create_vehicle 4 demo_client (truck ''ab 1'') parked = Inl plate_taken"
    by (simp_all add: create_vehicle_def parse_truck demo_client_facts insert_vehicle_def c checked_vehicles_def parked_def)
qed

lemma demo_garage_rows: "garage_rows demo_garage = [truck_row]" "map default_vehicle (preferences demo_garage) = [Some 3]"
proof -
  have "demo_garage = garage_step (\<lambda>_. Inr None) (\<lambda>_ _. '''') id (Put_Preferences demo_client (Some 3) None True None) parked"
    by (simp add: demo_garage_def demo_registrations run_request_def)
  also have "\<dots> = log_market ''profile_updated'' ''client_profile'' demo_client
      (parked\<lparr>preferences := [(blank_preferences 1)\<lparr>default_vehicle := Some 3, marketing_opt_in := True\<rparr>]\<rparr>)"
    by (simp add: run_request_def put_preferences_def get_or_create_client_profile_def blank_preferences_def Let_def
        demo_client_facts parked_def put_vehicles_def empty_garage_def owned_vehicle_def truck_row_def)
  finally have g: "demo_garage = \<dots>" .
  show "garage_rows demo_garage = [truck_row]" "map default_vehicle (preferences demo_garage) = [Some 3]"
    unfolding g by (simp_all add: log_market_def parked_def put_vehicles_def)
qed

lemma empty_wallet_ids: "distinct (map row_id (addresses empty_wallet))"
  by (simp add: empty_wallet_def)

theorem garage_well_formed_witness:
  "distinct (map owner_plate (garage_rows demo_garage)) \<and> rowcount (\<lambda>p. vp_vehicle p = 3) (vehicle_photos demo_garage) \<le> 4 \<and>
    list_all (vehicle_photo_ok demo_garage) (vehicle_photos demo_garage) \<and>
    distinct (map (\<lambda>f. (fav_user f, fav_provider f)) (favorites demo_garage)) \<and>
    list_all (preference_ok demo_garage) (preferences demo_garage) \<and> map default_vehicle (preferences demo_garage) = [Some 3]"
  using garage_well_formed [OF empty_wallet_ids demo_garage_def, of 3] demo_garage_rows(2) by blast

theorem listed_vehicles_are_bookable_witness:
  "is_ok (collect_vehicles (market demo_garage) 1 [\<lparr>ve_vehicle = 3, ve_service = 5, ve_addons = []\<rparr>] []) \<and>
   \<not> is_ok (collect_vehicles (market demo_garage) 1 [\<lparr>ve_vehicle = 4, ve_service = 5, ve_addons = []\<rparr>] [])"
proof -
  have "veh_id ` set (get_by_owner 1 demo_garage) = {3}"
    by (simp add: get_by_owner_def demo_garage_rows truck_row_def)
  then show ?thesis unfolding listed_vehicles_are_bookable [OF empty_wallet_ids demo_garage_def] by simp
qed

end
