(* ===== verification/Tracking.thy ===== *)
theory Tracking
  imports Matching Lifecycle Sessions
begin

text \<open>
  Where detailers are: the location endpoint (domains/providers/router.py) feeds a Redis stream, the
  worker (workers/location_worker.py) thins it out and keeps the H3 index (infrastructure/h3/client.py),
  and the WebSocket rooms of appointments and users (domains/realtime). H3 is a parameter: \<open>cell_s\<close> and
  \<open>cell_t\<close> are the cells of a point at the configured resolutions of search and storage, which the index uses,
  \<open>cell_7\<close> its cell at resolution 7, which the search has written out, \<open>disk\<close> is \<open>grid_disk\<close>.
  Coordinates are real numbers; Redis answers every call. Timestamps in messages are left out.
\<close>

section \<open>State\<close>

record location_event =
  rp_detailer :: uuid
  rp_lat :: real
  rp_lng :: real
  rp_appointment :: "uuid option"
  rp_heading :: "real option"

record gps_fix =
  fix_lat :: real
  fix_lng :: real
  fix_heading :: "real option"

datatype room_message = Moved real real | Status_Changed appointment_status | Pong

record socket =
  so_conn :: nat
  so_user :: uuid
  so_detailer :: bool
  so_room :: string
  so_appointment :: "uuid option"

text \<open>\<open>heard\<close> is what \<open>send_json\<close> has sent: the socket with the message.\<close>

record tracker =
  ground :: auth_db
  stream :: "location_event list"
  last_push :: "uuid \<Rightarrow> gps_fix option"
  cell_members :: "string \<Rightarrow> uuid set"
  active_until :: "uuid \<Rightarrow> instant option"
  h3_columns :: "uuid \<Rightarrow> (string \<times> string) option"
  sockets :: "socket list"
  heard :: "(socket \<times> room_message) list"

section \<open>Reporting a position\<close>

definition report_location :: "user \<Rightarrow> real \<Rightarrow> real \<Rightarrow> real option \<Rightarrow> tracker \<Rightarrow> (unit \<times> tracker) result" where
  "report_location u lat lng heading s =
     (if \<not> (-90 \<le> lat \<and> lat \<le> 90 \<and> -180 \<le> lng \<and> lng \<le> 180 \<and>
             (case heading of None \<Rightarrow> True | Some h \<Rightarrow> 0 \<le> h \<and> h < 360))
      then Inl (HTTPException 422 ''Unprocessable.'')
      else if \<not> is_detailer u then Inl (HTTPException 403 ''Only detailer accounts can update location.'')
      else Inr ((), s\<lparr>stream := stream s @ [\<lparr>rp_detailer = user_id u, rp_lat = lat, rp_lng = lng,
             rp_appointment = map_option appt_id (get_active_for_detailer (core (ground s)) (user_id u)),
             rp_heading = heading\<rparr>]\<rparr>))"

section \<open>The location worker\<close>

definition haversine_meters :: "real \<Rightarrow> real \<Rightarrow> real \<Rightarrow> real \<Rightarrow> real" where
  "haversine_meters = haversine 6371000"

definition heading_delta :: "real \<Rightarrow> real \<Rightarrow> real" where
  "heading_delta h1 h2 = (let d = \<bar>h1 - h2\<bar> - 360 * of_int \<lfloor>\<bar>h1 - h2\<bar> / 360\<rfloor> in if d \<le> 180 then d else 360 - d)"

definition heading_change :: "real option \<Rightarrow> real option \<Rightarrow> real" where
  "heading_change old new =
     (case (old, new) of (Some h1, Some h2) \<Rightarrow> heading_delta h1 h2 | _ \<Rightarrow> 0)"

definition barely_moved :: "settings \<Rightarrow> gps_fix \<Rightarrow> location_event \<Rightarrow> bool" where
  "barely_moved st f ev \<longleftrightarrow>
     haversine_meters (fix_lat f) (fix_lng f) (rp_lat ev) (rp_lng ev) < FIREBALL_DISTANCE_METERS st
     \<and> heading_change (fix_heading f) (rp_heading ev) < FIREBALL_HEADING_DEGREES st"

definition fix_of :: "location_event \<Rightarrow> gps_fix" where
  "fix_of ev = \<lparr>fix_lat = rp_lat ev, fix_lng = rp_lng ev, fix_heading = rp_heading ev\<rparr>"

definition set_active :: "int \<Rightarrow> instant \<Rightarrow> uuid \<Rightarrow> tracker \<Rightarrow> tracker" where
  "set_active ttl now det s = s\<lparr>active_until := (active_until s)(det := Some (now + seconds ttl))\<rparr>"

definition srem :: "string \<Rightarrow> uuid \<Rightarrow> tracker \<Rightarrow> tracker" where
  "srem c det s = s\<lparr>cell_members := (cell_members s)(c := cell_members s c - {det})\<rparr>"

definition sadd :: "string \<Rightarrow> uuid \<Rightarrow> tracker \<Rightarrow> tracker" where
  "sadd c det s = s\<lparr>cell_members := (cell_members s)(c := insert det (cell_members s c))\<rparr>"

text \<open>\<open>UPDATE provider_profiles ... WHERE user_id\<close>: every profile of the user.\<close>

definition move_profiles :: "uuid \<Rightarrow> real \<Rightarrow> real \<Rightarrow> tracker \<Rightarrow> tracker" where
  "move_profiles det lat lng s =
     s\<lparr>ground := on_core (\<lambda>d. d\<lparr>profiles := update_where (\<lambda>p. prof_user p = det)
         (\<lambda>p. p\<lparr>current_lat := Some lat, current_lng := Some lng\<rparr>) (profiles d)\<rparr>) (ground s)\<rparr>"

definition update_h3_index ::
  "(real \<Rightarrow> real \<Rightarrow> string) \<Rightarrow> (real \<Rightarrow> real \<Rightarrow> string) \<Rightarrow> int \<Rightarrow> instant \<Rightarrow> uuid \<Rightarrow> real \<Rightarrow> real \<Rightarrow> (real \<times> real) option \<Rightarrow>
   tracker \<Rightarrow> tracker" where
  "update_h3_index cell_s cell_t ttl now det lat lng old s =
     (let new_s = cell_s lat lng;
          s1 = (case old of
                  None \<Rightarrow> s
                | Some (olat, olng) \<Rightarrow> if cell_s olat olng \<noteq> new_s then srem (cell_s olat olng) det s else s);
          s2 = set_active ttl now det (sadd new_s det s1);
          s3 = move_profiles det lat lng s2
      in if list_ex (\<lambda>p. prof_user p = det) (profiles (core (ground s)))
         then s3\<lparr>h3_columns := (h3_columns s3)(det := Some (new_s, cell_t lat lng))\<rparr> else s3)"

section \<open>Rooms\<close>

definition room_of :: "uuid \<Rightarrow> string" where "room_of aid = ''ws:room:'' @ uuid_str aid"
definition personal_room :: "uuid \<Rightarrow> string" where "personal_room uid = ''ws:room:user:'' @ uuid_str uid"

text \<open>\<open>PUBLISH\<close> reaches whoever is subscribed at that moment.\<close>

definition publish :: "string \<Rightarrow> room_message \<Rightarrow> tracker \<Rightarrow> tracker" where
  "publish room m s = s\<lparr>heard := heard s @ map (\<lambda>k. (k, m)) (filter (\<lambda>k. so_room k = room) (sockets s))\<rparr>"

definition process_location ::
  "(real \<Rightarrow> real \<Rightarrow> string) \<Rightarrow> (real \<Rightarrow> real \<Rightarrow> string) \<Rightarrow> settings \<Rightarrow> int \<Rightarrow> instant \<Rightarrow> location_event \<Rightarrow> tracker \<Rightarrow> tracker" where
  "process_location cell_s cell_t st ttl now ev s =
     (let det = rp_detailer ev; old = last_push s det in
      if (case old of None \<Rightarrow> False | Some f \<Rightarrow> barely_moved st f ev) then set_active ttl now det s
      else (let s1 = s\<lparr>last_push := (last_push s)(det := Some (fix_of ev))\<rparr>;
                s2 = update_h3_index cell_s cell_t ttl now det (rp_lat ev) (rp_lng ev)
                       (map_option (\<lambda>f. (fix_lat f, fix_lng f)) old) s1
            in (case rp_appointment ev of None \<Rightarrow> s2 | Some aid \<Rightarrow> publish (room_of aid) (Moved (rp_lat ev) (rp_lng ev)) s2)))"

text \<open>One entry of the stream, in order.\<close>

definition work_off ::
  "(real \<Rightarrow> real \<Rightarrow> string) \<Rightarrow> (real \<Rightarrow> real \<Rightarrow> string) \<Rightarrow> settings \<Rightarrow> int \<Rightarrow> instant \<Rightarrow> tracker \<Rightarrow> tracker" where
  "work_off cell_s cell_t st ttl now s =
     (case stream s of [] \<Rightarrow> s | ev # rest \<Rightarrow> process_location cell_s cell_t st ttl now ev (s\<lparr>stream := rest\<rparr>))"

section \<open>The search\<close>

definition get_candidate_cells :: "(real \<Rightarrow> real \<Rightarrow> string) \<Rightarrow> (string \<Rightarrow> int \<Rightarrow> string set) \<Rightarrow> real \<Rightarrow> real \<Rightarrow> real \<Rightarrow> string set" where
  "get_candidate_cells cell_7 disk lat lng radius = disk (cell_7 lat lng) (max 1 \<lceil>radius / (76 / 100)\<rceil>)"

definition is_alive :: "instant \<Rightarrow> tracker \<Rightarrow> uuid \<Rightarrow> bool" where
  "is_alive now s det \<longleftrightarrow> (case active_until s det of None \<Rightarrow> False | Some t \<Rightarrow> now < t)"

definition find_nearby_detailers ::
  "(real \<Rightarrow> real \<Rightarrow> string) \<Rightarrow> (string \<Rightarrow> int \<Rightarrow> string set) \<Rightarrow> instant \<Rightarrow> real \<Rightarrow> real \<Rightarrow> real \<Rightarrow> tracker \<Rightarrow> uuid set" where
  "find_nearby_detailers cell_7 disk now lat lng radius s =
     {det \<in> \<Union> (cell_members s ` get_candidate_cells cell_7 disk lat lng radius). is_alive now s det}"

section \<open>Sockets\<close>

text \<open>The access gate of an appointment's room: a close code, or the user with the appointment.\<close>

definition enter_appointment ::
  "(bool \<Rightarrow> string \<Rightarrow> claims option) \<Rightarrow> string \<Rightarrow> uuid \<Rightarrow> auth_db \<Rightarrow> nat + user" where
  "enter_appointment decode raw aid d =
     (case ws_get_current_user decode raw d of
        None \<Rightarrow> Inl 4001
      | Some u \<Rightarrow>
          (case appointment_by_id (core d) aid of
             None \<Rightarrow> Inl 4004
           | Some a \<Rightarrow> if \<not> is_participant a u \<and> \<not> is_admin u then Inl 4003 else Inr u))"

definition enter_personal :: "(bool \<Rightarrow> string \<Rightarrow> claims option) \<Rightarrow> string \<Rightarrow> uuid \<Rightarrow> auth_db \<Rightarrow> nat + user" where
  "enter_personal decode raw uid d =
     (case ws_get_current_user decode raw d of
        None \<Rightarrow> Inl 4001
      | Some u \<Rightarrow> if user_id u \<noteq> uid then Inl 4003 else Inr u)"

definition join_room :: "nat \<Rightarrow> string \<Rightarrow> uuid option \<Rightarrow> nat + user \<Rightarrow> tracker \<Rightarrow> tracker" where
  "join_room k room aid who s =
     (case who of
        Inl _ \<Rightarrow> s
      | Inr u \<Rightarrow> s\<lparr>sockets := sockets s @ [\<lparr>so_conn = k, so_user = user_id u, so_detailer = is_detailer u, so_room = room,
                                            so_appointment = aid\<rparr>]\<rparr>)"

text \<open>What a client sends; a coordinate that is not a number is \<open>None\<close>.\<close>

datatype client_message = Ping | Position "real option" "real option" | Other_Message

fun say :: "client_message \<Rightarrow> socket \<Rightarrow> tracker \<Rightarrow> tracker" where
  "say Ping k s = s\<lparr>heard := heard s @ [(k, Pong)]\<rparr>"
| "say (Position lat lng) k s =
     (case (so_appointment k, lat, lng) of
        (Some _, Some x, Some y) \<Rightarrow>
          if so_detailer k then publish (so_room k) (Moved x y) (move_profiles (so_user k) x y s) else s
      | _ \<Rightarrow> s)"
| "say Other_Message k s = s"

definition receive :: "nat \<Rightarrow> client_message \<Rightarrow> tracker \<Rightarrow> tracker" where
  "receive k m s = fold (say m) (filter (\<lambda>x. so_conn x = k) (sockets s)) s"

definition leave :: "nat \<Rightarrow> tracker \<Rightarrow> tracker" where
  "leave k s = s\<lparr>sockets := filter (\<lambda>x. so_conn x \<noteq> k) (sockets s)\<rparr>"

section \<open>Rooms have different names\<close>

lemma of_hex_digit: "n < 16 \<Longrightarrow> of_char (hex_digit n) = (if n < 10 then 48 + n else 87 + n :: nat)"
  by (simp add: hex_digit_def)

lemma hex_digit_inj:
  assumes "a < 16" and "b < 16" and "hex_digit a = hex_digit b"
  shows "a = b"
proof -
  have "(if a < 10 then 48 + a else 87 + a) = (if b < 10 then 48 + b else 87 + b)"
    using of_hex_digit [OF assms(1)] of_hex_digit [OF assms(2)] assms(3) by argo
  with assms(1,2) show ?thesis by (simp split: if_splits)
qed

lemma nibble_bits:
  fixes u v :: uuid
  assumes "unat (drop_bit n u) mod 16 = unat (drop_bit n v) mod 16" and "j < 4"
  shows "bit u (n + j) = bit v (n + j)"
proof -
  have "take_bit 4 (unat (drop_bit n u)) = take_bit 4 (unat (drop_bit n v))"
    using assms(1) by (simp add: take_bit_eq_mod)
  then have "bit (take_bit 4 (unat (drop_bit n u))) j = bit (take_bit 4 (unat (drop_bit n v))) j" by simp
  with assms(2) show ?thesis by (simp add: bit_take_bit_iff bit_unsigned_iff bit_drop_bit_eq)
qed

lemma uuid_hex_nth: "i < 32 \<Longrightarrow> uuid_hex u ! i = hex_digit (unat (drop_bit (4 * (31 - i)) u) mod 16)"
proof -
  assume i: "i < 32"
  then have "[0..<32] ! i = i" using nth_upt [of 0 i 32] by (simp only: add_0)
  moreover have "i < length [0..<32]" using i by (simp only: length_upt diff_zero)
  ultimately show ?thesis unfolding uuid_hex_def by (simp only: nth_map)
qed

lemma uuid_hex_inj: "uuid_hex u = uuid_hex v \<Longrightarrow> u = v"
proof (rule bit_word_eqI)
  fix n assume eq: "uuid_hex u = uuid_hex v" and n: "n < LENGTH(128)"
  let ?i = "31 - n div 4"
  have i: "?i < 32" "31 - ?i = n div 4" using n by auto
  from eq have "hex_digit (unat (drop_bit (4 * (n div 4)) u) mod 16) = hex_digit (unat (drop_bit (4 * (n div 4)) v) mod 16)"
    using uuid_hex_nth [OF i(1), of u] uuid_hex_nth [OF i(1), of v] unfolding i(2) by simp
  then have "unat (drop_bit (4 * (n div 4)) u) mod 16 = unat (drop_bit (4 * (n div 4)) v) mod 16"
    by (rule hex_digit_inj [rotated 2]) simp_all
  from nibble_bits [OF this, of "n mod 4"] show "bit u n = bit v n" by simp
qed

lemma length_uuid_hex: "length (uuid_hex u) = 32"
  unfolding uuid_hex_def length_map length_upt by simp

lemma uuid_str_inj: "uuid_str u = uuid_str v \<Longrightarrow> u = v"
proof -
  assume eq: "uuid_str u = uuid_str v"
  have split: "take 8 h @ take 4 (drop 8 h) @ take 4 (drop 12 h) @ take 4 (drop 16 h) @ drop 20 h = h" for h :: string
  proof -
    have "take 4 (drop k h) @ drop (k + 4) h = drop k h" for k
      by (metis append_take_drop_id drop_drop add.commute)
    from this [of 16] this [of 12] this [of 8] show ?thesis by simp
  qed
  from eq have "take 8 (uuid_hex u) = take 8 (uuid_hex v)" "take 4 (drop 8 (uuid_hex u)) = take 4 (drop 8 (uuid_hex v))"
    "take 4 (drop 12 (uuid_hex u)) = take 4 (drop 12 (uuid_hex v))"
    "take 4 (drop 16 (uuid_hex u)) = take 4 (drop 16 (uuid_hex v))" "drop 20 (uuid_hex u) = drop 20 (uuid_hex v)"
    by (simp_all add: uuid_str_def Let_def length_uuid_hex)
  then have "uuid_hex u = uuid_hex v" by (metis split)
  then show ?thesis by (rule uuid_hex_inj)
qed

lemma uuid_str_head: "\<exists>c cs. uuid_str u = c # cs \<and> c \<noteq> CHR ''u''"
proof -
  have "uuid_hex u ! 0 \<noteq> CHR ''u''"
  proof
    assume "uuid_hex u ! 0 = CHR ''u''"
    then have "of_char (uuid_hex u ! 0) = (117 :: nat)" by simp
    then show False by (simp add: uuid_hex_nth of_hex_digit split: if_splits)
  qed
  moreover obtain c cs where "uuid_hex u = c # cs" using length_uuid_hex [of u] by (cases "uuid_hex u") auto
  ultimately show ?thesis by (simp add: uuid_str_def Let_def)
qed

lemma room_of_inj: "room_of a = room_of b \<longleftrightarrow> a = b"
  by (auto simp: room_of_def dest: uuid_str_inj)

lemma room_of_not_personal: "room_of a \<noteq> personal_room u"
  using uuid_str_head [of a] by (auto simp: room_of_def personal_room_def)

section \<open>The index follows the reports\<close>

definition indexed :: "(real \<Rightarrow> real \<Rightarrow> string) \<Rightarrow> tracker \<Rightarrow> bool" where
  "indexed cell_s s \<longleftrightarrow>
     (\<forall>c det. det \<in> cell_members s c \<longleftrightarrow> (\<exists>f. last_push s det = Some f \<and> c = cell_s (fix_lat f) (fix_lng f)))"

text \<open>What each write leaves alone.\<close>

lemma write_frames [simp]:
  "last_push (set_active ttl now det s) = last_push s" "cell_members (set_active ttl now det s) = cell_members s"
  "last_push (move_profiles det lat lng s) = last_push s" "cell_members (move_profiles det lat lng s) = cell_members s"
  "active_until (move_profiles det lat lng s) = active_until s" "sockets (move_profiles det lat lng s) = sockets s"
  "heard (move_profiles det lat lng s) = heard s"
  "last_push (publish room m s) = last_push s" "cell_members (publish room m s) = cell_members s"
  "active_until (publish room m s) = active_until s" "sockets (publish room m s) = sockets s" "ground (publish room m s) = ground s"
  "ground (set_active ttl now det s) = ground s" "sockets (set_active ttl now det s) = sockets s" "heard (set_active ttl now det s) = heard s"
  by (simp_all add: set_active_def move_profiles_def publish_def)

lemma update_h3_index_writes:
  "last_push (update_h3_index cell_s cell_t ttl now det lat lng old s) = last_push s"
  "active_until (update_h3_index cell_s cell_t ttl now det lat lng old s) = (active_until s)(det := Some (now + seconds ttl))"
  "sockets (update_h3_index cell_s cell_t ttl now det lat lng old s) = sockets s"
  "heard (update_h3_index cell_s cell_t ttl now det lat lng old s) = heard s"
  "ground (update_h3_index cell_s cell_t ttl now det lat lng old s) = ground (move_profiles det lat lng s)"
  "d \<in> cell_members (update_h3_index cell_s cell_t ttl now det lat lng old s) c \<longleftrightarrow>
     (d = det \<and> c = cell_s lat lng)
     \<or> d \<in> cell_members s c \<and> \<not> (d = det \<and> (\<exists>olat olng. old = Some (olat, olng) \<and> c = cell_s olat olng \<and> c \<noteq> cell_s lat lng))"
  by (auto simp: update_h3_index_def Let_def srem_def sadd_def set_active_def move_profiles_def split: option.split)

lemma process_location_writes:
  assumes "process_location cell_s cell_t st ttl now ev s = s'"
  shows "active_until s' = (active_until s)(rp_detailer ev := Some (now + seconds ttl))"
    and "\<exists>f. last_push s' (rp_detailer ev) = Some f \<and> (f = fix_of ev \<or> barely_moved st f ev)"
    and "det \<noteq> rp_detailer ev \<Longrightarrow> last_push s' det = last_push s det"
    and "sockets s' = sockets s"
  using assms unfolding process_location_def Let_def
  by (auto simp: update_h3_index_writes set_active_def split: option.splits if_splits)

lemma process_location_indexed:
  assumes "indexed cell_s s"
  shows "indexed cell_s (process_location cell_s cell_t st ttl now ev s)"
proof (cases "case last_push s (rp_detailer ev) of None \<Rightarrow> False | Some f \<Rightarrow> barely_moved st f ev")
  case True
  with assms show ?thesis by (simp add: process_location_def indexed_def)
next
  case False
  let ?det = "rp_detailer ev"
  let ?s2 = "update_h3_index cell_s cell_t ttl now ?det (rp_lat ev) (rp_lng ev)
    (map_option (\<lambda>f. (fix_lat f, fix_lng f)) (last_push s ?det)) (s\<lparr>last_push := (last_push s)(?det := Some (fix_of ev))\<rparr>)"
  have mem: "d \<in> cell_members ?s2 c \<longleftrightarrow> (\<exists>f. last_push ?s2 d = Some f \<and> c = cell_s (fix_lat f) (fix_lng f))" for d c
    using assms by (auto simp: update_h3_index_writes indexed_def fix_of_def)
  have "cell_members (process_location cell_s cell_t st ttl now ev s) = cell_members ?s2"
    "last_push (process_location cell_s cell_t st ttl now ev s) = last_push ?s2"
    using False by (simp_all add: process_location_def Let_def split: option.split)
  with mem show ?thesis by (simp add: indexed_def)
qed

definition blank_tracker :: "auth_db \<Rightarrow> tracker" where
  "blank_tracker d =
     \<lparr>ground = d, stream = [], last_push = (\<lambda>_. None), cell_members = (\<lambda>_. {}), active_until = (\<lambda>_. None),
      h3_columns = (\<lambda>_. None), sockets = [], heard = []\<rparr>"

lemma blank_indexed: "indexed cell_s (blank_tracker d)"
  by (simp add: indexed_def blank_tracker_def)

text \<open>The worker over a run of reports with the times it handles them.\<close>

definition track ::
  "(real \<Rightarrow> real \<Rightarrow> string) \<Rightarrow> (real \<Rightarrow> real \<Rightarrow> string) \<Rightarrow> settings \<Rightarrow> int \<Rightarrow> (instant \<times> location_event) list \<Rightarrow> tracker \<Rightarrow> tracker" where
  "track cell_s cell_t st ttl evs s = fold (\<lambda>(now, ev). process_location cell_s cell_t st ttl now ev) evs s"

definition latest_report :: "uuid \<Rightarrow> (instant \<times> location_event) list \<Rightarrow> (instant \<times> location_event) option" where
  "latest_report det evs = find (\<lambda>r. rp_detailer (snd r) = det) (rev evs)"

lemma track_indexed: "indexed cell_s s \<Longrightarrow> indexed cell_s (track cell_s cell_t st ttl evs s)"
  unfolding track_def by (induction evs arbitrary: s) (auto intro: process_location_indexed)

lemma track_latest:
  "case latest_report det evs of
     None \<Rightarrow> last_push (track cell_s cell_t st ttl evs (blank_tracker d)) det = None
   | Some (t, ev) \<Rightarrow> active_until (track cell_s cell_t st ttl evs (blank_tracker d)) det = Some (t + seconds ttl) \<and>
       (\<exists>f. last_push (track cell_s cell_t st ttl evs (blank_tracker d)) det = Some f \<and> (f = fix_of ev \<or> barely_moved st f ev))"
proof (induction evs rule: rev_induct)
  case Nil
  then show ?case by (simp add: latest_report_def track_def blank_tracker_def)
next
  case (snoc r evs)
  obtain now ev where r: "r = (now, ev)" by (cases r)
  let ?s = "track cell_s cell_t st ttl evs (blank_tracker d)"
  have s: "track cell_s cell_t st ttl (evs @ [r]) (blank_tracker d) = process_location cell_s cell_t st ttl now ev ?s"
    by (simp add: track_def r)
  note w = process_location_writes [OF refl, where cell_s = cell_s and cell_t = cell_t and st = st and ttl = ttl and now = now and ev = ev and s = ?s]
  show ?case
  proof (cases "rp_detailer ev = det")
    case True
    with w show ?thesis unfolding s by (auto simp: latest_report_def r)
  next
    case False
    with w(1,3) have "last_push (process_location cell_s cell_t st ttl now ev ?s) det = last_push ?s det"
      "active_until (process_location cell_s cell_t st ttl now ev ?s) det = active_until ?s det" by auto
    with False snoc.IH show ?thesis unfolding s by (auto simp: latest_report_def r split: option.splits)
  qed
qed

text \<open>
  C34. A search finds exactly the detailers it should: after any reports, a detailer is found when their
  latest report is younger than the time to live and the cell of a position within the movement threshold
  of it (the indexed one), at the configured resolution, is among the candidate cells, of resolution 7.
\<close>

theorem search_follows_reports:
  "det \<in> find_nearby_detailers cell_7 disk now lat lng radius (track cell_s cell_t st ttl evs (blank_tracker d)) \<longleftrightarrow>
     (\<exists>t ev f. latest_report det evs = Some (t, ev) \<and> now < t + seconds ttl
        \<and> last_push (track cell_s cell_t st ttl evs (blank_tracker d)) det = Some f \<and> (f = fix_of ev \<or> barely_moved st f ev)
        \<and> cell_s (fix_lat f) (fix_lng f) \<in> get_candidate_cells cell_7 disk lat lng radius)"
proof -
  have i: "indexed cell_s (track cell_s cell_t st ttl evs (blank_tracker d))" by (intro track_indexed blank_indexed)
  show ?thesis
    using track_latest [where det = det and evs = evs and cell_s = cell_s and cell_t = cell_t and st = st and ttl = ttl and d = d] i unfolding find_nearby_detailers_def is_alive_def indexed_def
    by (cases "latest_report det evs") (auto simp: find_nearby_detailers_def is_alive_def indexed_def)
qed

text \<open>Nobody is in two cells of the index.\<close>

lemma one_cell_per_detailer:
  "det \<in> cell_members (track cell_s cell_t st ttl evs (blank_tracker d)) c \<Longrightarrow>
   det \<in> cell_members (track cell_s cell_t st ttl evs (blank_tracker d)) c' \<Longrightarrow> c = c'"
  using track_indexed [OF blank_indexed] by (auto simp: indexed_def)

section \<open>Who hears a room\<close>

datatype tracker_request =
    Report user real real "real option"
  | Work_Off instant
  | Join_Appointment nat string uuid
  | Join_Personal nat string uuid
  | Client_Says nat client_message
  | Leave_Room nat
  | Announce_Status uuid appointment_status

fun tracker_step ::
  "(real \<Rightarrow> real \<Rightarrow> string) \<Rightarrow> (real \<Rightarrow> real \<Rightarrow> string) \<Rightarrow> settings \<Rightarrow> int \<Rightarrow> (bool \<Rightarrow> string \<Rightarrow> claims option) \<Rightarrow> tracker_request \<Rightarrow>
   tracker \<Rightarrow> tracker" where
  "tracker_step cell_s cell_t st ttl decode (Report u lat lng h) s = snd (run_request (report_location u lat lng h) s)"
| "tracker_step cell_s cell_t st ttl decode (Work_Off now) s = work_off cell_s cell_t st ttl now s"
| "tracker_step cell_s cell_t st ttl decode (Join_Appointment k raw aid) s =
     join_room k (room_of aid) (Some aid) (enter_appointment decode raw aid (ground s)) s"
| "tracker_step cell_s cell_t st ttl decode (Join_Personal k raw uid) s =
     join_room k (personal_room uid) None (enter_personal decode raw uid (ground s)) s"
| "tracker_step cell_s cell_t st ttl decode (Client_Says k m) s = receive k m s"
| "tracker_step cell_s cell_t st ttl decode (Leave_Room k) s = leave k s"
| "tracker_step cell_s cell_t st ttl decode (Announce_Status aid x) s = publish (room_of aid) (Status_Changed x) s"

definition may_watch :: "db \<Rightarrow> uuid \<Rightarrow> uuid \<Rightarrow> bool" where
  "may_watch d uid aid \<longleftrightarrow>
     (\<exists>a u. appointment_by_id d aid = Some a \<and> user_by_id d uid = Some u \<and> (is_participant a u \<or> is_admin u))"

definition admitted :: "db \<Rightarrow> socket \<Rightarrow> bool" where
  "admitted d k \<longleftrightarrow>
     (case so_appointment k of
        Some aid \<Rightarrow> so_room k = room_of aid \<and> may_watch d (so_user k) aid
      | None \<Rightarrow> so_room k = personal_room (so_user k))"

text \<open>The tables the gate reads are as they were, and every socket, present or gone, was admitted.\<close>

definition gate_kept :: "db \<Rightarrow> tracker \<Rightarrow> bool" where
  "gate_kept d s \<longleftrightarrow>
     users (core (ground s)) = users d \<and> appointments (core (ground s)) = appointments d
     \<and> (\<forall>k \<in> set (sockets s). admitted d k) \<and> (\<forall>r \<in> set (heard s). admitted d (fst r))"

lemma ground_tables [simp]:
  "users (core (ground (move_profiles det lat lng s))) = users (core (ground s))"
  "appointments (core (ground (move_profiles det lat lng s))) = appointments (core (ground s))"
  by (simp_all add: move_profiles_def on_core_def)

lemma gate_kept_publish: "gate_kept d s \<Longrightarrow> gate_kept d (publish room m s)"
  by (auto simp: gate_kept_def publish_def)

lemma gate_kept_move: "gate_kept d (move_profiles det lat lng s) = gate_kept d s"
  by (simp add: gate_kept_def)

lemma gate_kept_process: "gate_kept d s \<Longrightarrow> gate_kept d (process_location cell_s cell_t st ttl now ev s)"
  by (auto simp: process_location_def Let_def update_h3_index_writes gate_kept_def publish_def split: option.split)

lemma gate_kept_say: "gate_kept d s \<Longrightarrow> k \<in> set (sockets s) \<Longrightarrow> gate_kept d (say m k s)"
proof (cases m)
  case Ping
  then show "gate_kept d s \<Longrightarrow> k \<in> set (sockets s) \<Longrightarrow> ?thesis" by (auto simp: gate_kept_def)
qed (auto simp: gate_kept_publish gate_kept_move split: option.split)

lemma sockets_say [simp]: "sockets (say m k s) = sockets s"
  by (cases m) (auto split: option.split)

lemma gate_kept_says:
  "gate_kept d s \<Longrightarrow> set ks \<subseteq> set (sockets s) \<Longrightarrow> gate_kept d (fold (say m) ks s)"
  by (induction ks arbitrary: s) (auto simp: gate_kept_say)

lemma ws_user_found: "ws_get_current_user decode raw d = Some u \<Longrightarrow> user_by_id (core d) (user_id u) = Some u"
  by (auto simp: ws_get_current_user_def user_by_id_def find_Some_iff split: option.splits if_splits) 

lemma gate_kept_join:
  assumes "gate_kept d s" and "\<And>u. who = Inr u \<Longrightarrow>
      admitted d \<lparr>so_conn = k, so_user = user_id u, so_detailer = is_detailer u, so_room = room, so_appointment = aid\<rparr>"
  shows "gate_kept d (join_room k room aid who s)"
  using assms by (cases who) (auto simp: join_room_def gate_kept_def)

lemma same_lookups:
  "users (core g) = users d \<Longrightarrow> user_by_id (core g) = user_by_id d"
  "appointments (core g) = appointments d \<Longrightarrow> appointment_by_id (core g) = appointment_by_id d"
  by (simp_all add: fun_eq_iff user_by_id_def appointment_by_id_def)

lemma gate_kept_step:
  assumes "gate_kept d s"
  shows "gate_kept d (tracker_step cell_s cell_t st ttl decode rq s)"
proof (cases rq)
  case (Join_Appointment k raw aid)
  have l: "user_by_id (core (ground s)) = user_by_id d" "appointment_by_id (core (ground s)) = appointment_by_id d"
    using assms same_lookups by (auto simp: gate_kept_def)
  have "may_watch d (user_id u) aid" if "enter_appointment decode raw aid (ground s) = Inr u" for u
    using that ws_user_found [of decode raw "ground s" u] unfolding may_watch_def l [symmetric]
    by (auto simp: enter_appointment_def split: option.splits if_splits)
  with Join_Appointment assms show ?thesis by (auto simp: admitted_def intro!: gate_kept_join)
next
  case (Join_Personal k raw uid)
  have "user_id u = uid" if "enter_personal decode raw uid (ground s) = Inr u" for u
    using that by (auto simp: enter_personal_def split: option.splits if_splits)
  with Join_Personal assms show ?thesis by (auto simp: admitted_def intro!: gate_kept_join)
next
  case (Work_Off now)
  have "gate_kept d (s\<lparr>stream := rest\<rparr>)" for rest using assms by (simp add: gate_kept_def)
  with assms Work_Off show ?thesis by (auto simp: work_off_def intro: gate_kept_process split: list.split)
next
  case (Client_Says k m)
  with assms show ?thesis by (auto simp: receive_def intro!: gate_kept_says)
qed (use assms in \<open>auto simp: run_request_def report_location_def leave_def gate_kept_publish\<close>, auto simp: gate_kept_def)

interpretation room_gate: guarded "tracker_step cell_s cell_t st ttl decode" "\<lambda>_. True" "gate_kept d" for cell_s cell_t st ttl decode d
  by unfold_locales (rule gate_kept_step)

text \<open>
  C35. Only the parties hear a room: whatever is sent, joined and announced, a message of an
  appointment's room reaches only sockets of its client, its detailer or an administrator.
\<close>

theorem rooms_heard_only_by_parties:
  assumes "sockets s = []" and "heard s = []"
    and "(k, m) \<in> set (heard (fold (tracker_step cell_s cell_t st ttl decode) rqs s))" and "so_room k = room_of aid"
  shows "may_watch (core (ground s)) (so_user k) aid"
proof -
  have "gate_kept (core (ground s)) s" using assms(1,2) by (simp add: gate_kept_def)
  then have "gate_kept (core (ground s)) (fold (tracker_step cell_s cell_t st ttl decode) rqs s)"
    by (rule room_gate.run_inv [rotated]) simp
  with assms(3) have "admitted (core (ground s)) k" unfolding gate_kept_def by force
  with assms(4) show ?thesis
    by (auto simp: admitted_def room_of_inj room_of_not_personal room_of_not_personal [symmetric] split: option.splits)
qed

section \<open>What sockets let through\<close>

text \<open>
  A position is taken from whoever has the detailer's role, in any range: a client of the appointment
  who is also a detailer can move the other's marker; and the index is not told.
\<close>

lemma client_moves_marker:
  assumes "appointment_by_id (core (ground s)) aid = Some a" and "client_id a = user_id u" and "is_detailer u"
    and "ws_get_current_user decode raw (ground s) = Some u" and "k' \<in> set (sockets s)" and "so_room k' = room_of aid"
    and "so_conn ` set (sockets s) \<subseteq> - {n}"
  shows "(k', Moved x y) \<in> set (heard (receive n (Position (Some x) (Some y))
           (join_room n (room_of aid) (Some aid) (enter_appointment decode raw aid (ground s)) s)))"
proof -
  have e: "enter_appointment decode raw aid (ground s) = Inr u"
    using assms(1-4) by (simp add: enter_appointment_def is_participant_def)
  have "filter (\<lambda>k. so_conn k = n) (sockets s) = []" using assms(7) by (auto simp: filter_empty_conv)
  with e assms(3,5,6) show ?thesis by (auto simp: receive_def join_room_def publish_def move_profiles_def)
qed

lemma socket_position_skips_index:
  assumes "p \<in> set (profiles (core (ground s)))" and "prof_user p = so_user k" and "so_detailer k"
    and "so_appointment k = Some aid"
  shows "find_nearby_detailers cell_7 disk now lat lng radius (say (Position (Some x) (Some y)) k s)
       = find_nearby_detailers cell_7 disk now lat lng radius s"
    and "\<exists>q \<in> set (profiles (core (ground (say (Position (Some x) (Some y)) k s)))). prof_id q = prof_id p
       \<and> current_lat q = Some x \<and> current_lng q = Some y"
proof -
  show "find_nearby_detailers cell_7 disk now lat lng radius (say (Position (Some x) (Some y)) k s)
       = find_nearby_detailers cell_7 disk now lat lng radius s"
    using assms(3,4) by (simp add: find_nearby_detailers_def is_alive_def)
  have "(\<lambda>p. p\<lparr>current_lat := Some x, current_lng := Some y\<rparr>) p
      \<in> set (profiles (core (ground (say (Position (Some x) (Some y)) k s))))"
    using assms(1-4) by (auto simp: move_profiles_def on_core_def set_update_where intro!: bexI [of _ p])
  then show "\<exists>q \<in> set (profiles (core (ground (say (Position (Some x) (Some y)) k s)))). prof_id q = prof_id p
       \<and> current_lat q = Some x \<and> current_lng q = Some y"
    by (intro bexI [of _ "p\<lparr>current_lat := Some x, current_lng := Some y\<rparr>"]) simp_all
qed

text \<open>The gate is passed once: a detailer who is taken off the appointment keeps hearing its room.\<close>

lemma reassigned_detailer_keeps_listening:
  assumes "k \<in> set (sockets s)" and "so_room k = room_of aid"
  shows "(k, m) \<in> set (heard (publish (room_of aid) m (s\<lparr>ground := g\<rparr>)))"
  using assms by (simp add: publish_def)

text \<open>The HTTP endpoint checks ranges and role before anything reaches the stream.\<close>

lemma report_location_checked:
  assumes "report_location u lat lng h s = Inr (x, s')"
  shows "is_detailer u" and "-90 \<le> lat \<and> lat \<le> 90 \<and> -180 \<le> lng \<and> lng \<le> 180"
    and "\<exists>ev. stream s' = stream s @ [ev] \<and> rp_detailer ev = user_id u \<and> rp_lat ev = lat \<and> rp_lng ev = lng
       \<and> rp_appointment ev = map_option appt_id (get_active_for_detailer (core (ground s)) (user_id u))"
  using assms by (auto simp: report_location_def split: if_splits)

section \<open>Witness\<close>

definition demo_job :: appointment where
  "demo_job = (demo_appointment 0 None)\<lparr>appt_status := IN_PROGRESS\<rparr>"

definition demo_ground :: auth_db where
  "demo_ground = \<lparr>core = (demo_db [demo_job])\<lparr>users := [demo_client, demo_detailer]\<rparr>, refresh_tokens = [], login_sessions = [],
     reset_tokens = [], verify_tokens = [], login_history = []\<rparr>"

text \<open>Every token is read as the access token of the client, user 1.\<close>

definition demo_decode :: "bool \<Rightarrow> string \<Rightarrow> claims option" where
  "demo_decode strict raw = Some (build_token 0 1 ''client'' ''access'' 1 1 None)"

lemma demo_admits: "enter_appointment demo_decode raw 100 demo_ground = Inr demo_client"
  by (simp add: enter_appointment_def ws_get_current_user_def decode_token_def demo_decode_def build_token_def demo_ground_def
      demo_db_def user_by_id_def demo_client_def demo_detailer_def usable_def appointment_by_id_def demo_job_def demo_appointment_def
      is_participant_def)

theorem rooms_heard_only_by_parties_witness:
  "(\<lparr>so_conn = 0, so_user = 1, so_detailer = False, so_room = room_of 100, so_appointment = Some 100\<rparr>, Status_Changed COMPLETED)
     \<in> set (heard (fold (tracker_step (\<lambda>_ _. '''') (\<lambda>_ _. '''') default_settings 300 demo_decode)
         [Join_Appointment 0 ''t'' 100, Announce_Status 100 COMPLETED] (blank_tracker demo_ground))) \<and>
   may_watch (core demo_ground) 1 100"
proof -
  let ?k = "\<lparr>so_conn = 0, so_user = 1, so_detailer = False, so_room = room_of 100, so_appointment = Some 100\<rparr>"
  have h: "(?k, Status_Changed COMPLETED) \<in> set (heard (fold (tracker_step (\<lambda>_ _. '''') (\<lambda>_ _. '''') default_settings 300 demo_decode)
         [Join_Appointment 0 ''t'' 100, Announce_Status 100 COMPLETED] (blank_tracker demo_ground)))"
    by (simp add: demo_admits blank_tracker_def join_room_def publish_def demo_client_def demo_detailer_def role_defs)
  have "sockets (blank_tracker demo_ground) = []" "heard (blank_tracker demo_ground) = []" "ground (blank_tracker demo_ground) = demo_ground"
    by (simp_all add: blank_tracker_def)
  with rooms_heard_only_by_parties [OF this(1,2) h, of 100] h show ?thesis by simp
qed

end
