(* ===== verification/Hub.thy ===== *)
theory Hub
  imports Garage Login
begin

text \<open>
  The Profile Hub (domains/users/router.py): one answer composed of the blocks a client asks for in
  \<open>?include=\<close> (domains/users/include_spec.py), the sensitive ones behind a recent step-up, built by
  domains/users/hub_service.py over the tables of the account, and the edit of the profile's fields.
  Blocks that are still placeholders in the source, dates and texts that are passed on unread are left
  out. \<open>bucket_name\<close> is the name of the public bucket, \<open>mark\<close> the step-up time in Redis.
\<close>

section \<open>The include parameter\<close>

definition UNIVERSAL_TOKENS :: "string set" where
  "UNIVERSAL_TOKENS = {''profile'', ''stats'', ''addresses'', ''payment_methods'', ''notifications'', ''security'', ''sessions''}"

definition CLIENT_TOKENS :: "string set" where "CLIENT_TOKENS = {''vehicles'', ''favorites'', ''preferences''}"
definition DETAILER_TOKENS :: "string set" where "DETAILER_TOKENS = {''provider''}"
definition SENSITIVE_TOKENS :: "string set" where "SENSITIVE_TOKENS = {''security'', ''sessions''}"
definition ALL_TOKENS :: "string set" where "ALL_TOKENS = UNIVERSAL_TOKENS \<union> CLIENT_TOKENS \<union> DETAILER_TOKENS"

fun split_commas :: "string \<Rightarrow> string list" where
  "split_commas [] = [[]]"
| "split_commas (c # s) =
     (if c = CHR '','' then [] # split_commas s
      else (case split_commas s of [] \<Rightarrow> [[c]] | w # ws \<Rightarrow> (c # w) # ws))"

record include_spec =
  requested :: "string set"
  effective :: "string set"
  skipped_for_role :: "string set"
  sensitive :: "string set"

text \<open>\<open>Inl\<close>: the unknown token.\<close>

fun collect_tokens :: "string list \<Rightarrow> string + string set" where
  "collect_tokens [] = Inr {}"
| "collect_tokens (p # ps) =
     (let tok = py_strip p in
      if tok = '''' then collect_tokens ps
      else if tok \<notin> ALL_TOKENS then Inl tok
      else (case collect_tokens ps of Inl t \<Rightarrow> Inl t | Inr toks \<Rightarrow> Inr (insert tok toks)))"

definition granted :: "string set \<Rightarrow> string \<Rightarrow> bool" where
  "granted roles tok \<longleftrightarrow>
     tok \<in> UNIVERSAL_TOKENS \<or> tok \<in> CLIENT_TOKENS \<and> ''client'' \<in> roles
     \<or> tok \<in> DETAILER_TOKENS \<and> (''detailer'' \<in> roles \<or> ''admin'' \<in> roles)"

definition parse_include :: "string option \<Rightarrow> string set \<Rightarrow> string + include_spec" where
  "parse_include raw roles =
     (case collect_tokens (case raw of None \<Rightarrow> [] | Some s \<Rightarrow> if s = '''' then [] else split_commas s) of
        Inl t \<Rightarrow> Inl t
      | Inr toks \<Rightarrow> Inr \<lparr>requested = toks, effective = Set.filter (granted roles) toks,
                      skipped_for_role = Set.filter (\<lambda>t. \<not> granted roles t) toks,
                      sensitive = Set.filter (granted roles) toks \<inter> SENSITIVE_TOKENS\<rparr>)"

section \<open>The profile's fields\<close>

record profile_fields =
  full_name :: "string option"
  pronouns :: "string option"
  preferred_language :: "string option"
  preferred_timezone :: "string option"
  profile_zip :: "string option"

text \<open>\<open>s.split(maxsplit=1)\<close> of a stripped text: its first word and what follows. \<open>parts[0]\<close> of a name of blanks raises.\<close>

definition split_once :: "string \<Rightarrow> string \<times> string" where
  "split_once t =
     (let w = takeWhile (\<lambda>c. \<not> py_isspace c) t in (w, dropWhile py_isspace (drop (length w) t)))"

definition split_full_name :: "string option \<Rightarrow> (string option \<times> string option) result" where
  "split_full_name n =
     (case n of
        None \<Rightarrow> Inr (None, None)
      | Some s \<Rightarrow>
          if s = '''' then Inr (None, None)
          else if py_strip s = '''' then Inl IndexError
          else (case split_once (py_strip s) of
                  (w, r) \<Rightarrow> if r = '''' then Inr (Some w, None) else Inr (Some w, Some r)))"

record hub_patch =
  pp_first :: "string option"
  pp_last :: "string option"
  pp_pronouns :: "string option"
  pp_language :: "string option"
  pp_timezone :: "string option"
  pp_zip :: "string option"

definition in_range :: "nat \<Rightarrow> nat \<Rightarrow> char \<Rightarrow> bool" where
  "in_range lo hi c \<longleftrightarrow> lo \<le> of_char c \<and> of_char c \<le> hi"

text \<open>\<open>^[a-z]{2}(-[A-Z]{2})?$\<close>.\<close>

fun language_ok :: "string \<Rightarrow> bool" where
  "language_ok [a, b] \<longleftrightarrow> in_range 97 122 a \<and> in_range 97 122 b"
| "language_ok [a, b, d, x, y] \<longleftrightarrow>
     in_range 97 122 a \<and> in_range 97 122 b \<and> d = CHR ''-'' \<and> in_range 65 90 x \<and> in_range 65 90 y"
| "language_ok _ \<longleftrightarrow> False"

definition if_given :: "('v \<Rightarrow> bool) \<Rightarrow> 'v option \<Rightarrow> bool" where
  "if_given ok x \<longleftrightarrow> (case x of None \<Rightarrow> True | Some v \<Rightarrow> ok v)"

definition parse_patch :: "hub_patch \<Rightarrow> hub_patch result" where
  "parse_patch b =
     (let c = \<lparr>pp_first = map_option py_strip (pp_first b), pp_last = map_option py_strip (pp_last b),
               pp_pronouns = map_option py_strip (pp_pronouns b), pp_language = map_option py_strip (pp_language b),
               pp_timezone = map_option py_strip (pp_timezone b), pp_zip = map_option py_strip (pp_zip b)\<rparr>
      in if if_given (length_in 1 80) (pp_first c) \<and> if_given (length_in 1 80) (pp_last c)
            \<and> if_given (length_in 0 20) (pp_pronouns c) \<and> if_given language_ok (pp_language c)
            \<and> if_given (length_in 0 64) (pp_timezone c) \<and> if_given (length_in 3 10) (pp_zip c)
         then Inr c else Inl (HTTPException 422 ''Unprocessable.''))"

definition new_full_name :: "string option \<Rightarrow> string option \<Rightarrow> string option \<Rightarrow> string option result" where
  "new_full_name fname lname old =
     (if fname = None \<and> lname = None then Inr old
      else (case split_full_name old of
              Inl e \<Rightarrow> Inl e
            | Inr (cf, cl) \<Rightarrow>
                (let full = py_strip (or_keep fname (or_string cf '''') @ '' '' @ or_keep lname (or_string cl ''''))
                 in Inr (if full = '''' then old else Some full))))"

definition update_profile_fields :: "hub_patch \<Rightarrow> profile_fields \<Rightarrow> profile_fields result" where
  "update_profile_fields b f =
     (case new_full_name (pp_first b) (pp_last b) (full_name f) of
        Inl e \<Rightarrow> Inl e
      | Inr n \<Rightarrow> Inr \<lparr>full_name = n,
                   pronouns = (if pp_pronouns b = None then pronouns f else pp_pronouns b),
                   preferred_language = (if pp_language b = None then preferred_language f else pp_language b),
                   preferred_timezone = (if pp_timezone b = None then preferred_timezone f else pp_timezone b),
                   profile_zip = (if pp_zip b = None then profile_zip f else pp_zip b)\<rparr>)"

section \<open>The blocks\<close>

record security_block =
  has_password :: bool
  active_sessions_count :: nat
  recent_failed_attempts :: nat

record hub =
  hub_role :: "string option"
  available_roles :: "string list"
  identity_badge :: bool
  hub_profile :: "(string option \<times> string option) option"
  vehicles_total :: "nat option"
  hub_preferences :: "client_profile option"
  hub_provider :: "provider_profile option"
  hub_vehicles :: "(garage_vehicle \<times> string option \<times> bool) list option"
  hub_addresses :: "address list option"
  hub_cards :: "payment_method list option"
  hub_favorites :: "(favorite \<times> provider_profile option) list option"
  hub_security :: "security_block option"
  hub_sessions :: "refresh_token list option"

definition asked :: "string set \<Rightarrow> string \<Rightarrow> 'b \<Rightarrow> 'b option" where
  "asked toks tok block = (if tok \<in> toks then Some block else None)"

definition user_role :: "user \<Rightarrow> string option" where
  "user_role u = (case active_role u of None \<Rightarrow> primary_role u | Some r \<Rightarrow> Some r)"

definition own_preferences :: "user \<Rightarrow> garage \<Rightarrow> client_profile option" where
  "own_preferences u g = find (\<lambda>c. cp_user c = user_id u) (preferences g)"

definition build_provider_block :: "user \<Rightarrow> garage \<Rightarrow> provider_profile option" where
  "build_provider_block u g =
     get_profile (market g) (user_id u) (if active_role u = Some ''mechanic'' then MECHANIC else DETAILER)"

text \<open>The first photo of a vehicle by \<open>sort_order\<close>, as a URL.\<close>

definition first_photo :: "string \<Rightarrow> uuid \<Rightarrow> garage \<Rightarrow> string option" where
  "first_photo bucket_name vid g =
     (case sort_key vp_sort (filter (\<lambda>p. vp_vehicle p = vid) (vehicle_photos g)) of
        [] \<Rightarrow> None
      | p # _ \<Rightarrow> if vp_key p = '''' then None else Some (''/storage/'' @ bucket_name @ ''/'' @ vp_key p))"

definition build_vehicles_block :: "string \<Rightarrow> user \<Rightarrow> garage \<Rightarrow> (garage_vehicle \<times> string option \<times> bool) list" where
  "build_vehicles_block bucket_name u g =
     map (\<lambda>v. (v, first_photo bucket_name (veh_id v) g,
               (case own_preferences u g of None \<Rightarrow> False | Some c \<Rightarrow> default_vehicle c = Some (veh_id v))))
       (filter (\<lambda>v. veh_owner v = user_id u \<and> \<not> veh_deleted v) (garage_rows g))"

definition build_security_block :: "user \<Rightarrow> auth_db \<Rightarrow> security_block" where
  "build_security_block u d =
     \<lparr>has_password = (password_hash u \<noteq> ''''),
      active_sessions_count = rowcount (\<lambda>t. rt_user t = user_id u \<and> \<not> rt_revoked t) (refresh_tokens d),
      recent_failed_attempts = rowcount (\<lambda>h. lh_user h = user_id u \<and> \<not> lh_success h) (login_history d)\<rparr>"

definition build_sessions_block :: "user \<Rightarrow> auth_db \<Rightarrow> refresh_token list" where
  "build_sessions_block u d = rev (filter (\<lambda>t. rt_user t = user_id u \<and> \<not> rt_revoked t) (refresh_tokens d))"

text \<open>\<open>build\<close>: the hub, the tokens that landed and the sensitive ones that were skipped.\<close>

definition build_hub ::
  "string \<Rightarrow> bool \<Rightarrow> user \<Rightarrow> profile_fields \<Rightarrow> include_spec \<Rightarrow> bool \<Rightarrow> auth_db \<Rightarrow> garage \<Rightarrow> (hub \<times> string set \<times> string set) result" where
  "build_hub bucket_name stepped u f spec skip d g =
     (let blocked = (if stepped then {} else effective spec \<inter> SENSITIVE_TOKENS);
          toks = effective spec - blocked
      in case (if ''profile'' \<in> toks then map_sum id Some (split_full_name (full_name f)) else Inr None) of
           Inl e \<Rightarrow> Inl e
         | Inr name \<Rightarrow>
             Inr (\<lparr>hub_role = user_role u, available_roles = role_names u,
                   identity_badge = (case get_profile (market g) (user_id u) DETAILER of
                                       None \<Rightarrow> False | Some p \<Rightarrow> verification_status p = ''approved''),
                   hub_profile = name,
                   vehicles_total = asked toks ''stats'' (length (get_by_owner (user_id u) g)),
                   hub_preferences = (if ''preferences'' \<in> toks then own_preferences u g else None),
                   hub_provider = (if ''provider'' \<in> toks then build_provider_block u g else None),
                   hub_vehicles = asked toks ''vehicles'' (build_vehicles_block bucket_name u g),
                   hub_addresses = asked toks ''addresses'' (list_active (user_id u) (addresses (book g))),
                   hub_cards = asked toks ''payment_methods'' (list_active (user_id u) (cards (book g))),
                   hub_favorites = asked toks ''favorites'' (list_favorites (user_id u) g),
                   hub_security = asked toks ''security'' (build_security_block u d),
                   hub_sessions = asked toks ''sessions'' (build_sessions_block u d)\<rparr>,
                  toks, if skip then blocked else {}))"

text \<open>The step-up is looked up twice: by the endpoint, at \<open>now\<close>, and when the blocks are built, at \<open>now'\<close>.\<close>

definition get_me ::
  "settings \<Rightarrow> string \<Rightarrow> instant \<Rightarrow> instant option \<Rightarrow> instant \<Rightarrow> instant option \<Rightarrow> user \<Rightarrow> profile_fields \<Rightarrow> string option \<Rightarrow> string option \<Rightarrow> auth_db \<Rightarrow> garage \<Rightarrow>
   (hub \<times> string set \<times> string set) result" where
  "get_me st bucket_name now mark now' mark' u f incl on_step_up d g =
     (let skip = (py_lower (or_string on_step_up '''') = ''skip'')
      in case parse_include incl (set (role_names u)) of
           Inl _ \<Rightarrow> Inl (HTTPException 400 ''bad_request'')
         | Inr spec \<Rightarrow>
             if sensitive spec \<noteq> {} \<and> \<not> skip \<and> \<not> is_step_up_recent st now mark u then Inl (unauthorized ''step_up_required'')
             else build_hub bucket_name (is_step_up_recent st now' mark' u) u f spec skip d g)"

definition patch_me ::
  "settings \<Rightarrow> string \<Rightarrow> instant \<Rightarrow> instant option \<Rightarrow> user \<Rightarrow> hub_patch \<Rightarrow> profile_fields \<Rightarrow> auth_db \<Rightarrow> garage \<Rightarrow>
   ((hub \<times> string set \<times> string set) \<times> profile_fields) result" where
  "patch_me st bucket_name now mark u b f d g =
     (case parse_patch b of
        Inl e \<Rightarrow> Inl e
      | Inr c \<Rightarrow>
          (case update_profile_fields c f of
             Inl e \<Rightarrow> Inl e
           | Inr f' \<Rightarrow>
               (case parse_include (Some ''profile,stats'') (set (role_names u)) of
                  Inl t \<Rightarrow> Inl (ValueError t)
                | Inr spec \<Rightarrow>
                    map_sum id (\<lambda>h. (h, f')) (build_hub bucket_name (is_step_up_recent st now mark u) u f' spec False d g))))"

section \<open>Who sees what\<close>

lemma collect_tokens_known: "collect_tokens ps = Inr toks \<Longrightarrow> t \<in> toks \<Longrightarrow> t \<in> ALL_TOKENS"
  by (induction ps arbitrary: toks) (auto simp: Let_def split: if_splits sum.splits)

lemma parse_include_InrD:
  assumes "parse_include raw roles = Inr spec"
  shows "effective spec = Set.filter (granted roles) (requested spec)" "sensitive spec = effective spec \<inter> SENSITIVE_TOKENS"
    and "skipped_for_role spec = requested spec - effective spec" and "requested spec \<subseteq> ALL_TOKENS"
  using assms by (auto simp: parse_include_def dest: collect_tokens_known split: sum.splits)

lemma split_full_name_error: "split_full_name n = Inl e \<Longrightarrow> e = IndexError"
  by (simp add: split_full_name_def split: option.splits if_splits prod.splits)

lemma map_sum_Inl: "map_sum id f r = Inl e \<longleftrightarrow> r = Inl e"
  by (cases r) auto

lemma build_hub_error: "build_hub bucket_name stepped u f spec skip d g = Inl e \<Longrightarrow> e = IndexError"
  by (auto simp: build_hub_def Let_def map_sum_Inl dest: split_full_name_error split: sum.splits if_splits)

lemma build_hub_InrD:
  assumes "build_hub bucket_name stepped u f spec skip d g = Inr (h, populated, skipped)"
  shows "populated = effective spec - (if stepped then {} else effective spec \<inter> SENSITIVE_TOKENS)"
    and "skipped = (if skip then if stepped then {} else effective spec \<inter> SENSITIVE_TOKENS else {})"
    and "hub_vehicles h = asked populated ''vehicles'' (build_vehicles_block bucket_name u g)"
    and "hub_addresses h = asked populated ''addresses'' (list_active (user_id u) (addresses (book g)))"
    and "hub_cards h = asked populated ''payment_methods'' (list_active (user_id u) (cards (book g)))"
    and "hub_favorites h = asked populated ''favorites'' (list_favorites (user_id u) g)"
    and "hub_security h = asked populated ''security'' (build_security_block u d)"
    and "hub_sessions h = asked populated ''sessions'' (build_sessions_block u d)"
    and "hub_provider h = (if ''provider'' \<in> populated then build_provider_block u g else None)"
    and "hub_preferences h = (if ''preferences'' \<in> populated then own_preferences u g else None)"
    and "vehicles_total h = asked populated ''stats'' (length (get_by_owner (user_id u) g))"
    and "''profile'' \<in> populated \<Longrightarrow> \<exists>n. split_full_name (full_name f) = Inr n \<and> hub_profile h = Some n"
proof -
  let ?toks = "effective spec - (if stepped then {} else effective spec \<inter> SENSITIVE_TOKENS)"
  obtain name where n: "(if ''profile'' \<in> ?toks then map_sum id Some (split_full_name (full_name f)) else Inr None) = Inr name"
    using assms unfolding build_hub_def Let_def by (cases "if ''profile'' \<in> ?toks then map_sum id Some (split_full_name (full_name f)) else Inr None") simp_all
  note e = assms [unfolded build_hub_def Let_def n sum.case]
  from e show "populated = effective spec - (if stepped then {} else effective spec \<inter> SENSITIVE_TOKENS)"
    "skipped = (if skip then if stepped then {} else effective spec \<inter> SENSITIVE_TOKENS else {})" by simp_all
  from e show "hub_vehicles h = asked populated ''vehicles'' (build_vehicles_block bucket_name u g)"
    "hub_addresses h = asked populated ''addresses'' (list_active (user_id u) (addresses (book g)))"
    "hub_cards h = asked populated ''payment_methods'' (list_active (user_id u) (cards (book g)))"
    "hub_favorites h = asked populated ''favorites'' (list_favorites (user_id u) g)"
    "hub_security h = asked populated ''security'' (build_security_block u d)"
    "hub_sessions h = asked populated ''sessions'' (build_sessions_block u d)"
    "hub_provider h = (if ''provider'' \<in> populated then build_provider_block u g else None)"
    "hub_preferences h = (if ''preferences'' \<in> populated then own_preferences u g else None)"
    "vehicles_total h = asked populated ''stats'' (length (get_by_owner (user_id u) g))" by auto
  assume "''profile'' \<in> populated"
  with e have "''profile'' \<in> ?toks" "hub_profile h = name" by auto
  with n show "\<exists>n. split_full_name (full_name f) = Inr n \<and> hub_profile h = Some n"
    by (cases "split_full_name (full_name f)") auto
qed

text \<open>
  C36. The hub keeps the sensitive blocks, and only those, behind the step-up. The request is refused with 401
  exactly when security or sessions were asked for and granted to the role, the caller has not stepped up and
  did not ask to skip. An answer populates every granted block but, if the step-up is missing or has run out
  when the blocks are built, exactly the sensitive ones; those are listed as skipped if skipping was asked for;
  and a block is in the answer exactly when it is populated.
\<close>

theorem sensitive_blocks_need_step_up:
  assumes "parse_include incl (set (role_names u)) = Inr spec"
  shows "(get_me st bucket_name now mark now' mark' u f incl on_step_up d g = Inl (unauthorized ''step_up_required'')) =
      (effective spec \<inter> SENSITIVE_TOKENS \<noteq> {} \<and> py_lower (or_string on_step_up '''') \<noteq> ''skip'' \<and> \<not> is_step_up_recent st now mark u)
    \<and> (\<forall>h populated skipped. get_me st bucket_name now mark now' mark' u f incl on_step_up d g = Inr (h, populated, skipped) \<longrightarrow>
      populated = (if is_step_up_recent st now' mark' u then effective spec else effective spec - {''security'', ''sessions''})
      \<and> skipped = (if py_lower (or_string on_step_up '''') = ''skip'' then effective spec - populated else {})
      \<and> (hub_security h \<noteq> None) = (''security'' \<in> populated) \<and> (hub_sessions h \<noteq> None) = (''sessions'' \<in> populated)
      \<and> (hub_vehicles h \<noteq> None) = (''vehicles'' \<in> populated) \<and> (hub_addresses h \<noteq> None) = (''addresses'' \<in> populated)
      \<and> (hub_cards h \<noteq> None) = (''payment_methods'' \<in> populated) \<and> (hub_favorites h \<noteq> None) = (''favorites'' \<in> populated)
      \<and> (vehicles_total h \<noteq> None) = (''stats'' \<in> populated))"
proof (intro conjI allI impI)
  have no: "build_hub bucket_name stepped u f spec skip d g \<noteq> Inl (unauthorized m)" for stepped skip m
    by (auto simp: unauthorized_def dest: build_hub_error)
  show "(get_me st bucket_name now mark now' mark' u f incl on_step_up d g = Inl (unauthorized ''step_up_required'')) =
      (effective spec \<inter> SENSITIVE_TOKENS \<noteq> {} \<and> py_lower (or_string on_step_up '''') \<noteq> ''skip'' \<and> \<not> is_step_up_recent st now mark u)"
    using parse_include_InrD(2) [OF assms] no by (auto simp: get_me_def assms Let_def)
next
  fix h populated skipped
  assume m: "get_me st bucket_name now mark now' mark' u f incl on_step_up d g = Inr (h, populated, skipped)"
  let ?stepped = "is_step_up_recent st now' mark' u" and ?skip = "py_lower (or_string on_step_up '''') = ''skip''"
  from m have b: "build_hub bucket_name ?stepped u f spec ?skip d g = Inr (h, populated, skipped)"
    by (auto simp: get_me_def assms Let_def split: if_splits)
  note p = build_hub_InrD [OF b]
  show "populated = (if ?stepped then effective spec else effective spec - {''security'', ''sessions''})"
    and "skipped = (if ?skip then effective spec - populated else {})"
    unfolding p(1,2) by (auto simp: SENSITIVE_TOKENS_def)
  show "(hub_security h \<noteq> None) = (''security'' \<in> populated)" "(hub_sessions h \<noteq> None) = (''sessions'' \<in> populated)"
    "(hub_vehicles h \<noteq> None) = (''vehicles'' \<in> populated)" "(hub_addresses h \<noteq> None) = (''addresses'' \<in> populated)"
    "(hub_cards h \<noteq> None) = (''payment_methods'' \<in> populated)" "(hub_favorites h \<noteq> None) = (''favorites'' \<in> populated)"
    "(vehicles_total h \<noteq> None) = (''stats'' \<in> populated)"
    unfolding p(3-) asked_def by simp_all
qed

lemma list_favorites_owner:
  assumes "(f, p) \<in> set (list_favorites uid g)"
  shows "fav_user f = uid"
proof -
  have "fst r = x" if "r \<in> set (case ps of [] \<Rightarrow> [(x, None)] | qs \<Rightarrow> map (\<lambda>p. (x, Some p)) qs)"
    for r and x :: favorite and ps :: "provider_profile list"
    using that by (auto split: list.splits)
  with assms show ?thesis by (fastforce simp: list_favorites_def)
qed

text \<open>
  The hub shows the caller's own rows only: every vehicle, address, payment method, favourite, session,
  profile and preference in the answer belongs to the account that asked.
\<close>

lemma hub_shows_own_rows:
  assumes "get_me st bucket_name now mark now' mark' u f incl on_step_up d g = Inr (h, populated, skipped)"
  shows "(\<forall>vs v x y. hub_vehicles h = Some vs \<longrightarrow> (v, x, y) \<in> set vs \<longrightarrow> veh_owner v = user_id u \<and> \<not> veh_deleted v)
    \<and> (\<forall>as a. hub_addresses h = Some as \<longrightarrow> a \<in> set as \<longrightarrow> row_user a = user_id u \<and> \<not> is_deleted a)
    \<and> (\<forall>cs c. hub_cards h = Some cs \<longrightarrow> c \<in> set cs \<longrightarrow> row_user c = user_id u \<and> \<not> is_deleted c)
    \<and> (\<forall>fs v p. hub_favorites h = Some fs \<longrightarrow> (v, p) \<in> set fs \<longrightarrow> fav_user v = user_id u)
    \<and> (\<forall>ts t. hub_sessions h = Some ts \<longrightarrow> t \<in> set ts \<longrightarrow> rt_user t = user_id u \<and> \<not> rt_revoked t)
    \<and> (\<forall>p. hub_provider h = Some p \<longrightarrow> prof_user p = user_id u) \<and> (\<forall>c. hub_preferences h = Some c \<longrightarrow> cp_user c = user_id u)"
proof -
  from assms obtain spec skip stepped where b: "build_hub bucket_name stepped u f spec skip d g = Inr (h, populated, skipped)"
    by (auto simp: get_me_def Let_def split: sum.splits if_splits)
  note blocks = build_hub_InrD(3-10) [OF b]
  show ?thesis unfolding blocks asked_def
    by (auto simp: build_vehicles_block_def list_active_def live_of_def build_sessions_block_def build_provider_block_def
        get_profile_def own_preferences_def find_Some_iff dest: list_favorites_owner split: if_splits)
qed

section \<open>Names\<close>

lemma strip_ends:
  assumes "py_strip s = s" and "s \<noteq> []"
  shows "\<not> py_isspace (hd s)" and "\<not> py_isspace (last s)"
proof -
  let ?l = "dropWhile py_isspace s" and ?r = "\<lambda>t. rev (dropWhile py_isspace (rev t))"
  have s: "s = ?r ?l" using assms(1) by (simp add: py_strip_def)
  have "length (?r ?l) \<le> length ?l" by (metis length_dropWhile_le length_rev)
  then have "length s \<le> length ?l" using s by metis
  then have "?l = s" by (metis dropWhile_eq_drop append_take_drop_id takeWhile_dropWhile_id length_append
        add_le_same_cancel2 le_zero_eq length_0_conv append_self_conv2)
  then show "\<not> py_isspace (hd s)" using assms(2) by (metis hd_dropWhile)
  with \<open>?l = s\<close> s have "rev s = dropWhile py_isspace (rev s)" by (metis rev_rev_ident)
  then show "\<not> py_isspace (last s)" using assms(2) by (metis hd_dropWhile hd_rev rev_is_Nil_conv)
qed

lemma strip_id:
  assumes "s \<noteq> []" and "\<not> py_isspace (hd s)" and "\<not> py_isspace (last s)"
  shows "py_strip s = s"
proof -
  have "dropWhile py_isspace s = s" using assms(1,2) by (cases s) auto
  moreover have "dropWhile py_isspace (rev s) = rev s" using assms(1,3) by (cases s rule: rev_cases) auto
  ultimately show ?thesis by (simp add: py_strip_def)
qed

lemma py_strip_idem: "py_strip (py_strip s) = py_strip s"
proof (cases "py_strip s = []")
  case False
  let ?l = "dropWhile py_isspace s"
  have st: "py_strip s = rev (dropWhile py_isspace (rev ?l))" by (simp add: py_strip_def)
  have l: "?l \<noteq> []"
  proof
    assume e: "?l = []"
    have "py_strip s = []" unfolding st e by simp
    with False show False by simp
  qed
  have "\<not> py_isspace (last (py_strip s))" using False unfolding st by (simp add: last_rev hd_dropWhile)
  moreover have "hd (py_strip s) = hd ?l"
  proof -
    have "?l = py_strip s @ rev (takeWhile py_isspace (rev ?l))"
      unfolding st by (metis rev_append rev_rev_ident takeWhile_dropWhile_id)
    with False show ?thesis by (metis hd_append2)
  qed
  moreover have "\<not> py_isspace (hd ?l)" using l by (rule hd_dropWhile)
  ultimately show ?thesis using False by (intro strip_id) simp_all
next
  case True
  then show ?thesis by (simp only: True) (simp add: py_strip_def)
qed

lemma strip_fixes_parsed:
  assumes "parse_patch b = Inr c" and "pp_first c = Some f \<or> pp_last c = Some f"
  shows "py_strip f = f" and "f \<noteq> []"
  using assms by (auto simp: parse_patch_def Let_def if_given_def length_in_def py_strip_idem split: if_splits)

text \<open>Splitting a first name without blanks and a last name that are joined by one blank.\<close>

lemma split_joined_name:
  assumes f: "f \<noteq> []" "\<forall>c \<in> set f. \<not> py_isspace c" and l: "l \<noteq> []" "py_strip l = l"
  shows "py_strip (f @ '' '' @ l) = f @ '' '' @ l" and "split_full_name (Some (f @ '' '' @ l)) = Inr (Some f, Some l)"
proof -
  have sp: "py_isspace CHR '' ''" by code_simp
  show st: "py_strip (f @ '' '' @ l) = f @ '' '' @ l"
    using f strip_ends [OF l(2,1)] l(1) by (intro strip_id) auto
  have tw: "takeWhile (\<lambda>c. \<not> py_isspace c) (f @ '' '' @ l) = f"
    using f(2) sp by (simp add: takeWhile_append2)
  have "dropWhile py_isspace (drop (length f) (f @ '' '' @ l)) = l"
    using sp strip_ends [OF l(2,1)] l(1) by (cases l) auto
  then have "split_once (f @ '' '' @ l) = (f, l)" by (simp only: split_once_def tw Let_def)
  moreover have "f @ '' '' @ l \<noteq> []" by simp
  ultimately show "split_full_name (Some (f @ '' '' @ l)) = Inr (Some f, Some l)"
    using l(1) by (simp only: split_full_name_def option.case st if_False prod.case)
qed

text \<open>
  A name is read back as it was written: after an accepted edit of first and last name the profile
  shows exactly the two, stripped, provided the first name is one word.
\<close>

lemma name_edit_round_trip:
  assumes "parse_patch b = Inr c" and "pp_first c = Some fname" and "pp_last c = Some lname"
    and "\<forall>x \<in> set fname. \<not> py_isspace x" and "split_full_name (full_name f) = Inr old"
  shows "\<exists>f'. update_profile_fields c f = Inr f' \<and> split_full_name (full_name f') = Inr (Some fname, Some lname)"
proof -
  have p: "py_strip fname = fname" "fname \<noteq> []" "py_strip lname = lname" "lname \<noteq> []"
    using strip_fixes_parsed [OF assms(1)] assms(2,3) by auto
  note j = split_joined_name [OF p(2) assms(4) p(4,3)]
  have "new_full_name (Some fname) (Some lname) (full_name f) = Inr (Some (fname @ '' '' @ lname))"
    using assms(5) j(1) by (cases old) (simp add: new_full_name_def or_keep_def)
  with j(2) assms(2,3) show ?thesis by (simp add: update_profile_fields_def)
qed

text \<open>A first name of two words comes back with its second word in the last name.\<close>

lemma double_first_name_shifts:
  assumes "fname = a @ '' '' @ b" and "a \<noteq> []" and "\<forall>x \<in> set a. \<not> py_isspace x" and "b \<noteq> []" and "py_strip (b @ '' '' @ l) = b @ '' '' @ l"
    and "split_full_name old = Inr v"
  shows "\<exists>n. new_full_name (Some fname) (Some l) old = Inr n \<and> split_full_name n = Inr (Some a, Some (b @ '' '' @ l))"
proof -
  note j = split_joined_name [OF assms(2,3) _ assms(5)]
  have "new_full_name (Some fname) (Some l) old = Inr (Some (a @ '' '' @ b @ '' '' @ l))"
    using j(1) assms(1,6) by (cases v) (simp add: new_full_name_def or_keep_def)
  with j(2) show ?thesis by simp
qed

section \<open>What counts as a session\<close>

text \<open>A rotation leaves the used token unrevoked: every refresh adds one to the count of active sessions.\<close>

lemma rotation_counts_as_session:
  assumes "mark_used_atomic tid now d = (True, d1)" and "create_refresh sha new_tid (user_id u) raw fam expires d1 = Inr d2"
  shows "active_sessions_count (build_security_block u d2) = active_sessions_count (build_security_block u d) + 1"
proof -
  have "rowcount (\<lambda>t. rt_user t = user_id u \<and> \<not> rt_revoked t) (update_where p (\<lambda>t. t\<lparr>rt_used := Some now\<rparr>) rows)
      = rowcount (\<lambda>t. rt_user t = user_id u \<and> \<not> rt_revoked t) rows" for p and rows :: "refresh_token list"
    by (induction rows) (simp_all add: rowcount_def)
  with assms show ?thesis
    by (auto simp: build_security_block_def mark_used_atomic_def on_refresh_def create_refresh_def Let_def rowcount_def split: if_splits)
qed

text \<open>The tokens of the answer are a subset of what was asked, and nothing unknown gets through.\<close>

lemma unknown_token_refused:
  assumes "get_me st bucket_name now mark now' mark' u f (Some raw) on_step_up d g = Inr r" and "raw \<noteq> ''''" and "t \<in> set (split_commas raw)" and "py_strip t \<noteq> ''''"
  shows "py_strip t \<in> ALL_TOKENS"
proof -
  have "collect_tokens ps = Inr toks \<Longrightarrow> t \<in> set ps \<Longrightarrow> py_strip t \<in> ALL_TOKENS" for ps toks
    using assms(4) by (induction ps arbitrary: toks) (auto simp: Let_def split: if_splits sum.splits)
  with assms(1-3) show ?thesis by (auto simp: get_me_def parse_include_def Let_def split: sum.splits)
qed

section \<open>Witnesses\<close>

definition demo_fields :: profile_fields where
  "demo_fields = \<lparr>full_name = Some ''Ann Lee'', pronouns = None, preferred_language = None, preferred_timezone = None, profile_zip = None\<rparr>"

definition demo_edit :: hub_patch where
  "demo_edit = \<lparr>pp_first = Some ''Mia'', pp_last = Some ''van Dyk'', pp_pronouns = None, pp_language = None, pp_timezone = None, pp_zip = None\<rparr>"

definition quiet_auth :: auth_db where
  "quiet_auth = \<lparr>core = demo_market, refresh_tokens = [], login_sessions = [], reset_tokens = [], verify_tokens = [], login_history = []\<rparr>"

definition settled :: garage where
  "settled = parked\<lparr>preferences := [(blank_preferences 1)\<lparr>default_vehicle := Some 3, marketing_opt_in := True\<rparr>]\<rparr>"

lemma demo_edit_parses: "parse_patch demo_edit = Inr demo_edit"
  by code_simp

lemma demo_edit_read_back:
  "\<exists>f'. update_profile_fields demo_edit demo_fields = Inr f' \<and> split_full_name (full_name f') = Inr (Some ''Mia'', Some ''van Dyk'')"
proof (rule name_edit_round_trip [OF demo_edit_parses])
  show "pp_first demo_edit = Some ''Mia''" "pp_last demo_edit = Some ''van Dyk''" by (simp_all add: demo_edit_def)
  show "\<forall>x \<in> set ''Mia''. \<not> py_isspace x" by code_simp
  show "split_full_name (full_name demo_fields) = Inr (Some ''Ann'', Some ''Lee'')" by code_simp
qed

lemma demo_spec: "parse_include (Some ''profile, security'') {''client''} =
    Inr \<lparr>requested = {''profile'', ''security''}, effective = {''profile'', ''security''}, skipped_for_role = {}, sensitive = {''security''}\<rparr>"
  by code_simp

lemma demo_not_stepped: "\<not> is_step_up_recent default_settings (days 20000) None demo_client"
  by (simp add: is_step_up_recent_def Let_def demo_client_def demo_detailer_def)

text \<open>Without a step-up the security block is refused, or left out on request, and the profile is there.\<close>

theorem sensitive_blocks_need_step_up_witness:
  "get_me default_settings ''public'' (days 20000) None (days 20000) None demo_client demo_fields (Some ''profile, security'') None quiet_auth
       (empty_garage demo_market empty_wallet) = Inl (unauthorized ''step_up_required'') \<and>
   (\<exists>h. get_me default_settings ''public'' (days 20000) None (days 20000) None demo_client demo_fields (Some ''profile, security'') (Some ''skip'') quiet_auth
       (empty_garage demo_market empty_wallet) = Inr (h, {''profile''}, {''security''}) \<and> hub_security h = None)"
proof
  have r: "set (role_names demo_client) = {''client''}" by (simp add: demo_client_def)
  note spec = demo_spec [folded r]
  have "py_lower (or_string None '''') \<noteq> ''skip''" by code_simp
  with demo_not_stepped sensitive_blocks_need_step_up [OF spec, where st = default_settings and now = "days 20000" and mark = None and on_step_up = None]
  show "get_me default_settings ''public'' (days 20000) None (days 20000) None demo_client demo_fields (Some ''profile, security'') None quiet_auth
       (empty_garage demo_market empty_wallet) = Inl (unauthorized ''step_up_required'')" by (simp add: SENSITIVE_TOKENS_def)
  let ?me = "get_me default_settings ''public'' (days 20000) None (days 20000) None demo_client demo_fields (Some ''profile, security'') (Some ''skip'') quiet_auth
       (empty_garage demo_market empty_wallet)"
  have skip: "py_lower (or_string (Some ''skip'') '''') = ''skip''" by code_simp
  have "split_full_name (full_name demo_fields) = Inr (Some ''Ann'', Some ''Lee'')" by code_simp
  then have "\<exists>h populated skipped. ?me = Inr (h, populated, skipped)"
    using skip by (simp add: get_me_def spec build_hub_def Let_def)
  then obtain h populated skipped where m: "?me = Inr (h, populated, skipped)" by blast
  note c = sensitive_blocks_need_step_up [OF spec, THEN conjunct2, rule_format, OF m]
  from c have "populated = {''profile''}" using demo_not_stepped by auto
  with c skip have "skipped = {''security''}" "hub_security h = None" by auto
  with m \<open>populated = {''profile''}\<close> show "\<exists>h. ?me = Inr (h, {''profile''}, {''security''}) \<and> hub_security h = None" by blast
qed

lemma settled_hub:
  "\<exists>h populated skipped. get_me default_settings ''public'' 0 None 0 None demo_client demo_fields (Some ''vehicles'') None quiet_auth settled
      = Inr (h, populated, skipped) \<and> hub_vehicles h = Some [(truck_row, None, True)] \<and> veh_owner truck_row = user_id demo_client"
proof -
  have spec: "parse_include (Some ''vehicles'') {''client''} =
      Inr \<lparr>requested = {''vehicles''}, effective = {''vehicles''}, skipped_for_role = {}, sensitive = {}\<rparr>"
    by code_simp
  have r: "set (role_names demo_client) = {''client''}" by (simp add: demo_client_def)
  have p: "garage_rows settled = [truck_row]" "vehicle_photos settled = []"
    "preferences settled = [(blank_preferences 1)\<lparr>default_vehicle := Some 3, marketing_opt_in := True\<rparr>]"
    by (simp_all add: settled_def parked_def put_vehicles_def empty_garage_def)
  have v: "build_vehicles_block ''public'' demo_client settled = [(truck_row, None, True)]"
    by (simp add: build_vehicles_block_def first_photo_def own_preferences_def p demo_client_facts truck_row_def blank_preferences_def)
  obtain h populated skipped where m: "get_me default_settings ''public'' 0 None 0 None demo_client demo_fields (Some ''vehicles'') None quiet_auth settled
      = Inr (h, populated, skipped)" and h: "hub_vehicles h = Some [(truck_row, None, True)]"
    using v by (auto simp: get_me_def Let_def r spec build_hub_def asked_def SENSITIVE_TOKENS_def)
  from hub_shows_own_rows [OF m] h have "veh_owner truck_row = user_id demo_client" by auto
  with m h show ?thesis by blast
qed

end
