(* ===== verification/Social_Login.thy ===== *)
theory Social_Login
  imports Login
begin

text \<open>
  Signing in with Google and Apple (domains/auth/routers/social.py), the check of their identity tokens
  (\<open>exchange_google_code\<close>, \<open>verify_apple_token\<close> of domains/auth/service.py) and the table of linked
  identities (auth_provider_repository.py). The providers' endpoints and the JWT library are parameters:
  \<open>post\<close> answers the exchange of a code, an \<open>issuer\<close> has its published keys, reads the header of a token and
  checks a token under a key for an audience. An HTTP failure is a missing answer.
\<close>

section \<open>Identity tokens\<close>

record id_claims =
  ic_sub :: "string option"
  ic_email :: "string option"
  ic_verified :: bool

record token_reply =
  tr_status :: nat
  tr_text :: string
  tr_error :: "string option"
  tr_id_token :: "string option"

record issuer =
  jwks :: "string option list option"
  header_kid :: "string \<Rightarrow> string option option"
  check_id_token :: "string option \<Rightarrow> string option \<Rightarrow> string \<Rightarrow> id_claims option"

record social_ctx =
  sc_settings :: settings
  sc_sha :: "string \<Rightarrow> string"
  sc_encode :: "claims \<Rightarrow> string"
  sc_post :: "string \<Rightarrow> string \<Rightarrow> string \<Rightarrow> token_reply"
  sc_google :: issuer
  sc_apple :: issuer
  GOOGLE_CLIENT_ID :: string
  GOOGLE_ALLOWED_REDIRECT_URIS :: "string list"
  APPLE_BUNDLE_ID :: string

definition nonblank :: "string option \<Rightarrow> string option" where
  "nonblank x = (case x of None \<Rightarrow> None | Some s \<Rightarrow> if s = '''' then None else Some s)"

definition exchange_google_code :: "social_ctx \<Rightarrow> string \<Rightarrow> string \<Rightarrow> string \<Rightarrow> (string \<times> string) result" where
  "exchange_google_code x code verifier redirect =
     (let r = sc_post x code verifier redirect in
      if tr_status r \<noteq> 200 then Inl (ValueError (''Google token exchange failed: '' @ tr_text r))
      else case tr_error r of
        Some e \<Rightarrow> Inl (ValueError (''Google error: '' @ e))
      | None \<Rightarrow>
          (case nonblank (tr_id_token r) of
             None \<Rightarrow> Inl (ValueError ''Google response did not include an id_token.'')
           | Some tok \<Rightarrow>
               (case jwks (sc_google x) of
                  None \<Rightarrow> Inl (AdapterError ''certs'')
                | Some keys \<Rightarrow>
                    (case header_kid (sc_google x) tok of
                       None \<Rightarrow> Inl (ValueError ''Cannot parse Google id_token header.'')
                     | Some kid \<Rightarrow>
                         if kid \<notin> set keys then Inl (ValueError ''No Google public key matches the kid.'')
                         else (case check_id_token (sc_google x) kid (nonblank (Some (GOOGLE_CLIENT_ID x))) tok of
                                 None \<Rightarrow> Inl (ValueError ''Google id_token verification failed.'')
                               | Some c \<Rightarrow>
                                   if \<not> ic_verified c then Inl (ValueError ''Google account email is not verified.'')
                                   else (case nonblank (ic_sub c) of
                                           None \<Rightarrow> Inl (ValueError ''Google id_token is missing the sub claim.'')
                                         | Some uid \<Rightarrow> Inr (uid, py_lower (or_string (ic_email c) ''''))))))))"

definition verify_apple_token :: "social_ctx \<Rightarrow> string \<Rightarrow> id_claims result" where
  "verify_apple_token x tok =
     (case header_kid (sc_apple x) tok of
        None \<Rightarrow> Inl (ValueError ''Cannot parse Apple identity_token header.'')
      | Some k \<Rightarrow>
          (case nonblank k of
             None \<Rightarrow> Inl (ValueError ''Apple identity_token is missing the kid header.'')
           | Some kid \<Rightarrow>
               (case jwks (sc_apple x) of
                  None \<Rightarrow> Inl (ValueError ''Could not fetch Apple JWKS.'')
                | Some keys \<Rightarrow>
                    if Some kid \<notin> set keys then Inl (ValueError ''No Apple public key matches the kid.'')
                    else (case check_id_token (sc_apple x) (Some kid) (nonblank (Some (APPLE_BUNDLE_ID x))) tok of
                            None \<Rightarrow> Inl (ValueError ''Apple identity_token verification failed.'')
                          | Some c \<Rightarrow> if nonblank (ic_sub c) = None then Inl (ValueError ''Apple identity_token is missing the sub claim.'')
                                     else Inr c))))"

section \<open>Linked identities\<close>

record auth_provider =
  ap_id :: uuid
  ap_user :: uuid
  ap_provider :: string
  ap_uid :: string
  ap_email :: "string option"

record identity_db =
  id_accounts :: auth_db
  auth_providers :: "auth_provider list"

definition on_accounts :: "(auth_db \<Rightarrow> auth_db) \<Rightarrow> identity_db \<Rightarrow> identity_db" where
  "on_accounts f d = d\<lparr>id_accounts := f (id_accounts d)\<rparr>"

definition get_by_provider :: "string \<Rightarrow> string \<Rightarrow> identity_db \<Rightarrow> auth_provider option" where
  "get_by_provider prov uid d = find (\<lambda>r. ap_provider r = prov \<and> ap_uid r = uid) (auth_providers d)"

definition create_provider :: "uuid \<Rightarrow> uuid \<Rightarrow> string \<Rightarrow> string \<Rightarrow> string option \<Rightarrow> identity_db \<Rightarrow> identity_db result" where
  "create_provider rid usr prov uid mail d =
     (if \<exists>r \<in> set (auth_providers d). ap_id r = rid \<or> ap_provider r = prov \<and> ap_uid r = uid
      then Inl (IntegrityError ''uq_auth_providers_provider_uid'')
      else Inr (d\<lparr>auth_providers := auth_providers d @
             [\<lparr>ap_id = rid, ap_user = usr, ap_provider = prov, ap_uid = uid, ap_email = mail\<rparr>]\<rparr>))"

definition get_providers_for_user :: "uuid \<Rightarrow> identity_db \<Rightarrow> auth_provider list" where
  "get_providers_for_user uid d = filter (\<lambda>r. ap_user r = uid) (auth_providers d)"

section \<open>The endpoints\<close>

definition confirm_address :: "user \<Rightarrow> user" where
  "confirm_address u = u\<lparr>user_verified := True\<rparr>"

text \<open>
  The part both endpoints share, from the lookup of the identity on: the account it is linked to, else the
  account with its address, which is linked and counts as verified, else a new one whose password is the hash
  \<open>h\<close> of a random secret. Google's answer always has an address, if only an empty one.
\<close>

definition find_or_link ::
  "string \<Rightarrow> string \<Rightarrow> string option \<Rightarrow> uuid \<Rightarrow> uuid \<Rightarrow> string \<Rightarrow> identity_db \<Rightarrow> (user \<times> bool \<times> identity_db) result" where
  "find_or_link prov uid mail new_uid rid h d =
     (case get_by_provider prov uid d of
        Some r \<Rightarrow>
          (case user_by_id (core (id_accounts d)) (ap_user r) of
             None \<Rightarrow> Inl (HTTPException 404 ''Account not found.'')
           | Some u \<Rightarrow> Inr (u, False, d))
      | None \<Rightarrow>
          (case mail of
             None \<Rightarrow> Inl (HTTPException 400 ''Apple did not include an email in this token.'')
           | Some m \<Rightarrow>
               (case user_by_email (core (id_accounts d)) m of
                  Some u \<Rightarrow>
                    (case create_provider rid (user_id u) prov uid mail d of
                       Inl e \<Rightarrow> Inl e
                     | Inr d1 \<Rightarrow> Inr (confirm_address u, False, on_accounts (on_user (user_id u) confirm_address) d1))
                | None \<Rightarrow>
                    (let u = confirm_address (new_user new_uid m h) in
                     case create_user u (core (id_accounts d)) of
                       Inl e \<Rightarrow> Inl e
                     | Inr c \<Rightarrow>
                         (case create_provider rid new_uid prov uid mail (on_accounts (on_core (\<lambda>_. c)) d) of
                            Inl e \<Rightarrow> Inl e
                          | Inr d1 \<Rightarrow>
                              Inr (u, True, on_accounts (on_core (audit_log ''user_registered'' ''user'' (Some new_uid) [])) d1))))))"

record social_reply =
  sr_new :: bool
  sr_login :: login_reply
  sr_role :: "string option"

text \<open>From the check of the account on. A missing role is an empty \<open>role\<close> claim.\<close>

definition finish_social ::
  "social_ctx \<Rightarrow> instant \<Rightarrow> fresh \<Rightarrow> string \<Rightarrow> user \<times> bool \<times> identity_db \<Rightarrow> (social_reply \<times> identity_db) result" where
  "finish_social x now fr prov r =
     (case r of (u, is_new, d) \<Rightarrow>
      if \<not> user_active u \<or> user_deleted u then Inl (unauthorized ''Account deactivated.'')
      else (let d1 = on_accounts (on_core (audit_log ''user_social_login'' ''user'' (Some (user_id u)) [])) d in
            if \<not> onboarding_completed u
            then Inr (\<lparr>sr_new = True, sr_login = Onboarding (sc_encode x (create_onboarding_token (sc_settings x) now (user_id u))),
                       sr_role = None\<rparr>, d1)
            else (let access = create_access_token (sc_settings x) now (user_id u) (or_string (primary_role u) '''') (token_version u) None in
                  case create_refresh (sc_sha x) (fr_token fr) (user_id u) (fr_raw fr) (fr_family fr)
                         (now + days (REFRESH_TOKEN_EXPIRE_DAYS (sc_settings x))) (id_accounts d1) of
                    Inl e \<Rightarrow> Inl e
                  | Inr a \<Rightarrow>
                      Inr (\<lparr>sr_new = is_new, sr_login = Tokens (sc_encode x access) (fr_raw fr), sr_role = primary_role u\<rparr>,
                           d1\<lparr>id_accounts := record_step_up_success now (user_id u) prov a\<rparr>))))"

definition and_then :: "'a result \<Rightarrow> ('a \<Rightarrow> 'b result) \<Rightarrow> 'b result" where
  "and_then r f = (case r of Inl e \<Rightarrow> Inl e | Inr v \<Rightarrow> f v)"

text \<open>What the environment supplies to a sign-up: the new account, the row of the identity, the unusable password.\<close>

record sign_up =
  su_user :: uuid
  su_row :: uuid
  su_hash :: string

definition google_login ::
  "social_ctx \<Rightarrow> instant \<Rightarrow> fresh \<Rightarrow> sign_up \<Rightarrow> string \<Rightarrow> string \<Rightarrow> string \<Rightarrow> identity_db \<Rightarrow> (social_reply \<times> identity_db) result" where
  "google_login x now fr su code verifier redirect d =
     (if redirect \<notin> set (GOOGLE_ALLOWED_REDIRECT_URIS x) then Inl (HTTPException 400 ''redirect_uri not allowed.'')
      else (case exchange_google_code x code verifier redirect of
              Inl (ValueError m) \<Rightarrow> Inl (HTTPException (if contains ''not verified'' m then 403 else 401) m)
            | Inl e \<Rightarrow> Inl e
            | Inr (uid, mail) \<Rightarrow>
                and_then (find_or_link ''google'' uid (Some mail) (su_user su) (su_row su) (su_hash su) d) (finish_social x now fr ''google'')))"

definition apple_login ::
  "social_ctx \<Rightarrow> instant \<Rightarrow> fresh \<Rightarrow> sign_up \<Rightarrow> string \<Rightarrow> identity_db \<Rightarrow> (social_reply \<times> identity_db) result" where
  "apple_login x now fr su tok d =
     (case verify_apple_token x tok of
        Inl (ValueError m) \<Rightarrow> Inl (unauthorized m)
      | Inl e \<Rightarrow> Inl e
      | Inr c \<Rightarrow>
          and_then (find_or_link ''apple'' (the (ic_sub c)) (nonblank (Some (py_lower (or_string (ic_email c) '''')))) (su_user su) (su_row su) (su_hash su) d)
            (finish_social x now fr ''apple''))"

section \<open>A sign-in sticks to its account\<close>

text \<open>
  Requests against the identities: the two endpoints, and anything else that happens to the accounts
  (registrations, changes of address, deletions) but leaves the linked identities alone.
\<close>

datatype social_request =
    Google_Login instant fresh sign_up string string string
  | Apple_Login instant fresh sign_up string
  | Elsewhere "auth_db \<Rightarrow> auth_db"

fun social_handler :: "social_ctx \<Rightarrow> social_request \<Rightarrow> identity_db \<Rightarrow> (social_reply option \<times> identity_db) result" where
  "social_handler x (Google_Login now fr su code verifier redirect) d =
     map_sum id (\<lambda>(r, d). (Some r, d)) (google_login x now fr su code verifier redirect d)"
| "social_handler x (Apple_Login now fr su tok) d = map_sum id (\<lambda>(r, d). (Some r, d)) (apple_login x now fr su tok d)"
| "social_handler x (Elsewhere f) d = Inr (None, on_accounts f d)"

definition social_step :: "social_ctx \<Rightarrow> social_request \<Rightarrow> identity_db \<Rightarrow> identity_db" where
  "social_step x rq d = snd (run_request (social_handler x rq) d)"

text \<open>The identity a request proves, and the account a reply is for: \<open>sub\<close> reads the claim of that name from a token.\<close>

fun identity_of :: "social_ctx \<Rightarrow> social_request \<Rightarrow> (string \<times> string) option" where
  "identity_of x (Google_Login now fr su code verifier redirect) =
     (case exchange_google_code x code verifier redirect of Inl _ \<Rightarrow> None | Inr (uid, _) \<Rightarrow> Some (''google'', uid))"
| "identity_of x (Apple_Login now fr su tok) =
     (case verify_apple_token x tok of Inl _ \<Rightarrow> None | Inr c \<Rightarrow> Some (''apple'', the (ic_sub c)))"
| "identity_of x (Elsewhere f) = None"

fun token_subject :: "(string \<Rightarrow> uuid option) \<Rightarrow> login_reply \<Rightarrow> uuid option" where
  "token_subject sub (Tokens access raw) = sub access"
| "token_subject sub (Onboarding raw) = sub raw"

lemma accounts_keep_providers [simp]:
  "auth_providers (on_accounts f d) = auth_providers d" "get_by_provider p uid (on_accounts f d) = get_by_provider p uid d"
  by (simp_all add: on_accounts_def get_by_provider_def)

lemma find_in_prefix: "find p xs = Some y \<Longrightarrow> find p (xs @ ys) = Some y"
  by (induction xs) (auto split: if_splits)

lemma find_or_link_InrE:
  assumes "find_or_link prov uid mail new_uid rid h d = Inr (u, is_new, d1)"
  obtains r where "get_by_provider prov uid d1 = Some r" "ap_user r = user_id u"
    and "\<And>p q s. get_by_provider p q d = Some s \<Longrightarrow> get_by_provider p q d1 = Some s"
proof (cases "get_by_provider prov uid d")
  case (Some r)
  with assms have "d1 = d" "user_by_id (core (id_accounts d)) (ap_user r) = Some u"
    by (auto simp: find_or_link_def split: option.splits)
  with Some that show thesis using user_by_id_same by metis
next
  case None
  have row: "get_by_provider prov uid d' = Some \<lparr>ap_id = rid, ap_user = usr, ap_provider = prov, ap_uid = uid, ap_email = mail\<rparr>"
      "\<And>p q s. get_by_provider p q d = Some s \<Longrightarrow> get_by_provider p q d' = Some s"
    if "create_provider rid usr prov uid mail d2 = Inr d'" "auth_providers d2 = auth_providers d" for usr d' d2
    using that None by (auto simp: create_provider_def get_by_provider_def find_append_none find_in_prefix find_None_iff split: if_splits)
  note out = that
  have link: thesis if "create_provider rid (user_id u) prov uid mail e = Inr d'" "auth_providers e = auth_providers d" "d1 = on_accounts f d'"
    for e d' f
  proof (rule out)
    show "get_by_provider prov uid d1 = Some \<lparr>ap_id = rid, ap_user = user_id u, ap_provider = prov, ap_uid = uid, ap_email = mail\<rparr>"
      using row(1) [OF that(1,2)] by (simp add: that(3))
  qed (use row(2) [OF that(1,2)] that(3) in simp_all)
  from assms None obtain m where m: "mail = Some m" by (cases mail) (auto simp: find_or_link_def)
  show thesis
  proof (cases "user_by_email (core (id_accounts d)) m")
    case (Some v)
    with assms None m obtain d' where "create_provider rid (user_id v) prov uid mail d = Inr d'" "u = confirm_address v"
        "d1 = on_accounts (on_user (user_id v) confirm_address) d'"
      by (auto simp: find_or_link_def split: sum.splits)
    then show thesis using link [where e = d] by (simp add: confirm_address_def)
  next
    case new: None
    with assms None m obtain c d' f where "create_provider rid new_uid prov uid mail (on_accounts (on_core (\<lambda>_. c)) d) = Inr d'"
        "u = confirm_address (new_user new_uid m h)" "d1 = on_accounts f d'"
      by (auto simp: find_or_link_def Let_def split: sum.splits)
    then show thesis using link [where e = "on_accounts (on_core (\<lambda>_. c)) d"] by (simp add: confirm_address_def new_user_def)
  qed
qed

lemma finish_social_InrE:
  assumes "finish_social x now fr prov (u, is_new, d) = Inr (r, d1)" and "\<And>c. sub (sc_encode x c) = cl_sub c"
  shows "token_subject sub (sr_login r) = Some (user_id u)"
  using assms by (auto simp: finish_social_def Let_def create_onboarding_token_def create_access_token_def build_token_def
      split: if_splits sum.splits)

lemma finish_social_keeps_links: "finish_social x now fr prov (u, is_new, d) = Inr (r, d1) \<Longrightarrow> auth_providers d1 = auth_providers d"
  by (auto simp: finish_social_def Let_def split: if_splits sum.splits)

lemma and_then_Inr: "and_then r f = Inr v \<longleftrightarrow> (\<exists>w. r = Inr w \<and> f w = Inr v)"
  by (simp add: and_then_def split: sum.splits)

lemma google_login_InrE:
  assumes "google_login x now fr su code verifier redirect d = Inr (r, d1)"
  obtains uid mail u is_new d2 where "exchange_google_code x code verifier redirect = Inr (uid, mail)"
    "find_or_link ''google'' uid (Some mail) (su_user su) (su_row su) (su_hash su) d = Inr (u, is_new, d2)"
    "finish_social x now fr ''google'' (u, is_new, d2) = Inr (r, d1)"
  using assms by (auto simp: google_login_def and_then_Inr split: if_splits sum.splits exn.splits)

lemma apple_login_InrE:
  assumes "apple_login x now fr su tok d = Inr (r, d1)"
  obtains c u is_new d2 where "verify_apple_token x tok = Inr c"
    "find_or_link ''apple'' (the (ic_sub c)) (nonblank (Some (py_lower (or_string (ic_email c) '''')))) (su_user su) (su_row su) (su_hash su) d = Inr (u, is_new, d2)"
    "finish_social x now fr ''apple'' (u, is_new, d2) = Inr (r, d1)"
  using assms by (auto simp: apple_login_def and_then_Inr split: if_splits sum.splits exn.splits)

text \<open>A successful request leaves its identity linked to the account its tokens name, and no link is ever lost.\<close>

lemma social_handler_link:
  assumes "social_handler x rq d = Inr (Some r, d1)"
  obtains prov uid row where "identity_of x rq = Some (prov, uid)" "get_by_provider prov uid d1 = Some row"
    and "\<And>sub. (\<And>c. sub (sc_encode x c) = cl_sub c) \<Longrightarrow> token_subject sub (sr_login r) = Some (ap_user row)"
    and "\<And>p q s. get_by_provider p q d = Some s \<Longrightarrow> get_by_provider p q d1 = Some s"
proof -
  note out = that
  have link: thesis if f: "find_or_link prov uid mail a b c d = Inr (u, n, d2)" and r: "finish_social x now fr prov (u, n, d2) = Inr (r, d1)"
    and i: "identity_of x rq = Some (prov, uid)" for prov uid mail a b c u n d2 now fr
  proof -
    from finish_social_keeps_links [OF r] have same: "get_by_provider p q d1 = get_by_provider p q d2" for p q by (simp add: get_by_provider_def)
    obtain row where "get_by_provider prov uid d2 = Some row" "ap_user row = user_id u"
      and "\<And>p q s. get_by_provider p q d = Some s \<Longrightarrow> get_by_provider p q d2 = Some s"
      using find_or_link_InrE [OF f] by blast
    with out [OF i] finish_social_InrE [OF r] show thesis by (simp add: same)
  qed
  show thesis
  proof (cases rq)
    case (Google_Login now fr su code verifier redirect)
    with assms(1) have "google_login x now fr su code verifier redirect d = Inr (r, d1)"
      by (cases "google_login x now fr su code verifier redirect d") auto
    then obtain uid mail u n d2 where g: "exchange_google_code x code verifier redirect = Inr (uid, mail)"
        "find_or_link ''google'' uid (Some mail) (su_user su) (su_row su) (su_hash su) d = Inr (u, n, d2)"
        "finish_social x now fr ''google'' (u, n, d2) = Inr (r, d1)"
      by (rule google_login_InrE)
    from link [OF g(2,3)] g(1) show thesis by (simp add: Google_Login)
  next
    case (Apple_Login now fr su tok)
    with assms(1) have "apple_login x now fr su tok d = Inr (r, d1)"
      by (cases "apple_login x now fr su tok d") auto
    then obtain c u n d2 where g: "verify_apple_token x tok = Inr c"
        "find_or_link ''apple'' (the (ic_sub c)) (nonblank (Some (py_lower (or_string (ic_email c) '''')))) (su_user su) (su_row su) (su_hash su) d = Inr (u, n, d2)"
        "finish_social x now fr ''apple'' (u, n, d2) = Inr (r, d1)"
      by (rule apple_login_InrE)
    from link [OF g(2,3)] g(1) show thesis by (simp add: Apple_Login)
  qed (use assms(1) in simp)
qed


lemma social_step_keeps_link:
  assumes "get_by_provider p q d = Some s"
  shows "get_by_provider p q (social_step x rq d) = Some s"
proof (cases "social_handler x rq d")
  case (Inr v)
  obtain r d1 where v: "v = (r, d1)" by (cases v)
  have "get_by_provider p q d1 = Some s"
  proof (cases r)
    case (Some reply)
    with Inr v have "social_handler x rq d = Inr (Some reply, d1)" by simp
    then show ?thesis by (rule social_handler_link) (use assms in blast)
  next
    case None
    with Inr v assms show ?thesis by (cases rq) (auto simp: map_sum_def split: sum.splits)
  qed
  with Inr v show ?thesis by (simp add: social_step_def run_request_def)
qed (use assms in \<open>simp add: social_step_def run_request_def\<close>)

interpretation linked_identity: guarded "social_step x" "\<lambda>_. True" "\<lambda>d. get_by_provider p q d = Some s" for x p q s
  by unfold_locales (rule social_step_keeps_link)

text \<open>
  C37. An identity is its account for good: two sign-ins with the same Google or Apple identity, whatever
  was requested in between and whatever became of the addresses, carry tokens for the same account.
\<close>

theorem same_identity_same_account:
  assumes "social_handler x rq d = Inr (Some r, d1)" and "social_handler x later (fold (social_step x) rqs d1) = Inr (Some s, d2)"
    and "identity_of x later = identity_of x rq" and "\<forall>c. sub (sc_encode x c) = cl_sub c"
  shows "token_subject sub (sr_login s) = token_subject sub (sr_login r) \<and> token_subject sub (sr_login r) \<noteq> None"
proof -
  from assms(1) obtain prov uid row where rq: "identity_of x rq = Some (prov, uid)" "get_by_provider prov uid d1 = Some row"
      "token_subject sub (sr_login r) = Some (ap_user row)"
    by (rule social_handler_link) (use assms(4) in blast)
  have kept: "get_by_provider prov uid (fold (social_step x) rqs d1) = Some row"
    using rq(2) by (intro linked_identity.run_inv) simp_all
  from assms(2) obtain p q row' where later: "identity_of x later = Some (p, q)" "get_by_provider p q d2 = Some row'"
      "token_subject sub (sr_login s) = Some (ap_user row')"
      and keep: "get_by_provider prov uid d2 = Some row"
    by (rule social_handler_link) (use assms(4) kept in blast)
  from rq(1) later(1) assms(3) have "p = prov" "q = uid" by simp_all
  with later(2) keep have "row' = row" by simp
  with rq(3) later(3) show ?thesis by simp
qed

section \<open>How an account is found\<close>

lemma find_or_link_found:
  assumes "find_or_link prov uid mail new_uid rid h d = Inr (u, is_new, d1)"
  shows "(\<exists>r. get_by_provider prov uid d = Some r \<and> ap_user r = user_id u)
    \<or> (\<exists>m v. mail = Some m \<and> user_by_email (core (id_accounts d)) m = Some v \<and> user_id u = user_id v \<and> password_hash u = password_hash v)
    \<or> is_new \<and> user_id u = new_uid \<and> password_hash u = h"
  using assms by (auto simp: find_or_link_def Let_def confirm_address_def new_user_def dest: user_by_id_same split: option.splits sum.splits)

lemma google_address_verified:
  assumes "exchange_google_code x code verifier redirect = Inr (uid, mail)"
  shows "\<exists>tok kid c. check_id_token (sc_google x) kid (nonblank (Some (GOOGLE_CLIENT_ID x))) tok = Some c \<and> ic_verified c
       \<and> ic_sub c = Some uid \<and> mail = py_lower (or_string (ic_email c) '''')"
  using assms by (fastforce simp: exchange_google_code_def nonblank_def Let_def split: if_splits option.splits)

text \<open>Whoever registered the address first with a password of his own, and could not sign in, can do so after its owner did with Google.\<close>

lemma old_password_survives_link:
  assumes "get_by_provider prov uid d = None" and "user_by_email (core (id_accounts d)) m = Some u" and "usable (Some u)"
    and "\<not> user_verified u" and "\<not> is_locked now u" and "verify pw (password_hash u)" and "REQUIRE_EMAIL_VERIFICATION st"
    and "find_or_link prov uid (Some m) new_uid rid h d = Inr (v, is_new, d1)"
  shows "fst (authenticate_user st verify now m pw (begin_session (id_accounts d))) = None \<and>
         fst (authenticate_user st verify now m pw (begin_session (id_accounts d1))) \<noteq> None"
proof -
  from assms(1,2,8) obtain d' where "create_provider rid (user_id u) prov uid (Some m) d = Inr d'"
      and d1: "d1 = on_accounts (on_user (user_id u) confirm_address) d'"
    by (auto simp: find_or_link_def split: sum.splits)
  then have "id_accounts d' = id_accounts d" by (auto simp: create_provider_def split: if_splits)
  then have "user_by_email (core (id_accounts d1)) m = Some (confirm_address u)"
    using assms(2) by (simp add: d1 on_accounts_def user_by_email_on_user confirm_address_def)
  moreover have "usable (Some (confirm_address u))" "user_verified (confirm_address u)" "\<not> is_locked now (confirm_address u)"
      "verify pw (password_hash (confirm_address u))"
    using assms(3,5,6) by (simp_all add: confirm_address_def usable_def is_locked_def)
  ultimately show ?thesis using assms(2-4,7) by (simp add: authenticate_user_def usable_def Let_def)
qed

text \<open>Apple's claim that the address is unverified is not read: the token still opens the account with that address.\<close>

lemma unverified_apple_address_opens_account:
  assumes "verify_apple_token x tok = Inr c" and "\<not> ic_verified c" and "ic_email c = Some m" and "m \<noteq> ''''" and "py_lower m = m"
    and "user_by_email (core (id_accounts d)) m = Some u" and "usable (Some u)" and "onboarding_completed u"
    and "auth_providers d = []" and "refresh_tokens (id_accounts d) = []" and "\<And>c. sub (sc_encode x c) = cl_sub c"
  shows "\<exists>r d1. apple_login x now fr su tok d = Inr (r, d1) \<and> token_subject sub (sr_login r) = Some (user_id u)"
proof -
  let ?d = "d\<lparr>auth_providers := [\<lparr>ap_id = su_row su, ap_user = user_id u, ap_provider = ''apple'', ap_uid = the (ic_sub c), ap_email = Some m\<rparr>]\<rparr>"
  have f: "find_or_link ''apple'' (the (ic_sub c)) (Some m) (su_user su) (su_row su) (su_hash su) d
      = Inr (confirm_address u, False, on_accounts (on_user (user_id u) confirm_address) ?d)"
    using assms(6,9) by (simp add: find_or_link_def get_by_provider_def create_provider_def)
  have "refresh_tokens (id_accounts (on_accounts (on_core f) (on_accounts (on_user (user_id u) confirm_address) ?d))) = []" for f
    using assms(10) by (simp add: on_accounts_def on_user_def on_core_def)
  then obtain r d1 where "finish_social x now fr ''apple'' (confirm_address u, False, on_accounts (on_user (user_id u) confirm_address) ?d) = Inr (r, d1)"
    using assms(7,8) by (auto simp: finish_social_def create_refresh_def Let_def confirm_address_def usable_def)
  moreover from finish_social_InrE [OF this assms(11)] have "token_subject sub (sr_login r) = Some (user_id u)"
    by (simp add: confirm_address_def)
  ultimately show ?thesis
    using f assms(1,3-5) by (simp add: apple_login_def and_then_def nonblank_def or_string_def)
qed

text \<open>The address of a deleted account cannot be used again.\<close>

lemma deleted_address_is_stuck:
  assumes "get_by_provider prov uid d = None" and "user_by_email (core (id_accounts d)) m = None" and "u \<in> set (users (core (id_accounts d)))" and "email u = m"
  shows "\<exists>e. find_or_link prov uid (Some m) new_uid rid h d = Inl (IntegrityError e)"
  using assms by (auto simp: find_or_link_def create_user_def Let_def confirm_address_def new_user_def)

text \<open>
  Tokens of a social sign-in belong to no session: signing out everywhere leaves the access token working until
  it expires.
\<close>

lemma social_access_survives_sign_out:
  assumes "finish_social x now fr prov (u, is_new, d) = Inr (r, d1)" and "sr_login r = Tokens access raw" and "\<And>c. decode True (sc_encode x c) = Some c"
    and "user_by_id (core (store s)) (user_id u) = Some v" and "usable (Some v)" and "onboarding_completed v" and "token_version v = token_version u"
  shows "fst (get_current_user st decode later al access (revoke_all_sessions t v s)) = Inr v"
proof -
  let ?c = "create_access_token (sc_settings x) now (user_id u) (or_string (primary_role u) '''') (token_version u) None"
  from assms(1,2) have "access = sc_encode x ?c" by (auto simp: finish_social_def Let_def split: if_splits sum.splits)
  with assms(3) have d: "decode True access = Some ?c" by simp
  have "core (store (revoke_all_sessions t v s)) = core (store s)"
    by (simp add: revoke_all_sessions_def revoke_user_tokens_def revoke_user_sessions_def on_refresh_def on_sessions_def Let_def)
  with assms(4) have "user_by_id (core (store (revoke_all_sessions t v s))) (user_id u) = Some v" by simp
  then show ?thesis
    by (rule let_in [where decode = decode and raw = access, OF d, rotated 3]) (use assms(5-7) in \<open>simp_all add: create_access_token_def build_token_def enforce_session_def\<close>)
qed

text \<open>The unusable password is a real hash: the client is told to ask for a password nobody knows.\<close>

lemma social_account_claims_password:
  assumes "find_or_link ''google'' uid (Some m) new_uid rid h d = Inr (u, True, d1)" and "h \<notin> {'''', ''$!unusable$!''}"
    and "py_strip (py_lower m) = m" and "py_lower m = m"
  shows "check_email_exists (\<lambda>_. {''google''}) m (core (id_accounts d1)) = (True, ''both'', ''login'')"
proof -
  let ?u = "confirm_address (new_user new_uid m h)"
  from assms(1) have none: "user_by_email (core (id_accounts d)) m = None" and
      "\<exists>c. create_user ?u (core (id_accounts d)) = Inr c \<and> core (id_accounts d1) = audit_log ''user_registered'' ''user'' (Some new_uid) [] c"
    by (auto simp: find_or_link_def create_provider_def Let_def on_accounts_def on_core_def split: option.splits sum.splits if_splits)
  then have "users (core (id_accounts d1)) = users (core (id_accounts d)) @ [?u]" by (auto simp: create_user_def split: if_splits)
  with none have "user_by_email (core (id_accounts d1)) m = Some ?u"
    using assms(4) by (simp add: user_by_email_def find_append_none find_None_iff) (simp add: confirm_address_def new_user_def)
  with assms(2,3) show ?thesis
    by (simp add: check_email_exists_def usable_def has_password_def Let_def) (simp add: confirm_address_def new_user_def)
qed


section \<open>Witness\<close>

text \<open>Tokens that are the subject in unary, enough to read it back.\<close>

definition unary_token :: "claims \<Rightarrow> string" where
  "unary_token c = (case cl_sub c of None \<Rightarrow> '''' | Some u \<Rightarrow> replicate (Suc (unat u)) (CHR ''a''))"

definition unary_subject :: "string \<Rightarrow> uuid option" where
  "unary_subject s = (if s = '''' then None else Some (of_nat (length s - 1)))"

lemma unary_subject: "unary_subject (unary_token c) = cl_sub c"
  by (simp add: unary_subject_def unary_token_def split: option.split)

definition demo_issuer :: issuer where
  "demo_issuer = \<lparr>jwks = Some [Some ''k1''], header_kid = (\<lambda>_. Some (Some ''k1'')),
     check_id_token = (\<lambda>_ _ _. Some \<lparr>ic_sub = Some ''g7'', ic_email = Some ''ann@b.c'', ic_verified = True\<rparr>)\<rparr>"

definition demo_social :: social_ctx where
  "demo_social = \<lparr>sc_settings = default_settings, sc_sha = id, sc_encode = unary_token,
     sc_post = (\<lambda>_ _ _. \<lparr>tr_status = 200, tr_text = '''', tr_error = None, tr_id_token = Some ''tok''\<rparr>),
     sc_google = demo_issuer, sc_apple = demo_issuer, GOOGLE_CLIENT_ID = '''', GOOGLE_ALLOWED_REDIRECT_URIS = [''raycarwash://''],
     APPLE_BUNDLE_ID = ''com.raycarwash.app''\<rparr>"

definition first_visit :: social_request where
  "first_visit = Google_Login 0 \<lparr>fr_token = 1, fr_family = 1, fr_session = 1, fr_profile = 1, fr_raw = ''r1''\<rparr>
     \<lparr>su_user = 7, su_row = 1, su_hash = ''h''\<rparr> ''code1'' ''v'' ''raycarwash://''"

definition second_visit :: social_request where
  "second_visit = Google_Login 9 \<lparr>fr_token = 2, fr_family = 2, fr_session = 2, fr_profile = 2, fr_raw = ''r2''\<rparr>
     \<lparr>su_user = 8, su_row = 2, su_hash = ''h''\<rparr> ''code2'' ''v'' ''raycarwash://''"

definition nobody :: identity_db where
  "nobody = \<lparr>id_accounts = \<lparr>core = empty_db, refresh_tokens = [], login_sessions = [], reset_tokens = [], verify_tokens = [], login_history = []\<rparr>,
     auth_providers = []\<rparr>"

definition visitor :: identity_db where
  "visitor = on_accounts (on_core (audit_log ''user_social_login'' ''user'' (Some 7) []))
     (on_accounts (on_core (audit_log ''user_registered'' ''user'' (Some 7) []))
        \<lparr>id_accounts = (id_accounts nobody)\<lparr>core := empty_db\<lparr>users := [confirm_address (new_user 7 ''ann@b.c'' ''h'')]\<rparr>\<rparr>,
         auth_providers = [\<lparr>ap_id = 1, ap_user = 7, ap_provider = ''google'', ap_uid = ''g7'', ap_email = Some ''ann@b.c''\<rparr>]\<rparr>)"

lemma demo_google: "exchange_google_code demo_social code verifier redirect = Inr (''g7'', ''ann@b.c'')"
  by (simp add: exchange_google_code_def demo_social_def demo_issuer_def nonblank_def or_string_def) code_simp

lemma first_visit_registers: "\<exists>r. social_handler demo_social first_visit nobody = Inr (Some r, visitor) \<and> sr_new r"
proof -
  have "find_or_link ''google'' ''g7'' (Some ''ann@b.c'') 7 1 ''h'' nobody
      = Inr (confirm_address (new_user 7 ''ann@b.c'' ''h''), True, on_accounts (on_core (audit_log ''user_registered'' ''user'' (Some 7) []))
        \<lparr>id_accounts = (id_accounts nobody)\<lparr>core := empty_db\<lparr>users := [confirm_address (new_user 7 ''ann@b.c'' ''h'')]\<rparr>\<rparr>,
         auth_providers = [\<lparr>ap_id = 1, ap_user = 7, ap_provider = ''google'', ap_uid = ''g7'', ap_email = Some ''ann@b.c''\<rparr>]\<rparr>)"
    by (simp add: find_or_link_def get_by_provider_def user_by_email_def create_user_def create_provider_def on_accounts_def on_core_def
        Let_def nobody_def empty_db_def)
  then show ?thesis
    by (simp add: first_visit_def google_login_def demo_google and_then_def finish_social_def Let_def visitor_def)
       (simp add: demo_social_def confirm_address_def new_user_def)
qed

lemma second_visit_returns: "\<exists>r d. social_handler demo_social second_visit visitor = Inr (Some r, d)"
proof -
  have "get_by_provider ''google'' ''g7'' visitor = Some \<lparr>ap_id = 1, ap_user = 7, ap_provider = ''google'', ap_uid = ''g7'', ap_email = Some ''ann@b.c''\<rparr>"
    by (simp add: visitor_def get_by_provider_def on_accounts_def)
  moreover have "user_by_id (core (id_accounts visitor)) 7 = Some (confirm_address (new_user 7 ''ann@b.c'' ''h''))"
    by (simp add: visitor_def user_by_id_def on_accounts_def on_core_def) (simp add: confirm_address_def new_user_def)
  ultimately show ?thesis
    by (simp add: second_visit_def google_login_def demo_google find_or_link_def and_then_def finish_social_def Let_def)
       (simp add: demo_social_def confirm_address_def new_user_def)
qed

theorem same_identity_same_account_witness:
  "\<exists>r d s e. social_handler demo_social first_visit nobody = Inr (Some r, d) \<and> sr_new r
     \<and> social_handler demo_social second_visit d = Inr (Some s, e)
     \<and> token_subject unary_subject (sr_login s) = token_subject unary_subject (sr_login r)"
proof -
  obtain r where r: "social_handler demo_social first_visit nobody = Inr (Some r, visitor)" "sr_new r" using first_visit_registers by blast
  obtain s e where s: "social_handler demo_social second_visit visitor = Inr (Some s, e)" using second_visit_returns by blast
  have i: "identity_of demo_social second_visit = identity_of demo_social first_visit"
    by (simp add: first_visit_def second_visit_def demo_google)
  have "\<forall>c. unary_subject (sc_encode demo_social c) = cl_sub c" by (simp add: demo_social_def unary_subject)
  from same_identity_same_account [OF r(1) _ i this, of "[]"] r s show ?thesis by auto
qed

end
