(* ===== verification/Passkeys.thy ===== *)
theory Passkeys
  imports Login
begin

text \<open>
  Passkeys: the ceremonies of domains/auth/routers/webauthn.py, the challenges in Redis
  (domains/auth/webauthn_service.py) and the table of credentials (webauthn_repository.py). Byte strings are
  strings. py_webauthn is a parameter: it reads base64url, and checks a response against a challenge, the key
  and the counter that are stored, and knows the names of transports; a failed check is a missing result. The
  lifetime of a challenge, a setting, is kept with it. Random challenges and identifiers are
  arguments. The JSON text in Redis is read back as it was written, so a challenge is kept as a record.
\<close>

section \<open>Rows\<close>

record passkey =
  pk_id :: uuid
  pk_user :: uuid
  credential_id :: string
  public_key :: string
  sign_count :: nat
  transports :: "string list option"
  device_name :: "string option"
  last_used_at :: "instant option"

record challenge =
  ch_user :: uuid
  ch_bytes :: string
  ch_type :: string

record verified_registration =
  vr_credential :: string
  vr_key :: string
  vr_count :: nat
  vr_device_type :: string

text \<open>A response of the authenticator: its \<open>id\<close> and the rest, which only the library reads.\<close>

record assertion =
  as_id :: string
  as_rest :: string

record webauthn =
  WEBAUTHN_CHALLENGE_EXPIRE_MINUTES :: int
  known_transports :: "string list"
  from_base64 :: "string \<Rightarrow> string option"
  check_registration :: "string \<Rightarrow> assertion \<Rightarrow> verified_registration option"
  check_authentication :: "string \<Rightarrow> assertion \<Rightarrow> string \<Rightarrow> nat \<Rightarrow> nat option"

record passkey_db =
  vault :: auth_db
  passkeys :: "passkey list"

text \<open>Redis is not part of the transaction: what a failed request removed from it stays removed.\<close>

record passkey_state =
  rows :: passkey_db
  challenges :: "string \<Rightarrow> (instant \<times> challenge) option"

definition TOKEN_TYPE_WEBAUTHN_REG :: string where "TOKEN_TYPE_WEBAUTHN_REG = ''webauthn_registration''"
definition TOKEN_TYPE_WEBAUTHN_AUTH :: string where "TOKEN_TYPE_WEBAUTHN_AUTH = ''webauthn_authentication''"

section \<open>Challenges\<close>

definition store_challenge :: "webauthn \<Rightarrow> instant \<Rightarrow> string \<Rightarrow> uuid \<Rightarrow> string \<Rightarrow> string \<Rightarrow> passkey_state \<Rightarrow> passkey_state" where
  "store_challenge lib now sid uid bytes ty s =
     s\<lparr>challenges := (challenges s)(sid \<mapsto> (now + minutes (WEBAUTHN_CHALLENGE_EXPIRE_MINUTES lib),
                                            \<lparr>ch_user = uid, ch_bytes = bytes, ch_type = ty\<rparr>))\<rparr>"

text \<open>The two calls of \<open>consume_challenge\<close>, and what it makes of the value.\<close>

definition read_challenge :: "instant \<Rightarrow> string \<Rightarrow> passkey_state \<Rightarrow> challenge option" where
  "read_challenge now sid s = (case challenges s sid of None \<Rightarrow> None | Some (e, c) \<Rightarrow> if now < e then Some c else None)"

definition drop_challenge :: "string \<Rightarrow> passkey_state \<Rightarrow> passkey_state" where
  "drop_challenge sid s = s\<lparr>challenges := (challenges s)(sid := None)\<rparr>"

definition parse_challenge :: "string \<Rightarrow> challenge \<Rightarrow> (uuid \<times> string) option" where
  "parse_challenge ty c = (if ch_type c \<noteq> ty then None else Some (ch_user c, ch_bytes c))"

definition consume_challenge :: "instant \<Rightarrow> string \<Rightarrow> string \<Rightarrow> passkey_state \<Rightarrow> (uuid \<times> string) option \<times> passkey_state" where
  "consume_challenge now sid ty s =
     (case read_challenge now sid s of
        None \<Rightarrow> (None, s)
      | Some c \<Rightarrow> (parse_challenge ty c, drop_challenge sid s))"

section \<open>Credentials\<close>

definition get_credentials_by_user :: "uuid \<Rightarrow> passkey_db \<Rightarrow> passkey list" where
  "get_credentials_by_user uid d = filter (\<lambda>k. pk_user k = uid) (passkeys d)"

definition get_credential_by_id :: "string \<Rightarrow> passkey_db \<Rightarrow> passkey option" where
  "get_credential_by_id cid d = find (\<lambda>k. credential_id k = cid) (passkeys d)"

definition create_credential :: "passkey \<Rightarrow> passkey_db \<Rightarrow> passkey_db result" where
  "create_credential k d =
     (if \<exists>q \<in> set (passkeys d). pk_id q = pk_id k \<or> credential_id q = credential_id k then Inl (IntegrityError ''credential_id'')
      else Inr (d\<lparr>passkeys := passkeys d @ [k]\<rparr>))"

definition on_passkeys :: "(passkey list \<Rightarrow> passkey list) \<Rightarrow> passkey_db \<Rightarrow> passkey_db" where
  "on_passkeys f d = d\<lparr>passkeys := f (passkeys d)\<rparr>"

definition update_sign_count :: "string \<Rightarrow> nat \<Rightarrow> instant \<Rightarrow> passkey_db \<Rightarrow> passkey_db" where
  "update_sign_count cid n now d =
     on_passkeys (update_where (\<lambda>k. credential_id k = cid) (\<lambda>k. k\<lparr>sign_count := n, last_used_at := Some now\<rparr>)) d"

definition get_by_pk_and_user :: "uuid \<Rightarrow> uuid \<Rightarrow> passkey_db \<Rightarrow> passkey option" where
  "get_by_pk_and_user pid uid d = find (\<lambda>k. pk_id k = pid \<and> pk_user k = uid) (passkeys d)"

definition rename_credential :: "uuid \<Rightarrow> uuid \<Rightarrow> string \<Rightarrow> passkey_db \<Rightarrow> passkey_db option" where
  "rename_credential pid uid name d =
     (case get_by_pk_and_user pid uid d of
        None \<Rightarrow> None
      | Some _ \<Rightarrow> Some (on_passkeys (update_where (\<lambda>k. pk_id k = pid) (\<lambda>k. k\<lparr>device_name := Some name\<rparr>)) d))"

definition delete_by_pk :: "uuid \<Rightarrow> uuid \<Rightarrow> passkey_db \<Rightarrow> bool \<times> passkey_db" where
  "delete_by_pk pid uid d =
     (0 < rowcount (\<lambda>k. pk_id k = pid \<and> pk_user k = uid) (passkeys d),
      on_passkeys (delete_where (\<lambda>k. pk_id k = pid \<and> pk_user k = uid)) d)"

definition count_for_user :: "uuid \<Rightarrow> passkey_db \<Rightarrow> nat" where
  "count_for_user uid d = rowcount (\<lambda>k. pk_user k = uid) (passkeys d)"

text \<open>What the options of a ceremony say of a stored credential; transports the library does not know are dropped.\<close>

definition descriptor :: "webauthn \<Rightarrow> passkey \<Rightarrow> string \<times> string list" where
  "descriptor lib k =
     (credential_id k, filter (\<lambda>t. t \<in> set (known_transports lib)) (case transports k of None \<Rightarrow> [] | Some ts \<Rightarrow> ts))"

section \<open>Ceremonies\<close>

text \<open>The answer of a begin: the challenge's token, the challenge and the credentials the options name.\<close>

type_synonym ceremony = "string \<times> string \<times> (string \<times> string list) list"

definition webauthn_register_begin :: "webauthn \<Rightarrow> instant \<Rightarrow> string \<Rightarrow> string \<Rightarrow> user \<Rightarrow> passkey_state \<Rightarrow> ceremony \<times> passkey_state" where
  "webauthn_register_begin lib now sid bytes u s =
     ((sid, bytes, map (descriptor lib) (get_credentials_by_user (user_id u) (rows s))),
      store_challenge lib now sid (user_id u) bytes TOKEN_TYPE_WEBAUTHN_REG s)"

text \<open>The row of a registration; \<open>list(verified.credential_device_type)\<close> is the list of its letters.\<close>

definition new_passkey :: "uuid \<Rightarrow> user \<Rightarrow> verified_registration \<Rightarrow> string \<Rightarrow> passkey" where
  "new_passkey pid u v name =
     \<lparr>pk_id = pid, pk_user = user_id u, credential_id = vr_credential v, public_key = vr_key v, sign_count = vr_count v,
      transports = (if vr_device_type v = '''' then None else Some (map (\<lambda>c. [c]) (vr_device_type v))),
      device_name = Some name, last_used_at = None\<rparr>"

definition webauthn_register_complete ::
  "webauthn \<Rightarrow> instant \<Rightarrow> uuid \<Rightarrow> string \<Rightarrow> assertion \<Rightarrow> string \<Rightarrow> user \<Rightarrow> passkey_state \<Rightarrow> string result \<times> passkey_state" where
  "webauthn_register_complete lib now pid sid cred name u s =
     (case consume_challenge now sid TOKEN_TYPE_WEBAUTHN_REG s of
        (None, s1) \<Rightarrow> (Inl (HTTPException 400 ''Invalid or expired WebAuthn challenge. Please restart registration.''), s1)
      | (Some (uid, bytes), s1) \<Rightarrow>
          if uid \<noteq> user_id u then (Inl (unauthorized ''Challenge user mismatch.''), s1)
          else (case check_registration lib bytes cred of
                  None \<Rightarrow> (Inl (HTTPException 400 ''Passkey registration verification failed.''), s1)
                | Some v \<Rightarrow>
                    (case create_credential (new_passkey pid u v name) (rows s1) of
                       Inl e \<Rightarrow> (Inl e, s1)
                     | Inr d \<Rightarrow> (Inr (vr_credential v), s1\<lparr>rows := d\<rparr>))))"

definition webauthn_authenticate_begin :: "webauthn \<Rightarrow> instant \<Rightarrow> string \<Rightarrow> string \<Rightarrow> string \<Rightarrow> passkey_state \<Rightarrow> ceremony result \<times> passkey_state" where
  "webauthn_authenticate_begin lib now sid bytes mail s =
     (case user_by_email (core (vault (rows s))) (py_strip (py_lower mail)) of
        None \<Rightarrow> (Inl (HTTPException 400 ''No passkey found for this account.''), s)
      | Some u \<Rightarrow>
          if \<not> user_active u \<or> user_deleted u then (Inl (HTTPException 400 ''No passkey found for this account.''), s)
          else (let ks = get_credentials_by_user (user_id u) (rows s) in
                if ks = [] then (Inl (HTTPException 400 ''No passkey found for this account.''), s)
                else (Inr (sid, bytes, map (descriptor lib) ks), store_challenge lib now sid (user_id u) bytes TOKEN_TYPE_WEBAUTHN_AUTH s)))"

text \<open>The end of a sign-in: the account, its tokens, the step-up. The session commits after it.\<close>

definition passkey_tokens ::
  "settings \<Rightarrow> (string \<Rightarrow> string) \<Rightarrow> (claims \<Rightarrow> string) \<Rightarrow> instant \<Rightarrow> fresh \<Rightarrow> uuid \<Rightarrow> passkey_db \<Rightarrow> ((string \<times> string) \<times> passkey_db) result" where
  "passkey_tokens st sha encode now fr uid d =
     (case user_by_id (core (vault d)) uid of
        None \<Rightarrow> Inl (unauthorized ''Account is inactive.'')
      | Some u \<Rightarrow>
          if \<not> user_active u \<or> user_deleted u then Inl (unauthorized ''Account is inactive.'')
          else (let access = create_access_token st now (user_id u) (or_string (primary_role u) ''client'') (token_version u) None in
                case create_refresh sha (fr_token fr) (user_id u) (fr_raw fr) (fr_family fr) (now + days (REFRESH_TOKEN_EXPIRE_DAYS st)) (vault d) of
                  Inl e \<Rightarrow> Inl e
                | Inr a \<Rightarrow> Inr ((encode access, fr_raw fr), d\<lparr>vault := record_step_up_success now (user_id u) ''webauthn'' a\<rparr>)))"

definition answer_challenge ::
  "settings \<Rightarrow> (string \<Rightarrow> string) \<Rightarrow> (claims \<Rightarrow> string) \<Rightarrow> webauthn \<Rightarrow> instant \<Rightarrow> fresh \<Rightarrow> assertion \<Rightarrow> uuid \<times> string \<Rightarrow> passkey_db \<Rightarrow>
   ((string \<times> string) \<times> passkey_db) result" where
  "answer_challenge st sha encode lib now fr cred ch d =
     (case ch of (uid, bytes) \<Rightarrow>
      case from_base64 lib (as_id cred) of
        None \<Rightarrow> Inl (ValueError ''base64'')
      | Some cid \<Rightarrow>
          (case get_credential_by_id cid d of
             None \<Rightarrow> Inl (unauthorized ''Passkey authentication failed.'')
           | Some k \<Rightarrow>
               if pk_user k \<noteq> uid then Inl (unauthorized ''Passkey authentication failed.'')
               else (case check_authentication lib bytes cred (public_key k) (sign_count k) of
                       None \<Rightarrow> Inl (unauthorized ''Passkey authentication failed.'')
                     | Some n \<Rightarrow> passkey_tokens st sha encode now fr uid (update_sign_count cid n now d))))"

definition webauthn_authenticate_complete ::
  "settings \<Rightarrow> (string \<Rightarrow> string) \<Rightarrow> (claims \<Rightarrow> string) \<Rightarrow> webauthn \<Rightarrow> instant \<Rightarrow> fresh \<Rightarrow> string \<Rightarrow> assertion \<Rightarrow> passkey_state \<Rightarrow>
   (string \<times> string) result \<times> passkey_state" where
  "webauthn_authenticate_complete st sha encode lib now fr sid cred s =
     (case consume_challenge now sid TOKEN_TYPE_WEBAUTHN_AUTH s of
        (None, s1) \<Rightarrow> (Inl (HTTPException 400 ''Invalid or expired WebAuthn challenge. Please restart authentication.''), s1)
      | (Some ch, s1) \<Rightarrow>
          (case answer_challenge st sha encode lib now fr cred ch (rows s1) of
             Inl e \<Rightarrow> (Inl e, s1)
           | Inr (p, d) \<Rightarrow> (Inr p, s1\<lparr>rows := d\<rparr>)))"

section \<open>Managing credentials\<close>

definition list_webauthn_credentials :: "user \<Rightarrow> passkey_state \<Rightarrow> passkey list \<times> nat" where
  "list_webauthn_credentials u s = (let ks = get_credentials_by_user (user_id u) (rows s) in (ks, length ks))"

definition rename_webauthn_credential :: "uuid \<Rightarrow> string \<Rightarrow> user \<Rightarrow> passkey_state \<Rightarrow> unit result \<times> passkey_state" where
  "rename_webauthn_credential pid name u s =
     (if \<not> (1 \<le> length name \<and> length name \<le> 120) then (Inl (HTTPException 422 ''device_name''), s)
      else (case rename_credential pid (user_id u) name (rows s) of
              None \<Rightarrow> (Inl (HTTPException 404 ''Passkey not found.''), s)
            | Some d \<Rightarrow> (Inr (), s\<lparr>rows := d\<rparr>)))"

definition delete_webauthn_credential :: "uuid \<Rightarrow> user \<Rightarrow> passkey_state \<Rightarrow> uuid result \<times> passkey_state" where
  "delete_webauthn_credential pid u s =
     (case get_by_pk_and_user pid (user_id u) (rows s) of
        None \<Rightarrow> (Inl (HTTPException 404 ''Passkey not found.''), s)
      | Some _ \<Rightarrow>
          if count_for_user (user_id u) (rows s) \<le> 1 \<and> password_hash u = ''''
          then (Inl (HTTPException 409 ''Cannot remove the last passkey when no password is set.''), s)
          else (case delete_by_pk pid (user_id u) (rows s) of
                  (False, _) \<Rightarrow> (Inl (HTTPException 404 ''Passkey not found.''), s)
                | (True, d) \<Rightarrow> (Inr pid, s\<lparr>rows := d\<rparr>)))"

section \<open>Runs\<close>

text \<open>The requests; \<open>Accounts\<close> is anything else that happens to the accounts. A body is as its schema delivers it.\<close>

datatype passkey_request =
    Register_Begin instant string string user
  | Register_Complete instant uuid string assertion string user
  | Authenticate_Begin instant string string string
  | Authenticate_Complete instant fresh string assertion
  | Rename uuid string user
  | Remove uuid user
  | Accounts "auth_db \<Rightarrow> auth_db"

fun passkey_step ::
  "settings \<Rightarrow> (string \<Rightarrow> string) \<Rightarrow> (claims \<Rightarrow> string) \<Rightarrow> webauthn \<Rightarrow> passkey_request \<Rightarrow> passkey_state \<Rightarrow> passkey_state" where
  "passkey_step st sha encode lib (Register_Begin now sid bytes u) s = snd (webauthn_register_begin lib now sid bytes u s)"
| "passkey_step st sha encode lib (Register_Complete now pid sid cred name u) s = snd (webauthn_register_complete lib now pid sid cred name u s)"
| "passkey_step st sha encode lib (Authenticate_Begin now sid bytes mail) s = snd (webauthn_authenticate_begin lib now sid bytes mail s)"
| "passkey_step st sha encode lib (Authenticate_Complete now fr sid cred) s = snd (webauthn_authenticate_complete st sha encode lib now fr sid cred s)"
| "passkey_step st sha encode lib (Rename pid name u) s = snd (rename_webauthn_credential pid name u s)"
| "passkey_step st sha encode lib (Remove pid u) s = snd (delete_webauthn_credential pid u s)"
| "passkey_step st sha encode lib (Accounts f) s = s\<lparr>rows := (rows s)\<lparr>vault := f (vault (rows s))\<rparr>\<rparr>"

fun issues :: "passkey_request \<Rightarrow> string option" where
  "issues (Register_Begin now sid bytes u) = Some sid"
| "issues (Authenticate_Begin now sid bytes mail) = Some sid"
| "issues _ = None"

lemma consume_challenges:
  "challenges (snd (consume_challenge now sid ty s)) = (if read_challenge now sid s = None then challenges s else (challenges s)(sid := None))"
  "rows (snd (consume_challenge now sid ty s)) = rows s"
  by (auto simp: consume_challenge_def drop_challenge_def split: option.splits)

lemma consume_challenge_InrE:
  assumes "consume_challenge now sid ty s = (Some (uid, bytes), s1)"
  obtains e where "challenges s sid = Some (e, \<lparr>ch_user = uid, ch_bytes = bytes, ch_type = ty\<rparr>)" "now < e"
    "s1 = drop_challenge sid s"
proof -
  from assms obtain c where c: "read_challenge now sid s = Some c" "parse_challenge ty c = Some (uid, bytes)" "s1 = drop_challenge sid s"
    by (auto simp: consume_challenge_def split: option.splits)
  from c(2) have "c = \<lparr>ch_user = uid, ch_bytes = bytes, ch_type = ty\<rparr>"
    by (cases c) (auto simp: parse_challenge_def split: if_splits)
  with c that show thesis by (auto simp: read_challenge_def split: option.splits if_splits)
qed

lemma complete_challenges:
  "challenges (snd (webauthn_register_complete lib now pid sid cred name u s)) = challenges (snd (consume_challenge now sid TOKEN_TYPE_WEBAUTHN_REG s))"
  "challenges (snd (webauthn_authenticate_complete st sha encode lib now fr sid cred s))
     = challenges (snd (consume_challenge now sid TOKEN_TYPE_WEBAUTHN_AUTH s))"
  by (auto simp: webauthn_register_complete_def webauthn_authenticate_complete_def split: option.splits prod.splits sum.splits)

lemma manage_challenges [simp]:
  "challenges (snd (rename_webauthn_credential pid name u s)) = challenges s"
  "challenges (snd (delete_webauthn_credential pid u s)) = challenges s"
  by (auto simp: rename_webauthn_credential_def delete_webauthn_credential_def split: option.splits prod.splits bool.splits)

lemma missing_challenge:
  assumes "challenges s sid = None"
  shows "webauthn_register_complete lib now pid sid cred name u s
      = (Inl (HTTPException 400 ''Invalid or expired WebAuthn challenge. Please restart registration.''), s)"
    and "webauthn_authenticate_complete st sha encode lib now fr sid cred s
      = (Inl (HTTPException 400 ''Invalid or expired WebAuthn challenge. Please restart authentication.''), s)"
  using assms by (simp_all add: webauthn_register_complete_def webauthn_authenticate_complete_def consume_challenge_def read_challenge_def)

lemma step_spares_challenge:
  assumes "issues rq \<noteq> Some sid" and "challenges s sid = None"
  shows "challenges (passkey_step st sha encode lib rq s) sid = None"
  using assms by (cases rq) (auto simp: complete_challenges consume_challenges webauthn_register_begin_def webauthn_authenticate_begin_def
      store_challenge_def Let_def split: option.splits)

interpretation spent_challenge: guarded "passkey_step st sha encode lib" "\<lambda>rq. issues rq \<noteq> Some sid" "\<lambda>s. challenges s sid = None"
  for st sha encode lib sid
  by unfold_locales (rule step_spares_challenge)

text \<open>
  C39. A challenge answers one request: whatever came of it, once its token has been presented to complete a
  sign-in, every later request with that token is refused, until it is issued anew.
\<close>

theorem passkey_challenge_single_use:
  assumes "read_challenge now sid s = Some c" and "webauthn_authenticate_complete st sha encode lib now fr sid cred s = (r, s1)"
    and "\<forall>rq \<in> set rqs. issues rq \<noteq> Some sid"
  shows "let s2 = fold (passkey_step st sha encode lib) rqs s1 in
    webauthn_authenticate_complete st sha encode lib later fr' sid cred' s2
      = (Inl (HTTPException 400 ''Invalid or expired WebAuthn challenge. Please restart authentication.''), s2)
    \<and> webauthn_register_complete lib later pid sid cred' name u s2
      = (Inl (HTTPException 400 ''Invalid or expired WebAuthn challenge. Please restart registration.''), s2)"
proof -
  from complete_challenges(2) [of st sha encode lib now fr sid cred s] assms(1,2) have "challenges s1 sid = None"
    by (simp add: consume_challenges)
  then have "challenges (fold (passkey_step st sha encode lib) rqs s1) sid = None"
    using assms(3) by (intro spent_challenge.run_inv) simp_all
  then show ?thesis by (simp add: missing_challenge Let_def)
qed

text \<open>
  Redis' get and delete are two calls. Of two requests with the same response that both read the challenge
  before either deleted it both get tokens, when the authenticator keeps no counter.
\<close>

lemma both_racers_get_tokens:
  assumes "read_challenge now sid s = Some c" and "parse_challenge TOKEN_TYPE_WEBAUTHN_AUTH c = Some (user_id u, bytes)"
    and "from_base64 lib (as_id cred) = Some (credential_id k)" and "get_credential_by_id (credential_id k) (rows s) = Some k" and "pk_user k = user_id u"
    and "sign_count k = 0" and "check_authentication lib bytes cred (public_key k) 0 = Some 0"
    and "user_by_id (core (vault (rows s))) (user_id u) = Some u" and "usable (Some u)" and "refresh_tokens (vault (rows s)) = []"
    and "fr_token fr \<noteq> fr_token fr'" and "sha (fr_raw fr) \<noteq> sha (fr_raw fr')"
  shows "\<exists>p d q e. answer_challenge st sha encode lib now fr cred (user_id u, bytes) (rows (drop_challenge sid (drop_challenge sid s))) = Inr (p, d)
    \<and> answer_challenge st sha encode lib now fr' cred (user_id u, bytes) d = Inr (q, e)"
proof -
  let ?k = "k\<lparr>last_used_at := Some now\<rparr>"
  have mine: "find (\<lambda>q. credential_id q = credential_id k) (update_where (\<lambda>q. credential_id q = credential_id k) f ks)
      = map_option f (find (\<lambda>q. credential_id q = credential_id k) ks)"
    if "\<And>q. credential_id (f q) = credential_id q" for f and ks :: "passkey list"
    by (induction ks) (auto simp: that)
  have d: "\<exists>p d. answer_challenge st sha encode lib now fr cred (user_id u, bytes) (rows s) = Inr (p, d)
      \<and> passkeys d = passkeys (update_sign_count (credential_id k) 0 now (rows s))
      \<and> core (vault d) = core (mark_step_up now (user_id u) (vault (rows s)))
      \<and> map rt_id (refresh_tokens (vault d)) = [fr_token fr] \<and> map rt_hash (refresh_tokens (vault d)) = [sha (fr_raw fr)]"
    using assms(3-10) by (simp add: answer_challenge_def passkey_tokens_def usable_def create_refresh_def Let_def update_sign_count_def on_passkeys_def
        mark_step_up_def on_user_def on_core_def)
  then obtain p d where first: "answer_challenge st sha encode lib now fr cred (user_id u, bytes) (rows s) = Inr (p, d)"
      and pk: "passkeys d = passkeys (update_sign_count (credential_id k) 0 now (rows s))"
      and c: "core (vault d) = core (mark_step_up now (user_id u) (vault (rows s)))"
      and rt: "map rt_id (refresh_tokens (vault d)) = [fr_token fr]" "map rt_hash (refresh_tokens (vault d)) = [sha (fr_raw fr)]"
    by (elim exE conjE)
  have "get_credential_by_id (credential_id k) d = Some (k\<lparr>sign_count := 0, last_used_at := Some now\<rparr>)"
    using assms(4) by (simp add: get_credential_by_id_def pk update_sign_count_def on_passkeys_def mine)
  moreover have "user_by_id (core (vault d)) (user_id u) = Some (u\<lparr>last_step_up_at := Some now\<rparr>)"
  proof -
    have "find (\<lambda>v. user_id v = uid \<and> \<not> user_deleted v) (update_where (\<lambda>v. user_id v = uid) (\<lambda>v. v\<lparr>last_step_up_at := Some now\<rparr>) us)
        = map_option (\<lambda>v. v\<lparr>last_step_up_at := Some now\<rparr>) (find (\<lambda>v. user_id v = uid \<and> \<not> user_deleted v) us)" for uid and us :: "user list"
      by (induction us) auto
    with assms(8) show ?thesis by (simp add: c user_by_id_def mark_step_up_def on_user_def on_core_def)
  qed
  moreover obtain t where "refresh_tokens (vault d) = [t]" "rt_id t = fr_token fr" "rt_hash t = sha (fr_raw fr)" using rt by auto
  ultimately have "\<exists>q e. answer_challenge st sha encode lib now fr' cred (user_id u, bytes) d = Inr (q, e)"
    using assms(3,5,7,9,11,12)
    by (simp add: answer_challenge_def passkey_tokens_def usable_def create_refresh_def Let_def update_sign_count_def on_passkeys_def)
  with first show ?thesis by (auto simp: drop_challenge_def)
qed

section \<open>What a sign-in proves\<close>

lemma token_types_differ: "TOKEN_TYPE_WEBAUTHN_REG \<noteq> TOKEN_TYPE_WEBAUTHN_AUTH"
  by (simp add: TOKEN_TYPE_WEBAUTHN_REG_def TOKEN_TYPE_WEBAUTHN_AUTH_def)

lemma step_challenge_origin:
  assumes "challenges (passkey_step st sha encode lib rq s) sid = Some (e, c)" and "ch_type c = TOKEN_TYPE_WEBAUTHN_AUTH"
  shows "challenges s sid = Some (e, c) \<or>
    (\<exists>t bytes mail u. rq = Authenticate_Begin t sid bytes mail \<and> user_by_email (core (vault (rows s))) (py_strip (py_lower mail)) = Some u
       \<and> e = t + minutes (WEBAUTHN_CHALLENGE_EXPIRE_MINUTES lib) \<and> ch_user c = user_id u \<and> ch_bytes c = bytes)"
  using assms token_types_differ
  by (cases rq) (auto simp: complete_challenges consume_challenges webauthn_register_begin_def webauthn_authenticate_begin_def
      store_challenge_def Let_def split: option.splits if_splits)

lemma challenge_origin:
  assumes "challenges start = (\<lambda>_. None)" and "challenges (fold (passkey_step st sha encode lib) rqs start) sid = Some (e, c)"
    and "ch_type c = TOKEN_TYPE_WEBAUTHN_AUTH"
  shows "\<exists>pre t bytes mail post u. rqs = pre @ Authenticate_Begin t sid bytes mail # post
    \<and> user_by_email (core (vault (rows (fold (passkey_step st sha encode lib) pre start)))) (py_strip (py_lower mail)) = Some u
    \<and> e = t + minutes (WEBAUTHN_CHALLENGE_EXPIRE_MINUTES lib) \<and> ch_user c = user_id u \<and> ch_bytes c = bytes"
  using assms(2)
proof (induction rqs rule: rev_induct)
  case Nil
  with assms(1) show ?case by simp
next
  case (snoc rq rqs)
  from snoc.prems have "challenges (passkey_step st sha encode lib rq (fold (passkey_step st sha encode lib) rqs start)) sid = Some (e, c)" by simp
  from step_challenge_origin [OF this assms(3)] show ?case
  proof
    assume "challenges (fold (passkey_step st sha encode lib) rqs start) sid = Some (e, c)"
    from snoc.IH [OF this] obtain pre t bytes mail post u where "rqs = pre @ Authenticate_Begin t sid bytes mail # post"
      "user_by_email (core (vault (rows (fold (passkey_step st sha encode lib) pre start)))) (py_strip (py_lower mail)) = Some u"
      "e = t + minutes (WEBAUTHN_CHALLENGE_EXPIRE_MINUTES lib)" "ch_user c = user_id u" "ch_bytes c = bytes" by blast
    then show ?thesis
      by (intro exI [of _ pre] exI [of _ t] exI [of _ bytes] exI [of _ mail] exI [of _ "post @ [rq]"] exI [of _ u]) simp
  qed (use append_Nil2 in blast)
qed

lemma get_credential_SomeD: "get_credential_by_id cid d = Some k \<Longrightarrow> k \<in> set (passkeys d) \<and> credential_id k = cid"
  by (auto simp: get_credential_by_id_def find_Some_iff)

lemma answer_challenge_InrE:
  assumes "answer_challenge st sha encode lib now fr cred ch d = Inr (p, d')"
  obtains uid bytes k n where "ch = (uid, bytes)" "from_base64 lib (as_id cred) = Some (credential_id k)" "k \<in> set (passkeys d)"
    "pk_user k = uid" "check_authentication lib bytes cred (public_key k) (sign_count k) = Some n"
    "passkey_tokens st sha encode now fr uid (update_sign_count (credential_id k) n now d) = Inr (p, d')"
proof -
  from assms obtain uid bytes cid k n where r: "ch = (uid, bytes)" "from_base64 lib (as_id cred) = Some cid" "get_credential_by_id cid d = Some k"
      "pk_user k = uid" "check_authentication lib bytes cred (public_key k) (sign_count k) = Some n"
      "passkey_tokens st sha encode now fr uid (update_sign_count cid n now d) = Inr (p, d')"
    by (auto simp: answer_challenge_def split: option.splits if_splits prod.splits)
  from get_credential_SomeD [OF r(3)] have "k \<in> set (passkeys d)" "cid = credential_id k" by simp_all
  with r show thesis by (intro that [of uid bytes k n]) simp_all
qed

lemma complete_InrE:
  assumes "webauthn_authenticate_complete st sha encode lib now fr sid cred s = (Inr (access, raw), s1)"
  obtains e uid bytes k n v where "challenges s sid = Some (e, \<lparr>ch_user = uid, ch_bytes = bytes, ch_type = TOKEN_TYPE_WEBAUTHN_AUTH\<rparr>)" "now < e"
    "from_base64 lib (as_id cred) = Some (credential_id k)" "k \<in> set (passkeys (rows s))" "pk_user k = uid"
    "check_authentication lib bytes cred (public_key k) (sign_count k) = Some n"
    "user_by_id (core (vault (rows s))) uid = Some v" "user_active v"
    "access = encode (create_access_token st now uid (or_string (primary_role v) ''client'') (token_version v) None)"
proof -
  from assms obtain ch s2 d where con: "consume_challenge now sid TOKEN_TYPE_WEBAUTHN_AUTH s = (Some ch, s2)"
      and ans: "answer_challenge st sha encode lib now fr cred ch (rows s2) = Inr ((access, raw), d)"
    by (auto simp: webauthn_authenticate_complete_def split: prod.splits option.splits sum.splits)
  from ans obtain uid bytes k n where ch: "ch = (uid, bytes)" and k: "from_base64 lib (as_id cred) = Some (credential_id k)" "k \<in> set (passkeys (rows s2))"
      "pk_user k = uid" "check_authentication lib bytes cred (public_key k) (sign_count k) = Some n"
      and tok: "passkey_tokens st sha encode now fr uid (update_sign_count (credential_id k) n now (rows s2)) = Inr ((access, raw), d)"
    by (rule answer_challenge_InrE)
  from con ch obtain e where e: "challenges s sid = Some (e, \<lparr>ch_user = uid, ch_bytes = bytes, ch_type = TOKEN_TYPE_WEBAUTHN_AUTH\<rparr>)" "now < e"
      and s2: "rows s2 = rows s"
    by (auto elim!: consume_challenge_InrE simp: drop_challenge_def)
  note k = k [unfolded s2] and tok = tok [unfolded s2]
  from tok obtain v where v: "user_by_id (core (vault (rows s))) uid = Some v" "user_active v"
      "access = encode (create_access_token st now (user_id v) (or_string (primary_role v) ''client'') (token_version v) None)"
    by (auto simp: passkey_tokens_def update_sign_count_def on_passkeys_def Let_def split: option.splits if_splits sum.splits)
  then show thesis by (intro that [OF e k]) (simp_all add: user_by_id_same [OF v(1)])
qed

text \<open>
  C38. A passkey sign-in is authentic: whatever was requested before, tokens are issued only when a sign-in
  was begun for the account's address at most the configured minutes ago, under the challenge of that begin,
  with a credential stored for that account, and the account is live.
\<close>

theorem passkey_sign_in_authentic:
  assumes "challenges start = (\<lambda>_. None)" and "s = fold (passkey_step st sha encode lib) rqs start"
    and "webauthn_authenticate_complete st sha encode lib now fr sid cred s = (Inr (access, raw), s1)"
  shows "\<exists>pre t bytes mail post u k n v. rqs = pre @ Authenticate_Begin t sid bytes mail # post
    \<and> user_by_email (core (vault (rows (fold (passkey_step st sha encode lib) pre start)))) (py_strip (py_lower mail)) = Some u
    \<and> now < t + minutes (WEBAUTHN_CHALLENGE_EXPIRE_MINUTES lib)
    \<and> k \<in> set (passkeys (rows s)) \<and> pk_user k = user_id u \<and> from_base64 lib (as_id cred) = Some (credential_id k)
    \<and> check_authentication lib bytes cred (public_key k) (sign_count k) = Some n
    \<and> user_by_id (core (vault (rows s))) (user_id u) = Some v \<and> user_active v
    \<and> access = encode (create_access_token st now (user_id u) (or_string (primary_role v) ''client'') (token_version v) None)"
proof -
  from assms(3) obtain e uid bytes k n v where c: "challenges s sid = Some (e, \<lparr>ch_user = uid, ch_bytes = bytes, ch_type = TOKEN_TYPE_WEBAUTHN_AUTH\<rparr>)"
      "now < e" "from_base64 lib (as_id cred) = Some (credential_id k)" "k \<in> set (passkeys (rows s))" "pk_user k = uid"
      "check_authentication lib bytes cred (public_key k) (sign_count k) = Some n"
      "user_by_id (core (vault (rows s))) uid = Some v" "user_active v"
      "access = encode (create_access_token st now uid (or_string (primary_role v) ''client'') (token_version v) None)"
    by (rule complete_InrE)
  from challenge_origin [OF assms(1), of st sha encode lib rqs sid e] c(1) assms(2) obtain pre t mail post u
    where o: "rqs = pre @ Authenticate_Begin t sid bytes mail # post"
      "user_by_email (core (vault (rows (fold (passkey_step st sha encode lib) pre start)))) (py_strip (py_lower mail)) = Some u"
      "e = t + minutes (WEBAUTHN_CHALLENGE_EXPIRE_MINUTES lib)" "uid = user_id u"
    by fastforce
  show ?thesis
    by (rule exI [of _ pre], rule exI [of _ t], rule exI [of _ bytes], rule exI [of _ mail], rule exI [of _ post], rule exI [of _ u],
        rule exI [of _ k], rule exI [of _ n], rule exI [of _ v]) (use o c in simp)
qed

section \<open>Credentials over time\<close>

definition credentials_ok :: "passkey_state \<Rightarrow> bool" where
  "credentials_ok s \<longleftrightarrow> distinct (map credential_id (passkeys (rows s)))"

definition credential_kept :: "passkey \<Rightarrow> passkey_state \<Rightarrow> bool" where
  "credential_kept k s \<longleftrightarrow>
     (\<forall>q \<in> set (passkeys (rows s)). pk_id q = pk_id k \<longrightarrow>
        pk_user q = pk_user k \<and> credential_id q = credential_id k \<and> public_key q = public_key k \<and> sign_count k \<le> sign_count q)"

fun mints_key :: "passkey_request \<Rightarrow> uuid option" where
  "mints_key (Register_Complete now pid sid cred name u) = Some pid"
| "mints_key _ = None"

lemma create_credential_InrD:
  assumes "create_credential k d = Inr d'"
  shows "passkeys d' = passkeys d @ [k]" and "\<forall>q \<in> set (passkeys d). credential_id q \<noteq> credential_id k"
  using assms by (auto simp: create_credential_def split: if_splits)

lemma register_complete_InrE:
  assumes "webauthn_register_complete lib now pid sid cred name u s = (Inr c, s1)"
  obtains v where "create_credential (new_passkey pid u v name) (rows s) = Inr (rows s1)"
proof -
  obtain ch s2 where con: "consume_challenge now sid TOKEN_TYPE_WEBAUTHN_REG s = (ch, s2)" by fastforce
  with consume_challenges(2) [of now sid TOKEN_TYPE_WEBAUTHN_REG s] have "rows s2 = rows s" by simp
  with assms con that show thesis
    by (auto simp: webauthn_register_complete_def split: option.splits prod.splits sum.splits if_splits)
qed

text \<open>What a request does to the table: nothing, a new row, a new counter, a new name, a removal.\<close>

lemma passkeys_of_step:
  obtains (same) "passkeys (rows (passkey_step st sha encode lib rq s)) = passkeys (rows s)"
  | (added) k where "mints_key rq = Some (pk_id k)" "\<forall>q \<in> set (passkeys (rows s)). credential_id q \<noteq> credential_id k"
      "passkeys (rows (passkey_step st sha encode lib rq s)) = passkeys (rows s) @ [k]"
  | (counted) k bytes cred n now where "k \<in> set (passkeys (rows s))" "check_authentication lib bytes cred (public_key k) (sign_count k) = Some n"
      "passkeys (rows (passkey_step st sha encode lib rq s))
        = update_where (\<lambda>q. credential_id q = credential_id k) (\<lambda>q. q\<lparr>sign_count := n, last_used_at := Some now\<rparr>) (passkeys (rows s))"
  | (named) p name where "passkeys (rows (passkey_step st sha encode lib rq s)) = update_where p (\<lambda>q. q\<lparr>device_name := Some name\<rparr>) (passkeys (rows s))"
  | (removed) p where "passkeys (rows (passkey_step st sha encode lib rq s)) = delete_where p (passkeys (rows s))"
proof (cases rq)
  case (Register_Begin now sid bytes u)
  then show thesis by (intro same) (simp add: webauthn_register_begin_def store_challenge_def)
next
  case (Register_Complete now pid sid cred name u)
  obtain r s1 where c: "webauthn_register_complete lib now pid sid cred name u s = (r, s1)" by fastforce
  show thesis
  proof (cases r)
    case (Inl e)
    with c have "rows s1 = rows s"
      using consume_challenges(2) [of now sid TOKEN_TYPE_WEBAUTHN_REG s]
      by (auto simp: webauthn_register_complete_def split: option.splits prod.splits sum.splits if_splits)
    with c Register_Complete show thesis by (intro same) simp
  next
    case (Inr x)
    with c obtain v where "create_credential (new_passkey pid u v name) (rows s) = Inr (rows s1)" by (auto elim: register_complete_InrE)
    note k = create_credential_InrD [OF this]
    show thesis using k c by (intro added [of "new_passkey pid u v name"]) (simp_all add: Register_Complete, simp add: new_passkey_def)
  qed
next
  case (Authenticate_Begin now sid bytes mail)
  then show thesis by (intro same) (auto simp: webauthn_authenticate_begin_def store_challenge_def Let_def split: option.splits)
next
  case (Authenticate_Complete now fr sid cred)
  obtain ch s1 where c: "consume_challenge now sid TOKEN_TYPE_WEBAUTHN_AUTH s = (ch, s1)" by fastforce
  with consume_challenges(2) [of now sid TOKEN_TYPE_WEBAUTHN_AUTH s] have r: "rows s1 = rows s" by simp
  show thesis
  proof (cases "fst (webauthn_authenticate_complete st sha encode lib now fr sid cred s)")
    case (Inl e)
    with Authenticate_Complete c r show thesis
      by (intro same) (auto simp: webauthn_authenticate_complete_def split: option.splits prod.splits sum.splits)
  next
    case (Inr v)
    with c r obtain x p d where ans: "answer_challenge st sha encode lib now fr cred x (rows s) = Inr (p, d)"
        and d: "rows (snd (webauthn_authenticate_complete st sha encode lib now fr sid cred s)) = d"
      by (fastforce simp: webauthn_authenticate_complete_def split: option.splits prod.splits sum.splits)
    from ans obtain k bytes n uid where k: "k \<in> set (passkeys (rows s))" "check_authentication lib bytes cred (public_key k) (sign_count k) = Some n"
        and tok: "passkey_tokens st sha encode now fr uid (update_sign_count (credential_id k) n now (rows s)) = Inr (p, d)"
      by (rule answer_challenge_InrE)
    from tok have "passkeys d = passkeys (update_sign_count (credential_id k) n now (rows s))"
      by (auto simp: passkey_tokens_def Let_def split: option.splits if_splits sum.splits)
    with Authenticate_Complete d k show thesis by (intro counted [of k]) (auto simp: update_sign_count_def on_passkeys_def)
  qed
next
  case (Rename pid name u)
  have "rows (snd (rename_webauthn_credential pid name u s)) = rows s \<or>
      rows (snd (rename_webauthn_credential pid name u s)) = on_passkeys (update_where (\<lambda>k. pk_id k = pid) (\<lambda>k. k\<lparr>device_name := Some name\<rparr>)) (rows s)"
    by (auto simp: rename_webauthn_credential_def rename_credential_def split: option.splits)
  then show thesis
  proof
    assume "rows (snd (rename_webauthn_credential pid name u s)) = rows s"
    with Rename show thesis by (intro same) simp
  next
    assume "rows (snd (rename_webauthn_credential pid name u s)) = on_passkeys (update_where (\<lambda>k. pk_id k = pid) (\<lambda>k. k\<lparr>device_name := Some name\<rparr>)) (rows s)"
    then show thesis by (intro named) (simp add: Rename on_passkeys_def)
  qed
next
  case (Remove pid u)
  have "rows (snd (delete_webauthn_credential pid u s)) = rows s \<or>
      rows (snd (delete_webauthn_credential pid u s)) = on_passkeys (delete_where (\<lambda>k. pk_id k = pid \<and> pk_user k = user_id u)) (rows s)"
    by (auto simp: delete_webauthn_credential_def delete_by_pk_def split: option.splits bool.splits)
  then show thesis
  proof
    assume "rows (snd (delete_webauthn_credential pid u s)) = rows s"
    with Remove show thesis by (intro same) simp
  next
    assume "rows (snd (delete_webauthn_credential pid u s)) = on_passkeys (delete_where (\<lambda>k. pk_id k = pid \<and> pk_user k = user_id u)) (rows s)"
    then show thesis by (intro removed) (simp add: Remove on_passkeys_def)
  qed
next
  case (Accounts f)
  then show thesis by (intro same) simp
qed

lemma update_where_columns:
  assumes "\<And>q. credential_id (f q) = credential_id q"
  shows "map credential_id (update_where p f ks) = map credential_id ks"
  using assms by (induction ks) simp_all

lemma delete_where_distinct: "distinct (map g ks) \<Longrightarrow> distinct (map g (delete_where p ks))"
  by (simp add: delete_where_def distinct_map_filter)

lemma distinct_key: "distinct (map g ks) \<Longrightarrow> a \<in> set ks \<Longrightarrow> b \<in> set ks \<Longrightarrow> g a = g b \<Longrightarrow> a = b"
  by (auto simp: distinct_map inj_on_def)

lemma credentials_step:
  assumes "credentials_ok s"
  shows "credentials_ok (passkey_step st sha encode lib rq s)"
  using assms unfolding credentials_ok_def
  by (cases rule: passkeys_of_step [of st sha encode lib rq s]) (auto simp: update_where_columns delete_where_distinct)

lemma kept_step:
  assumes mono: "\<And>b c key n m. check_authentication lib b c key n = Some m \<Longrightarrow> n \<le> m"
    and ok: "credentials_ok s" and kept: "credential_kept k s" and new: "mints_key rq \<noteq> Some (pk_id k)"
  shows "credential_kept k (passkey_step st sha encode lib rq s)"
proof (cases rule: passkeys_of_step [of st sha encode lib rq s])
  case (counted j bytes cred n now)
  have "sign_count q \<le> n" if "q \<in> set (passkeys (rows s))" "credential_id q = credential_id j" for q
    using distinct_key [OF ok [unfolded credentials_ok_def] that(1) counted(1) that(2)] mono [OF counted(2)] by simp
  with kept show ?thesis unfolding credential_kept_def counted(3) update_where_def by (auto simp: le_trans)
next
  case same
  with kept show ?thesis by (simp add: credential_kept_def)
next
  case (added j)
  with kept new show ?thesis by (auto simp: credential_kept_def)
next
  case (named p name)
  with kept show ?thesis unfolding credential_kept_def named update_where_def by auto
next
  case (removed p)
  with kept show ?thesis by (auto simp: credential_kept_def delete_where_def)
qed

interpretation credential_table: guarded "passkey_step st sha encode lib" "\<lambda>_. True" credentials_ok for st sha encode lib
  by unfold_locales (rule credentials_step)

text \<open>
  A stored credential stays its owner's, with its key, and its counter never falls: \<open>mono\<close> is what py_webauthn
  checks of a counter. Nobody else's row takes its primary key.
\<close>

lemma passkey_counters_never_fall:
  assumes mono: "\<And>b c key n m. check_authentication lib b c key n = Some m \<Longrightarrow> n \<le> m"
    and "credentials_ok s" and "credential_kept k s" and "\<forall>rq \<in> set rqs. mints_key rq \<noteq> Some (pk_id k)"
  shows "credential_kept k (fold (passkey_step st sha encode lib) rqs s)"
  using assms(2-4)
proof (induction rqs arbitrary: s)
  case (Cons rq rqs)
  then show ?case using credentials_step kept_step [OF mono] by simp
qed simp

text \<open>The hash of an account is never empty, so the guard of the last passkey never fires.\<close>

lemma last_passkey_goes:
  assumes "password_hash u \<noteq> ''''" and "passkeys (rows s) = [k]" and "pk_user k = user_id u"
  shows "\<exists>s1. delete_webauthn_credential (pk_id k) u s = (Inr (pk_id k), s1) \<and> passkeys (rows s1) = []"
  using assms by (simp add: delete_webauthn_credential_def get_by_pk_and_user_def delete_by_pk_def on_passkeys_def rowcount_def delete_where_def)

text \<open>The stored transports are the letters of the device type; none of them is a transport.\<close>

lemma stored_transports_are_letters:
  assumes "webauthn_register_complete lib now pid sid cred name u s = (Inr c, s1)" and "k \<in> set (passkeys (rows s1))" and "k \<notin> set (passkeys (rows s))"
    and "\<forall>t \<in> set (known_transports lib). 2 \<le> length t"
  shows "snd (descriptor lib k) = []"
proof -
  from assms(1) obtain v where "create_credential (new_passkey pid u v name) (rows s) = Inr (rows s1)" by (rule register_complete_InrE)
  from create_credential_InrD(1) [OF this] assms(2,3) have "k = new_passkey pid u v name" by simp
  moreover have "[x] \<notin> set (known_transports lib)" for x using assms(4) by force
  ultimately show ?thesis by (auto simp: descriptor_def new_passkey_def)
qed

section \<open>Witnesses\<close>

definition demo_passkey :: passkey where
  "demo_passkey = \<lparr>pk_id = 3, pk_user = 1, credential_id = ''c1'', public_key = ''key'', sign_count = 4, transports = None,
     device_name = Some ''Phone'', last_used_at = None\<rparr>"

definition demo_webauthn :: webauthn where
  "demo_webauthn = \<lparr>WEBAUTHN_CHALLENGE_EXPIRE_MINUTES = 5, known_transports = [''usb''], from_base64 = Some, check_registration = (\<lambda>_ _. None),
     check_authentication = (\<lambda>b c key n. if b = ''nonce'' \<and> key = ''key'' then Some (n + 1) else None)\<rparr>"

definition key_holder :: passkey_state where
  "key_holder = \<lparr>rows = \<lparr>vault = auth_demo, passkeys = [demo_passkey]\<rparr>, challenges = (\<lambda>_. None)\<rparr>"

definition demo_begin :: passkey_request where
  "demo_begin = Authenticate_Begin 0 ''s1'' ''nonce'' ''A@b.c ''"

definition passkey_fresh :: fresh where
  "passkey_fresh = \<lparr>fr_token = 1, fr_family = 1, fr_session = 1, fr_profile = 1, fr_raw = ''r1''\<rparr>"

definition asked_state :: passkey_state where
  "asked_state = store_challenge demo_webauthn 0 ''s1'' 1 ''nonce'' TOKEN_TYPE_WEBAUTHN_AUTH key_holder"

lemma demo_asked: "fold (passkey_step default_settings id (\<lambda>_. ''jwt'') demo_webauthn) [demo_begin] key_holder = asked_state"
proof -
  have m: "py_strip (py_lower ''A@b.c '') = ''a@b.c''" by code_simp
  have "get_credentials_by_user 1 (rows key_holder) = [demo_passkey]"
    by (simp add: key_holder_def get_credentials_by_user_def demo_passkey_def)
  moreover have "user_active mail_user" "\<not> user_deleted mail_user" by (simp_all add: mail_user_def)
  moreover have "vault (rows key_holder) = auth_demo" by (simp add: key_holder_def)
  ultimately show ?thesis
    by (simp add: demo_begin_def webauthn_authenticate_begin_def m auth_demo_user asked_state_def Let_def)
qed

lemma demo_complete:
  "\<exists>s1. webauthn_authenticate_complete default_settings id (\<lambda>_. ''jwt'') demo_webauthn 9 passkey_fresh ''s1'' \<lparr>as_id = ''c1'', as_rest = ''''\<rparr> asked_state
     = (Inr (''jwt'', ''r1''), s1)"
proof -
  have con: "consume_challenge 9 ''s1'' TOKEN_TYPE_WEBAUTHN_AUTH asked_state = (Some (1, ''nonce''), drop_challenge ''s1'' asked_state)"
    by (simp add: consume_challenge_def read_challenge_def asked_state_def store_challenge_def parse_challenge_def demo_webauthn_def minutes_def)
  have r: "rows (drop_challenge ''s1'' asked_state) = \<lparr>vault = auth_demo, passkeys = [demo_passkey]\<rparr>"
    by (simp add: drop_challenge_def asked_state_def store_challenge_def key_holder_def)
  have "\<exists>d. answer_challenge default_settings id (\<lambda>_. ''jwt'') demo_webauthn 9 passkey_fresh \<lparr>as_id = ''c1'', as_rest = ''''\<rparr> (1, ''nonce'')
      \<lparr>vault = auth_demo, passkeys = [demo_passkey]\<rparr> = Inr ((''jwt'', ''r1''), d)"
    using auth_demo_user
    by (simp add: answer_challenge_def demo_webauthn_def demo_passkey_def get_credential_by_id_def update_sign_count_def on_passkeys_def
        passkey_tokens_def usable_def Let_def create_refresh_def passkey_fresh_def) (simp add: auth_demo_def)
  then show ?thesis by (auto simp: webauthn_authenticate_complete_def con r)
qed

theorem passkey_sign_in_authentic_witness:
  "\<exists>u (k :: passkey). user_by_email (core auth_demo) ''a@b.c'' = Some u \<and> pk_user k = user_id u \<and> credential_id k = ''c1''"
proof -
  obtain s1 where s1: "webauthn_authenticate_complete default_settings id (\<lambda>_. ''jwt'') demo_webauthn 9 passkey_fresh ''s1'' \<lparr>as_id = ''c1'', as_rest = ''''\<rparr> asked_state
     = (Inr (''jwt'', ''r1''), s1)" using demo_complete by blast
  have none: "challenges key_holder = (\<lambda>_. None)" by (simp add: key_holder_def)
  obtain pre t bytes mail post u and k :: passkey where p: "[demo_begin] = pre @ Authenticate_Begin t ''s1'' bytes mail # post"
      "user_by_email (core (vault (rows (fold (passkey_step default_settings id (\<lambda>_. ''jwt'') demo_webauthn) pre key_holder)))) (py_strip (py_lower mail)) = Some u"
      "pk_user k = user_id u" "from_base64 demo_webauthn ''c1'' = Some (credential_id k)"
    using passkey_sign_in_authentic [OF none demo_asked [symmetric] s1] unfolding assertion.select_convs
    by (elim exE conjE) (rule that, assumption+)
  from p(1) have "pre = []" "mail = ''A@b.c ''" by (auto simp: demo_begin_def Cons_eq_append_conv)
  moreover have "py_strip (py_lower ''A@b.c '') = ''a@b.c''" by code_simp
  ultimately have "user_by_email (core auth_demo) ''a@b.c'' = Some u" using p(2) by (simp add: key_holder_def)
  with p(3,4) show ?thesis by (auto simp: demo_webauthn_def)
qed

theorem passkey_challenge_single_use_witness:
  "\<exists>r s1. webauthn_authenticate_complete default_settings id (\<lambda>_. ''jwt'') demo_webauthn 9 passkey_fresh ''s1'' \<lparr>as_id = ''c1'', as_rest = ''''\<rparr> asked_state
     = (Inr r, s1) \<and> webauthn_authenticate_complete default_settings id (\<lambda>_. ''jwt'') demo_webauthn 10 passkey_fresh ''s1'' \<lparr>as_id = ''c1'', as_rest = ''''\<rparr> s1
     = (Inl (HTTPException 400 ''Invalid or expired WebAuthn challenge. Please restart authentication.''), s1)"
proof -
  obtain s1 where s1: "webauthn_authenticate_complete default_settings id (\<lambda>_. ''jwt'') demo_webauthn 9 passkey_fresh ''s1'' \<lparr>as_id = ''c1'', as_rest = ''''\<rparr> asked_state
     = (Inr (''jwt'', ''r1''), s1)" using demo_complete by blast
  have "read_challenge 9 ''s1'' asked_state = Some \<lparr>ch_user = 1, ch_bytes = ''nonce'', ch_type = TOKEN_TYPE_WEBAUTHN_AUTH\<rparr>"
    by (simp add: read_challenge_def asked_state_def store_challenge_def demo_webauthn_def minutes_def)
  from passkey_challenge_single_use [OF this s1, of "[]"] s1 show ?thesis by (auto simp: Let_def)
qed

end
