(* ===== verification/Notifications.thy ===== *)
theory Notifications
  imports Tracking
begin

text \<open>
  Push notifications: the devices an account has registered (domains/notifications/repository.py, router.py),
  the in-process event bus (events/bus.py), the handlers that turn news of an appointment into pushes
  (domains/notifications/handlers.py) and their delivery in chunks to Expo (service.py). What Expo answers is
  only logged. Titles and texts are the key they are looked up by.
\<close>

section \<open>Devices\<close>

datatype device_platform = IOS | ANDROID | WEB

record device_token =
  dt_user :: uuid
  dt_token :: string
  dt_platform :: device_platform
  dt_used :: instant

definition upsert_token :: "instant \<Rightarrow> uuid \<Rightarrow> string \<Rightarrow> device_platform \<Rightarrow> device_token list \<Rightarrow> device_token list" where
  "upsert_token now uid tok platform ts =
     (if \<exists>t \<in> set ts. dt_token t = tok
      then update_where (\<lambda>t. dt_token t = tok) (\<lambda>t. t\<lparr>dt_user := uid, dt_used := now\<rparr>) ts
      else ts @ [\<lparr>dt_user = uid, dt_token = tok, dt_platform = platform, dt_used = now\<rparr>])"

definition delete_by_token :: "string \<Rightarrow> device_token list \<Rightarrow> device_token list" where
  "delete_by_token tok ts = delete_where (\<lambda>t. dt_token t = tok) ts"

definition get_tokens_for_user :: "uuid \<Rightarrow> device_token list \<Rightarrow> string list" where
  "get_tokens_for_user uid ts = map dt_token (filter (\<lambda>t. dt_user t = uid) ts)"

definition get_tokens_for_users :: "uuid list \<Rightarrow> device_token list \<Rightarrow> uuid \<Rightarrow> string list option" where
  "get_tokens_for_users uids ts uid =
     (if uid \<in> set uids \<and> get_tokens_for_user uid ts \<noteq> [] then Some (get_tokens_for_user uid ts) else None)"

definition delete_for_user :: "uuid \<Rightarrow> device_token list \<Rightarrow> device_token list" where
  "delete_for_user uid ts = delete_where (\<lambda>t. dt_user t = uid) ts"

definition token_length_ok :: "string \<Rightarrow> bool" where
  "token_length_ok tok \<longleftrightarrow> 10 \<le> length tok \<and> length tok \<le> 512"

definition register_device_token :: "instant \<Rightarrow> string \<Rightarrow> device_platform \<Rightarrow> user \<Rightarrow> device_token list \<Rightarrow> device_token list result" where
  "register_device_token now tok platform u ts =
     (if \<not> token_length_ok tok then Inl (HTTPException 422 ''token'') else Inr (upsert_token now (user_id u) tok platform ts))"

definition unregister_device_token :: "string \<Rightarrow> user \<Rightarrow> device_token list \<Rightarrow> device_token list result" where
  "unregister_device_token tok u ts =
     (if \<not> token_length_ok tok then Inl (HTTPException 422 ''token'') else Inr (delete_by_token tok ts))"

section \<open>Delivery\<close>

record push_message =
  pm_to :: string
  pm_key :: string
  pm_appointment :: string

definition CHUNK_SIZE :: nat where "CHUNK_SIZE = 100"

function chunked :: "nat \<Rightarrow> 'a list \<Rightarrow> 'a list list" where
  "chunked n xs = (if n = 0 \<or> xs = [] then [] else take n xs # chunked n (drop n xs))"
  by pat_completeness auto
termination by (relation "measure (length \<circ> snd)") auto

declare chunked.simps [simp del]

text \<open>The requests \<open>send\<close> makes; a request that fails is logged and the next one is sent.\<close>

definition push_send :: "string list \<Rightarrow> string \<Rightarrow> string \<Rightarrow> push_message list list" where
  "push_send toks key appt =
     (let ms = map (\<lambda>t. \<lparr>pm_to = t, pm_key = key, pm_appointment = appt\<rparr>) (filter (\<lambda>t. t \<noteq> '''') toks)
      in chunked CHUNK_SIZE ms)"

section \<open>The event bus\<close>

text \<open>
  A handler does something to the world and may raise; \<open>emit\<close> runs the handlers of an event in the order of
  their registration and swallows what they raise.
\<close>

type_synonym ('p, 'w) event_handler = "'p \<Rightarrow> 'w \<Rightarrow> unit result \<times> 'w"

definition bus_on :: "string \<Rightarrow> ('p, 'w) event_handler \<Rightarrow> (string \<Rightarrow> ('p, 'w) event_handler list) \<Rightarrow> string \<Rightarrow> ('p, 'w) event_handler list" where
  "bus_on ev h b = b(ev := b ev @ [h])"

definition bus_emit :: "(string \<Rightarrow> ('p, 'w) event_handler list) \<Rightarrow> string \<Rightarrow> 'p \<Rightarrow> 'w \<Rightarrow> 'w" where
  "bus_emit b ev p w = fold (\<lambda>h w. snd (h p w)) (b ev) w"

section \<open>The handlers\<close>

text \<open>The payload of an event: identifiers as text, the detailer's only if there is one.\<close>

record news =
  nw_appointment :: string
  nw_client :: string
  nw_detailer :: "string option"
  nw_status :: string

text \<open>\<open>uuid.UUID\<close> of 32 hexadecimal digits, whatever dashes are between them; braces and prefixes are left out.\<close>

definition hex_value :: "char \<Rightarrow> nat option" where
  "hex_value c =
     (let n = (of_char c :: nat)
      in if 48 \<le> n \<and> n \<le> 57 then Some (n - 48)
         else if 97 \<le> n \<and> n \<le> 102 then Some (n - 87)
         else if 65 \<le> n \<and> n \<le> 70 then Some (n - 55) else None)"

definition parse_uuid :: "string \<Rightarrow> uuid result" where
  "parse_uuid s =
     (let h = filter (\<lambda>c. c \<noteq> CHR ''-'') s
      in if length h = 32 \<and> list_all (\<lambda>c. hex_value c \<noteq> None) h
         then Inr (of_nat (foldl (\<lambda>a c. 16 * a + the (hex_value c)) 0 h))
         else Inl (ValueError ''badly formed hexadecimal UUID string''))"

definition MESSAGES :: "string set" where
  "MESSAGES = {''appointment.created'', ''confirmed'', ''arrived'', ''in_progress'', ''completed'', ''cancelled_by_client'',
     ''cancelled_by_detailer'', ''no_show''}"

text \<open>The world of the handlers: the devices, and the requests sent to Expo so far.\<close>

type_synonym push_world = "device_token list \<times> push_message list list"

definition send_to_user :: "string \<Rightarrow> string \<Rightarrow> string \<Rightarrow> push_world \<Rightarrow> unit result \<times> push_world" where
  "send_to_user uid key appt w =
     (case parse_uuid uid of
        Inl e \<Rightarrow> (Inl e, w)
      | Inr u \<Rightarrow>
          if key \<notin> MESSAGES then (Inr (), w)
          else (let toks = (case get_tokens_for_users [u] (fst w) u of None \<Rightarrow> [] | Some ts \<Rightarrow> ts)
                in (Inr (), fst w, snd w @ (if toks = [] then [] else push_send toks key appt))))"

definition on_appointment_created :: "(news, push_world) event_handler" where
  "on_appointment_created p w =
     (case nw_detailer p of
        None \<Rightarrow> (Inr (), w)
      | Some det \<Rightarrow> if det = '''' then (Inr (), w) else send_to_user det ''appointment.created'' (nw_appointment p) w)"

definition CLIENT_STATUSES :: "string set" where
  "CLIENT_STATUSES = {''confirmed'', ''arrived'', ''in_progress'', ''completed'', ''cancelled_by_detailer'', ''no_show''}"

definition on_status_changed :: "(news, push_world) event_handler" where
  "on_status_changed p w =
     (let (r, w1) = (if nw_status p \<in> CLIENT_STATUSES \<and> nw_client p \<noteq> '''' then send_to_user (nw_client p) (nw_status p) (nw_appointment p) w
                     else (Inr (), w))
      in case r of
           Inl e \<Rightarrow> (Inl e, w1)
         | Inr _ \<Rightarrow>
             (case nw_detailer p of
                None \<Rightarrow> (Inr (), w1)
              | Some det \<Rightarrow> if nw_status p = ''cancelled_by_client'' \<and> det \<noteq> ''''
                            then send_to_user det ''cancelled_by_client'' (nw_appointment p) w1 else (Inr (), w1)))"

definition notification_bus :: "string \<Rightarrow> (news, push_world) event_handler list" where
  "notification_bus =
     bus_on ''appointment.status_changed'' on_status_changed (bus_on ''appointment.created'' on_appointment_created (\<lambda>_. []))"

text \<open>What a status update announces, from the appointment as it then stands, and the world after it.\<close>

definition status_news :: "appointment \<Rightarrow> news" where
  "status_news a = \<lparr>nw_appointment = uuid_str (appt_id a), nw_client = uuid_str (client_id a),
     nw_detailer = map_option uuid_str (detailer_id a), nw_status = status_value (appt_status a)\<rparr>"

definition announce_update :: "transition_outcome \<Rightarrow> push_world \<Rightarrow> push_world" where
  "announce_update t w = fold (\<lambda>(ev, _). bus_emit notification_bus ev (status_news (to_appointment t))) (to_events t) w"

section \<open>Identifiers\<close>

lemma hex_value_digit: "n < 16 \<Longrightarrow> hex_value (hex_digit n) = Some n"
  using of_hex_digit [of n] by (simp add: hex_value_def Let_def split: if_splits)

definition base16 :: "nat \<Rightarrow> nat \<Rightarrow> nat list" where
  "base16 x n = map (\<lambda>i. x div 16 ^ (n - Suc i) mod 16) [0..<n]"

lemma base16_Suc: "base16 x (Suc n) = base16 (x div 16) n @ [x mod 16]"
proof -
  have "x div 16 ^ (Suc n - Suc i) mod 16 = x div 16 div 16 ^ (n - Suc i) mod 16" if "i < n" for i
  proof -
    from that have "Suc n - Suc i = Suc (n - Suc i)" by simp
    then show ?thesis by (simp only: power_Suc div_mult2_eq)
  qed
  then show ?thesis by (simp add: base16_def)
qed

lemma base16_value: "foldl (\<lambda>a d. 16 * a + d) 0 (base16 x n) = x mod 16 ^ n"
proof (induction n arbitrary: x)
  case (Suc n)
  have "x mod 16 ^ Suc n = 16 * (x div 16 mod 16 ^ n) + x mod 16" by (simp add: mod_mult2_eq)
  with Suc show ?case by (simp add: base16_Suc)
qed (simp add: base16_def)

lemma uuid_hex_base16: "uuid_hex u = map hex_digit (base16 (unat u) 32)"
proof (rule nth_equalityI)
  show "length (uuid_hex u) = length (map hex_digit (base16 (unat u) 32))"
    unfolding length_uuid_hex length_map base16_def length_upt by simp
next
  fix i assume "i < length (uuid_hex u)"
  then have i: "i < 32" by (simp add: length_uuid_hex)
  have "unat (drop_bit (4 * (31 - i)) u) = unat u div 16 ^ (32 - Suc i)"
  proof -
    have "(2 :: nat) ^ (4 * (31 - i)) = 16 ^ (32 - Suc i)" by (simp add: power_mult)
    moreover have "unat (drop_bit (4 * (31 - i)) u) = unat u div 2 ^ (4 * (31 - i))"
      unfolding unat_drop_bit_eq by (rule drop_bit_eq_div)
    ultimately show ?thesis by metis
  qed
  moreover have "map hex_digit (base16 (unat u) 32) ! i = hex_digit (unat u div 16 ^ (32 - Suc i) mod 16)"
    using i nth_upt [of 0 i 32] unfolding base16_def by (simp only: map_map nth_map length_upt diff_zero comp_def add_0)
  ultimately show "uuid_hex u ! i = map hex_digit (base16 (unat u) 32) ! i" by (simp only: uuid_hex_nth [OF i])
qed

lemma hex_digit_no_dash: "n < 16 \<Longrightarrow> hex_digit n \<noteq> CHR ''-''"
  using of_hex_digit [of n] by (auto split: if_splits)

lemma base16_less: "d \<in> set (base16 x n) \<Longrightarrow> d < 16"
  by (auto simp: base16_def)

lemma foldl_hex: "\<forall>d \<in> set ds. d < 16 \<Longrightarrow> foldl (\<lambda>a c. 16 * a + the (hex_value c)) a (map hex_digit ds) = foldl (\<lambda>a d. 16 * a + d) a ds"
  by (induction ds arbitrary: a) (simp_all add: hex_value_digit)

lemma drop_join: "take n (drop m xs) @ drop (m + n) xs = drop m xs"
  using append_take_drop_id [of n "drop m xs"] by (simp add: add.commute)

text \<open>\<open>UUID(str(u))\<close> is \<open>u\<close>.\<close>

lemma parse_uuid_str: "parse_uuid (uuid_str u) = Inr u"
proof -
  have d: "\<forall>c \<in> set (uuid_hex u). c \<noteq> CHR ''-'' \<and> hex_value c \<noteq> None"
    unfolding uuid_hex_base16 by (auto simp: hex_value_digit dest: base16_less hex_digit_no_dash)
  then have all: "filter (\<lambda>c. c \<noteq> CHR ''-'') (uuid_hex u) = uuid_hex u" by (auto intro!: filter_True)
  have keep: "filter (\<lambda>c. c \<noteq> CHR ''-'') xs = xs" if "set xs \<subseteq> set (uuid_hex u)" for xs
    using that d by (auto intro!: filter_True)
  have "filter (\<lambda>c. c \<noteq> CHR ''-'') (uuid_str u)
      = take 8 (uuid_hex u) @ take 4 (drop 8 (uuid_hex u)) @ take 4 (drop 12 (uuid_hex u)) @ take 4 (drop 16 (uuid_hex u)) @ drop 20 (uuid_hex u)"
    by (simp add: uuid_str_def Let_def keep set_take_subset set_drop_subset order_trans [OF set_take_subset set_drop_subset])
  also have "\<dots> = uuid_hex u"
    using drop_join [of 4 8 "uuid_hex u"] drop_join [of 4 12 "uuid_hex u"] drop_join [of 4 16 "uuid_hex u"] by simp
  finally have f: "filter (\<lambda>c. c \<noteq> CHR ''-'') (uuid_str u) = uuid_hex u" .
  have "foldl (\<lambda>a c. 16 * a + the (hex_value c)) 0 (uuid_hex u) = unat u mod 16 ^ 32"
    unfolding uuid_hex_base16 using base16_less by (subst foldl_hex) (auto simp: base16_value)
  also have "\<dots> = unat u" using unsigned_less [of u, where 'a = nat] by simp
  finally have v: "foldl (\<lambda>a c. 16 * a + the (hex_value c)) 0 (uuid_hex u) = unat u" .
  have "list_all (\<lambda>c. hex_value c \<noteq> None) (uuid_hex u)" using d by (simp add: list_all_iff)
  with f v show ?thesis by (simp add: parse_uuid_def Let_def length_uuid_hex)
qed

section \<open>Chunks\<close>

lemma concat_chunked: "0 < n \<Longrightarrow> concat (chunked n xs) = xs"
proof (induction n xs rule: chunked.induct)
  case (1 n xs)
  then show ?case by (subst chunked.simps) auto
qed

lemma chunked_sizes: "c \<in> set (chunked n xs) \<Longrightarrow> c \<noteq> [] \<and> length c \<le> n"
proof (induction n xs rule: chunked.induct)
  case (1 n xs)
  from "1.prems" have e: "\<not> (n = 0 \<or> xs = [])" by (subst (asm) chunked.simps) (auto split: if_splits)
  with "1.prems" have "c = take n xs \<or> c \<in> set (chunked n (drop n xs))" by (subst (asm) chunked.simps) simp
  with "1.IH" e show ?case by auto
qed

text \<open>Every device gets one message, in order, and no request has more than a hundred.\<close>

lemma push_send_complete:
  "map pm_to (concat (push_send toks key appt)) = filter (\<lambda>t. t \<noteq> '''') toks"
  "\<forall>c \<in> set (push_send toks key appt). length c \<le> 100 \<and> (\<forall>m \<in> set c. pm_key m = key \<and> pm_appointment m = appt)"
proof -
  let ?ms = "map (\<lambda>t. \<lparr>pm_to = t, pm_key = key, pm_appointment = appt\<rparr>) (filter (\<lambda>t. t \<noteq> '''') toks)"
  have c: "concat (push_send toks key appt) = ?ms" by (simp add: push_send_def concat_chunked CHUNK_SIZE_def)
  then show "map pm_to (concat (push_send toks key appt)) = filter (\<lambda>t. t \<noteq> '''') toks" by (simp add: comp_def)
  show "\<forall>c \<in> set (push_send toks key appt). length c \<le> 100 \<and> (\<forall>m \<in> set c. pm_key m = key \<and> pm_appointment m = appt)"
  proof (intro ballI conjI)
    fix c assume m: "c \<in> set (push_send toks key appt)"
    then show "length c \<le> 100" using chunked_sizes by (auto simp: push_send_def CHUNK_SIZE_def)
    fix x assume "x \<in> set c"
    with m have "x \<in> set (concat (push_send toks key appt))" by auto
    then show "pm_key x = key" "pm_appointment x = appt" by (auto simp: c)
  qed
qed

section \<open>Who hears of an appointment\<close>

text \<open>The devices of an account that can be addressed, and the message about an appointment to one of them.\<close>

definition devices_of :: "uuid \<Rightarrow> device_token list \<Rightarrow> string list" where
  "devices_of uid ts = map dt_token (filter (\<lambda>t. dt_user t = uid \<and> dt_token t \<noteq> '''') ts)"

lemma devices_of_tokens: "devices_of uid ts = filter (\<lambda>t. t \<noteq> '''') (get_tokens_for_user uid ts)"
  by (induction ts) (simp_all add: devices_of_def get_tokens_for_user_def)

definition message_of :: "uuid \<Rightarrow> appointment_status \<Rightarrow> string \<Rightarrow> push_message" where
  "message_of aid t tok = \<lparr>pm_to = tok, pm_key = status_value t, pm_appointment = uuid_str aid\<rparr>"

lemma push_send_messages:
  "concat (push_send toks key appt) = map (\<lambda>t. \<lparr>pm_to = t, pm_key = key, pm_appointment = appt\<rparr>) (filter (\<lambda>t. t \<noteq> '''') toks)"
  by (simp add: push_send_def concat_chunked CHUNK_SIZE_def)

lemma uuid_str_not_empty: "uuid_str u \<noteq> ''''"
  using uuid_str_head [of u] by auto

lemma send_to_user_known:
  assumes "key \<in> MESSAGES"
  shows "send_to_user (uuid_str u) key appt w =
    (Inr (), fst w, snd w @ (if get_tokens_for_user u (fst w) = [] then [] else push_send (get_tokens_for_user u (fst w)) key appt))"
  using assms by (simp add: send_to_user_def parse_uuid_str get_tokens_for_users_def Let_def)

lemma emit_status_changed: "bus_emit notification_bus ''appointment.status_changed'' p w = snd (on_status_changed p w)"
  by (simp add: bus_emit_def notification_bus_def bus_on_def)

lemma on_status_changed_client:
  assumes "status_value (appt_status a) \<in> CLIENT_STATUSES"
  shows "snd (on_status_changed (status_news a) w) =
    (fst w, snd w @ (if get_tokens_for_user (client_id a) (fst w) = [] then []
       else push_send (get_tokens_for_user (client_id a) (fst w)) (status_value (appt_status a)) (uuid_str (appt_id a))))"
proof -
  have "status_value (appt_status a) \<in> MESSAGES" "status_value (appt_status a) \<noteq> ''cancelled_by_client''"
    using assms by (auto simp: CLIENT_STATUSES_def MESSAGES_def)
  with assms show ?thesis
    by (simp add: on_status_changed_def status_news_def uuid_str_not_empty send_to_user_known split: option.split)
qed

lemma on_status_changed_detailer:
  assumes "appt_status a = CANCELLED_BY_CLIENT"
  shows "snd (on_status_changed (status_news a) w) =
    (fst w, snd w @ (case detailer_id a of None \<Rightarrow> [] | Some u \<Rightarrow>
       (if get_tokens_for_user u (fst w) = [] then [] else push_send (get_tokens_for_user u (fst w)) ''cancelled_by_client'' (uuid_str (appt_id a)))))"
proof -
  have "''cancelled_by_client'' \<notin> CLIENT_STATUSES" "''cancelled_by_client'' \<in> MESSAGES" by (simp_all add: CLIENT_STATUSES_def MESSAGES_def)
  with assms show ?thesis
    by (simp add: on_status_changed_def status_news_def uuid_str_not_empty send_to_user_known split: option.split)
qed

text \<open>
  C40. News of a status reach the right devices. When a status update is accepted, the requests to Expo, of at
  most a hundred messages each, hold together: nothing, if the appointment had the wanted status already; else
  one message for each device, in the order of the table, of the client or, when the client cancelled, of the
  detailer if there is one; each with the new status and the appointment's id. No other device is told.
\<close>

theorem status_news_reach_party:
  assumes "patch_status gw st now rnd aid p actor d g = (Inr t, d', g')"
  shows "\<exists>a sent. appointment_by_id d aid = Some a \<and> announce_update t (ts, []) = (ts, sent) \<and> (\<forall>c \<in> set sent. length c \<le> 100) \<and>
    concat sent =
      (if appt_status a = su_status p then []
       else map (message_of aid (su_status p))
         (if su_status p = CANCELLED_BY_CLIENT then (case detailer_id a of None \<Rightarrow> [] | Some u \<Rightarrow> devices_of u ts)
          else devices_of (client_id a) ts))"
proof -
  from assms have r: "fst (transition_status gw st now rnd aid p actor d g) = Inr (t, d')"
    by (auto simp: patch_status_def run_paid_def split: if_splits sum.splits prod.splits)
  then obtain a b where c: "check_transition d aid p actor = Inr (a, b)" by (auto simp: transition_status_def split: sum.splits)
  from check_transition_Inr [OF c] have a: "appointment_by_id d aid = Some a" "appt_id a = aid" "b \<longleftrightarrow> appt_status a \<noteq> su_status p"
    by (auto simp: appointment_by_id_def find_Some_iff split: if_splits)
  show ?thesis
  proof (cases b)
    case False
    with r c have "to_events t = []" by (auto simp: transition_status_def)
    with a False show ?thesis by (auto simp: announce_update_def)
  next
    case True
    with r c have "fst (apply_transition gw st now rnd a p actor d g) = Inr (t, d')" by (simp add: transition_status_def)
    then have t: "to_appointment t = updated_appointment (stamp now p a) p" "to_events t = [(''appointment.status_changed'', appt_id (stamp now p a))]"
      by (auto simp: apply_transition_def Let_def split: prod.splits sum.splits)
    let ?b = "to_appointment t"
    have s: "appt_status ?b = su_status p" "appt_id ?b = aid" "client_id ?b = client_id a" "detailer_id ?b = detailer_id a"
      using a(2) by (simp_all add: t(1))
    have ann: "announce_update t (ts, []) = snd (on_status_changed (status_news ?b) (ts, []))"
      by (simp add: announce_update_def t(2) emit_status_changed)
    have len: "\<forall>c \<in> set (push_send toks key appt). length c \<le> 100" for toks key appt using push_send_complete(2) by blast
    from check_transition_Inr [OF c] True have "may_transition (appt_status a) (su_status p)" by (auto simp: may_transition_def)
    then consider "su_status p = CANCELLED_BY_CLIENT" | "su_status p \<noteq> CANCELLED_BY_CLIENT" "status_value (su_status p) \<in> CLIENT_STATUSES"
      by (auto simp: may_transition_iff CLIENT_STATUSES_def)
    then show ?thesis
    proof cases
      case 1
      with s have cb: "appt_status ?b = CANCELLED_BY_CLIENT" by simp
      show ?thesis
        using a True 1 len s on_status_changed_detailer [OF cb, of "(ts, [])"]
        by (auto simp: ann devices_of_tokens push_send_messages message_of_def split: option.splits)
    next
      case 2
      show ?thesis
        using a True 2 len s on_status_changed_client [of ?b "(ts, [])"]
        by (auto simp: ann devices_of_tokens push_send_messages message_of_def)
    qed
  qed
qed

section \<open>Devices over time\<close>

datatype device_request =
    Register_Device instant string device_platform user
  | Unregister_Device string user

fun device_handler :: "device_request \<Rightarrow> device_token list \<Rightarrow> device_token list result" where
  "device_handler (Register_Device now tok platform u) ts = register_device_token now tok platform u ts"
| "device_handler (Unregister_Device tok u) ts = unregister_device_token tok u ts"

definition device_step :: "device_request \<Rightarrow> device_token list \<Rightarrow> device_token list" where
  "device_step rq ts = (case device_handler rq ts of Inl _ \<Rightarrow> ts | Inr ts' \<Rightarrow> ts')"

definition devices_ok :: "device_token list \<Rightarrow> bool" where
  "devices_ok ts \<longleftrightarrow> distinct (map dt_token ts) \<and> list_all (\<lambda>t. token_length_ok (dt_token t)) ts"

lemma upsert_tokens:
  "map dt_token (upsert_token now uid tok platform ts) = (if tok \<in> dt_token ` set ts then map dt_token ts else map dt_token ts @ [tok])"
proof -
  have "map dt_token (update_where p (\<lambda>t. t\<lparr>dt_user := uid, dt_used := now\<rparr>) ts) = map dt_token ts" for p
    by (rule map_update_where) simp
  then show ?thesis by (auto simp: upsert_token_def)
qed

lemma devices_step_ok: "devices_ok ts \<Longrightarrow> devices_ok (device_step rq ts)"
proof (cases rq)
  case (Register_Device now tok platform u)
  assume ok: "devices_ok ts"
  have "list_all token_length_ok (map dt_token (upsert_token now uid tok platform ts))" if "token_length_ok tok" for uid
    using ok that by (simp add: upsert_tokens devices_ok_def list_all_iff)
  moreover have "distinct (map dt_token (upsert_token now uid tok platform ts))" for uid
    using ok by (simp add: upsert_tokens devices_ok_def)
  ultimately show ?thesis using ok
    by (auto simp: Register_Device device_step_def register_device_token_def devices_ok_def list_all_iff)
next
  case (Unregister_Device tok u)
  assume "devices_ok ts"
  then show ?thesis
    by (auto simp: Unregister_Device device_step_def unregister_device_token_def delete_by_token_def delete_where_def devices_ok_def
        distinct_map_filter list_all_iff)
qed

interpretation device_table: guarded device_step "\<lambda>_. True" devices_ok
  by unfold_locales (rule devices_step_ok)

text \<open>A device hears for one account only: the one that registered it last.\<close>

lemma registered_device_moves:
  assumes "devices_ok ts" and "token_length_ok tok" and "user_id u \<noteq> v"
  shows "tok \<in> set (devices_of (user_id u) (device_step (Register_Device now tok platform u) ts))"
    and "tok \<notin> set (devices_of v (device_step (Register_Device now tok platform u) ts))"
proof -
  have step: "device_step (Register_Device now tok platform u) ts = upsert_token now (user_id u) tok platform ts"
    using assms(2) by (simp add: device_step_def register_device_token_def)
  have row: "dt_user t = user_id u" if "t \<in> set (upsert_token now (user_id u) tok platform ts)" "dt_token t = tok" for t :: device_token
  proof (cases "\<exists>s \<in> set ts. dt_token s = tok")
    case True
    with that(1) have "t \<in> set (update_where (\<lambda>t. dt_token t = tok) (\<lambda>t. t\<lparr>dt_user := user_id u, dt_used := now\<rparr>) ts)"
      by (simp add: upsert_token_def)
    then obtain q :: device_token where "t = (if dt_token q = tok then q\<lparr>dt_user := user_id u, dt_used := now\<rparr> else q)" unfolding set_update_where by blast
    with that(2) show ?thesis by (cases "dt_token q = tok") simp_all
  next
    case False
    define r :: device_token where "r = \<lparr>dt_user = user_id u, dt_token = tok, dt_platform = platform, dt_used = now\<rparr>"
    from False have "upsert_token now (user_id u) tok platform ts = ts @ [r]" by (simp add: upsert_token_def r_def)
    with that(1) consider "t \<in> set ts" | "t = r" by auto
    then show ?thesis using False that(2) by cases (blast, simp add: r_def)
  qed
  have "\<exists>t :: device_token. t \<in> set (upsert_token now (user_id u) tok platform ts) \<and> dt_token t = tok"
  proof -
    have "tok \<in> set (map dt_token (upsert_token now (user_id u) tok platform ts))" unfolding upsert_tokens by auto
    then show ?thesis by auto
  qed
  then obtain t :: device_token where "t \<in> set (upsert_token now (user_id u) tok platform ts)" "dt_token t = tok" by blast
  moreover from row [OF this] have "dt_user t = user_id u" .
  moreover have "tok \<noteq> ''''" using assms(2) by (auto simp: token_length_ok_def)
  ultimately show "tok \<in> set (devices_of (user_id u) (device_step (Register_Device now tok platform u) ts))"
    unfolding step devices_of_def by force
  from row assms(3) show "tok \<notin> set (devices_of v (device_step (Register_Device now tok platform u) ts))"
    by (auto simp: step devices_of_def)
qed

text \<open>Anyone can silence anyone's device; nobody's account is asked for.\<close>

lemma strangers_unregister:
  assumes "token_length_ok tok"
  shows "tok \<notin> set (devices_of v (device_step (Unregister_Device tok stranger) ts))"
  using assms by (auto simp: device_step_def unregister_device_token_def delete_by_token_def delete_where_def devices_of_def)

section \<open>Witness\<close>

definition demo_devices :: "device_token list" where
  "demo_devices = [\<lparr>dt_user = 1, dt_token = ''ExponentPushToken[a]'', dt_platform = IOS, dt_used = 0\<rparr>,
     \<lparr>dt_user = 7, dt_token = ''ExponentPushToken[b]'', dt_platform = ANDROID, dt_used = 0\<rparr>]"

theorem status_news_reach_party_witness:
  "\<exists>out d' sent. patch_status captured_gateway live_settings 0 1 100 cancel_update demo_client paid_db () = (Inr out, d', ()) \<and>
     announce_update out (demo_devices, []) = (demo_devices, sent) \<and>
     concat sent = [message_of 100 CANCELLED_BY_CLIENT ''ExponentPushToken[b]'']"
proof -
  obtain out d' where p: "patch_status captured_gateway live_settings 0 1 100 cancel_update demo_client paid_db () = (Inr out, d', ())"
    using paid_cancel by blast
  have a: "detailer_id paid_appointment = Some 7" "appt_status paid_appointment \<noteq> CANCELLED_BY_CLIENT"
    by (simp_all add: paid_appointment_def demo_appointment_def)
  have "su_status cancel_update = CANCELLED_BY_CLIENT" "devices_of 7 demo_devices = [''ExponentPushToken[b]'']"
    by (simp_all add: cancel_update_def demo_devices_def devices_of_def)
  with status_news_reach_party [OF p, of demo_devices] p a paid_by_id show ?thesis by auto
qed

end
