(* ===== verification/Public_Site.thy ===== *)
theory Public_Site
  imports Reviews Rides Saved_Items
begin

text \<open>
  The anonymous endpoints of the marketing site (domains/public/router.py) with their service and repository:
  testimonials, questions and coverage, the figures, the contact form with its cap for each address, the
  waiting list. A body is as its schema delivers it: stripped, of the allowed lengths, addresses in lower case.
  A table is in order of creation. Texts that are only passed on and the average rating, a rounded float,
  are left out.
\<close>

section \<open>Tables\<close>

datatype testimonial_role = TM_CLIENT | TM_DETAILER
datatype faq_category = FAQ_RIDER | FAQ_DETAILER | FAQ_MECHANIC | FAQ_PROVIDER
datatype waitlist_role = WL_MECHANIC | WL_DETAILER | WL_PROVIDER

record testimonial =
  tm_id :: uuid
  tm_role :: testimonial_role
  tm_featured :: bool
  tm_sort :: int
  tm_created :: instant
  tm_active :: bool
  tm_deleted :: bool

record faq_item =
  fq_id :: uuid
  fq_category :: faq_category
  fq_sort :: int
  fq_active :: bool
  fq_deleted :: bool

record coverage_zone =
  zn_name :: string
  zn_primary :: bool
  zn_circle :: "int \<times> int \<times> int"
  zn_sort :: int
  zn_active :: bool
  zn_deleted :: bool

record contact_submission =
  ct_id :: uuid
  ct_email :: string
  ct_created :: instant
  ct_deleted :: bool

record waitlist_entry =
  wl_id :: uuid
  wl_email :: string
  wl_role :: waitlist_role
  wl_position :: "nat option"
  wl_deleted :: bool

record public_db =
  reviewed :: review_db
  testimonials :: "testimonial list"
  faq :: "faq_item list"
  zones :: "coverage_zone list"
  zips :: "coverage_zip list"
  contacts :: "contact_submission list"
  waitlist :: "waitlist_entry list"

section \<open>What is shown\<close>

definition list_testimonials :: "testimonial_role option \<Rightarrow> bool \<Rightarrow> nat \<Rightarrow> public_db \<Rightarrow> testimonial list" where
  "list_testimonials role featured limit d =
     take limit (sort_key tm_sort (sort_key tm_created
       (filter (\<lambda>t. \<not> tm_deleted t \<and> tm_active t \<and> (case role of None \<Rightarrow> True | Some r \<Rightarrow> tm_role t = r) \<and> (featured \<longrightarrow> tm_featured t))
          (testimonials d))))"

text \<open>The limit is 10 unless given, and between 1 and 50; \<open>featured\<close> false is no filter.\<close>

definition get_testimonials :: "testimonial_role option \<Rightarrow> bool \<Rightarrow> int option \<Rightarrow> public_db \<Rightarrow> testimonial list result" where
  "get_testimonials role featured limit d =
     (let n = (case limit of None \<Rightarrow> 10 | Some n \<Rightarrow> n)
      in if n < 1 \<or> 50 < n then Inl (HTTPException 422 ''limit'') else Inr (list_testimonials role featured (nat n) d))"

fun category_rank :: "faq_category \<Rightarrow> nat" where
  "category_rank FAQ_RIDER = 0"
| "category_rank FAQ_DETAILER = 1"
| "category_rank FAQ_MECHANIC = 2"
| "category_rank FAQ_PROVIDER = 3"

definition list_faq :: "faq_category option \<Rightarrow> public_db \<Rightarrow> faq_item list" where
  "list_faq category d =
     sort_key (category_rank \<circ> fq_category) (sort_key fq_sort
       (filter (\<lambda>q. \<not> fq_deleted q \<and> fq_active q \<and> (case category of None \<Rightarrow> True | Some c \<Rightarrow> fq_category q = c)) (faq d)))"

definition list_coverage_zones :: "public_db \<Rightarrow> coverage_zone list" where
  "list_coverage_zones d = sort_key zn_sort (filter (\<lambda>z. \<not> zn_deleted z \<and> zn_active z) (zones d))"

definition get_coverage_zip :: "string \<Rightarrow> public_db \<Rightarrow> coverage_zip option" where
  "get_coverage_zip z d = find (\<lambda>r. cz_zip r = z \<and> \<not> cz_deleted r \<and> cz_active r) (zips d)"

definition int_str :: "int \<Rightarrow> string" where
  "int_str k = (if k < 0 then ''-'' @ nat_str (nat (- k)) else nat_str (nat k))"

text \<open>\<open>CoverageCheckRequest\<close> wants five digits. The answer: covered, the label of the time, the zone.\<close>

definition check_coverage :: "string \<Rightarrow> public_db \<Rightarrow> (bool \<times> string option \<times> string option) result" where
  "check_coverage z d =
     (if length z \<noteq> 5 \<or> \<not> list_all py_isdigit z then Inl (HTTPException 422 ''zip'')
      else case get_coverage_zip z d of
        None \<Rightarrow> Inr (False, None, None)
      | Some r \<Rightarrow> Inr (True, map_option (\<lambda>n. ''~'' @ int_str n @ '' min'') (cz_eta r), Some (cz_zone r)))"

section \<open>The figures\<close>

fun group_digits :: "string \<Rightarrow> string" where
  "group_digits (a # b # c # d # s) = a # b # c # CHR '','' # group_digits (d # s)"
| "group_digits s = s"

definition with_commas :: "nat \<Rightarrow> string" where
  "with_commas n = rev (group_digits (rev (nat_str n)))"

definition format_round_with_plus :: "nat \<Rightarrow> string" where
  "format_round_with_plus v = (if v < 100 then nat_str v else with_commas (v div 100 * 100) @ ''+'')"

record stats_response =
  st_deliveries :: nat
  st_deliveries_label :: string
  st_avg_eta :: nat
  st_avg_eta_label :: string
  st_detailers :: nat
  st_detailers_label :: string
  st_median :: nat
  st_median_label :: string
  st_reviews :: nat
  st_reviews_label :: string

definition fetch_stats_snapshot :: "public_db \<Rightarrow> nat \<times> nat \<times> nat" where
  "fetch_stats_snapshot d =
     (rowcount (\<lambda>a. appt_status a = COMPLETED \<and> \<not> appt_deleted a) (appointments (shop (reviewed d))),
      rowcount (\<lambda>p. prof_active p \<and> \<not> prof_deleted p) (profiles (shop (reviewed d))),
      rowcount (\<lambda>r. \<not> rv_deleted r) (reviews (reviewed d)))"

definition get_stats :: "public_db \<Rightarrow> stats_response" where
  "get_stats d =
     (case fetch_stats_snapshot d of (deliveries, detailers, rated) \<Rightarrow>
        \<lparr>st_deliveries = deliveries, st_deliveries_label = format_round_with_plus deliveries,
         st_avg_eta = 22, st_avg_eta_label = nat_str 22 @ '' min'',
         st_detailers = detailers, st_detailers_label = nat_str detailers,
         st_median = 42, st_median_label = ''$'' @ nat_str 42 @ ''/hr'',
         st_reviews = rated, st_reviews_label = format_round_with_plus rated\<rparr>)"

section \<open>Contact form\<close>

definition CONTACT_MAX_PER_EMAIL_PER_DAY :: nat where "CONTACT_MAX_PER_EMAIL_PER_DAY = 20"
definition CONTACT_WINDOW_HOURS :: int where "CONTACT_WINDOW_HOURS = 24"

definition count_contact_submissions :: "instant \<Rightarrow> string \<Rightarrow> int \<Rightarrow> public_db \<Rightarrow> nat" where
  "count_contact_submissions now mail n d = rowcount (\<lambda>c. ct_email c = mail \<and> now - hours n \<le> ct_created c) (contacts d)"

definition create_contact_submission :: "uuid \<Rightarrow> instant \<Rightarrow> string \<Rightarrow> public_db \<Rightarrow> public_db result" where
  "create_contact_submission cid now mail d =
     (if cid \<in> ct_id ` set (contacts d) then Inl (IntegrityError ''contact_submissions_pkey'')
      else Inr (d\<lparr>contacts := contacts d @ [\<lparr>ct_id = cid, ct_email = mail, ct_created = now, ct_deleted = False\<rparr>]\<rparr>))"

definition submit_contact :: "uuid \<Rightarrow> instant \<Rightarrow> string \<Rightarrow> public_db \<Rightarrow> (uuid \<times> public_db) result" where
  "submit_contact cid now mail d =
     (if CONTACT_MAX_PER_EMAIL_PER_DAY \<le> count_contact_submissions now mail CONTACT_WINDOW_HOURS d
      then Inl (HTTPException 429 ''rate_limit_exceeded'')
      else map_sum id (\<lambda>d. (cid, d)) (create_contact_submission cid now mail d))"

section \<open>Waiting list\<close>

definition WAITLIST_AVG_SIGNUPS_PER_WEEK :: nat where "WAITLIST_AVG_SIGNUPS_PER_WEEK = 80"

definition count_waitlist_entries :: "waitlist_role option \<Rightarrow> public_db \<Rightarrow> nat" where
  "count_waitlist_entries role d =
     rowcount (\<lambda>w. \<not> wl_deleted w \<and> (case role of None \<Rightarrow> True | Some r \<Rightarrow> wl_role w = r)) (waitlist d)"

definition get_waitlist_entry_by_email :: "string \<Rightarrow> public_db \<Rightarrow> waitlist_entry option" where
  "get_waitlist_entry_by_email mail d = find (\<lambda>w. wl_email w = mail \<and> \<not> wl_deleted w) (waitlist d)"

definition create_waitlist_entry :: "uuid \<Rightarrow> string \<Rightarrow> waitlist_role \<Rightarrow> nat option \<Rightarrow> public_db \<Rightarrow> public_db result" where
  "create_waitlist_entry wid mail role pos d =
     (if \<exists>w \<in> set (waitlist d). wl_id w = wid \<or> wl_email w = mail then Inl (IntegrityError ''uq_waitlist_entries_email'')
      else Inr (d\<lparr>waitlist := waitlist d @
             [\<lparr>wl_id = wid, wl_email = mail, wl_role = role, wl_position = pos, wl_deleted = False\<rparr>]\<rparr>))"

definition join_waitlist :: "uuid \<Rightarrow> string \<Rightarrow> waitlist_role \<Rightarrow> public_db \<Rightarrow> ((uuid \<times> nat) \<times> public_db) result" where
  "join_waitlist wid mail role d =
     (if get_waitlist_entry_by_email mail d \<noteq> None then Inl (HTTPException 409 ''email_already_on_waitlist'')
      else (let pos = count_waitlist_entries None d + 1 in
            case create_waitlist_entry wid mail role (Some pos) d of
              Inl _ \<Rightarrow> Inl (HTTPException 409 ''email_already_on_waitlist'')
            | Inr d1 \<Rightarrow> Inr ((wid, pos), d1)))"

definition get_waitlist_count :: "public_db \<Rightarrow> nat \<times> string" where
  "get_waitlist_count d =
     (let n = count_waitlist_entries None d;
          weeks = max 1 ((n + WAITLIST_AVG_SIGNUPS_PER_WEEK - 1) div WAITLIST_AVG_SIGNUPS_PER_WEEK)
      in (n, nat_str weeks @ '' weeks''))"

section \<open>Runs\<close>

datatype public_request =
    Contact uuid instant string
  | Join uuid string waitlist_role

fun public_handler :: "public_request \<Rightarrow> public_db \<Rightarrow> (uuid \<times> public_db) result" where
  "public_handler (Contact cid now mail) d = submit_contact cid now mail d"
| "public_handler (Join wid mail role) d = map_sum id (\<lambda>((w, _), d). (w, d)) (join_waitlist wid mail role d)"

definition public_step :: "public_request \<Rightarrow> public_db \<Rightarrow> public_db" where
  "public_step rq d = snd (run_request (public_handler rq) d)"

definition sent_within :: "string \<Rightarrow> instant \<Rightarrow> contact_submission \<Rightarrow> bool" where
  "sent_within mail t c \<longleftrightarrow> ct_email c = mail \<and> t - hours CONTACT_WINDOW_HOURS \<le> ct_created c \<and> ct_created c \<le> t"

lemma submit_contact_InrD:
  assumes "submit_contact cid now mail d = Inr (x, d')"
  shows "count_contact_submissions now mail CONTACT_WINDOW_HOURS d < CONTACT_MAX_PER_EMAIL_PER_DAY"
    and "contacts d' = contacts d @ [\<lparr>ct_id = cid, ct_email = mail, ct_created = now, ct_deleted = False\<rparr>]" and "waitlist d' = waitlist d"
  using assms by (auto simp: submit_contact_def create_contact_submission_def split: if_splits)

lemma join_waitlist_InrD:
  assumes "join_waitlist wid mail role d = Inr (x, d')"
  shows "waitlist d' = waitlist d @ [\<lparr>wl_id = wid, wl_email = mail, wl_role = role,
      wl_position = Some (count_waitlist_entries None d + 1), wl_deleted = False\<rparr>]"
    and "\<forall>w \<in> set (waitlist d). wl_email w \<noteq> mail" and "contacts d' = contacts d" and "snd x = count_waitlist_entries None d + 1"
  using assms by (auto simp: join_waitlist_def create_waitlist_entry_def Let_def split: if_splits)

lemma public_step_cases:
  obtains (same) "public_step rq d = d"
  | (contact) cid now mail x where "rq = Contact cid now mail" "submit_contact cid now mail d = Inr (x, public_step rq d)"
  | (join) wid mail role x where "rq = Join wid mail role" "join_waitlist wid mail role d = Inr (x, public_step rq d)"
proof (cases rq)
  case (Contact cid now mail)
  then show thesis using same contact by (cases "submit_contact cid now mail d") (auto simp: public_step_def run_request_def)
next
  case (Join wid mail role)
  then show thesis using same join by (cases "join_waitlist wid mail role d") (auto simp: public_step_def run_request_def)
qed

definition within_cap :: "public_db \<Rightarrow> bool" where
  "within_cap d \<longleftrightarrow> (\<forall>mail t. rowcount (sent_within mail t) (contacts d) \<le> CONTACT_MAX_PER_EMAIL_PER_DAY)"

lemma rowcount_mono: "(\<And>r. p r \<Longrightarrow> q r) \<Longrightarrow> rowcount p rs \<le> rowcount q rs"
  by (induction rs) (auto simp: rowcount_def)

lemma within_cap_step: "within_cap d \<Longrightarrow> within_cap (public_step rq d)"
proof (cases rule: public_step_cases [of rq d])
  case (contact cid now mail x)
  assume ok: "within_cap d"
  note s = submit_contact_InrD [OF contact(2)]
  show ?thesis unfolding within_cap_def
  proof (intro allI)
    fix m t
    show "rowcount (sent_within m t) (contacts (public_step rq d)) \<le> CONTACT_MAX_PER_EMAIL_PER_DAY"
    proof (cases "m = mail \<and> now \<le> t")
      case True
      then have "rowcount (sent_within m t) (contacts d) \<le> count_contact_submissions now mail CONTACT_WINDOW_HOURS d"
        unfolding count_contact_submissions_def by (intro rowcount_mono) (auto simp: sent_within_def)
      with s(1) show ?thesis unfolding s(2) by (simp add: rowcount_def)
    next
      case False
      then have "\<not> sent_within m t \<lparr>ct_id = cid, ct_email = mail, ct_created = now, ct_deleted = False\<rparr>" by (auto simp: sent_within_def)
      with ok show ?thesis unfolding s(2) within_cap_def by (simp add: rowcount_def)
    qed
  qed
next
  case (join wid mail role x)
  assume "within_cap d"
  then show ?thesis by (simp add: within_cap_def join_waitlist_InrD(3) [OF join(2)])
qed simp

interpretation contact_desk: guarded public_step "\<lambda>_. True" within_cap
  by unfold_locales (rule within_cap_step)

text \<open>
  Whatever is sent, no address ever has more than twenty messages within twenty-four hours: counted in any
  window, not only in the ones that end with a request.
\<close>

lemma contact_form_capped:
  assumes "contacts d = []"
  shows "rowcount (sent_within mail t) (contacts (fold public_step rqs d)) \<le> 20"
proof -
  have "within_cap d" using assms by (simp add: within_cap_def rowcount_def)
  then have "within_cap (fold public_step rqs d)" by (intro contact_desk.run_inv) simp_all
  then show ?thesis by (simp add: within_cap_def CONTACT_MAX_PER_EMAIL_PER_DAY_def)
qed

text \<open>Two requests that count before either inserts are both accepted.\<close>

lemma concurrent_contacts_exceed_cap:
  assumes "count_contact_submissions now mail CONTACT_WINDOW_HOURS d = 19" and "cid \<notin> ct_id ` set (contacts d)"
    and "cid' \<notin> ct_id ` set (contacts d)" and "cid \<noteq> cid'"
  shows "\<exists>d1 d2. submit_contact cid now mail d = Inr (cid, d1) \<and> create_contact_submission cid' now mail d1 = Inr d2
    \<and> count_contact_submissions now mail CONTACT_WINDOW_HOURS d2 = 21"
proof -
  have "0 \<le> hours CONTACT_WINDOW_HOURS" by (simp add: hours_def CONTACT_WINDOW_HOURS_def)
  with assms show ?thesis
    by (auto simp: submit_contact_def create_contact_submission_def count_contact_submissions_def CONTACT_MAX_PER_EMAIL_PER_DAY_def rowcount_def)
qed

section \<open>Positions\<close>

definition numbered :: "public_db \<Rightarrow> bool" where
  "numbered d \<longleftrightarrow> map wl_position (waitlist d) = map Some [1..<length (waitlist d) + 1]
     \<and> distinct (map wl_email (waitlist d)) \<and> (\<forall>w \<in> set (waitlist d). \<not> wl_deleted w)"

lemma numbered_step: "numbered d \<Longrightarrow> numbered (public_step rq d)"
proof (cases rule: public_step_cases [of rq d])
  case (contact cid now mail x)
  assume "numbered d"
  then show ?thesis by (simp add: numbered_def submit_contact_InrD(3) [OF contact(2)])
next
  case (join wid mail role x)
  assume n: "numbered d"
  then have "count_waitlist_entries None d = length (waitlist d)"
    by (simp add: numbered_def count_waitlist_entries_def rowcount_def)
  with n join_waitlist_InrD(1,2) [OF join(2)] show ?thesis by (auto simp: numbered_def)
qed simp

interpretation waiting_list: guarded public_step "\<lambda>_. True" numbered
  by unfold_locales (rule numbered_step)

text \<open>The waiting list is numbered from one in the order of joining, and nobody is on it twice.\<close>

lemma waitlist_in_order:
  assumes "waitlist d = []"
  shows "map wl_position (waitlist (fold public_step rqs d)) = map Some [1..<length (waitlist (fold public_step rqs d)) + 1]
    \<and> distinct (map wl_email (waitlist (fold public_step rqs d)))"
proof -
  have "numbered d" using assms by (simp add: numbered_def)
  then have "numbered (fold public_step rqs d)" by (intro waiting_list.run_inv) simp_all
  then show ?thesis by (simp add: numbered_def)
qed

text \<open>Once an entry is pruned the next position repeats one that is taken, and its address stays refused.\<close>

lemma pruned_entry_repeats_position:
  assumes "waitlist d = [a\<lparr>wl_deleted := True\<rparr>, b]" and "wl_position b = Some 2" and "\<not> wl_deleted b"
    and "wid \<notin> wl_id ` set (waitlist d)" and "mail \<notin> wl_email ` set (waitlist d)"
  shows "\<exists>d'. join_waitlist wid mail role d = Inr ((wid, 2), d')"
  using assms by (auto simp: join_waitlist_def get_waitlist_entry_by_email_def create_waitlist_entry_def count_waitlist_entries_def rowcount_def Let_def)

lemma pruned_address_is_refused:
  assumes "w \<in> set (waitlist d)" and "wl_email w = mail" and "get_waitlist_entry_by_email mail d = None"
  shows "join_waitlist wid mail role d = Inl (HTTPException 409 ''email_already_on_waitlist'')"
  using assms by (auto simp: join_waitlist_def create_waitlist_entry_def Let_def)

text \<open>The waiting time is the rounded up quotient, and at least a week.\<close>

lemma waiting_weeks:
  assumes "count_waitlist_entries None d = 80 * k + r" and "0 < r" and "r \<le> 80"
  shows "get_waitlist_count d = (80 * k + r, nat_str (k + 1) @ '' weeks'')"
proof -
  have "(80 * k + r + 80 - 1) div 80 = k + 1" using assms(2,3) by (intro div_nat_eqI) auto
  then show ?thesis by (simp add: get_waitlist_count_def assms(1) WAITLIST_AVG_SIGNUPS_PER_WEEK_def Let_def)
qed

text \<open>The labels hide the exact figures; the answer holds them next to the labels.\<close>

lemma exact_volume_published:
  "format_round_with_plus 2417 = ''2,400+'' \<and> st_deliveries (get_stats d) = fst (fetch_stats_snapshot d)"
proof -
  have "nat_str 2400 = ''2400''" by (simp add: nat_str.simps) code_simp
  then show ?thesis by (simp add: format_round_with_plus_def with_commas_def get_stats_def split: prod.split)
qed

end
