(* ===== verification/Spec2Isabelle.thy ===== *)
theory Spec2Isabelle
  imports Booking_Lock Matching Account_Security Webhooks Provider_Files Reviews Access Admin Garage Tracking Hub Social_Login Passkeys Notifications Public_Site
begin

text \<open>
  Verification development of the RayCarWash backend (src/backend): a FastAPI marketplace where
  clients book detailers and mechanics. All paths below are under src/backend.

  The program. A request enters a router (domains/*/router.py), runs a service or repository over one
  database session, and ends in the commit or rollback of \<open>get_db\<close> (infrastructure/db/session.py).
  PostgreSQL holds the tables; Redis holds sessions, counters and caches; Stripe, object storage, mail,
  SMS, geocoding and H3 are outside services. Workers run over the same tables.

  How it is modelled.
  \<^item> A table is a list of records in order of creation, a row a \<open>record\<close> with the columns the code reads
    or writes, a database a record of tables. A constraint (unique index, foreign key, CHECK) is a
    branch that ends in \<open>IntegrityError\<close>.
  \<^item> A handler is a function from the clock, its request and the state to \<open>exn + value\<close> and the new state;
    every \<open>raise\<close> and early return is a branch. \<open>get_db\<close> (RCW_Prelude) keeps the state only of a handler
    that ended well, so an error undoes what was written, except what a service committed itself.
  \<^item> Time is an integer of microseconds, a UUID a \<open>128 word\<close>, money a \<open>nat\<close> or \<open>int\<close> of cents, a Python
    float of the pricing code a rational rounded to 53 bits (Binary64).
  \<^item> Code outside src/ is an argument: hashing (\<open>sha\<close>, \<open>hash\<close>, \<open>lookup\<close>), PyJWT (\<open>encode\<close>, \<open>decode\<close>),
    TOTP (\<open>totp\<close>), Stripe (\<open>gw\<close>, \<open>fetch\<close>, \<open>verified\<close>), geocoder and H3 (\<open>geo\<close>, \<open>cell\<close>; in Tracking
    \<open>cell_s\<close>, \<open>cell_t\<close>, \<open>cell_7\<close>, \<open>disk\<close>), Google's and Apple's endpoints (\<open>social_ctx\<close>), py_webauthn
    (\<open>webauthn\<close>), the name of the storage bucket (\<open>bucket_name\<close>), the order in which PostgreSQL scans a
    table (\<open>scan\<close>). What a theorem needs of one (that tokens hash
    differently, that decoding undoes encoding, that a scan visits every row) is a premise of it, met
    in its witness.

  The theories, in the order of the calls.
  \<^item> RCW_Prelude: identifiers, clock, exceptions, session, SQL statements (select, update, insert,
    rowcount), Python strings; the locale \<open>guarded\<close>.
  \<^item> Binary64, Settings, Vehicle_Size, Appointment_FSM, Schema: floats, app/core/config.py, the vehicle
    tiers (domains/vehicles/models.py, infrastructure/nhtsa/client.py), the statuses and the transition
    table (domains/appointments/models.py), the tables and lookups of the marketplace.
  \<^item> Appointment_Repo, Availability, Booking, Booking_Lock: domains/appointments/repository.py and
    service.py: overlap queries, prices, slots, \<open>create_appointment\<close>, and bookings that run at the same
    time under the advisory lock (\<open>tx_step\<close>).
  \<^item> Payments, Lifecycle, Webhooks, Ledger: payment intents, captures and refunds (domains/payments/
    service.py); \<open>transition_status\<close>, cancellation and reading; the Stripe webhook; the sealed
    double-entry ledger (service_v2.py, repository.py, ledger_seal_worker.py).
  \<^item> Rides, Matching: surge, fare tokens and instant rides (fare_service.py, rides_router.py); discovery,
    the search endpoint and the assignment of a ride to a detailer (domains/matching, \<open>assign_step\<close>).
  \<^item> Saved_Items: addresses and payment methods with one default per owner (domains/users).
  \<^item> Auth_Store, Recovery, Sessions, Login, Account_Security: token tables; password reset and e-mail
    verification; access tokens, rotation, revocation; registration, lockout and step-up; changes of
    e-mail and telephone, the second factor, the active role (domains/auth, domains/users).
  \<^item> Social_Login, Passkeys: Google and Apple (domains/auth/routers/social.py, auth_provider_repository.py);
    the two ceremonies of passkeys with the challenges in Redis (routers/webauthn.py, webauthn_service.py,
    webauthn_repository.py).
  \<^item> Providers, Provider_Files, Reviews: becoming a provider, with the identity check, Stripe's answers and the
    administrator's reviews (domains/users/provider_profile_service.py, domains/providers, domains/admin);
    documents, portfolio, reminders and badges; reviews, averages and promotional codes.
  \<^item> Access, Admin: roles and permissions with the Redis copy, and the roles a user takes by becoming a provider
    or registering; the back office (domains/admin).
  \<^item> Garage, Hub: vehicles with photos, favourites, preferences and the anonymous estimate (domains/vehicles,
    domains/users); GET and PATCH of users/me with the include parameter and the step-up
    (domains/users/hub_service.py, include_spec.py, router.py).
  \<^item> Tracking, Notifications: positions, the H3 index, the search of nearby detailers and the WebSocket rooms
    (workers/location_worker.py, infrastructure/h3/client.py, domains/realtime); devices, the event bus and the
    pushes (domains/notifications, events/bus.py).
  \<^item> Public_Site: the anonymous endpoints of the marketing site (domains/public).
\<close>

text \<open>
  What the lemmas show. Each theory proves, before its properties, what its operations do to each table
  (frame lemmas), what they keep of the table's well-formedness, and how they fail.

  Interfaces. A contract that several operations share is a locale:
  \<^item> \<open>guarded\<close> (RCW_Prelude): a set of operations that keep an invariant under a condition on the request;
    runs of any length keep it. Its interpretations are the invariants of the components: \<open>address_book\<close>,
    \<open>card_book\<close> (Saved_Items), \<open>reset_links\<close> (Recovery), \<open>spent_tokens\<close>, \<open>revoked_session\<close> (Sessions),
    \<open>spent_codes\<close> (Account_Security), \<open>events\<close> (Webhooks), \<open>file_rows\<close>
    (Provider_Files), \<open>genuine_reviews\<close>, \<open>running_averages\<close> (Reviews), \<open>rbac_tables\<close>, \<open>system_roles\<close>,
    \<open>before_change\<close>, \<open>after_change\<close> (Access), \<open>back_office\<close> (Admin), \<open>garage_tables\<close> (Garage), \<open>room_gate\<close>
    (Tracking), \<open>linked_identity\<close> (Social_Login), \<open>spent_challenge\<close>, \<open>credential_table\<close> (Passkeys),
    \<open>device_table\<close> (Notifications), \<open>contact_desk\<close>, \<open>waiting_list\<close> (Public_Site).
  \<^item> \<open>calendar\<close> (Appointment_Repo): an overlap count that is zero exactly for free time; interpreted by
    \<open>appt_cal\<close> on the code's query, used by slots and bookings.
  \<^item> \<open>single_use\<close> (Recovery): a token store whose tokens are consumed once; interpreted by \<open>reset_store\<close> and
    \<open>verify_store\<close>, and a \<open>sublocale\<close> of \<open>guarded\<close>.

  Specifications that are refined: the transition table (Lifecycle), the machine of an application
  (\<open>app_edge\<close>, Providers), a booking without its bookkeeping (Booking), the exact price in rationals
  (Booking), the effects of a webhook's handlers alone (\<open>dispatched\<close>, Webhooks), a booking alone as a run of its
  transaction's steps (\<open>booked_in_steps\<close>, Booking_Lock).

  Bounds. No fuel is used: every loop of the modelled code is structural recursion or a fold over a
  finite list (a table, a list of slots, a number of attempts), so that all functions are total. Workers
  are modelled for one pass. Theorems about sequences of requests hold for any length.

  Limits of the model. Cents and minutes are unbounded although their columns are 32-bit integers, and
  instants are unbounded although \<open>datetime\<close> ends with the year 9999. A row without \<open>travel_buffer_end_time\<close>, as
  an instant ride has, is in no overlap count, as in the code. Redis answers every call where it is in use.
  Titles and texts that are only passed on are left out.

  Not modelled. Profile pictures and the security centre (domains/users/avatar_service.py,
  domains/auth/security_router.py); the adapters of storage, mail, SMS, geocoding and Stripe, whose answers are
  parameters (infrastructure); idempotency keys and cursors, which no route uses (app/core); wiring, limits,
  logging and health; seeds and migrations; the applications and the site under the other directories of
  src/. The assumption behind every handler is that it runs as one transaction; only Booking_Lock, the
  assignment of a ride (Matching) and the rotation of refresh tokens (Sessions) model interleavings of
  several.
\<close>

end
